(* ===== verification/Prelude.thy ===== *)
theory Prelude
  imports Main "HOL-Library.AList" "HOL-Library.Sublist" "HOL-Library.List_Lexorder"
    "HOL-Library.Char_ord" "HOL-Library.Multiset"
begin

text \<open>
  Shared ground of the development.  It holds the Python values that cross component
  boundaries, the computations with state and exceptions in which every asynchronous method of
  the program is written, and the string operations of the standard library the program uses
  (\<open>str.split\<close>, \<open>str.join\<close>, \<open>str.lower\<close>).  The collection \<open>io_simps\<close> evaluates a computation
  on a state, so that \<open>simp add: io_simps\<close> steps through a method body.
\<close>

named_theorems io_simps \<open>evaluation of computations on a state\<close>
named_theorems cache_defs \<open>definitions of the cache operations\<close>

section \<open>Values\<close>

text \<open>
  The values a Python dictionary of this program can hold once it reaches JSON: the content of
  an error, the claims of a token, the history of a rate limit, a dumped model.  A date is a
  number of microseconds since the epoch; an identifier is given by its text.
\<close>

datatype uuid = UUID (uuid_str: string)

datatype pyval =
    PNone
  | PBool bool
  | PInt int
  | PStr string
  | PDate int
  | PUuid uuid
  | PList "pyval list"
  | PDict "(string \<times> pyval) list"

text \<open>A dictionary keeps its insertion order; assigning to a key it has keeps the position.\<close>

type_synonym pydict = "(string \<times> pyval) list"

abbreviation dict_get :: "pydict \<Rightarrow> string \<Rightarrow> pyval option" where
  "dict_get d k \<equiv> map_of d k"

abbreviation dict_set :: "string \<Rightarrow> pyval \<Rightarrow> pydict \<Rightarrow> pydict" where
  "dict_set k v d \<equiv> AList.update k v d"

text \<open>\<open>d | e\<close>: the entries of \<open>e\<close> are assigned in order.\<close>

fun dict_merge :: "pydict \<Rightarrow> pydict \<Rightarrow> pydict" where
  "dict_merge d [] = d"
| "dict_merge d ((k, v) # e) = dict_merge (dict_set k v d) e"

lemma dict_get_merge_other:
  "k \<notin> fst ` set e \<Longrightarrow> dict_get (dict_merge d e) k = dict_get d k"
  by (induction d e rule: dict_merge.induct) (auto simp: update_conv')

lemma dict_get_merge:
  "distinct (map fst e) \<Longrightarrow>
    dict_get (dict_merge d e) k = (case dict_get e k of None \<Rightarrow> dict_get d k | Some v \<Rightarrow> Some v)"
proof (induction d e rule: dict_merge.induct)
  case (2 d k' v e)
  have "k = k' \<Longrightarrow> dict_get e k = None"
    using 2(2) by (auto simp: map_of_eq_None_iff)
  with 2 show ?case
    by (auto simp: update_conv' dict_get_merge_other split: option.splits)
qed simp

text \<open>Truth of an optional string, as in \<open>if x:\<close>: \<open>None\<close> and the empty string are false.\<close>

definition truthy_str :: "string option \<Rightarrow> bool" where
  "truthy_str x \<longleftrightarrow> x \<noteq> None \<and> x \<noteq> Some []"

lemma truthy_str_simps [simp]:
  "\<not> truthy_str None"
  "truthy_str (Some s) \<longleftrightarrow> s \<noteq> []"
  by (auto simp: truthy_str_def)

text \<open>Sorting depends on the elements only, and so does a dictionary with distinct keys.\<close>

lemma sort_eq_of_mset: "mset xs = mset ys \<Longrightarrow> sort xs = sort (ys :: 'a :: linorder list)"
  by (rule properties_for_sort) simp_all

lemma map_of_eq_of_mset:
  assumes "distinct (map fst d)" and "mset d = mset e"
  shows "map_of d = map_of e"
proof -
  have "mset (map fst d) = mset (map fst e)"
    using assms(2) by simp
  then have "distinct (map fst e)"
    using assms(1) mset_eq_imp_distinct_iff by blast
  with assms(1) mset_eq_setD [OF assms(2)] show ?thesis
    using map_of_inject_set by blast
qed

section \<open>Computations with state and exceptions\<close>

text \<open>
  A method that reads and writes a state of type \<open>'s\<close> and returns an \<open>'a\<close> or raises an \<open>'e\<close>.
  The state is returned with the exception: what a method did before it raised stays done.
\<close>

type_synonym ('e, 's, 'a) comp = "'s \<Rightarrow> ('e + 'a) \<times> 's"

definition io_return :: "'a \<Rightarrow> ('e, 's, 'a) comp" where
  "io_return x s = (Inr x, s)"

definition io_raise :: "'e \<Rightarrow> ('e, 's, 'a) comp" where
  "io_raise e s = (Inl e, s)"

definition io_bind :: "('e, 's, 'a) comp \<Rightarrow> ('a \<Rightarrow> ('e, 's, 'b) comp) \<Rightarrow> ('e, 's, 'b) comp" where
  "io_bind m f s =
     (case fst (m s) of Inl e \<Rightarrow> (Inl e, snd (m s)) | Inr x \<Rightarrow> f x (snd (m s)))"

text \<open>\<open>try: m except: h\<close>: the handler gets the exception and the state at the raise.\<close>

definition io_try :: "('e, 's, 'a) comp \<Rightarrow> ('e \<Rightarrow> ('e, 's, 'a) comp) \<Rightarrow> ('e, 's, 'a) comp" where
  "io_try m h s =
     (case fst (m s) of Inl e \<Rightarrow> h e (snd (m s)) | Inr x \<Rightarrow> (Inr x, snd (m s)))"

text \<open>A pure result that may be an exception, as a computation.\<close>

definition io_lift :: "'e + 'a \<Rightarrow> ('e, 's, 'a) comp" where
  "io_lift r s = (r, s)"

lemma io_apply [io_simps]:
  "io_return x s = (Inr x, s)"
  "io_raise e s = (Inl e, s)"
  "io_lift r s = (r, s)"
  by (simp_all add: io_return_def io_raise_def io_lift_def)

declare io_bind_def [io_simps] io_try_def [io_simps]

lemma io_bind_ok: "fst (m s) = Inr x \<Longrightarrow> io_bind m f s = f x (snd (m s))"
  by (simp add: io_bind_def)

lemma io_bind_err: "fst (m s) = Inl e \<Longrightarrow> io_bind m f s = (Inl e, snd (m s))"
  by (simp add: io_bind_def)

text \<open>
  A computation on a part of the state, and \<open>async with\<close>: the exit gets the exception the body
  raised, if any; since it returns nothing the exception goes on, unless the exit raises its own.
\<close>

definition io_focus ::
  "('s \<Rightarrow> 't) \<Rightarrow> ('t \<Rightarrow> 's \<Rightarrow> 's) \<Rightarrow> ('e, 't, 'a) comp \<Rightarrow> ('e, 's, 'a) comp" where
  "io_focus get_part put_part m s = (fst (m (get_part s)), put_part (snd (m (get_part s))) s)"

definition async_with ::
  "('e, 's, unit) comp \<Rightarrow> ('e option \<Rightarrow> ('e, 's, unit) comp) \<Rightarrow> ('e, 's, 'a) comp \<Rightarrow>
    ('e, 's, 'a) comp" where
  "async_with enter exit body =
     io_bind enter (\<lambda>_ s. case fst (body s) of
         Inr x \<Rightarrow> io_bind (exit None) (\<lambda>_. io_return x) (snd (body s))
       | Inl e \<Rightarrow> io_bind (exit (Some e)) (\<lambda>_. io_raise e) (snd (body s)))"

text \<open>A loop over a list, in order; the first exception ends it.\<close>

fun io_map :: "('a \<Rightarrow> ('e, 's, 'b) comp) \<Rightarrow> 'a list \<Rightarrow> ('e, 's, 'b list) comp" where
  "io_map f [] = io_return []"
| "io_map f (x # xs) = io_bind (f x) (\<lambda>y. io_bind (io_map f xs) (\<lambda>ys. io_return (y # ys)))"

declare io_focus_def [io_simps] async_with_def [io_simps]

lemma io_bind_return: "io_bind m io_return = m"
  by (rule ext) (auto simp: io_simps split: sum.splits intro: prod_eqI)

lemma io_bind_assoc: "io_bind (io_bind m f) g = io_bind m (\<lambda>x. io_bind (f x) g)"
  by (rule ext) (auto simp: io_bind_def split: sum.splits)

section \<open>Strings\<close>

text \<open>
  \<open>s.split(sep)\<close> for a non-empty separator: the pieces between the non-overlapping occurrences,
  found from the left.  \<open>sep.join(xs)\<close> puts the separator between the pieces.
\<close>

fun py_split :: "string \<Rightarrow> string \<Rightarrow> string list" where
  "py_split sep [] = [[]]"
| "py_split sep (c # cs) =
     (if prefix sep (c # cs) then [] # py_split sep (drop (length sep - 1) cs)
      else (case py_split sep cs of [] \<Rightarrow> [[c]] | w # ws \<Rightarrow> (c # w) # ws))"

fun py_join :: "string \<Rightarrow> string list \<Rightarrow> string" where
  "py_join sep [] = []"
| "py_join sep [x] = x"
| "py_join sep (x # y # xs) = x @ sep @ py_join sep (y # xs)"

lemma py_split_nonempty [simp]: "py_split sep s \<noteq> []"
  by (induction sep s rule: py_split.induct) (auto split: list.splits)

lemma py_split_no_sep: "\<not> sublist sep s \<Longrightarrow> py_split sep s = [s]"
proof (induction s)
  case (Cons c cs)
  then have "\<not> prefix sep (c # cs)" "\<not> sublist sep cs"
    by (auto simp: sublist_Cons_right)
  with Cons.IH show ?case by simp
qed simp

text \<open>
  A piece that neither holds the separator nor ends in a part of it is split off whole.  The
  separator must not occur in the piece followed by all but the last character of the
  separator: \<open>''a:::b''.split(''::'')\<close> is \<open>[''a'', '':b'']\<close>.
\<close>

lemma py_split_append:
  assumes "sep \<noteq> []" and "\<not> sublist sep (a @ butlast sep)"
  shows "py_split sep (a @ sep @ b) = a # py_split sep b"
  using assms(2)
proof (induction a)
  case Nil
  from assms(1) obtain c cs where "sep = c # cs" by (cases sep) auto
  then show ?case by simp
next
  case (Cons c a)
  have len: "length sep \<le> length (c # a @ butlast sep)"
    using assms(1) by simp
  have "\<not> prefix sep (c # a @ butlast sep)"
    using Cons.prems by auto
  moreover have "c # a @ sep @ b = (c # a @ butlast sep) @ (last sep # b)"
    using assms(1) by (metis append.assoc append_Cons append_butlast_last_id append_Nil)
  ultimately have "\<not> prefix sep (c # a @ sep @ b)"
    using len by (metis prefix_length_prefix prefixI)
  moreover have "\<not> sublist sep (a @ butlast sep)"
    using Cons.prems by (auto simp: sublist_Cons_right)
  ultimately show ?case using Cons.IH by simp
qed

lemma py_join_Cons: "xs \<noteq> [] \<Longrightarrow> py_join sep (x # xs) = x @ sep @ py_join sep xs"
  by (cases xs) auto

lemma py_join_split: "sep \<noteq> [] \<Longrightarrow> py_join sep (py_split sep s) = s"
proof (induction sep s rule: py_split.induct)
  case (2 sep c cs)
  show ?case
  proof (cases "prefix sep (c # cs)")
    case True
    then have "sep @ drop (length sep - 1) cs = c # cs"
      using 2(3) by (auto simp: prefix_def Cons_eq_append_conv)
    with True 2 show ?thesis by (simp add: py_join_Cons)
  next
    case False
    obtain w ws where w: "py_split sep cs = w # ws" by (cases "py_split sep cs") auto
    with False 2 show ?thesis by (cases ws) auto
  qed
qed simp

lemma py_split_join:
  assumes "sep \<noteq> []" and "xs \<noteq> []"
    and "\<forall>x \<in> set xs. \<not> sublist sep (x @ butlast sep)"
  shows "py_split sep (py_join sep xs) = xs"
  using assms(2,3)
proof (induction xs)
  case (Cons x xs)
  have "\<not> sublist sep x"
    using Cons.prems(2) by (meson list.set_intros(1) sublist_append_rightI sublist_order.order.trans)
  then show ?case
    using Cons py_split_append [OF assms(1), of x] py_split_no_sep [of sep x]
    by (cases xs) auto
qed simp

text \<open>\<open>str.lower\<close> and the class \<open>[A-Z]\<close>, on the ASCII range.\<close>

definition is_upper :: "char \<Rightarrow> bool" where
  "is_upper c \<longleftrightarrow> 65 \<le> (of_char c :: nat) \<and> (of_char c :: nat) \<le> 90"

definition to_lower :: "char \<Rightarrow> char" where
  "to_lower c = (if is_upper c then char_of ((of_char c :: nat) + 32) else c)"

lemma not_upper_to_lower [simp]: "\<not> is_upper (to_lower c)"
  by (auto simp: to_lower_def is_upper_def)

lemma to_lower_idem [simp]: "to_lower (to_lower c) = to_lower c"
  using not_upper_to_lower [of c] by (simp add: to_lower_def [of "to_lower c"])

text \<open>The single quote, which a string literal cannot hold.\<close>

abbreviation quote :: string where
  "quote \<equiv> [CHR 0x27]"

abbreviation py_lower :: "string \<Rightarrow> string" where
  "py_lower s \<equiv> map to_lower s"

text \<open>\<open>str(n)\<close> for an integer, and reading it back.\<close>

definition digit_char :: "nat \<Rightarrow> char" where
  "digit_char n = char_of (48 + n)"

definition digit_val :: "char \<Rightarrow> nat" where
  "digit_val c = of_char c - 48"

definition is_digit :: "char \<Rightarrow> bool" where
  "is_digit c \<longleftrightarrow> 48 \<le> (of_char c :: nat) \<and> (of_char c :: nat) \<le> 57"

fun nat_str :: "nat \<Rightarrow> string" where
  "nat_str n = (if n < 10 then [digit_char n] else nat_str (n div 10) @ [digit_char (n mod 10)])"

declare nat_str.simps [simp del]

definition int_str :: "int \<Rightarrow> string" where
  "int_str i = (if i < 0 then ''-'' @ nat_str (nat (- i)) else nat_str (nat i))"

definition parse_digits :: "string \<Rightarrow> nat option" where
  "parse_digits s =
     (if s \<noteq> [] \<and> list_all is_digit s then Some (foldl (\<lambda>acc c. acc * 10 + digit_val c) 0 s)
      else None)"

definition parse_int :: "string \<Rightarrow> int option" where
  "parse_int s =
     (if s \<noteq> [] \<and> hd s = CHR ''-'' then map_option (\<lambda>n. - int n) (parse_digits (tl s))
      else map_option int (parse_digits s))"

lemma digit_char_props:
  assumes "n < 10"
  shows "is_digit (digit_char n)" and "digit_val (digit_char n) = n"
  using assms by (simp_all add: is_digit_def digit_val_def digit_char_def)

lemma nat_str_digits: "list_all is_digit (nat_str n)"
proof (induction n rule: nat_str.induct)
  case (1 n)
  then show ?case
    by (subst nat_str.simps) (simp add: digit_char_props)
qed

lemma nat_str_nonempty [simp]: "nat_str n \<noteq> []"
  by (subst nat_str.simps) simp

lemma nat_str_value: "foldl (\<lambda>acc c. acc * 10 + digit_val c) 0 (nat_str n) = n"
proof (induction n rule: nat_str.induct)
  case (1 n)
  then show ?case
    by (subst nat_str.simps) (simp add: digit_char_props)
qed

lemma parse_nat_str [simp]: "parse_digits (nat_str n) = Some n"
  by (simp add: parse_digits_def nat_str_digits nat_str_value)

lemma parse_int_str [simp]: "parse_int (int_str i) = Some i"
proof (cases "i < 0")
  case False
  obtain c cs where c: "nat_str (nat i) = c # cs"
    by (cases "nat_str (nat i)") auto
  with nat_str_digits [of "nat i"] have "c \<noteq> CHR ''-''"
    by (auto simp: is_digit_def)
  with c False parse_nat_str [of "nat i"] show ?thesis
    by (simp add: parse_int_def int_str_def)
qed (simp add: parse_int_def int_str_def)

lemma nat_str_digit_chars: "c \<in> set (nat_str n) \<Longrightarrow> is_digit c"
  using nat_str_digits [of n] by (simp add: list_all_iff)

lemma int_str_chars: "c \<in> set (int_str i) \<Longrightarrow> is_digit c \<or> c = CHR ''-''"
  by (auto simp: int_str_def dest: nat_str_digit_chars split: if_splits)

lemma sublist_single: "sublist [c] s \<longleftrightarrow> c \<in> set s"
  by (induction s) (auto simp: sublist_Cons_right)

lemma find_SomeD: "find P xs = Some x \<Longrightarrow> x \<in> set xs \<and> P x"
  by (induction xs) (auto split: if_splits)

end
