(* ===== verification/Errors.thy ===== *)
theory Errors
  imports Prelude
begin

text \<open>
  The exceptions of the program.  \<open>app_class\<close> has one constructor per class of
  \<open>src/application/common/exceptions.py\<close>; \<open>status_code\<close> and \<open>expected\<close> are its class attributes,
  resolved through the class hierarchy.  \<open>exn\<close> joins them with the exceptions of the database
  layer and with those of Python and of the libraries that the code raises or lets through.
\<close>

section \<open>Application exceptions (application/common/exceptions.py)\<close>

datatype app_class =
    AppException
  | DetailedError
  | UnAuthorizedError
  | ForbiddenError
  | NotFoundError
  | BadRequestError
  | ConflictError
  | TooManyRequestsError
  | BadGatewayError
  | ServiceUnavailableError
  | ServiceNotImplementedError

fun status_code :: "app_class \<Rightarrow> int" where
  "status_code UnAuthorizedError = 401"
| "status_code ForbiddenError = 403"
| "status_code NotFoundError = 404"
| "status_code BadRequestError = 400"
| "status_code ConflictError = 409"
| "status_code TooManyRequestsError = 429"
| "status_code BadGatewayError = 502"
| "status_code ServiceUnavailableError = 503"
| "status_code ServiceNotImplementedError = 501"
| "status_code _ = 500"

text \<open>
  \<open>AppException.expected\<close> is \<open>False\<close>, \<open>DetailedError\<close> sets it to \<open>True\<close>, and the three gateway
  and service errors set it back.
\<close>

fun expected :: "app_class \<Rightarrow> bool" where
  "expected AppException = False"
| "expected BadGatewayError = False"
| "expected ServiceUnavailableError = False"
| "expected ServiceNotImplementedError = False"
| "expected _ = True"

record app_exc =
  exc_class :: app_class
  exc_content :: pydict
  exc_headers :: "pydict option"

text \<open>
  The constructors.  \<open>AppException.__init__\<close> has a default message;
  \<open>DetailedError.__init__\<close> merges its further keyword arguments into the content.
\<close>

definition app_exception :: "string \<Rightarrow> pydict option \<Rightarrow> app_exc" where
  "app_exception message headers =
     \<lparr>exc_class = AppException, exc_content = [(''message'', PStr message)], exc_headers = headers\<rparr>"

definition default_app_exception :: app_exc where
  "default_app_exception = app_exception ''App Exception'' None"

definition detailed_error ::
  "app_class \<Rightarrow> string \<Rightarrow> pydict option \<Rightarrow> pydict \<Rightarrow> app_exc" where
  "detailed_error c message headers additional =
     (let base = app_exception message headers
      in base\<lparr>exc_class := c, exc_content := dict_merge (exc_content base) additional\<rparr>)"

text \<open>An error raised with a message only, the common form in the program.\<close>

abbreviation simple_error :: "app_class \<Rightarrow> string \<Rightarrow> app_exc" where
  "simple_error c message \<equiv> detailed_error c message None []"

definition app_exc_as_dict :: "app_exc \<Rightarrow> pydict" where
  "app_exc_as_dict e =
     [(''content'', PDict (exc_content e)),
      (''headers'', case exc_headers e of None \<Rightarrow> PNone | Some h \<Rightarrow> PDict h)]"

lemma detailed_error_class [simp]: "exc_class (detailed_error c m h a) = c"
  by (simp add: detailed_error_def Let_def)

lemma detailed_error_headers [simp]: "exc_headers (detailed_error c m h a) = h"
  by (simp add: detailed_error_def app_exception_def Let_def)

text \<open>
  \<open>message\<close> is a parameter of its own, so the additional keywords never hold it and the message
  survives the merge.
\<close>

lemma detailed_error_message:
  "''message'' \<notin> fst ` set a \<Longrightarrow>
    dict_get (exc_content (detailed_error c m h a)) ''message'' = Some (PStr m)"
  by (simp add: detailed_error_def app_exception_def Let_def dict_get_merge_other)

section \<open>All exceptions\<close>

text \<open>
  \<open>CommitError\<close>, \<open>RollbackError\<close> and \<open>InvalidParamsError\<close> are the classes of
  \<open>database/psql/exceptions.py\<close>.  \<open>IntegrityError\<close> carries the text of its origin and is, like
  \<open>SQLAlchemyError\<close>, raised by SQLAlchemy; the last group is raised by Python, by the Redis
  client, by argon2, by Pydantic, and by FastAPI when it refuses the input of a request.
\<close>

datatype exn =
    App app_exc
  | CommitError
  | RollbackError
  | InvalidParamsError string
  | IntegrityError string
  | SQLAlchemyError string
  | RedisError string
  | PyKeyError string
  | PyIndexError string
  | PyAttributeError string
  | PyValueError string
  | PyTypeError string
  | PyRuntimeError string
  | PyFileNotFoundError string
  | PyOSError string
  | PyJWTError string
  | VerifyMismatchError
  | VerificationError string
  | InvalidHashError
  | PydanticValidationError
  | RequestValidationError "pyval list"

definition is_sqlalchemy_error :: "exn \<Rightarrow> bool" where
  "is_sqlalchemy_error e =
     (case e of IntegrityError _ \<Rightarrow> True | SQLAlchemyError _ \<Rightarrow> True | _ \<Rightarrow> False)"

text \<open>The subclasses of \<open>DatabaseError\<close>.\<close>

definition is_database_error :: "exn \<Rightarrow> bool" where
  "is_database_error e =
     (case e of CommitError \<Rightarrow> True | RollbackError \<Rightarrow> True | InvalidParamsError _ \<Rightarrow> True | _ \<Rightarrow> False)"

text \<open>The computations of the program raise \<open>exn\<close>.\<close>

type_synonym ('s, 'a) io = "(exn, 's, 'a) comp"

abbreviation raise_app :: "app_class \<Rightarrow> string \<Rightarrow> ('s, 'a) io" where
  "raise_app c message \<equiv> io_raise (App (simple_error c message))"

text \<open>The class of an application error is what the HTTP layer looks at.\<close>

definition app_class_of :: "exn \<Rightarrow> app_class option" where
  "app_class_of e = (case e of App a \<Rightarrow> Some (exc_class a) | _ \<Rightarrow> None)"

text \<open>An error of the database layer is none that the HTTP layer expects.\<close>

lemma database_error_unexpected: "is_database_error e \<Longrightarrow> app_class_of e = None"
  by (simp add: is_database_error_def app_class_of_def split: exn.splits)

lemma app_class_of_simps [simp]:
  "app_class_of (App a) = Some (exc_class a)"
  by (simp add: app_class_of_def)

end
