(* ===== verification/Tools.thy ===== *)
theory Tools
  imports Errors
begin

text \<open>
  The leaf helpers of \<open>src/common/tools\<close>: the cache key builder, the conversion of class names to
  table names, and the factories of \<open>singleton.py\<close>.
\<close>

section \<open>Cache keys (common/tools/cache.py)\<close>

text \<open>
  \<open>default_cache_key_builder(data, **kwargs)\<close> for string values: \<open>data\<close> when it is a non-empty
  dictionary, else the keyword arguments; the entries in the order of their keys, each as
  \<open>key:value\<close>, joined by a colon.  A dictionary has each key once.
\<close>

definition default_cache_key_builder ::
  "(string \<times> string) list option \<Rightarrow> (string \<times> string) list \<Rightarrow> string" where
  "default_cache_key_builder data kwargs =
     (let d = (case data of None \<Rightarrow> kwargs | Some [] \<Rightarrow> kwargs | Some d \<Rightarrow> d);
          sorted_data = map (\<lambda>k. (k, the (map_of d k))) (sort (map fst d))
      in py_join '':'' (map (\<lambda>(k, v). k @ '':'' @ v) sorted_data))"

lemma cache_key_single: "default_cache_key_builder None [(k, v)] = k @ '':'' @ v"
  by (simp add: default_cache_key_builder_def)

section \<open>Names (common/tools/text.py, database/psql/models/base/core.py)\<close>

text \<open>
  \<open>re.sub("(?<!^)(?=[A-Z])", "_", name).lower()\<close>: an underscore before every capital but one at
  the start, then lower case.
\<close>

definition insert_underscores :: "string \<Rightarrow> string" where
  "insert_underscores s =
     (case s of [] \<Rightarrow> [] | c # cs \<Rightarrow>
        c # concat (map (\<lambda>d. if is_upper d then [CHR ''_'', d] else [d]) cs))"

definition pascal_to_snake :: "string \<Rightarrow> string" where
  "pascal_to_snake name = py_lower (insert_underscores name)"

text \<open>\<open>Base.__tablename__\<close> applies the same substitution to the class name.\<close>

definition tablename :: "string \<Rightarrow> string" where
  "tablename cls = py_lower (insert_underscores cls)"

lemma insert_underscores_no_upper:
  "\<forall>c \<in> set s. \<not> is_upper c \<Longrightarrow> insert_underscores s = s"
proof -
  have *: "\<forall>c \<in> set cs. \<not> is_upper c \<Longrightarrow>
    concat (map (\<lambda>d. if is_upper d then [CHR ''_'', d] else [d]) cs) = cs" for cs
    by (induction cs) auto
  assume "\<forall>c \<in> set s. \<not> is_upper c"
  with * show ?thesis by (auto simp: insert_underscores_def split: list.splits)
qed

lemma pascal_to_snake_no_upper: "c \<in> set (pascal_to_snake s) \<Longrightarrow> \<not> is_upper c"
  by (auto simp: pascal_to_snake_def)

lemma map_to_lower_no_upper: "\<forall>c \<in> set s. \<not> is_upper c \<Longrightarrow> py_lower s = s"
  by (induction s) (auto simp: to_lower_def)

section \<open>Factories (common/tools/singleton.py)\<close>

text \<open>
  A factory is a function of the unit value.  \<open>lazy\<close> calls its dependencies each time the factory
  it returns is called.
\<close>

definition singleton :: "'a \<Rightarrow> (unit \<Rightarrow> 'a)" where
  "singleton dependency = (\<lambda>_. dependency)"

definition lazy ::
  "('a list \<Rightarrow> (string \<times> 'a) list \<Rightarrow> 't) \<Rightarrow> (unit \<Rightarrow> 'a) list \<Rightarrow> (string \<times> (unit \<Rightarrow> 'a)) list
    \<Rightarrow> (unit \<Rightarrow> 't)" where
  "lazy v args deps = (\<lambda>_. v (map (\<lambda>arg. arg ()) args) (map (\<lambda>(k, dep). (k, dep ())) deps))"

definition lazy_single :: "('a \<Rightarrow> 't) \<Rightarrow> (unit \<Rightarrow> 'a) \<Rightarrow> (unit \<Rightarrow> 't)" where
  "lazy_single v dep = lazy (\<lambda>args deps. v (hd args)) [dep] []"

lemma lazy_single_call: "lazy_single v (singleton x) () = v x"
  by (simp add: lazy_single_def lazy_def singleton_def)

section \<open>File modes (common/tools/files.py)\<close>

text \<open>The modes of the annotation and those of the check are the same.\<close>

definition mode_type :: "string list" where
  "mode_type = [''r'', ''w'', ''a'', ''rb'', ''wb'', ''ab'', ''r+'', ''w+'', ''a+'',
     ''rb+'', ''wb+'', ''ab+'']"

definition file_modes :: "string list" where
  "file_modes = [''r'', ''w'', ''a'', ''rb'', ''wb'', ''ab'', ''r+'', ''w+'', ''a+'',
     ''rb+'', ''wb+'', ''ab+'']"

lemma mode_type_checked: "mode_type = file_modes"
  by (simp add: mode_type_def file_modes_def)

text \<open>
  What \<open>open_file_sync\<close> does with a path and a mode: an exception for an unknown mode; else the
  text is read if the mode has an \<open>r\<close>, and \<open>None\<close> is returned for the other modes.  The file
  system is \<open>opened\<close>: what opening and reading the path in the mode gives, or the exception it
  raises; the two handled kinds are raised again with a message of their own.
\<close>

definition open_file_sync ::
  "(string \<Rightarrow> string \<Rightarrow> exn + string) \<Rightarrow> string \<Rightarrow> string \<Rightarrow> exn + string option" where
  "open_file_sync opened path mode =
     (if mode \<notin> set file_modes
      then Inl (PyValueError (''Invalid mode '' @ quote @ mode @ quote @
        ''. Must be a valid file access mode.''))
      else case opened path mode of
        Inl (PyFileNotFoundError _) \<Rightarrow> Inl (PyFileNotFoundError (''File not found: '' @ path))
      | Inl (PyOSError e) \<Rightarrow> Inl (PyOSError (''Error accessing file '' @ path @ '': '' @ e))
      | Inl e \<Rightarrow> Inl e
      | Inr text \<Rightarrow> Inr (if sublist ''r'' mode then Some text else None))"

section \<open>Properties\<close>

text \<open>
  The cache key does not depend on the order in which the entries are given: two dictionaries
  with the same entries get the same key, so a cached value is found again whatever order the
  caller names its arguments in.
\<close>

theorem cache_key_order_irrelevant:
  assumes "distinct (map fst d)" and "mset d = mset e"
  shows "default_cache_key_builder (Some d) kw = default_cache_key_builder (Some e) kw"
proof -
  have m: "map_of d = map_of e"
    using assms by (rule map_of_eq_of_mset)
  have s: "sort (map fst d) = sort (map fst e)"
    using assms(2) by (intro sort_eq_of_mset) simp
  show ?thesis
  proof (cases d)
    case Nil
    with assms(2) show ?thesis by simp
  next
    case (Cons a d')
    with assms(2) have "e \<noteq> []" by auto
    with Cons m s show ?thesis
      by (auto simp: default_cache_key_builder_def Let_def split: list.splits)
  qed
qed

theorem cache_key_order_irrelevant_witness:
  "default_cache_key_builder (Some [(''b'', ''2''), (''a'', ''1'')]) [] =
   default_cache_key_builder (Some [(''a'', ''1''), (''b'', ''2'')]) []"
  by (rule cache_key_order_irrelevant) simp_all

text \<open>
  The conversion of class names keeps every character of the name but for its case and the
  underscores it puts in, leaves no capital, and does nothing to a name that is already converted;
  so the table names are stable, and the names of the schema (\<open>user\<close>, \<open>role\<close> and the check
  constraint \<open>role_type_enum\<close> of the first migration) are those of the models.
\<close>

theorem pascal_to_snake_correct:
  "filter (\<lambda>c. c \<noteq> CHR ''_'') (pascal_to_snake name) = filter (\<lambda>c. c \<noteq> CHR ''_'') (py_lower name)
   \<and> list_all (\<lambda>c. \<not> is_upper c) (pascal_to_snake name)
   \<and> pascal_to_snake (pascal_to_snake name) = pascal_to_snake name
   \<and> tablename ''User'' = ''user'' \<and> tablename ''Role'' = ''role''
   \<and> pascal_to_snake ''RoleTypeEnum'' = ''role_type_enum''"
proof (intro conjI)
  have us: "to_lower (CHR ''_'') = CHR ''_''" by code_simp
  have *: "filter (\<lambda>c. c \<noteq> CHR ''_'')
      (py_lower (concat (map (\<lambda>d. if is_upper d then [CHR ''_'', d] else [d]) cs))) =
      filter (\<lambda>c. c \<noteq> CHR ''_'') (py_lower cs)" for cs
    by (induction cs) (auto simp: us)
  show "filter (\<lambda>c. c \<noteq> CHR ''_'') (pascal_to_snake name) = filter (\<lambda>c. c \<noteq> CHR ''_'') (py_lower name)"
    using * by (auto simp: pascal_to_snake_def insert_underscores_def split: list.splits)
  show "list_all (\<lambda>c. \<not> is_upper c) (pascal_to_snake name)"
    by (auto simp: list_all_iff dest: pascal_to_snake_no_upper)
  have "\<forall>c \<in> set (pascal_to_snake name). \<not> is_upper c"
    by (auto dest: pascal_to_snake_no_upper)
  then show "pascal_to_snake (pascal_to_snake name) = pascal_to_snake name"
    by (simp add: pascal_to_snake_def [of "pascal_to_snake name"] insert_underscores_no_upper
      map_to_lower_no_upper)
qed code_simp+

end
