(* ===== verification/Cache.thy ===== *)
theory Cache
  imports Tools
begin

text \<open>
  The cache.  \<open>str_cache\<close> is the protocol \<open>StrCache\<close> of \<open>application/common/interfaces/cache.py\<close>;
  its contract is the locale \<open>str_cache_laws\<close>.  \<open>RedisCache\<close> implements the protocol over the Redis
  client, which is not part of the program: the client is the parameter \<open>redis\<close>, and what the
  documentation of the Redis commands says is the locale \<open>redis_laws\<close>.  The cache of the unit tests,
  \<open>FakeStrCache\<close>, is the second implementation.
\<close>

section \<open>The protocol (application/common/interfaces/cache.py)\<close>

text \<open>
  An expiry is a number of seconds or a \<open>timedelta\<close>, here in whole seconds.
\<close>

datatype expiry = ESeconds int | ETimedelta int

fun expiry_seconds :: "expiry \<Rightarrow> int" where
  "expiry_seconds (ESeconds n) = n"
| "expiry_seconds (ETimedelta n) = n"

text \<open>The methods of the protocol, over the state \<open>'c\<close> of the store behind it.\<close>

record 'c str_cache =
  sc_exists :: "string \<Rightarrow> ('c, bool) io"
  sc_get :: "string \<Rightarrow> ('c, string option) io"
  sc_set :: "string \<Rightarrow> string \<Rightarrow> expiry option \<Rightarrow> ('c, unit) io"
  sc_setnx :: "string \<Rightarrow> string \<Rightarrow> expiry option \<Rightarrow> ('c, bool) io"
  sc_delete :: "string list \<Rightarrow> ('c, unit) io"
  sc_get_list :: "string \<Rightarrow> ('c, string list) io"
  sc_set_list :: "string \<Rightarrow> string list \<Rightarrow> expiry option \<Rightarrow> ('c, unit) io"
  sc_discard :: "string \<Rightarrow> string \<Rightarrow> ('c, unit) io"
  sc_keys :: "string option \<Rightarrow> ('c, string list) io"
  sc_clear :: "('c, unit) io"

text \<open>
  A key without the characters \<open>*\<close>, \<open>?\<close>, \<open>[\<close>, \<open>]\<close> and the backslash, which the patterns of Redis
  give a meaning.
\<close>

definition plain_key :: "string \<Rightarrow> bool" where
  "plain_key k \<longleftrightarrow> (\<forall>c \<in> set k. c \<notin> {CHR ''*'', CHR ''?'', CHR ''['', CHR '']'', CHR 0x5C})"

text \<open>
  The contract, over two views of the store: the strings it holds and the lists it holds (a list
  that is not there is empty).  A list operation needs a key that holds no string, and reading a
  string one that holds no list; the deletion of a single key needs a plain key.
\<close>

locale str_cache_laws =
  fixes C :: "'c str_cache"
    and strs :: "'c \<Rightarrow> string \<Rightarrow> string option"
    and lists :: "'c \<Rightarrow> string \<Rightarrow> string list"
  assumes get: "lists c k = [] \<Longrightarrow> sc_get C k c = (Inr (strs c k), c)"
    and set_ok: "lists c k = [] \<Longrightarrow> fst (sc_set C k v e c) = Inr ()"
    and set_strs: "lists c k = [] \<Longrightarrow> strs (snd (sc_set C k v e c)) = (strs c)(k \<mapsto> v)"
    and set_lists: "lists c k = [] \<Longrightarrow> lists (snd (sc_set C k v e c)) = lists c"
    and delete_ok: "plain_key k \<Longrightarrow> fst (sc_delete C [k] c) = Inr ()"
    and delete_strs: "plain_key k \<Longrightarrow> strs (snd (sc_delete C [k] c)) = (strs c)(k := None)"
    and delete_lists: "plain_key k \<Longrightarrow> lists (snd (sc_delete C [k] c)) = (lists c)(k := [])"
    and get_list: "strs c k = None \<Longrightarrow> sc_get_list C k c = (Inr (lists c k), c)"
    and set_list_ok: "strs c k = None \<Longrightarrow> fst (sc_set_list C k [v] None c) = Inr ()"
    and set_list_strs: "strs c k = None \<Longrightarrow> strs (snd (sc_set_list C k [v] None c)) = strs c"
    and set_list_lists: "strs c k = None \<Longrightarrow>
      lists (snd (sc_set_list C k [v] None c)) = (lists c)(k := v # lists c k)"
    and discard_ok: "strs c k = None \<Longrightarrow> fst (sc_discard C k v c) = Inr ()"
    and discard_strs: "strs c k = None \<Longrightarrow> strs (snd (sc_discard C k v c)) = strs c"
    and discard_lists: "strs c k = None \<Longrightarrow>
      lists (snd (sc_discard C k v c)) = (lists c)(k := filter (\<lambda>x. x \<noteq> v) (lists c k))"
begin

lemmas cache_laws = get set_ok set_strs set_lists delete_ok delete_strs delete_lists get_list
  set_list_ok set_list_strs set_list_lists discard_ok discard_strs discard_lists

text \<open>What the clients rest on: read after write, and that other keys are left alone.\<close>

lemma get_after_set:
  "lists c k = [] \<Longrightarrow> fst (sc_get C k (snd (sc_set C k v e c))) = Inr (Some v)"
  by (simp add: cache_laws)

lemma get_after_delete:
  "plain_key k \<Longrightarrow> fst (sc_get C k (snd (sc_delete C [k] c))) = Inr None"
  by (simp add: cache_laws)

lemma get_list_after_delete:
  "plain_key k \<Longrightarrow> strs c k = None \<Longrightarrow>
    fst (sc_get_list C k (snd (sc_delete C [k] c))) = Inr []"
  by (simp add: cache_laws)

lemma set_list_other:
  "strs c k = None \<Longrightarrow> k' \<noteq> k \<Longrightarrow> lists (snd (sc_set_list C k [v] None c)) k' = lists c k'"
  by (simp add: cache_laws)

end

section \<open>RedisCache (infrastructure/cache/redis.py)\<close>

text \<open>
  The commands of the client \<open>redis.asyncio.Redis\<close> that the class calls.  \<open>r_set\<close> takes the value,
  the expiry and the flag \<open>nx\<close> and says whether it stored; \<open>r_scan_iter\<close> lists the keys that match a
  pattern.
\<close>

record 'r redis =
  r_get :: "string \<Rightarrow> ('r, string option) io"
  r_set :: "string \<Rightarrow> string \<Rightarrow> expiry option \<Rightarrow> bool \<Rightarrow> ('r, bool) io"
  r_scan_iter :: "string \<Rightarrow> ('r, string list) io"
  r_delete :: "string list \<Rightarrow> ('r, int) io"
  r_lpush :: "string \<Rightarrow> string list \<Rightarrow> ('r, int) io"
  r_expire :: "string \<Rightarrow> expiry \<Rightarrow> ('r, bool) io"
  r_lrange :: "string \<Rightarrow> int \<Rightarrow> int \<Rightarrow> ('r, string list) io"
  r_lrem :: "string \<Rightarrow> int \<Rightarrow> string \<Rightarrow> ('r, int) io"
  r_flushall :: "bool \<Rightarrow> ('r, unit) io"
  r_keys :: "string \<Rightarrow> ('r, string list) io"

definition redis_cache_get :: "'r redis \<Rightarrow> string \<Rightarrow> ('r, string option) io" where
  "redis_cache_get R key = r_get R key"

definition redis_cache_set ::
  "'r redis \<Rightarrow> string \<Rightarrow> string \<Rightarrow> expiry option \<Rightarrow> ('r, unit) io" where
  "redis_cache_set R key value expire =
     io_bind (r_set R key value expire False) (\<lambda>_. io_return ())"

text \<open>The comprehension over the keys: every key the scan of every argument finds.\<close>

fun scan_keys :: "'r redis \<Rightarrow> string list \<Rightarrow> ('r, string list) io" where
  "scan_keys R [] = io_return []"
| "scan_keys R (key # keys) =
     io_bind (r_scan_iter R key) (\<lambda>found.
     io_bind (scan_keys R keys) (\<lambda>rest. io_return (found @ rest)))"

definition redis_cache_delete :: "'r redis \<Rightarrow> string list \<Rightarrow> ('r, unit) io" where
  "redis_cache_delete R keys =
     io_bind (scan_keys R keys) (\<lambda>found_keys.
     if found_keys \<noteq> []
     then io_bind (r_delete R found_keys) (\<lambda>_. io_return ())
     else io_return ())"

text \<open>\<open>if expire:\<close> is false for no expiry and for an expiry of zero.\<close>

definition redis_cache_set_list ::
  "'r redis \<Rightarrow> string \<Rightarrow> string list \<Rightarrow> expiry option \<Rightarrow> ('r, unit) io" where
  "redis_cache_set_list R key values expire =
     io_bind (r_lpush R key values) (\<lambda>_.
     case expire of
       None \<Rightarrow> io_return ()
     | Some e \<Rightarrow>
         if expiry_seconds e = 0 then io_return ()
         else io_bind (r_expire R key (ETimedelta (expiry_seconds e))) (\<lambda>_. io_return ()))"

definition redis_cache_get_list ::
  "'r redis \<Rightarrow> string \<Rightarrow> int option \<Rightarrow> int option \<Rightarrow> ('r, string list) io" where
  "redis_cache_get_list R key start end =
     r_lrange R key (case start of None \<Rightarrow> 0 | Some i \<Rightarrow> i) (case end of None \<Rightarrow> -1 | Some i \<Rightarrow> i)"

definition redis_cache_discard ::
  "'r redis \<Rightarrow> string \<Rightarrow> string \<Rightarrow> int option \<Rightarrow> ('r, unit) io" where
  "redis_cache_discard R key value n =
     io_bind (r_lrem R key (case n of None \<Rightarrow> 0 | Some c \<Rightarrow> c) value) (\<lambda>_. io_return ())"

definition redis_cache_clear :: "'r redis \<Rightarrow> ('r, unit) io" where
  "redis_cache_clear R = r_flushall R True"

definition redis_cache_setnx ::
  "'r redis \<Rightarrow> string \<Rightarrow> string \<Rightarrow> expiry option \<Rightarrow> ('r, bool) io" where
  "redis_cache_setnx R key value expire = r_set R key value expire True"

definition redis_cache_exists :: "'r redis \<Rightarrow> string \<Rightarrow> ('r, bool) io" where
  "redis_cache_exists R key = io_bind (r_keys R key) (\<lambda>found. io_return (found \<noteq> []))"

text \<open>\<open>pattern or "*"\<close>.\<close>

definition redis_cache_keys :: "'r redis \<Rightarrow> string option \<Rightarrow> ('r, string list) io" where
  "redis_cache_keys R pat =
     r_keys R (case pat of None \<Rightarrow> ''*'' | Some p \<Rightarrow> if p = [] then ''*'' else p)"

text \<open>The class as an implementation of the protocol.\<close>

definition redis_cache :: "'r redis \<Rightarrow> 'r str_cache" where
  "redis_cache R =
     \<lparr>sc_exists = redis_cache_exists R, sc_get = redis_cache_get R, sc_set = redis_cache_set R,
      sc_setnx = redis_cache_setnx R, sc_delete = redis_cache_delete R,
      sc_get_list = (\<lambda>k. redis_cache_get_list R k None None),
      sc_set_list = redis_cache_set_list R,
      sc_discard = (\<lambda>k v. redis_cache_discard R k v None),
      sc_keys = redis_cache_keys R, sc_clear = redis_cache_clear R\<rparr>"

lemmas redis_cache_defs [cache_defs] =
  redis_cache_def redis_cache_get_def redis_cache_set_def redis_cache_delete_def
  redis_cache_set_list_def redis_cache_get_list_def redis_cache_discard_def redis_cache_clear_def
  redis_cache_setnx_def redis_cache_exists_def redis_cache_keys_def

text \<open>
  What the Redis documentation says of the commands, over the same two views and over \<open>glob\<close>, the
  relation between a pattern and the keys it matches.  A key holds a string or a list, not both.
  \<open>SCAN\<close> and \<open>KEYS\<close> find the keys that match; \<open>SCAN\<close> may return a key more than once.
\<close>

locale redis_laws =
  fixes R :: "'r redis"
    and strs :: "'r \<Rightarrow> string \<Rightarrow> string option"
    and lists :: "'r \<Rightarrow> string \<Rightarrow> string list"
    and glob :: "string \<Rightarrow> string \<Rightarrow> bool"
  assumes glob_plain: "plain_key p \<Longrightarrow> glob p k \<longleftrightarrow> k = p"
    and glob_star: "glob ''*'' k"
    and r_get: "lists r k = [] \<Longrightarrow> r_get R k r = (Inr (strs r k), r)"
    and r_set_ok: "fst (r_set R k v e False r) = Inr True"
    and r_set_strs: "strs (snd (r_set R k v e False r)) = (strs r)(k \<mapsto> v)"
    and r_set_lists: "lists (snd (r_set R k v e False r)) = (lists r)(k := [])"
    and r_setnx: "r_set R k v e True r =
      (if strs r k = None \<and> lists r k = [] then (Inr True, snd (r_set R k v e False r))
       else (Inr False, r))"
    and r_scan_state: "snd (r_scan_iter R p r) = r"
    and r_scan: "\<exists>ks. fst (r_scan_iter R p r) = Inr ks \<and>
      set ks = {k. (strs r k \<noteq> None \<or> lists r k \<noteq> []) \<and> glob p k}"
    and r_keys_state: "snd (r_keys R p r) = r"
    and r_keys: "\<exists>ks. fst (r_keys R p r) = Inr ks \<and>
      set ks = {k. (strs r k \<noteq> None \<or> lists r k \<noteq> []) \<and> glob p k}"
    and r_delete_ok: "\<exists>n. fst (r_delete R ks r) = Inr n"
    and r_delete_strs: "strs (snd (r_delete R ks r)) = (\<lambda>k. if k \<in> set ks then None else strs r k)"
    and r_delete_lists: "lists (snd (r_delete R ks r)) = (\<lambda>k. if k \<in> set ks then [] else lists r k)"
    and r_lpush_ok: "strs r k = None \<Longrightarrow> vs \<noteq> [] \<Longrightarrow> \<exists>n. fst (r_lpush R k vs r) = Inr n"
    and r_lpush_strs: "strs r k = None \<Longrightarrow> vs \<noteq> [] \<Longrightarrow> strs (snd (r_lpush R k vs r)) = strs r"
    and r_lpush_lists: "strs r k = None \<Longrightarrow> vs \<noteq> [] \<Longrightarrow>
      lists (snd (r_lpush R k vs r)) = (lists r)(k := rev vs @ lists r k)"
    and r_lrange: "strs r k = None \<Longrightarrow> r_lrange R k 0 (-1) r = (Inr (lists r k), r)"
    and r_lrem_ok: "strs r k = None \<Longrightarrow> \<exists>n. fst (r_lrem R k 0 v r) = Inr n"
    and r_lrem_strs: "strs r k = None \<Longrightarrow> strs (snd (r_lrem R k 0 v r)) = strs r"
    and r_lrem_lists: "strs r k = None \<Longrightarrow>
      lists (snd (r_lrem R k 0 v r)) = (lists r)(k := filter (\<lambda>x. x \<noteq> v) (lists r k))"
begin

text \<open>Deleting removes every key that one of the arguments matches, as a pattern.\<close>

lemma scan_keys_ok:
  "snd (scan_keys R ps r) = r \<and> (\<exists>ks. fst (scan_keys R ps r) = Inr ks \<and>
    set ks = {k. (strs r k \<noteq> None \<or> lists r k \<noteq> []) \<and> (\<exists>p \<in> set ps. glob p k)})"
proof (induction ps)
  case (Cons p ps)
  obtain ks where "fst (r_scan_iter R p r) = Inr ks"
    "set ks = {k. (strs r k \<noteq> None \<or> lists r k \<noteq> []) \<and> glob p k}"
    using r_scan by blast
  with Cons show ?case
    by (auto simp: io_simps r_scan_state)
qed (simp add: io_simps)

lemma delete_views:
  "fst (redis_cache_delete R ps r) = Inr ()"
  "strs (snd (redis_cache_delete R ps r)) = (\<lambda>k. if \<exists>p \<in> set ps. glob p k then None else strs r k)"
  "lists (snd (redis_cache_delete R ps r)) = (\<lambda>k. if \<exists>p \<in> set ps. glob p k then [] else lists r k)"
proof -
  obtain ks where ks: "scan_keys R ps r = (Inr ks, r)"
    "set ks = {k. (strs r k \<noteq> None \<or> lists r k \<noteq> []) \<and> (\<exists>p \<in> set ps. glob p k)}"
    using scan_keys_ok [of ps r] by (metis prod.collapse)
  obtain n where n: "fst (r_delete R ks r) = Inr n"
    using r_delete_ok by blast
  show "fst (redis_cache_delete R ps r) = Inr ()"
    using ks(1) n by (simp add: redis_cache_delete_def io_simps)
  have "strs r k = None \<and> lists r k = []" if "ks = []" "p \<in> set ps" "glob p k" for k p
    using ks(2) that by auto
  then show "strs (snd (redis_cache_delete R ps r)) =
      (\<lambda>k. if \<exists>p \<in> set ps. glob p k then None else strs r k)"
    and "lists (snd (redis_cache_delete R ps r)) =
      (\<lambda>k. if \<exists>p \<in> set ps. glob p k then [] else lists r k)"
    using ks n
    by (auto simp: redis_cache_delete_def io_simps r_delete_strs r_delete_lists fun_eq_iff)
qed

end

text \<open>\<open>RedisCache\<close> keeps the contract of the protocol on every client that follows the documentation.\<close>

sublocale redis_laws \<subseteq> rc: str_cache_laws "redis_cache R" strs lists
proof unfold_locales
  fix c k v e
  show "fst (sc_set_list (redis_cache R) k [v] None c) = Inr ()" if "strs c k = None"
    using r_lpush_ok [OF that, of "[v]"] that by (auto simp: cache_defs io_simps)
  show "strs (snd (sc_set_list (redis_cache R) k [v] None c)) = strs c" if "strs c k = None"
    using r_lpush_ok [OF that, of "[v]"] that by (auto simp: cache_defs io_simps r_lpush_strs)
  show "lists (snd (sc_set_list (redis_cache R) k [v] None c)) = (lists c)(k := v # lists c k)"
    if "strs c k = None"
    using r_lpush_ok [OF that, of "[v]"] that by (auto simp: cache_defs io_simps r_lpush_lists)
  show "fst (sc_discard (redis_cache R) k v c) = Inr ()" if "strs c k = None"
    using r_lrem_ok [OF that, of v] by (auto simp: cache_defs io_simps)
  show "strs (snd (sc_discard (redis_cache R) k v c)) = strs c" if "strs c k = None"
    using r_lrem_ok [OF that, of v] that by (auto simp: cache_defs io_simps r_lrem_strs)
  show "lists (snd (sc_discard (redis_cache R) k v c)) =
      (lists c)(k := filter (\<lambda>x. x \<noteq> v) (lists c k))" if "strs c k = None"
    using r_lrem_ok [OF that, of v] that by (auto simp: cache_defs io_simps r_lrem_lists)
  show "fst (sc_delete (redis_cache R) [k] c) = Inr ()"
    by (simp add: redis_cache_def delete_views)
  show "strs (snd (sc_delete (redis_cache R) [k] c)) = (strs c)(k := None)" if "plain_key k"
    using that by (auto simp: redis_cache_def delete_views glob_plain)
  show "lists (snd (sc_delete (redis_cache R) [k] c)) = (lists c)(k := [])" if "plain_key k"
    using that by (auto simp: redis_cache_def delete_views glob_plain)
qed (auto simp: redis_cache_def redis_cache_get_def redis_cache_set_def redis_cache_get_list_def
  io_simps r_get r_set_ok r_set_strs r_set_lists r_lrange)

end
