(* ===== verification/Http.thy ===== *)
theory Http
  imports Cache
begin

text \<open>
  What the program reads of an HTTP request (a \<open>starlette.requests.Request\<close>), and the parts of
  Python's strings the HTTP layer uses.
\<close>

section \<open>Requests\<close>

text \<open>
  The headers are in the order of the request; a name may occur more than once and is compared
  without regard to case.  \<open>hr_client\<close> is the address of the peer, \<open>hr_request_id\<close> is
  \<open>request.state.request_id\<close> when it is set.
\<close>

record http_request =
  hr_method :: string
  hr_path :: string
  hr_headers :: "(string \<times> string) list"
  hr_client :: "string option"
  hr_query :: "(string \<times> string) list"
  hr_body :: string
  hr_cookies :: "(string \<times> string) list"
  hr_request_id :: "string option"

definition header_get :: "http_request \<Rightarrow> string \<Rightarrow> string option" where
  "header_get r name =
     map_option snd (find (\<lambda>(n, _). py_lower n = py_lower name) (hr_headers r))"

definition cookie_get :: "http_request \<Rightarrow> string \<Rightarrow> string \<Rightarrow> string" where
  "cookie_get r name dflt = (case map_of (hr_cookies r) name of Some v \<Rightarrow> v | None \<Rightarrow> dflt)"

text \<open>\<open>query_params.getlist(key)\<close>, and the distinct keys in the order of their first occurrence.\<close>

definition query_getlist :: "http_request \<Rightarrow> string \<Rightarrow> string list" where
  "query_getlist r key = map snd (filter (\<lambda>(k, _). k = key) (hr_query r))"

definition query_keys :: "http_request \<Rightarrow> string list" where
  "query_keys r = rev (remdups (rev (map fst (hr_query r))))"

section \<open>Strings\<close>

text \<open>\<open>str.strip()\<close> for the ASCII white space.\<close>

definition is_space :: "char \<Rightarrow> bool" where
  "is_space c \<longleftrightarrow> (of_char c :: nat) \<in> {9, 10, 11, 12, 13, 28, 29, 30, 31, 32}"

definition py_strip :: "string \<Rightarrow> string" where
  "py_strip s = rev (dropWhile is_space (rev (dropWhile is_space s)))"

lemma py_strip_id: "list_all (\<lambda>c. \<not> is_space c) s \<Longrightarrow> py_strip s = s"
proof -
  assume s: "list_all (\<lambda>c. \<not> is_space c) s"
  have "dropWhile is_space t = t" if "list_all (\<lambda>c. \<not> is_space c) t" for t
    using that by (cases t) auto
  with s show ?thesis by (simp add: py_strip_def)
qed

text \<open>\<open>s.partition(sep)\<close> for one character: what is before and what is after the first one.\<close>

fun partition_char :: "char \<Rightarrow> string \<Rightarrow> string \<times> string" where
  "partition_char c [] = ([], [])"
| "partition_char c (d # s) =
     (if d = c then ([], s) else (let (a, b) = partition_char c s in (d # a, b)))"

lemma partition_char_hit: "c \<notin> set a \<Longrightarrow> partition_char c (a @ c # b) = (a, b)"
  by (induction a) auto

lemma partition_char_miss: "c \<notin> set a \<Longrightarrow> partition_char c a = (a, [])"
  by (induction a) auto

end
