(* ===== verification/Security.thy ===== *)
theory Security
  imports Errors
begin

text \<open>
  The security adapters: \<open>JWT\<close> of \<open>infrastructure/security/jwt.py\<close> over PyJWT and \<open>Argon2\<close> of
  \<open>infrastructure/security/argon2.py\<close> over argon2-cffi.  Both libraries are parameters.  The
  protocols \<open>JWT\<close> and \<open>Hasher\<close> of the application layer are the records \<open>jwt\<close> and \<open>hasher\<close>, with the
  locales \<open>jwt_laws\<close> and \<open>hasher_laws\<close> as their contracts.  Times are microseconds since the epoch.
\<close>

section \<open>The protocols (application/common/interfaces/jwt.py, hasher.py)\<close>

datatype token_type = Access | Refresh

fun token_type_str :: "token_type \<Rightarrow> string" where
  "token_type_str Access = ''access''"
| "token_type_str Refresh = ''refresh''"

lemma token_type_str_inject [simp]: "token_type_str a = token_type_str b \<longleftrightarrow> a = b"
  by (cases a; cases b) simp_all

text \<open>
  \<open>create\<close> and \<open>verify_token\<close> read the clock; its reading is their first argument.  \<open>create\<close> takes
  the type, the subject, an optional lifetime and further claims, and gives the time of expiry and
  the token.
\<close>

record jwt =
  j_create :: "int \<Rightarrow> token_type \<Rightarrow> string \<Rightarrow> int option \<Rightarrow> pydict \<Rightarrow> exn + (int \<times> string)"
  j_verify_token :: "int \<Rightarrow> string \<Rightarrow> exn + pydict"

record hasher =
  h_hash_password :: "string \<Rightarrow> exn + string"
  h_verify_password :: "string \<Rightarrow> string \<Rightarrow> exn + bool"

text \<open>
  The contract of \<open>JWT\<close>: a token of each type lives \<open>life typ\<close> microseconds; within that time,
  counted in whole seconds, it verifies to claims with its type and subject, and afterwards it is
  refused with an authorization error.  A token never holds the separator of a stored session.
\<close>

locale jwt_laws =
  fixes J :: jwt
    and life :: "token_type \<Rightarrow> int"
  assumes create: "0 \<le> now \<Longrightarrow> \<exists>tok. j_create J now typ sub None [] = Inr (now + life typ, tok)"
    and verify: "0 \<le> now \<Longrightarrow> j_create J now typ sub None [] = Inr (e, tok) \<Longrightarrow> now \<le> t \<Longrightarrow>
      t < e div 1000000 * 1000000 \<Longrightarrow>
      \<exists>p. j_verify_token J t tok = Inr p \<and> dict_get p ''type'' = Some (PStr (token_type_str typ)) \<and>
        dict_get p ''sub'' = Some (PStr sub)"
    and expired: "0 \<le> now \<Longrightarrow> j_create J now typ sub None [] = Inr (e, tok) \<Longrightarrow> e \<le> t \<Longrightarrow>
      \<exists>a. j_verify_token J t tok = Inl (App a) \<and> exc_class a = UnAuthorizedError"
    and no_separator: "j_create J now typ sub None [] = Inr (e, tok) \<Longrightarrow> \<not> sublist ''::'' tok"

locale hasher_laws =
  fixes H :: hasher
  assumes hash: "\<exists>h. h_hash_password H plain = Inr h"
    and verify_hash: "h_hash_password H plain = Inr h \<Longrightarrow>
      h_verify_password H h other = Inr (other = plain)"

section \<open>base64.b64decode\<close>

text \<open>
  Decoding without validation, as CPython does it: characters outside the alphabet are skipped,
  padding that completes a group of four ends the input, and a group left open is an error.  The
  state is the position in the group, the number of padding characters seen and the bits carried
  over.
\<close>

definition b64_val :: "char \<Rightarrow> nat option" where
  "b64_val c =
     (let n = of_char c :: nat
      in if 65 \<le> n \<and> n \<le> 90 then Some (n - 65)
         else if 97 \<le> n \<and> n \<le> 122 then Some (n - 71)
         else if 48 \<le> n \<and> n \<le> 57 then Some (n + 4)
         else if n = 43 then Some 62
         else if n = 47 then Some 63
         else None)"

fun b64_go :: "nat \<Rightarrow> nat \<Rightarrow> nat \<Rightarrow> string \<Rightarrow> exn + string" where
  "b64_go pos pads left [] =
     (if pos = 0 then Inr []
      else if pos = 1 then Inl (PyValueError
        ''Invalid base64-encoded string: number of data characters cannot be 1 more than a multiple of 4'')
      else Inl (PyValueError ''Incorrect padding''))"
| "b64_go pos pads left (c # cs) =
     (if c = CHR ''='' then
        (if 2 \<le> pos then (if 4 \<le> pos + (pads + 1) then Inr [] else b64_go pos (pads + 1) left cs)
         else b64_go pos pads left cs)
      else case b64_val c of
        None \<Rightarrow> b64_go pos pads left cs
      | Some v \<Rightarrow>
          (if pos = 0 then b64_go 1 0 v cs
           else let emit = (if pos = 1 then left * 4 + v div 16
                            else if pos = 2 then left * 16 + v div 4
                            else left * 64 + v);
                    left' = (if pos = 1 then v mod 16 else if pos = 2 then v mod 4 else 0)
                in map_sum id ((#) (char_of emit)) (b64_go ((pos + 1) mod 4) 0 left' cs)))"

definition b64decode :: "string \<Rightarrow> exn + string" where
  "b64decode s =
     (if \<exists>c \<in> set s. 128 \<le> (of_char c :: nat)
      then Inl (PyValueError ''string argument should contain only ASCII characters'')
      else b64_go 0 0 0 s)"

lemma b64decode_example: "b64decode ''c2VjcmV0'' = Inr ''secret''"
  by (simp add: b64decode_def b64_val_def Let_def char_of_def bit_0)

lemma b64decode_empty: "b64decode '''' = Inr ''''"
  by (simp add: b64decode_def)

section \<open>JWT (infrastructure/security/jwt.py)\<close>

text \<open>The fields of \<open>CipherSettings\<close> in \<open>settings/core.py\<close>; the lifetimes are seconds.\<close>

record cipher_settings =
  cs_algorithm :: string
  cs_secret_key :: string
  cs_public_key :: string
  cs_access_token_expire_seconds :: int
  cs_refresh_token_expire_seconds :: int

definition default_cipher_settings :: cipher_settings where
  "default_cipher_settings =
     \<lparr>cs_algorithm = [], cs_secret_key = [], cs_public_key = [],
      cs_access_token_expire_seconds = 0, cs_refresh_token_expire_seconds = 0\<rparr>"

text \<open>
  PyJWT: \<open>pj_encode claims key alg\<close>, and \<open>pj_decode now tok key algs\<close>, which checks the claims
  against the clock.
\<close>

record pyjwt =
  pj_encode :: "pydict \<Rightarrow> string \<Rightarrow> string \<Rightarrow> exn + string"
  pj_decode :: "int \<Rightarrow> string \<Rightarrow> string \<Rightarrow> string list \<Rightarrow> exn + pydict"

text \<open>\<open>except jwt.PyJWTError: raise UnAuthorizedError(message)\<close>; other exceptions pass.\<close>

fun pyjwt_guard :: "string \<Rightarrow> exn + 'a \<Rightarrow> exn + 'a" where
  "pyjwt_guard message (Inl (PyJWTError e)) = Inl (App (simple_error UnAuthorizedError message))"
| "pyjwt_guard message r = r"

lemma pyjwt_guard_ok [simp]: "pyjwt_guard m r = Inr x \<longleftrightarrow> r = Inr x"
  by (cases "(m, r)" rule: pyjwt_guard.cases) simp_all

definition token_claims :: "int \<Rightarrow> int \<Rightarrow> token_type \<Rightarrow> string \<Rightarrow> pydict" where
  "token_claims expire now typ sub =
     [(''exp'', PDate expire), (''sub'', PStr sub), (''iat'', PDate now),
      (''type'', PStr (token_type_str typ))]"

definition token_expire :: "cipher_settings \<Rightarrow> int \<Rightarrow> token_type \<Rightarrow> int option \<Rightarrow> int" where
  "token_expire S now typ expires_delta =
     (case expires_delta of
        Some d \<Rightarrow> if d \<noteq> 0 then now + d
          else now + 1000000 * (if typ = Access then cs_access_token_expire_seconds S
                                else cs_refresh_token_expire_seconds S)
      | None \<Rightarrow> now + 1000000 * (if typ = Access then cs_access_token_expire_seconds S
                                 else cs_refresh_token_expire_seconds S))"

definition jwt_create ::
  "pyjwt \<Rightarrow> cipher_settings \<Rightarrow> int \<Rightarrow> token_type \<Rightarrow> string \<Rightarrow> int option \<Rightarrow> pydict
    \<Rightarrow> exn + (int \<times> string)" where
  "jwt_create P S now typ sub expires_delta kw =
     (let expire = token_expire S now typ expires_delta
      in if expire \<le> now
         then Inl (App (simple_error ConflictError ''Invalid expiration delta was provided''))
         else case b64decode (cs_secret_key S) of
           Inl e \<Rightarrow> Inl e
         | Inr key \<Rightarrow>
             (case pyjwt_guard ''Token is expired''
                (pj_encode P (dict_merge (token_claims expire now typ sub) kw) key (cs_algorithm S)) of
                Inl e \<Rightarrow> Inl e
              | Inr token \<Rightarrow> Inr (expire, token)))"

definition jwt_verify_token ::
  "pyjwt \<Rightarrow> cipher_settings \<Rightarrow> int \<Rightarrow> string \<Rightarrow> exn + pydict" where
  "jwt_verify_token P S now token =
     (case b64decode (cs_public_key S) of
        Inl e \<Rightarrow> Inl e
      | Inr key \<Rightarrow> pyjwt_guard ''Token is invalid or expired''
          (pj_decode P now token key [cs_algorithm S]))"

definition jwt_of :: "pyjwt \<Rightarrow> cipher_settings \<Rightarrow> jwt" where
  "jwt_of P S = \<lparr>j_create = jwt_create P S, j_verify_token = jwt_verify_token P S\<rparr>"

text \<open>
  What the documentation of PyJWT says, for claims with an expiry, a subject, a time of issue and
  a type: such claims encode, to a token in the compact form (three base64url parts and two dots);
  the token decodes, with a key that goes with the signing key, to the claims with the dates as
  whole seconds while the expiry in whole seconds is in the future, and is refused from then on.
  \<open>key_pair alg sk pk\<close>: what \<open>sk\<close> signs under \<open>alg\<close>, \<open>pk\<close> verifies.
\<close>

definition decoded_claims :: "int \<Rightarrow> int \<Rightarrow> token_type \<Rightarrow> string \<Rightarrow> pydict" where
  "decoded_claims expire now typ sub =
     [(''exp'', PInt (expire div 1000000)), (''sub'', PStr sub), (''iat'', PInt (now div 1000000)),
      (''type'', PStr (token_type_str typ))]"

locale pyjwt_laws =
  fixes P :: pyjwt
    and key_pair :: "string \<Rightarrow> string \<Rightarrow> string \<Rightarrow> bool"
  assumes encode: "0 \<le> now \<Longrightarrow> now < expire \<Longrightarrow> key_pair alg sk pk \<Longrightarrow>
      \<exists>tok. pj_encode P (token_claims expire now typ sub) sk alg = Inr tok"
    and compact: "pj_encode P (token_claims expire now typ sub) sk alg = Inr tok \<Longrightarrow>
      CHR '':'' \<notin> set tok"
    and decode: "0 \<le> now \<Longrightarrow> now < expire \<Longrightarrow> key_pair alg sk pk \<Longrightarrow>
      pj_encode P (token_claims expire now typ sub) sk alg = Inr tok \<Longrightarrow>
      now \<le> t \<Longrightarrow> t < expire div 1000000 * 1000000 \<Longrightarrow>
      pj_decode P t tok pk [alg] = Inr (decoded_claims expire now typ sub)"
    and decode_expired: "0 \<le> now \<Longrightarrow> now < expire \<Longrightarrow> key_pair alg sk pk \<Longrightarrow>
      pj_encode P (token_claims expire now typ sub) sk alg = Inr tok \<Longrightarrow>
      expire div 1000000 * 1000000 \<le> t \<Longrightarrow>
      \<exists>e. pj_decode P t tok pk [alg] = Inl (PyJWTError e)"

text \<open>
  Settings the program can work with: both keys decode and go together, and the lifetimes are
  positive.
\<close>

definition token_life :: "cipher_settings \<Rightarrow> token_type \<Rightarrow> int" where
  "token_life S typ = 1000000 * (if typ = Access then cs_access_token_expire_seconds S
     else cs_refresh_token_expire_seconds S)"

definition good_ciphers :: "(string \<Rightarrow> string \<Rightarrow> string \<Rightarrow> bool) \<Rightarrow> cipher_settings \<Rightarrow> bool" where
  "good_ciphers key_pair S \<longleftrightarrow>
     (case (b64decode (cs_secret_key S), b64decode (cs_public_key S)) of
        (Inr sk, Inr pk) \<Rightarrow> key_pair (cs_algorithm S) sk pk
      | _ \<Rightarrow> False) \<and>
     0 < cs_access_token_expire_seconds S \<and> 0 < cs_refresh_token_expire_seconds S"

lemma token_expire_None: "token_expire S now typ None = now + token_life S typ"
  by (simp add: token_expire_def token_life_def)

lemma token_life_pos: "good_ciphers kp S \<Longrightarrow> 0 < token_life S typ"
  by (auto simp: good_ciphers_def token_life_def)

lemma sublist_imp_mem: "sublist [c, d] s \<Longrightarrow> c \<in> set s"
  by (auto simp: sublist_def)

lemma div_micro_le: "e div 1000000 * 1000000 \<le> (e :: int)"
  using div_mult_mod_eq [of e 1000000] pos_mod_sign [of 1000000 e] by linarith

locale jwt_service = pyjwt_laws P key_pair
  for P :: pyjwt and key_pair :: "string \<Rightarrow> string \<Rightarrow> string \<Rightarrow> bool" +
  fixes S :: cipher_settings
  assumes good: "good_ciphers key_pair S"
begin

lemma keys:
  obtains sk pk where "b64decode (cs_secret_key S) = Inr sk" "b64decode (cs_public_key S) = Inr pk"
    "key_pair (cs_algorithm S) sk pk"
  using good by (auto simp: good_ciphers_def split: sum.splits)

lemma create_encodes:
  assumes "0 \<le> now"
  shows "\<exists>sk tok. b64decode (cs_secret_key S) = Inr sk \<and>
    pj_encode P (token_claims (now + token_life S typ) now typ sub) sk (cs_algorithm S) = Inr tok \<and>
    jwt_create P S now typ sub None [] = Inr (now + token_life S typ, tok)"
proof -
  obtain sk pk where k: "b64decode (cs_secret_key S) = Inr sk" "key_pair (cs_algorithm S) sk pk"
    using keys by blast
  have "now < now + token_life S typ"
    using token_life_pos [OF good] by simp
  moreover from this obtain tok where
    "pj_encode P (token_claims (now + token_life S typ) now typ sub) sk (cs_algorithm S) = Inr tok"
    using encode [OF assms _ k(2)] by blast
  ultimately show ?thesis
    using k by (simp add: jwt_create_def token_expire_None)
qed

end

text \<open>The class keeps the contract of the protocol.\<close>

sublocale jwt_service \<subseteq> jwt: jwt_laws "jwt_of P S" "token_life S"
proof unfold_locales
  fix now :: int
  fix ty sub
  assume "0 \<le> now"
  then show "\<exists>tok. j_create (jwt_of P S) now ty sub None [] = Inr (now + token_life S ty, tok)"
    using create_encodes [of now ty sub] by (auto simp: jwt_of_def)
next
  fix now e t :: int
  fix ty sub tok
  assume now: "0 \<le> now" and cr: "j_create (jwt_of P S) now ty sub None [] = Inr (e, tok)"
  obtain sk pk where k: "b64decode (cs_secret_key S) = Inr sk" "b64decode (cs_public_key S) = Inr pk"
    "key_pair (cs_algorithm S) sk pk" using keys by blast
  have e: "e = now + token_life S ty" "now < e"
    and enc: "pj_encode P (token_claims e now ty sub) sk (cs_algorithm S) = Inr tok"
    using create_encodes [OF now, of ty sub] cr k(1) token_life_pos [OF good, of ty]
    by (auto simp: jwt_of_def)
  show "\<exists>p. j_verify_token (jwt_of P S) t tok = Inr p \<and>
      dict_get p ''type'' = Some (PStr (token_type_str ty)) \<and> dict_get p ''sub'' = Some (PStr sub)"
    if "now \<le> t" "t < e div 1000000 * 1000000"
    using decode [OF now e(2) k(3) enc that] k(2)
    by (simp add: jwt_of_def jwt_verify_token_def decoded_claims_def)
  show "\<exists>a. j_verify_token (jwt_of P S) t tok = Inl (App a) \<and> exc_class a = UnAuthorizedError"
    if "e \<le> t"
  proof -
    have "e div 1000000 * 1000000 \<le> t"
      using that by (auto intro: order_trans [OF div_micro_le])
    then obtain x where "pj_decode P t tok pk [cs_algorithm S] = Inl (PyJWTError x)"
      using decode_expired [OF now e(2) k(3) enc] by blast
    with k(2) show ?thesis
      by (simp add: jwt_of_def jwt_verify_token_def)
  qed
next
  fix now e :: int
  fix ty sub tok
  assume "j_create (jwt_of P S) now ty sub None [] = Inr (e, tok)"
  then obtain sk where "pj_encode P (token_claims e now ty sub) sk (cs_algorithm S) = Inr tok"
    by (auto simp: jwt_of_def jwt_create_def Let_def split: if_splits sum.splits)
  then show "\<not> sublist ''::'' tok"
    using compact by (blast dest: sublist_imp_mem)
qed

context jwt_service
begin

lemma class_keeps_contract: "jwt_laws (jwt_of P S) (token_life S)"
  by (rule jwt.jwt_laws_axioms)

end

section \<open>Argon2 (infrastructure/security/argon2.py)\<close>

text \<open>\<open>PasswordHasher\<close> of argon2-cffi.\<close>

record password_hasher =
  ph_hash :: "string \<Rightarrow> exn + string"
  ph_verify :: "string \<Rightarrow> string \<Rightarrow> exn + bool"

definition argon2_hash_password :: "password_hasher \<Rightarrow> string \<Rightarrow> exn + string" where
  "argon2_hash_password A plain = ph_hash A plain"

definition argon2_verify_password :: "password_hasher \<Rightarrow> string \<Rightarrow> string \<Rightarrow> exn + bool" where
  "argon2_verify_password A hashed plain =
     (case ph_verify A hashed plain of
        Inl VerifyMismatchError \<Rightarrow> Inr False
      | Inl (VerificationError _) \<Rightarrow> Inr False
      | r \<Rightarrow> r)"

definition argon2_of :: "password_hasher \<Rightarrow> hasher" where
  "argon2_of A =
     \<lparr>h_hash_password = argon2_hash_password A, h_verify_password = argon2_verify_password A\<rparr>"

text \<open>
  The options \<open>get_argon2_hasher\<close> gives to \<open>PasswordHasher\<close>: none for the default profile, else
  those of the profile without its version; the keyword arguments of the caller win.
\<close>

definition argon2_options ::
  "(string \<Rightarrow> pydict option) \<Rightarrow> string \<Rightarrow> pydict \<Rightarrow> exn + pydict" where
  "argon2_options profiles profile kwargs =
     (if profile = ''DEFAULT'' then Inr (dict_merge [] kwargs)
      else case profiles profile of
        None \<Rightarrow> Inl (PyKeyError profile)
      | Some p \<Rightarrow> Inr (dict_merge (AList.delete ''version'' p) kwargs))"

text \<open>
  The table of the profiles; what a profile of argon2 holds is the parameter \<open>lib\<close>.  A profile the
  annotation allows is never a \<open>KeyError\<close>.
\<close>

definition profile_type :: "string list" where
  "profile_type = [''RFC_9106_LOW_MEMORY'', ''RFC_9106_HIGH_MEMORY'', ''CHEAPEST'', ''PRE_21_2'', ''DEFAULT'']"

definition PROFILES :: "(string \<Rightarrow> pydict) \<Rightarrow> string \<Rightarrow> pydict option" where
  "PROFILES lib =
     map_of [(''RFC_9106_LOW_MEMORY'', lib ''RFC_9106_LOW_MEMORY''),
       (''RFC_9106_HIGH_MEMORY'', lib ''RFC_9106_HIGH_MEMORY''), (''CHEAPEST'', lib ''CHEAPEST''),
       (''PRE_21_2'', lib ''PRE_21_2'')]"

lemma profiles_known:
  "profile \<in> set profile_type \<Longrightarrow> \<exists>kw. argon2_options (PROFILES lib) profile kwargs = Inr kw"
  by (auto simp: profile_type_def argon2_options_def PROFILES_def)

text \<open>The documented behaviour: the right password verifies, any other is a mismatch.\<close>

locale argon2_laws =
  fixes A :: password_hasher
  assumes ph_hash: "\<exists>h. ph_hash A plain = Inr h"
    and ph_verify: "ph_hash A plain = Inr h \<Longrightarrow>
      ph_verify A h other = (if other = plain then Inr True else Inl VerifyMismatchError)"

sublocale argon2_laws \<subseteq> hasher: hasher_laws "argon2_of A"
  by unfold_locales
    (auto simp: argon2_of_def argon2_hash_password_def argon2_verify_password_def ph_hash ph_verify)

end
