(* ===== verification/Auth_Service.thy ===== *)
theory Auth_Service
  imports Cache Security
begin

text \<open>
  \<open>AuthService\<close> of \<open>application/v1/services/auth.py\<close>: the sessions of a user are a list of entries
  \<open>fingerprint::refresh token\<close> in the cache, under the text of the user's identifier.  The service
  rests on the protocols \<open>StrCache\<close> and \<open>JWT\<close>; the locale \<open>auth_service\<close> takes their contracts and
  proves what login, refresh and logout do to the sessions, and at which bound they stay.
\<close>

section \<open>The service\<close>

text \<open>
  Reading an identifier from a text is the business of \<open>uuid_utils\<close>, a library: the parameter
  \<open>as_parse_uuid\<close>.
\<close>

definition DEFAULT_TOKENS_COUNT :: nat where
  "DEFAULT_TOKENS_COUNT = 5"

record tokens =
  tk_access :: string
  tk_refresh :: string

record tokens_expire =
  te_refresh_expire :: int
  te_tokens :: tokens

record 'c auth =
  as_jwt :: jwt
  as_cache :: "'c str_cache"
  as_parse_uuid :: "string \<Rightarrow> uuid option"

text \<open>
  Each method takes \<open>ts\<close>: \<open>ts i\<close> is what the clock says at the \<open>i\<close>-th time the method reads it.
\<close>

definition issue_tokens ::
  "'c auth \<Rightarrow> int \<Rightarrow> int \<Rightarrow> uuid \<Rightarrow> ('c, tokens_expire) io" where
  "issue_tokens A t1 t2 u =
     io_bind (io_lift (j_create (as_jwt A) t1 Access (uuid_str u) None [])) (\<lambda>(_, access).
     io_bind (io_lift (j_create (as_jwt A) t2 Refresh (uuid_str u) None [])) (\<lambda>(expire, refresh).
     io_return \<lparr>te_refresh_expire = expire,
       te_tokens = \<lparr>tk_access = access, tk_refresh = refresh\<rparr>\<rparr>))"

definition session_entry :: "string \<Rightarrow> string \<Rightarrow> string" where
  "session_entry fingerprint refresh = fingerprint @ ''::'' @ refresh"

definition auth_login ::
  "'c auth \<Rightarrow> (nat \<Rightarrow> int) \<Rightarrow> string \<Rightarrow> uuid \<Rightarrow> ('c, tokens_expire) io" where
  "auth_login A ts fingerprint user_uuid =
     io_bind (issue_tokens A (ts 0) (ts 1) user_uuid) (\<lambda>res.
     io_bind (sc_get_list (as_cache A) (uuid_str user_uuid)) (\<lambda>tokens.
     io_bind (if DEFAULT_TOKENS_COUNT < length tokens
              then sc_delete (as_cache A) [uuid_str user_uuid] else io_return ()) (\<lambda>_.
     io_bind (sc_set_list (as_cache A) (uuid_str user_uuid)
                [session_entry fingerprint (tk_refresh (te_tokens res))] None) (\<lambda>_.
     io_return res))))"

text \<open>
  \<open>verify_token\<close>: the claims are those the library accepts; \<open>uuid.UUID(sub)\<close> raises \<open>TypeError\<close>
  without a text and \<open>ValueError\<close> for a text that is no identifier.
\<close>

definition auth_verify_token ::
  "'c auth \<Rightarrow> int \<Rightarrow> string \<Rightarrow> token_type \<Rightarrow> ('c, uuid) io" where
  "auth_verify_token A t token ty =
     io_bind (io_lift (j_verify_token (as_jwt A) t token)) (\<lambda>payload.
     let actual_token_type = dict_get payload ''type''; user_id = dict_get payload ''sub''
     in if actual_token_type \<noteq> Some (PStr (token_type_str ty))
        then raise_app ForbiddenError ''Invalid token''
        else (case user_id of
            Some (PStr s) \<Rightarrow> (case as_parse_uuid A s of
                Some u \<Rightarrow> io_return u
              | None \<Rightarrow> io_raise (PyValueError ''badly formed hexadecimal UUID string''))
          | _ \<Rightarrow> io_raise (PyTypeError ''UUID'')))"

text \<open>
  The loop of \<open>verify_refresh\<close> over the entries: it stops at an entry without a separator, or at
  the first one with the fingerprint and the token.
\<close>

datatype scan = Broken | Verified string | NotVerified

fun find_pair :: "string \<Rightarrow> string \<Rightarrow> string list \<Rightarrow> scan" where
  "find_pair fingerprint refresh_token [] = NotVerified"
| "find_pair fingerprint refresh_token (pair # token_pairs) =
     (case py_split ''::'' pair of
        fp # cached_token # _ \<Rightarrow>
          if fp = fingerprint \<and> cached_token = refresh_token then Verified pair
          else find_pair fingerprint refresh_token token_pairs
      | _ \<Rightarrow> Broken)"

definition auth_verify_refresh ::
  "'c auth \<Rightarrow> (nat \<Rightarrow> int) \<Rightarrow> string \<Rightarrow> string \<Rightarrow> ('c, tokens_expire) io" where
  "auth_verify_refresh A ts fingerprint refresh_token =
     io_bind (auth_verify_token A (ts 0) refresh_token Refresh) (\<lambda>user_uuid.
     io_bind (sc_get_list (as_cache A) (uuid_str user_uuid)) (\<lambda>token_pairs.
     case find_pair fingerprint refresh_token token_pairs of
       Broken \<Rightarrow>
         io_bind (sc_delete (as_cache A) [uuid_str user_uuid]) (\<lambda>_.
         raise_app ForbiddenError
           ''Broken separator, try to login again. Token is not valid anymore'')
     | NotVerified \<Rightarrow>
         io_bind (sc_delete (as_cache A) [uuid_str user_uuid]) (\<lambda>_.
         raise_app ForbiddenError ''Token is not valid anymore'')
     | Verified verified \<Rightarrow>
         io_bind (sc_discard (as_cache A) (uuid_str user_uuid) verified) (\<lambda>_.
         io_bind (issue_tokens A (ts 1) (ts 2) user_uuid) (\<lambda>res.
         io_bind (sc_set_list (as_cache A) (uuid_str user_uuid)
                    [session_entry fingerprint (tk_refresh (te_tokens res))] None) (\<lambda>_.
         io_return res)))))"

text \<open>The loop of \<open>invalidate_refresh\<close>: what it does at the first entry it stops at.\<close>

fun find_token :: "string \<Rightarrow> string list \<Rightarrow> scan" where
  "find_token refresh_token [] = NotVerified"
| "find_token refresh_token (pair # token_pairs) =
     (case py_split ''::'' pair of
        _ # cached_token # _ \<Rightarrow>
          if cached_token = refresh_token then Verified pair
          else find_token refresh_token token_pairs
      | _ \<Rightarrow> Broken)"

definition auth_invalidate_refresh ::
  "'c auth \<Rightarrow> (nat \<Rightarrow> int) \<Rightarrow> string \<Rightarrow> uuid \<Rightarrow> ('c, bool) io" where
  "auth_invalidate_refresh A ts refresh_token user_uuid =
     io_bind (auth_verify_token A (ts 0) refresh_token Refresh) (\<lambda>_.
     io_bind (sc_get_list (as_cache A) (uuid_str user_uuid)) (\<lambda>token_pairs.
     io_bind (case find_token refresh_token token_pairs of
         Broken \<Rightarrow> sc_delete (as_cache A) [uuid_str user_uuid]
       | Verified pair \<Rightarrow> sc_discard (as_cache A) (uuid_str user_uuid) pair
       | NotVerified \<Rightarrow> io_return ()) (\<lambda>_.
     io_return True)))"

section \<open>Entries\<close>

text \<open>
  A fingerprint is clean if its entry can be taken apart again: it holds no separator and does not
  end in half of one.
\<close>

definition clean :: "string \<Rightarrow> bool" where
  "clean fp \<longleftrightarrow> \<not> sublist ''::'' (fp @ '':'')"

lemma split_session_entry:
  "clean fp \<Longrightarrow> \<not> sublist ''::'' tok \<Longrightarrow> py_split ''::'' (session_entry fp tok) = [fp, tok]"
  unfolding session_entry_def clean_def
  by (subst py_split_append) (simp_all add: py_split_no_sep)

lemma session_entry_inject:
  assumes "clean fp" "clean fp'" "\<not> sublist ''::'' tok" "\<not> sublist ''::'' tok'"
  shows "session_entry fp tok = session_entry fp' tok' \<longleftrightarrow> fp = fp' \<and> tok = tok'"
proof
  assume "session_entry fp tok = session_entry fp' tok'"
  then have "[fp, tok] = [fp', tok']"
    by (simp only: split_session_entry [OF assms(1,3), symmetric]
        split_session_entry [OF assms(2,4), symmetric])
  then show "fp = fp' \<and> tok = tok'" by simp
qed simp

text \<open>The entries login makes from clean fingerprints.\<close>

definition well_formed_entry :: "string \<Rightarrow> bool" where
  "well_formed_entry e \<longleftrightarrow> (\<exists>fp tok. e = session_entry fp tok \<and> clean fp \<and> \<not> sublist ''::'' tok)"

lemma well_formed_entryI: "clean fp \<Longrightarrow> \<not> sublist ''::'' tok \<Longrightarrow> well_formed_entry (session_entry fp tok)"
  by (auto simp: well_formed_entry_def)

lemma find_pair_well_formed:
  assumes "\<forall>e \<in> set es. well_formed_entry e" and "clean fp" and "\<not> sublist ''::'' tok"
  shows "find_pair fp tok es =
    (if session_entry fp tok \<in> set es then Verified (session_entry fp tok) else NotVerified)"
  using assms(1)
proof (induction es)
  case (Cons e es)
  then obtain f t where e: "e = session_entry f t" "clean f" "\<not> sublist ''::'' t"
    by (auto simp: well_formed_entry_def)
  with Cons assms(2,3) show ?case
    by (auto simp: split_session_entry session_entry_inject)
qed simp

text \<open>An entry the scan accepts is one of the list and splits into the two texts.\<close>

lemma find_pair_verified:
  "find_pair fp tok es = Verified e \<Longrightarrow> e \<in> set es \<and> (\<exists>rest. py_split ''::'' e = fp # tok # rest)"
  by (induction es) (auto split: list.splits if_splits)

lemma find_token_verified:
  "find_token tok es = Verified e \<Longrightarrow> e \<in> set es \<and> (\<exists>f rest. py_split ''::'' e = f # tok # rest)"
  by (induction es) (auto split: list.splits if_splits)

lemma find_token_well_formed:
  "\<forall>e \<in> set es. well_formed_entry e \<Longrightarrow> find_token tok es \<noteq> Broken"
  by (induction es) (auto simp: well_formed_entry_def split_session_entry split: if_splits)

lemma find_token_none:
  "\<forall>e \<in> set es. well_formed_entry e \<Longrightarrow> find_token tok es = NotVerified \<Longrightarrow> \<not> sublist ''::'' tok \<Longrightarrow>
    clean fp \<Longrightarrow> session_entry fp tok \<notin> set es"
  by (induction es) (auto simp: split_session_entry split: list.splits if_splits)

text \<open>
  A text with a separator in it never equals the first piece of an entry: such a fingerprint is
  never found again.
\<close>

lemma py_split_pieces_no_sep:
  "sep \<noteq> [] \<Longrightarrow> w \<in> set (py_split sep s) \<Longrightarrow> \<not> sublist sep w"
proof (induction sep s arbitrary: w rule: py_split.induct)
  case (1 sep)
  then show ?case by simp
next
  case (2 sep c cs)
  show ?case
  proof (cases "prefix sep (c # cs)")
    case True
    with 2 show ?thesis by auto
  next
    case False
    obtain v ws where v: "py_split sep cs = v # ws" by (cases "py_split sep cs") auto
    have pre: "prefix v cs"
    proof -
      have "py_join sep (v # ws) = cs"
        using v py_join_split [OF 2(3), of cs] by simp
      then show ?thesis by (cases ws) (auto simp: prefix_def)
    qed
    have "\<not> sublist sep (c # v)"
    proof
      assume "sublist sep (c # v)"
      then have "prefix sep (c # v) \<or> sublist sep v"
        by (simp add: sublist_Cons_right)
      then show False
        using False pre 2(2) [OF False 2(3), of v] v by (auto intro: prefix_order.trans)
    qed
    moreover have "\<not> sublist sep u" if "u \<in> set ws" for u
      using 2(2) [OF False 2(3), of u] v that by simp
    ultimately show ?thesis
      using 2(4) False v by auto
  qed
qed

lemma find_pair_separator_in_fingerprint:
  "sublist ''::'' fp \<Longrightarrow> find_pair fp tok es \<noteq> Verified e"
  using find_pair_verified [of fp tok es e] py_split_pieces_no_sep [of "''::''" fp e] by auto

text \<open>
  Whatever the fingerprint, an entry has a separator.  The scans go by its first two pieces, so for a
  fingerprint with a separator they take a piece of it for the token.
\<close>

definition separated :: "string \<Rightarrow> bool" where
  "separated e \<longleftrightarrow> (\<exists>fp tok rest. py_split ''::'' e = fp # tok # rest)"

definition entry_session :: "string \<Rightarrow> string \<times> string \<times> string list" where
  "entry_session e = (case py_split ''::'' e of fp # tok # rest \<Rightarrow> (fp, tok, rest) | _ \<Rightarrow> ([], e, []))"

lemma separated_entry: "separated (session_entry fp tok)"
proof -
  let ?e = "session_entry fp tok"
  have sub: "sublist ''::'' ?e" by (auto simp: session_entry_def sublist_def)
  show ?thesis
  proof (cases "py_split ''::'' ?e")
    case (Cons w ws)
    then have "\<not> sublist ''::'' w" using py_split_pieces_no_sep [of "''::''" w ?e] by simp
    moreover have "py_join ''::'' (w # ws) = ?e" using py_join_split [of "''::''" ?e] Cons by simp
    ultimately have "ws \<noteq> []" using sub by auto
    with Cons show ?thesis by (cases ws) (auto simp: separated_def)
  qed (simp add: py_split_nonempty)
qed

lemma entry_session_entry: "clean fp \<Longrightarrow> \<not> sublist ''::'' tok \<Longrightarrow> entry_session (session_entry fp tok) = (fp, tok, [])"
  by (simp add: entry_session_def split_session_entry)

lemma entry_session_inj: "inj_on entry_session {e. separated e}"
proof (rule inj_onI)
  fix x y assume "x \<in> {e. separated e}" "y \<in> {e. separated e}" "entry_session x = entry_session y"
  then have "py_split ''::'' x = py_split ''::'' y" by (auto simp: separated_def entry_session_def)
  then show "x = y" using py_join_split [of "''::''"] by (metis list.distinct(1))
qed

lemma find_pair_separated:
  "\<forall>e \<in> set es. separated e \<Longrightarrow> find_pair fp tok es =
    (case find (\<lambda>e. \<exists>rest. entry_session e = (fp, tok, rest)) es of Some e \<Rightarrow> Verified e | None \<Rightarrow> NotVerified)"
  by (induction es) (auto simp: separated_def entry_session_def)

lemma find_pair_token:
  assumes "\<forall>e \<in> set es. separated e" and "find_pair fp tok es = Verified e"
  shows "e \<in> set es \<and> fst (snd (entry_session e)) = tok"
  using find_pair_verified [OF assms(2)] by (auto simp: entry_session_def)

lemma find_token_separated:
  "\<forall>e \<in> set es. separated e \<Longrightarrow> find_token tok es =
    (case find (\<lambda>e. fst (snd (entry_session e)) = tok) es of Some e \<Rightarrow> Verified e | None \<Rightarrow> NotVerified)"
  by (induction es) (auto simp: separated_def entry_session_def)

text \<open>A fingerprint that was found is a clean one.\<close>

lemma split_head_clean: "py_split ''::'' e = w # v # ws \<Longrightarrow> clean w"
proof (induction e arbitrary: w)
  case (Cons c cs)
  show ?case
  proof (cases "prefix ''::'' (c # cs)")
    case True
    then show ?thesis using Cons.prems by (auto simp: clean_def sublist_Cons_right)
  next
    case False
    have "(case py_split ''::'' cs of w # ws \<Rightarrow> (c # w) # ws | [] \<Rightarrow> [[c]]) = w # v # ws"
      using Cons.prems unfolding py_split.simps if_not_P [OF False] .
    then obtain w' where w: "py_split ''::'' cs = w' # v # ws" "w = c # w'"
      by (auto split: list.splits)
    then have "cs = w' @ ''::'' @ py_join ''::'' (v # ws)"
      using py_join_split [of "''::''" cs] by (simp add: py_join_Cons)
    with False have "\<not> prefix ''::'' (c # w' @ '':'')" by (cases w') auto
    then show ?thesis using Cons.IH [OF w(1)] by (simp add: clean_def w(2) sublist_Cons_right)
  qed
qed simp

lemma find_pair_verified_clean: "find_pair fp tok es = Verified e \<Longrightarrow> clean fp"
  using find_pair_verified split_head_clean by blast

section \<open>What the service does to the sessions\<close>

text \<open>An identifier whose text reads back as itself, as the texts of \<open>uuid_utils\<close> do.\<close>

definition known_uuid :: "'c auth \<Rightarrow> uuid \<Rightarrow> bool" where
  "known_uuid A u \<longleftrightarrow> as_parse_uuid A (uuid_str u) = Some u"

text \<open>A login or refresh adds its entry to the sessions that stay.\<close>

definition sessions_after_login :: "string list \<Rightarrow> string \<Rightarrow> string list" where
  "sessions_after_login es e = e # (if DEFAULT_TOKENS_COUNT < length es then [] else es)"

definition sessions_after_refresh :: "string list \<Rightarrow> string \<Rightarrow> string \<Rightarrow> string list" where
  "sessions_after_refresh es used e = e # filter (\<lambda>x. x \<noteq> used) es"

lemma sessions_after_login_length: "length (sessions_after_login es e) \<le> DEFAULT_TOKENS_COUNT + 1"
  by (simp add: sessions_after_login_def)

lemma length_filter_neq: "x \<in> set xs \<Longrightarrow> length (filter (\<lambda>y. y \<noteq> x) xs) < length xs"
  by (rule length_filter_less) auto

lemma sessions_after_refresh_length:
  "used \<in> set es \<Longrightarrow> length (sessions_after_refresh es used e) \<le> length es"
  using length_filter_neq [of used es] by (simp add: sessions_after_refresh_def)

locale auth_service =
  cache: str_cache_laws "as_cache A" strs lists + tokens: jwt_laws "as_jwt A" life
  for A :: "'c auth" and strs and lists and life +
  assumes parse: "as_parse_uuid A s = Some u \<Longrightarrow> known_uuid A u \<and> plain_key (uuid_str u)"
begin

lemma known_plain: "known_uuid A u \<Longrightarrow> plain_key (uuid_str u)"
  using parse by (auto simp: known_uuid_def)

lemma issue_tokens_spec:
  assumes "0 \<le> t1" and "0 \<le> t2"
  shows "\<exists>res. (\<forall>c. issue_tokens A t1 t2 u c = (Inr res, c)) \<and>
    j_create (as_jwt A) t1 Access (uuid_str u) None [] = Inr (t1 + life Access, tk_access (te_tokens res)) \<and>
    j_create (as_jwt A) t2 Refresh (uuid_str u) None [] =
      Inr (te_refresh_expire res, tk_refresh (te_tokens res)) \<and>
    te_refresh_expire res = t2 + life Refresh"
proof -
  obtain a r where
    "j_create (as_jwt A) t1 Access (uuid_str u) None [] = Inr (t1 + life Access, a)"
    "j_create (as_jwt A) t2 Refresh (uuid_str u) None [] = Inr (t2 + life Refresh, r)"
    using tokens.create assms by blast
  then show ?thesis by (simp add: issue_tokens_def io_simps)
qed

lemma login_spec:
  assumes "0 \<le> ts 0" and "0 \<le> ts 1" and "known_uuid A u" and "strs c (uuid_str u) = None"
  shows "\<exists>res. fst (auth_login A ts fp u c) = Inr res \<and>
    j_create (as_jwt A) (ts 1) Refresh (uuid_str u) None [] =
      Inr (te_refresh_expire res, tk_refresh (te_tokens res)) \<and>
    te_refresh_expire res = ts 1 + life Refresh \<and>
    strs (snd (auth_login A ts fp u c)) = strs c \<and>
    lists (snd (auth_login A ts fp u c)) = (lists c)(uuid_str u :=
      sessions_after_login (lists c (uuid_str u)) (session_entry fp (tk_refresh (te_tokens res))))"
proof -
  obtain res where res: "issue_tokens A (ts 0) (ts 1) u c = (Inr res, c)"
    "j_create (as_jwt A) (ts 1) Refresh (uuid_str u) None [] =
      Inr (te_refresh_expire res, tk_refresh (te_tokens res))"
    "te_refresh_expire res = ts 1 + life Refresh"
    using issue_tokens_spec assms(1,2) by blast
  have "(strs c)(uuid_str u := None) = strs c"
    using assms(4) by (simp add: fun_upd_idem)
  with res assms(4) known_plain [OF assms(3)] show ?thesis
    by (simp add: auth_login_def io_simps cache.cache_laws sessions_after_login_def)
qed

lemma verify_token_spec:
  assumes "0 \<le> now" and "j_create (as_jwt A) now ty (uuid_str u) None [] = Inr (e, tok)"
    and "now \<le> t" and "t < e div 1000000 * 1000000" and "known_uuid A u"
  shows "auth_verify_token A t tok ty' c =
    (if ty' = ty then (Inr u, c) else (Inl (App (simple_error ForbiddenError ''Invalid token'')), c))"
  using tokens.verify [OF assms(1-4)] assms(5)
  by (auto simp: auth_verify_token_def io_simps known_uuid_def)

lemma verify_token_state: "snd (auth_verify_token A t tok ty c) = c"
  by (auto simp: auth_verify_token_def io_simps Let_def split: sum.splits option.splits pyval.splits)

lemma verify_token_fst: "fst (auth_verify_token A t tok ty c) = fst (auth_verify_token A t tok ty d)"
  by (cases "j_verify_token (as_jwt A) t tok")
    (auto simp: auth_verify_token_def io_simps Let_def split: option.splits pyval.splits)

lemma verify_token_any_state:
  assumes "fst (auth_verify_token A t tok ty c) = Inr u"
  shows "auth_verify_token A t tok ty d = (Inr u, d)"
  using assms verify_token_fst [of t tok ty d c] by (simp add: prod_eq_iff verify_token_state)

lemma verify_token_known: "fst (auth_verify_token A t tok ty c) = Inr u \<Longrightarrow> known_uuid A u"
  using parse
  by (auto simp: auth_verify_token_def io_simps Let_def
      split: sum.splits option.splits pyval.splits if_splits)

text \<open>Refresh, by the outcome of the search for the entry.\<close>

lemma refresh_verified:
  assumes "auth_verify_token A (ts 0) tok Refresh c = (Inr u, c)"
    and "strs c (uuid_str u) = None"
    and "find_pair fp tok (lists c (uuid_str u)) = Verified e"
    and "0 \<le> ts 1" and "0 \<le> ts 2"
  shows "\<exists>res. fst (auth_verify_refresh A ts fp tok c) = Inr res \<and>
    j_create (as_jwt A) (ts 2) Refresh (uuid_str u) None [] =
      Inr (te_refresh_expire res, tk_refresh (te_tokens res)) \<and>
    te_refresh_expire res = ts 2 + life Refresh \<and>
    strs (snd (auth_verify_refresh A ts fp tok c)) = strs c \<and>
    lists (snd (auth_verify_refresh A ts fp tok c)) = (lists c)(uuid_str u :=
      sessions_after_refresh (lists c (uuid_str u)) e (session_entry fp (tk_refresh (te_tokens res))))"
proof -
  obtain res where
    "\<forall>d. issue_tokens A (ts 1) (ts 2) u d = (Inr res, d)"
    "j_create (as_jwt A) (ts 2) Refresh (uuid_str u) None [] =
      Inr (te_refresh_expire res, tk_refresh (te_tokens res))"
    "te_refresh_expire res = ts 2 + life Refresh"
    using issue_tokens_spec [OF assms(4,5), of u] by blast
  with assms(1-3) show ?thesis
    by (simp add: auth_verify_refresh_def io_simps cache.cache_laws sessions_after_refresh_def)
qed

lemma refresh_rejected:
  assumes "auth_verify_token A (ts 0) tok Refresh c = (Inr u, c)" and "known_uuid A u"
    and "strs c (uuid_str u) = None"
    and "\<forall>e. find_pair fp tok (lists c (uuid_str u)) \<noteq> Verified e"
  shows "\<exists>a. fst (auth_verify_refresh A ts fp tok c) = Inl (App a) \<and> exc_class a = ForbiddenError"
    and "strs (snd (auth_verify_refresh A ts fp tok c)) = strs c"
    and "lists (snd (auth_verify_refresh A ts fp tok c)) = (lists c)(uuid_str u := [])"
proof -
  have "(strs c)(uuid_str u := None) = strs c"
    using assms(3) by (simp add: fun_upd_idem)
  note facts = this assms known_plain [OF assms(2)]
  show "\<exists>a. fst (auth_verify_refresh A ts fp tok c) = Inl (App a) \<and> exc_class a = ForbiddenError"
    and "strs (snd (auth_verify_refresh A ts fp tok c)) = strs c"
    and "lists (snd (auth_verify_refresh A ts fp tok c)) = (lists c)(uuid_str u := [])"
    using facts by (auto simp: auth_verify_refresh_def io_simps cache.cache_laws split: scan.splits)
qed

lemma refresh_token_refused:
  "fst (auth_verify_token A (ts 0) tok Refresh c) = Inl e \<Longrightarrow>
    auth_verify_refresh A ts fp tok c = (Inl e, c)"
  using verify_token_state [of "ts 0" tok Refresh c] by (simp add: auth_verify_refresh_def io_simps)

lemma logout_spec:
  assumes "auth_verify_token A (ts 0) tok Refresh c = (Inr u', c)" and "known_uuid A u"
    and "strs c (uuid_str u) = None"
  shows "fst (auth_invalidate_refresh A ts tok u c) = Inr True"
    and "strs (snd (auth_invalidate_refresh A ts tok u c)) = strs c"
    and "lists (snd (auth_invalidate_refresh A ts tok u c)) = (lists c)(uuid_str u :=
      (case find_token tok (lists c (uuid_str u)) of
         Broken \<Rightarrow> [] | Verified e \<Rightarrow> filter (\<lambda>x. x \<noteq> e) (lists c (uuid_str u))
       | NotVerified \<Rightarrow> lists c (uuid_str u)))"
proof -
  have "(strs c)(uuid_str u := None) = strs c"
    using assms(3) by (simp add: fun_upd_idem)
  note facts = this assms known_plain [OF assms(2)]
  show "fst (auth_invalidate_refresh A ts tok u c) = Inr True"
    and "strs (snd (auth_invalidate_refresh A ts tok u c)) = strs c"
    and "lists (snd (auth_invalidate_refresh A ts tok u c)) = (lists c)(uuid_str u :=
      (case find_token tok (lists c (uuid_str u)) of
         Broken \<Rightarrow> [] | Verified e \<Rightarrow> filter (\<lambda>x. x \<noteq> e) (lists c (uuid_str u))
       | NotVerified \<Rightarrow> lists c (uuid_str u)))"
    using facts by (auto simp: auth_invalidate_refresh_def io_simps cache.cache_laws split: scan.splits)
qed

lemma logout_token_refused:
  "fst (auth_verify_token A (ts 0) tok Refresh c) = Inl e \<Longrightarrow>
    auth_invalidate_refresh A ts tok u c = (Inl e, c)"
  using verify_token_state [of "ts 0" tok Refresh c] by (simp add: auth_invalidate_refresh_def io_simps)

end

text \<open>The service on another cache.\<close>

definition with_cache :: "'b auth \<Rightarrow> 'c str_cache \<Rightarrow> 'c auth" where
  "with_cache A C = \<lparr>as_jwt = as_jwt A, as_cache = C, as_parse_uuid = as_parse_uuid A\<rparr>"

lemma with_cache_simps [simp]:
  "as_jwt (with_cache A C) = as_jwt A" "as_cache (with_cache A C) = C"
  "as_parse_uuid (with_cache A C) = as_parse_uuid A" "known_uuid (with_cache A C) = known_uuid A"
  by (simp_all add: with_cache_def known_uuid_def fun_eq_iff)

lemma auth_service_with_cache:
  assumes "auth_service A strs lsts life" and "str_cache_laws C strs' lsts'"
  shows "auth_service (with_cache A C) strs' lsts' life"
proof -
  have "auth_service_axioms (with_cache A C)"
    by unfold_locales (use auth_service.parse [OF assms(1)] in auto)
  with assms(2) auth_service.axioms(2) [OF assms(1)] show ?thesis
    by (auto intro!: auth_service.intro)
qed

end
