(* ===== verification/Models.thy ===== *)
theory Models
  imports Tools
begin

text \<open>
  The models of \<open>database/psql/models\<close>: the rows of the tables \<open>user\<close> and \<open>role\<close>, what SQLAlchemy
  keeps in the \<open>__dict__\<close> of a loaded row, \<open>Base.as_dict\<close>, and the results of
  \<open>application/v1/results\<close> that are built from it.
\<close>

section \<open>Rows (models/role.py, models/user.py)\<close>

datatype role_type = ADMIN | USER

fun role_type_value :: "role_type \<Rightarrow> string" where
  "role_type_value ADMIN = ''Admin''"
| "role_type_value USER = ''User''"

lemma role_type_value_inject [simp]: "role_type_value a = role_type_value b \<longleftrightarrow> a = b"
  by (cases a; cases b) simp_all

record role_row =
  r_uuid :: uuid
  r_name :: role_type
  r_created_at :: int
  r_updated_at :: int

text \<open>
  A relationship is loaded with the row or it is not; a loaded \<open>User.role\<close> is \<open>None\<close> when no row
  joins.
\<close>

datatype 'a relation = NotLoaded | Loaded 'a

record user_row =
  u_uuid :: uuid
  u_login :: string
  u_password :: string
  u_active :: bool
  u_role_uuid :: uuid
  u_created_at :: int
  u_updated_at :: int
  u_role :: "role_row option relation"

text \<open>The attributes of a row, as a column expression names them.\<close>

definition role_column :: "role_row \<Rightarrow> pydict" where
  "role_column r =
     [(''name'', PStr (role_type_value (r_name r))), (''uuid'', PUuid (r_uuid r)),
      (''created_at'', PDate (r_created_at r)), (''updated_at'', PDate (r_updated_at r))]"

definition user_column :: "user_row \<Rightarrow> pydict" where
  "user_column u =
     [(''login'', PStr (u_login u)), (''password'', PStr (u_password u)),
      (''active'', PBool (u_active u)), (''role_uuid'', PUuid (u_role_uuid u)),
      (''uuid'', PUuid (u_uuid u)), (''created_at'', PDate (u_created_at u)),
      (''updated_at'', PDate (u_updated_at u))]"

section \<open>as\_dict (models/base/core.py)\<close>

text \<open>
  The \<open>__dict__\<close> of a model object: plain values, other model objects, and lists or tuples of
  either.
\<close>

datatype attr =
    AValue pyval
  | AModel "(string \<times> attr) list"
  | ASeq "(pyval + (string \<times> attr) list) list"

definition private_attr :: "string \<Rightarrow> bool" where
  "private_attr a \<longleftrightarrow> prefix ''_'' a"

fun as_dict_value :: "attr \<Rightarrow> pyval" where
  "as_dict_value (AValue v) = v"
| "as_dict_value (AModel fs) =
     PDict (filter (\<lambda>(a, _). \<not> private_attr a) (map (\<lambda>(a, v). (a, as_dict_value v)) fs))"
| "as_dict_value (ASeq vs) =
     PList (map (\<lambda>v. case v of
         Inl x \<Rightarrow> x
       | Inr fs \<Rightarrow>
           PDict (filter (\<lambda>(a, _). \<not> private_attr a)
             (map (\<lambda>(a, v). (a, as_dict_value v)) fs))) vs)"

definition as_dict :: "(string \<times> attr) list \<Rightarrow> pydict" where
  "as_dict fs =
     filter (\<lambda>(a, _). \<not> private_attr a) (map (\<lambda>(a, v). (a, as_dict_value v)) fs)"

lemma as_dict_no_private: "(a, v) \<in> set (as_dict fs) \<Longrightarrow> \<not> private_attr a"
  by (auto simp: as_dict_def)

lemma as_dict_Cons:
  "as_dict ((a, v) # fs) =
    (if private_attr a then as_dict fs else (a, as_dict_value v) # as_dict fs)"
  by (simp add: as_dict_def)

lemma as_dict_Nil [simp]: "as_dict [] = []"
  by (simp add: as_dict_def)

lemma as_dict_append: "as_dict (xs @ ys) = as_dict xs @ as_dict ys"
  by (simp add: as_dict_def)

lemma as_dict_model [simp]: "as_dict_value (AModel fs) = PDict (as_dict fs)"
  by (simp add: as_dict_def)

declare as_dict_value.simps(2) [simp del]

text \<open>
  The \<open>__dict__\<close> of a row: the state SQLAlchemy keeps under a private name, the columns, and the
  relationship when it is loaded.
\<close>

definition role_attrs :: "role_row \<Rightarrow> (string \<times> attr) list" where
  "role_attrs r = (''_sa_instance_state'', AValue PNone) # map (\<lambda>(a, v). (a, AValue v)) (role_column r)"

definition user_attrs :: "user_row \<Rightarrow> (string \<times> attr) list" where
  "user_attrs u =
     (''_sa_instance_state'', AValue PNone) # map (\<lambda>(a, v). (a, AValue v)) (user_column u) @
     (case u_role u of
        NotLoaded \<Rightarrow> []
      | Loaded None \<Rightarrow> [(''role'', AValue PNone)]
      | Loaded (Some r) \<Rightarrow> [(''role'', AModel (role_attrs r))])"

lemma role_as_dict: "as_dict (role_attrs r) = role_column r"
  by (simp add: role_attrs_def role_column_def as_dict_Cons private_attr_def)

lemma user_as_dict:
  "as_dict (user_attrs u) = user_column u @
    (case u_role u of NotLoaded \<Rightarrow> [] | Loaded None \<Rightarrow> [(''role'', PNone)]
     | Loaded (Some r) \<Rightarrow> [(''role'', PDict (role_column r))])"
  by (simp add: user_attrs_def user_column_def as_dict_Cons as_dict_append private_attr_def
      role_as_dict split: relation.split option.split)

section \<open>Results (application/v1/results)\<close>

record role_result =
  rr_uuid :: uuid
  rr_name :: string

record user_result =
  ur_uuid :: uuid
  ur_login :: string
  ur_active :: bool
  ur_role :: "role_result option"

record status_result =
  st_status :: bool

text \<open>
  The validation of a result from a dictionary: a required field must be there with a value of its
  type, \<open>role\<close> may be missing or \<open>None\<close>, and further keys are ignored.  The conversions of
  pydantic between types are not modelled: no value of another type reaches these constructors.
\<close>

definition role_result_of :: "pydict \<Rightarrow> exn + role_result" where
  "role_result_of d =
     (case (dict_get d ''uuid'', dict_get d ''name'') of
        (Some (PUuid u), Some (PStr n)) \<Rightarrow> Inr \<lparr>rr_uuid = u, rr_name = n\<rparr>
      | _ \<Rightarrow> Inl PydanticValidationError)"

definition user_result_of :: "pydict \<Rightarrow> exn + user_result" where
  "user_result_of d =
     (case (dict_get d ''uuid'', dict_get d ''login'', dict_get d ''active'') of
        (Some (PUuid u), Some (PStr l), Some (PBool a)) \<Rightarrow>
          (case dict_get d ''role'' of
             None \<Rightarrow> Inr \<lparr>ur_uuid = u, ur_login = l, ur_active = a, ur_role = None\<rparr>
           | Some PNone \<Rightarrow> Inr \<lparr>ur_uuid = u, ur_login = l, ur_active = a, ur_role = None\<rparr>
           | Some (PDict r) \<Rightarrow>
               (case role_result_of r of
                  Inl e \<Rightarrow> Inl e
                | Inr rr \<Rightarrow> Inr \<lparr>ur_uuid = u, ur_login = l, ur_active = a, ur_role = Some rr\<rparr>)
           | _ \<Rightarrow> Inl PydanticValidationError)
      | _ \<Rightarrow> Inl PydanticValidationError)"

text \<open>\<open>UserResult(**user.as_dict())\<close>, the last line of the use cases that return a user.\<close>

definition user_result_from :: "user_row \<Rightarrow> exn + user_result" where
  "user_result_from u = user_result_of (as_dict (user_attrs u))"

text \<open>The view of a row that a client gets.\<close>

definition user_view :: "user_row \<Rightarrow> user_result" where
  "user_view u =
     \<lparr>ur_uuid = u_uuid u, ur_login = u_login u, ur_active = u_active u,
      ur_role = (case u_role u of
          Loaded (Some r) \<Rightarrow> Some \<lparr>rr_uuid = r_uuid r, rr_name = role_type_value (r_name r)\<rparr>
        | _ \<Rightarrow> None)\<rparr>"

lemma user_result_from_view: "user_result_from u = Inr (user_view u)"
  unfolding user_result_from_def user_as_dict
  by (cases "u_role u")
    (auto simp: user_result_of_def role_result_of_def user_view_def user_column_def role_column_def
      split: option.split)

text \<open>\<open>OffsetResult\<close>, with \<open>map\<close>.\<close>

record 'a offset_result =
  or_data :: "'a list"
  or_offset :: int
  or_limit :: "int option"
  or_total :: int

definition offset_result_map :: "('a \<Rightarrow> 'b) \<Rightarrow> 'a offset_result \<Rightarrow> 'b offset_result" where
  "offset_result_map fn r =
     \<lparr>or_data = map fn (or_data r), or_offset = or_offset r, or_limit = or_limit r,
      or_total = or_total r\<rparr>"

lemma offset_result_map_compose:
  "offset_result_map g (offset_result_map f r) = offset_result_map (g \<circ> f) r"
  by (simp add: offset_result_map_def)

text \<open>
  The result a client gets for a user depends on the identifier, the login, the state and the
  role of the user only: whatever the password and the times of two rows are, they give the same
  result.  Construction never fails on a row.
\<close>

theorem user_result_hides_password:
  "user_result_from u = Inr (user_view u) \<and>
   user_result_from (u\<lparr>u_password := p, u_created_at := c, u_updated_at := t\<rparr>) =
     user_result_from u"
  by (simp add: user_result_from_view user_view_def)

end
