(* ===== verification/Database.thy ===== *)
theory Database
  imports Models
begin

text \<open>
  The database layer, \<open>src/database/psql\<close>: the statements its repositories build, the CRUD
  repository, the repositories of users and roles, the transaction manager and the gateway.
  SQLAlchemy and PostgreSQL are not part of the program: a session is the parameter \<open>db_session\<close>,
  and what their documentation says of it is the locale \<open>session_laws\<close>.
\<close>

section \<open>Statements\<close>

text \<open>
  Column expressions and the statements the code builds, for one model.  \<open>SelectRows\<close> is
  \<open>sqla_select(model, loads).where(*clauses)\<close> (and \<open>select(model).where(*clauses)\<close> without loads),
  \<open>OffsetQuery\<close> is \<open>sqla_offset_query\<close>.
\<close>

datatype order_by = Asc | Desc

datatype clause = ColEq string pyval | ColILike string string

datatype stmt =
    InsertRow pydict
  | InsertRows "pydict list"
  | SelectRows "string list" "clause list"
  | SelectPage "clause list" "int option" "int option" "(string \<times> order_by) list"
  | OffsetQuery "string list" int "int option" "string \<times> order_by" "clause list"
  | UpdateRows "clause list" pydict
  | UpdateRowsMany "pydict list"
  | DeleteRows "clause list"
  | ExistsRow "clause list"
  | CountRows "clause list"
  | UpsertRow pydict "string list" pydict
  | UpsertRows "pydict list" "string list" "string list"

text \<open>
  The session, as the statements of one model see it: \<open>execute\<close> with the model objects of the
  result, \<open>scalar\<close> for a boolean and for a number, and \<open>unique_scalars\<close>; and as a whole.
\<close>

record ('d, 'm) model_session =
  ms_execute :: "stmt \<Rightarrow> ('d, 'm list) io"
  ms_scalar_bool :: "stmt \<Rightarrow> ('d, bool) io"
  ms_scalar_int :: "stmt \<Rightarrow> ('d, int) io"
  ms_unique :: "'m list \<Rightarrow> 'm list"

record 'd db_session =
  ss_user :: "('d, user_row) model_session"
  ss_role :: "('d, role_row) model_session"
  ss_new :: "'d \<Rightarrow> 'd"
  ss_in_transaction :: "'d \<Rightarrow> bool"
  ss_is_active :: "'d \<Rightarrow> bool"
  ss_begin :: "('d, unit) io"
  ss_commit :: "('d, unit) io"
  ss_rollback :: "('d, unit) io"
  ss_close :: "('d, unit) io"

section \<open>CRUDRepository (repositories/crud.py)\<close>

text \<open>\<open>.first()\<close> of a result: \<open>None\<close> when it is empty.\<close>

fun first :: "'a list \<Rightarrow> 'a option" where
  "first [] = None"
| "first (x # xs) = Some x"

definition crud_insert :: "('d, 'm) model_session \<Rightarrow> pydict \<Rightarrow> ('d, 'm option) io" where
  "crud_insert M values =
     io_bind (ms_execute M (InsertRow values)) (\<lambda>rows. io_return (first rows))"

definition crud_insert_many :: "('d, 'm) model_session \<Rightarrow> pydict list \<Rightarrow> ('d, 'm list) io" where
  "crud_insert_many M data = ms_execute M (InsertRows data)"

definition crud_select :: "('d, 'm) model_session \<Rightarrow> clause list \<Rightarrow> ('d, 'm option) io" where
  "crud_select M clauses =
     io_bind (ms_execute M (SelectRows [] clauses)) (\<lambda>rows. io_return (first rows))"

text \<open>\<open>if order_by:\<close> leaves the statement alone for \<open>None\<close> and for no expression at all.\<close>

definition crud_select_many ::
  "('d, 'm) model_session \<Rightarrow> clause list \<Rightarrow> (string \<times> order_by) list option \<Rightarrow> int option \<Rightarrow>
    int option \<Rightarrow> ('d, 'm list) io" where
  "crud_select_many M clauses sort_keys offset limit =
     ms_execute M (SelectPage clauses offset limit
       (case sort_keys of None \<Rightarrow> [] | Some es \<Rightarrow> es))"

definition crud_update ::
  "('d, 'm) model_session \<Rightarrow> clause list \<Rightarrow> pydict \<Rightarrow> ('d, 'm list) io" where
  "crud_update M clauses values = ms_execute M (UpdateRows clauses values)"

definition crud_update_many :: "('d, 'm) model_session \<Rightarrow> pydict list \<Rightarrow> ('d, 'm list) io" where
  "crud_update_many M data = ms_execute M (UpdateRowsMany data)"

definition crud_delete :: "('d, 'm) model_session \<Rightarrow> clause list \<Rightarrow> ('d, 'm list) io" where
  "crud_delete M clauses = ms_execute M (DeleteRows clauses)"

definition crud_exists :: "('d, 'm) model_session \<Rightarrow> clause list \<Rightarrow> ('d, bool) io" where
  "crud_exists M clauses = ms_scalar_bool M (ExistsRow clauses)"

definition crud_count :: "('d, 'm) model_session \<Rightarrow> clause list \<Rightarrow> ('d, int) io" where
  "crud_count M clauses = ms_scalar_int M (CountRows clauses)"

definition crud_upsert ::
  "('d, 'm) model_session \<Rightarrow> string list \<Rightarrow> pydict \<Rightarrow> ('d, 'm option) io" where
  "crud_upsert M conflict_columns values =
     io_bind (ms_execute M (UpsertRow values conflict_columns
         (filter (\<lambda>(k, _). k \<notin> set conflict_columns) values)))
       (\<lambda>rows. io_return (first rows))"

text \<open>\<open>data[0]\<close> names the columns to set; without data it raises.\<close>

definition crud_upsert_many ::
  "('d, 'm) model_session \<Rightarrow> string list \<Rightarrow> pydict list \<Rightarrow> ('d, 'm list) io" where
  "crud_upsert_many M conflict_columns data =
     (case data of
        [] \<Rightarrow> io_raise (PyIndexError ''list index out of range'')
      | d # _ \<Rightarrow> ms_execute M (UpsertRows data conflict_columns
          (filter (\<lambda>k. k \<notin> set conflict_columns) (map fst d))))"

text \<open>
  The interface of a repository (interfaces/crud.py).  \<open>exists\<close> and \<open>count\<close> are not abstract there:
  they raise \<open>NotImplementedError\<close>, a \<open>RuntimeError\<close>, unless a class overrides them.
\<close>

record ('d, 'm) abstract_crud =
  ac_insert :: "pydict \<Rightarrow> ('d, 'm option) io"
  ac_insert_many :: "pydict list \<Rightarrow> ('d, 'm list) io"
  ac_select :: "clause list \<Rightarrow> ('d, 'm option) io"
  ac_select_many :: "clause list \<Rightarrow> int option \<Rightarrow> int option \<Rightarrow> ('d, 'm list) io"
  ac_update :: "clause list \<Rightarrow> pydict \<Rightarrow> ('d, 'm list) io"
  ac_update_many :: "pydict list \<Rightarrow> ('d, 'm list) io"
  ac_delete :: "clause list \<Rightarrow> ('d, 'm list) io"
  ac_exists :: "clause list \<Rightarrow> ('d, bool) io"
  ac_count :: "clause list \<Rightarrow> ('d, int) io"

definition inherited_exists :: "clause list \<Rightarrow> ('d, bool) io" where
  "inherited_exists clauses = io_raise (PyRuntimeError ''NotImplementedError'')"

definition inherited_count :: "clause list \<Rightarrow> ('d, int) io" where
  "inherited_count clauses = io_raise (PyRuntimeError ''NotImplementedError'')"

text \<open>What \<open>CRUDRepository\<close> puts in their place; through the interface nothing is sorted.\<close>

definition crud_repository :: "('d, 'm) model_session \<Rightarrow> ('d, 'm) abstract_crud" where
  "crud_repository M =
     \<lparr>ac_insert = crud_insert M, ac_insert_many = crud_insert_many M, ac_select = crud_select M,
      ac_select_many = (\<lambda>clauses. crud_select_many M clauses None), ac_update = crud_update M,
      ac_update_many = crud_update_many M, ac_delete = crud_delete M, ac_exists = crud_exists M,
      ac_count = crud_count M\<rparr>"

section \<open>Results and integrity errors (repositories/\_\_init\_\_.py, tools.py)\<close>

datatype exception_type = EUpdate | EDelete | ESelect | ECreate | EExists | ECount

fun exception_map :: "exception_type \<Rightarrow> app_exc" where
  "exception_map EUpdate = simple_error ForbiddenError ''Cannot be updated''"
| "exception_map EDelete = simple_error ForbiddenError ''Cannot be deleted''"
| "exception_map ESelect = simple_error NotFoundError ''Not found''"
| "exception_map ECreate = simple_error ForbiddenError ''Cannot be created''"
| "exception_map EExists = simple_error NotFoundError ''Not found''"
| "exception_map ECount = simple_error NotFoundError ''Not found''"

datatype 'a db_result = Result (exception_type: exception_type) (result_data: "'a option")

definition result_or_none :: "'a db_result \<Rightarrow> 'a option" where
  "result_or_none r = result_data r"

definition result_of :: "'a db_result \<Rightarrow> ('s, 'a) io" where
  "result_of r =
     (case result_data r of
        Some x \<Rightarrow> io_return x
      | None \<Rightarrow> io_raise (App (exception_map (exception_type r))))"

definition result_or_raise :: "'a db_result \<Rightarrow> app_exc \<Rightarrow> ('s, 'a) io" where
  "result_or_raise r exception_to_raise =
     (case result_data r of Some x \<Rightarrow> io_return x | None \<Rightarrow> io_raise (App exception_to_raise))"

lemma result_of_simps [io_simps]:
  "result_of (Result t (Some x)) s = (Inr x, s)"
  "result_of (Result t None) s = (Inl (App (exception_map t)), s)"
  by (simp_all add: result_of_def io_simps)

text \<open>The decorator \<open>on_integrity\<close>; \<open>should_raise\<close> is a class or an exception.\<close>

datatype should_raise = RaiseClass app_class | RaiseError app_exc

fun find_unique :: "string list \<Rightarrow> string \<Rightarrow> string option" where
  "find_unique [] origin = None"
| "find_unique (uniq # uniques) origin =
     (if sublist uniq origin then Some uniq else find_unique uniques origin)"

definition on_integrity ::
  "string list \<Rightarrow> should_raise \<Rightarrow> string \<Rightarrow> ('s, 'a) io \<Rightarrow> ('s, 'a) io" where
  "on_integrity uniques to_raise base_message coro =
     io_try coro (\<lambda>e. case e of
         IntegrityError origin \<Rightarrow>
           (case find_unique uniques origin of
              Some uniq \<Rightarrow>
                (case to_raise of
                   RaiseClass c \<Rightarrow> io_raise (App (simple_error c (uniq @ '' '' @ base_message)))
                 | RaiseError a \<Rightarrow> io_raise (App a))
            | None \<Rightarrow> io_raise (App default_app_exception))
       | _ \<Rightarrow> io_raise e)"

abbreviation already_in_use :: "string \<Rightarrow> ('s, 'a) io \<Rightarrow> ('s, 'a) io" where
  "already_in_use uniq \<equiv> on_integrity [uniq] (RaiseClass ConflictError) ''already in use''"

lemma on_integrity_ok: "fst (m s) = Inr x \<Longrightarrow> on_integrity us t b m s = m s"
  by (simp add: on_integrity_def io_simps prod_eq_iff)

lemma on_integrity_state: "snd (on_integrity us t b m s) = snd (m s)"
  by (auto simp: on_integrity_def io_simps
      split: sum.split exn.split option.split should_raise.split)

lemma on_integrity_unique:
  "fst (m s) = Inl (IntegrityError origin) \<Longrightarrow>
    fst (already_in_use u m s) = Inl (App (if sublist u origin
      then simple_error ConflictError (u @ '' already in use'') else default_app_exception))"
  by (simp add: on_integrity_def io_simps)

lemma on_integrity_other:
  "fst (m s) = Inl e \<Longrightarrow> (\<forall>origin. e \<noteq> IntegrityError origin) \<Longrightarrow>
    fst (on_integrity us t b m s) = Inl e"
  by (cases e) (simp_all add: on_integrity_def io_simps)

section \<open>Repositories (repositories/user.py, repositories/role.py)\<close>

text \<open>An identifier is always true; a text is true when it is not empty.\<close>

definition no_identifier :: "('s, 'a) io" where
  "no_identifier = io_raise (InvalidParamsError ''at least one identifier must be provided'')"

definition identifier_clauses :: "string \<Rightarrow> uuid option \<Rightarrow> string option \<Rightarrow> clause list" where
  "identifier_clauses column row_uuid name =
     (case row_uuid of None \<Rightarrow> [] | Some u \<Rightarrow> [ColEq ''uuid'' (PUuid u)]) @
     (if truthy_str name then [ColEq column (PStr (the name))] else [])"

definition user_create ::
  "('d, user_row) model_session \<Rightarrow> pydict \<Rightarrow> ('d, user_row db_result) io" where
  "user_create M data =
     already_in_use ''login'' (io_bind (crud_insert M data) (\<lambda>r. io_return (Result ECreate r)))"

definition user_select ::
  "('d, user_row) model_session \<Rightarrow> string list \<Rightarrow> uuid option \<Rightarrow> string option \<Rightarrow>
    ('d, user_row db_result) io" where
  "user_select M loads user_uuid login =
     (if user_uuid = None \<and> \<not> truthy_str login then no_identifier
      else io_bind (ms_execute M (SelectRows loads (identifier_clauses ''login'' user_uuid login)))
             (\<lambda>rows. io_return (Result ESelect (first (ms_unique M rows)))))"

text \<open>The identifier of \<open>update\<close> is a positional argument that is always given.\<close>

definition user_update ::
  "('d, user_row) model_session \<Rightarrow> uuid \<Rightarrow> pydict \<Rightarrow> ('d, user_row db_result) io" where
  "user_update M user_uuid data =
     already_in_use ''login''
       (io_bind (crud_update M [ColEq ''uuid'' (PUuid user_uuid)] data)
          (\<lambda>rows. io_return (Result EUpdate (first rows))))"

definition user_delete ::
  "('d, user_row) model_session \<Rightarrow> uuid option \<Rightarrow> string option \<Rightarrow> ('d, user_row db_result) io" where
  "user_delete M user_uuid login =
     (if user_uuid = None \<and> \<not> truthy_str login then no_identifier
      else io_bind (crud_delete M (identifier_clauses ''login'' user_uuid login))
             (\<lambda>rows. io_return (Result EDelete (first rows))))"

definition user_filter :: "string option \<Rightarrow> uuid option \<Rightarrow> clause list" where
  "user_filter login role_uuid =
     (if truthy_str login then [ColILike ''login'' (''%'' @ the login @ ''%'')] else []) @
     (case role_uuid of None \<Rightarrow> [] | Some u \<Rightarrow> [ColEq ''role_uuid'' (PUuid u)])"

text \<open>Count, then the page, unless there is nothing to show.\<close>

definition select_page ::
  "('d, 'm) model_session \<Rightarrow> string list \<Rightarrow> clause list \<Rightarrow> order_by \<Rightarrow> int \<Rightarrow> int option \<Rightarrow>
    ('d, (int \<times> 'm list) db_result) io" where
  "select_page M loads where_clauses dir offset limit =
     io_bind (crud_count M where_clauses) (\<lambda>total.
     if total \<le> 0 then io_return (Result ESelect (Some (total, [])))
     else io_bind (ms_execute M (OffsetQuery loads offset limit (''created_at'', dir) where_clauses))
            (\<lambda>rows. io_return (Result ESelect (Some (total, ms_unique M rows)))))"

definition user_select_many ::
  "('d, user_row) model_session \<Rightarrow> string list \<Rightarrow> string option \<Rightarrow> uuid option \<Rightarrow> order_by \<Rightarrow>
    int \<Rightarrow> int option \<Rightarrow> ('d, (int \<times> user_row list) db_result) io" where
  "user_select_many M loads login role_uuid dir offset limit =
     select_page M loads (user_filter login role_uuid) dir offset limit"

definition user_exists ::
  "('d, user_row) model_session \<Rightarrow> string \<Rightarrow> ('d, bool db_result) io" where
  "user_exists M login =
     io_bind (crud_exists M [ColEq ''login'' (PStr login)]) (\<lambda>b. io_return (Result EExists (Some b)))"

definition role_create ::
  "('d, role_row) model_session \<Rightarrow> pydict \<Rightarrow> ('d, role_row db_result) io" where
  "role_create M data =
     already_in_use ''name'' (io_bind (crud_insert M data) (\<lambda>r. io_return (Result ECreate r)))"

definition role_select ::
  "('d, role_row) model_session \<Rightarrow> string list \<Rightarrow> uuid option \<Rightarrow> string option \<Rightarrow>
    ('d, role_row db_result) io" where
  "role_select M loads role_uuid name =
     (if role_uuid = None \<and> \<not> truthy_str name then no_identifier
      else io_bind (ms_execute M (SelectRows loads (identifier_clauses ''name'' role_uuid name)))
             (\<lambda>rows. io_return (Result ESelect (first (ms_unique M rows)))))"

definition role_select_many ::
  "('d, role_row) model_session \<Rightarrow> string list \<Rightarrow> string option \<Rightarrow> order_by \<Rightarrow> int \<Rightarrow> int option \<Rightarrow>
    ('d, (int \<times> role_row list) db_result) io" where
  "role_select_many M loads name dir offset limit =
     select_page M loads
       (if truthy_str name then [ColILike ''name'' (''%'' @ the name @ ''%'')] else []) dir offset limit"

definition role_exists :: "('d, role_row) model_session \<Rightarrow> string \<Rightarrow> ('d, bool db_result) io" where
  "role_exists M name =
     io_bind (crud_exists M [ColEq ''name'' (PStr name)]) (\<lambda>b. io_return (Result EExists (Some b)))"

section \<open>TransactionManager (manager.py)\<close>

text \<open>
  The state of a gateway: its session, and whether its transaction manager holds a transaction.
\<close>

record 'd gateway =
  gw_session :: 'd
  gw_transaction :: bool

abbreviation on_session :: "('d, 'a) io \<Rightarrow> ('d gateway, 'a) io" where
  "on_session \<equiv> io_focus gw_session (\<lambda>d. gw_session_update (\<lambda>_. d))"

definition manager_commit :: "'d db_session \<Rightarrow> ('d gateway, unit) io" where
  "manager_commit S =
     io_try (on_session (ss_commit S))
       (\<lambda>e. io_raise (if is_sqlalchemy_error e then CommitError else e))"

definition manager_rollback :: "'d db_session \<Rightarrow> ('d gateway, unit) io" where
  "manager_rollback S =
     io_try (on_session (ss_rollback S))
       (\<lambda>e. io_raise (if is_sqlalchemy_error e then RollbackError else e))"

definition create_transaction :: "'d db_session \<Rightarrow> ('d gateway, unit) io" where
  "create_transaction S g =
     (if \<not> ss_in_transaction S (gw_session g) \<and> ss_is_active S (gw_session g)
      then io_bind (on_session (ss_begin S)) (\<lambda>_ g. (Inr (), g\<lparr>gw_transaction := True\<rparr>)) g
      else (Inr (), g))"

definition close_transaction :: "'d db_session \<Rightarrow> ('d gateway, unit) io" where
  "close_transaction S g =
     (if ss_is_active S (gw_session g) then on_session (ss_close S) g else (Inr (), g))"

definition manager_aexit :: "'d db_session \<Rightarrow> exn option \<Rightarrow> ('d gateway, unit) io" where
  "manager_aexit S exc g =
     io_bind (if gw_transaction g
              then (case exc of Some _ \<Rightarrow> manager_rollback S | None \<Rightarrow> manager_commit S)
              else io_return ())
       (\<lambda>_. close_transaction S) g"

text \<open>\<open>async with database:\<close> (the gateway hands both ends to its manager), and
  \<open>async with database.manager.session:\<close>, which only closes the session.\<close>

definition with_database :: "'d db_session \<Rightarrow> ('d gateway, 'a) io \<Rightarrow> ('d gateway, 'a) io" where
  "with_database S body = async_with (create_transaction S) (manager_aexit S) body"

definition with_session :: "'d db_session \<Rightarrow> ('d gateway, 'a) io \<Rightarrow> ('d gateway, 'a) io" where
  "with_session S body = async_with (io_return ()) (\<lambda>_. on_session (ss_close S)) body"

text \<open>
  \<open>create_database_factory\<close>: each call makes a gateway on a session of its own, with a manager
  that holds no transaction.
\<close>

definition create_gateway :: "'d db_session \<Rightarrow> 'd \<Rightarrow> 'd gateway" where
  "create_gateway S d = \<lparr>gw_session = ss_new S d, gw_transaction = False\<rparr>"

text \<open>
  One block of a use case on a gateway of its own: each request is handled with a gateway fresh
  from the factory, and no use case opens more than one block.
\<close>

definition in_database :: "'d db_session \<Rightarrow> ('d, 'a) io \<Rightarrow> ('d, 'a) io" where
  "in_database S body d =
     (let r = with_database S (on_session body) (create_gateway S d) in (fst r, gw_session (snd r)))"

definition in_session :: "'d db_session \<Rightarrow> ('d, 'a) io \<Rightarrow> ('d, 'a) io" where
  "in_session S body d =
     (let r = with_session S (on_session body) (create_gateway S d) in (fst r, gw_session (snd r)))"

text \<open>
  \<open>DBGateway._from_cache\<close>: a repository is built once per gateway; \<open>truthy\<close> is the truth of a
  cached value.
\<close>

definition from_cache ::
  "('r \<Rightarrow> bool) \<Rightarrow> string \<Rightarrow> 'r \<Rightarrow> (string \<times> 'r) list \<Rightarrow> 'r \<times> (string \<times> 'r) list" where
  "from_cache truthy key built cache =
     (case map_of cache key of
        Some r \<Rightarrow> if truthy r then (r, cache) else (built, AList.update key built cache)
      | None \<Rightarrow> (built, AList.update key built cache))"

lemma from_cache_again:
  "truthy built \<Longrightarrow> (\<forall>r. map_of cache key = Some r \<longrightarrow> truthy r) \<Longrightarrow>
    fst (from_cache truthy key other (snd (from_cache truthy key built cache))) =
      fst (from_cache truthy key built cache)"
  by (auto simp: from_cache_def update_conv' split: option.splits)

section \<open>Queries (queries/base.py, queries/executor.py)\<close>

text \<open>A query object builds a statement and executes it on a session.\<close>

record ('d, 'q, 'r) query_object =
  qo_build :: 'q
  qo_execute :: "'d db_session \<Rightarrow> 'q \<Rightarrow> ('d, 'r) io"

definition query_call :: "('d, 'q, 'r) query_object \<Rightarrow> 'd db_session \<Rightarrow> ('d, 'r) io" where
  "query_call q S = qo_execute q S (qo_build q)"

definition query_executor_call :: "'d db_session \<Rightarrow> ('d, 'q, 'r) query_object \<Rightarrow> ('d, 'r) io" where
  "query_executor_call S query = query_call query S"

section \<open>The accessors of the gateway (\_\_init\_\_.py)\<close>

text \<open>
  \<open>DBGateway.user\<close>, \<open>role\<close> and \<open>query_executor\<close>: objects on the session of the manager, each kept
  under its name.  None of their classes has a truth of its own, so they count as true.
\<close>

datatype 'd gateway_object =
    AUserRepository "('d, user_row) model_session"
  | ARoleRepository "('d, role_row) model_session"
  | AQueryExecutor "'d db_session"

datatype gateway_part = TheUser | TheRole | TheQueryExecutor

fun part_key :: "gateway_part \<Rightarrow> string" where
  "part_key TheUser = ''user''"
| "part_key TheRole = ''role''"
| "part_key TheQueryExecutor = ''query_executor''"

fun part_object :: "'d db_session \<Rightarrow> gateway_part \<Rightarrow> 'd gateway_object" where
  "part_object S TheUser = AUserRepository (ss_user S)"
| "part_object S TheRole = ARoleRepository (ss_role S)"
| "part_object S TheQueryExecutor = AQueryExecutor S"

definition gateway_access ::
  "'d db_session \<Rightarrow> gateway_part \<Rightarrow> (string \<times> 'd gateway_object) list \<Rightarrow>
    'd gateway_object \<times> (string \<times> 'd gateway_object) list" where
  "gateway_access S x cache = from_cache (\<lambda>_. True) (part_key x) (part_object S x) cache"

fun gateway_accesses ::
  "'d db_session \<Rightarrow> gateway_part list \<Rightarrow> (string \<times> 'd gateway_object) list \<Rightarrow> 'd gateway_object list" where
  "gateway_accesses S [] cache = []"
| "gateway_accesses S (x # xs) cache =
     (let (obj, cache') = gateway_access S x cache in obj # gateway_accesses S xs cache')"

text \<open>However the accessors are called, each gives its own object.\<close>

lemma gateway_accesses_own:
  "(\<forall>x. map_of cache (part_key x) \<in> {None, Some (part_object S x)}) \<Longrightarrow>
    gateway_accesses S xs cache = map (part_object S) xs"
proof (induction xs arbitrary: cache)
  case (Cons x xs)
  let ?r = "gateway_access S x cache"
  have "fst ?r = part_object S x"
    using Cons.prems [THEN spec [of _ x]]
    by (auto simp: gateway_access_def from_cache_def split: option.split)
  moreover have key: "part_key x = part_key y \<longleftrightarrow> x = y" for y
    by (cases x; cases y) simp_all
  have "\<forall>y. map_of (snd ?r) (part_key y) \<in> {None, Some (part_object S y)}"
  proof
    fix y
    show "map_of (snd ?r) (part_key y) \<in> {None, Some (part_object S y)}"
      using Cons.prems [THEN spec [of _ y]] key [of y]
      by (auto simp: gateway_access_def from_cache_def update_conv' split: option.split)
  qed
  ultimately show ?case using Cons.IH by (simp add: case_prod_beta)
qed simp

end
