(* ===== verification/Database_Laws.thy ===== *)
theory Database_Laws
  imports Database
begin

text \<open>
  What the documentation of SQLAlchemy and PostgreSQL says of a session on the schema of the
  program, as the locale \<open>session_laws\<close>, and what the repositories and the transaction manager
  make of it.  The view of a session is the database it sees (\<open>tables\<close>) and the database that
  is committed (\<open>committed\<close>).
\<close>

section \<open>The schema\<close>

record db =
  db_users :: "user_row list"
  db_roles :: "role_row list"

definition matches :: "(string \<Rightarrow> string \<Rightarrow> bool) \<Rightarrow> pydict \<Rightarrow> clause list \<Rightarrow> bool" where
  "matches ilike row cs =
     list_all (\<lambda>c. case c of
         ColEq col v \<Rightarrow> dict_get row col = Some v
       | ColILike col p \<Rightarrow> (case dict_get row col of Some (PStr s) \<Rightarrow> ilike s p | _ \<Rightarrow> False)) cs"

text \<open>The eager loading of \<open>User.role\<close>: the role the foreign key names.\<close>

definition with_loads :: "string list \<Rightarrow> role_row list \<Rightarrow> user_row \<Rightarrow> user_row" where
  "with_loads loads roles u =
     (if ''role'' \<in> set loads
      then u\<lparr>u_role := Loaded (find (\<lambda>r. r_uuid r = u_role_uuid u) roles)\<rparr> else u)"

text \<open>
  The assignment of new column values to a row; a value the column does not take (a \<open>NULL\<close> here)
  is not assigned but refused.
\<close>

fun set_column :: "string \<times> pyval \<Rightarrow> user_row \<Rightarrow> user_row" where
  "set_column (k, v) u =
     (case v of
        PStr s \<Rightarrow> if k = ''password'' then u\<lparr>u_password := s\<rparr>
                  else if k = ''login'' then u\<lparr>u_login := s\<rparr> else u
      | PBool b \<Rightarrow> if k = ''active'' then u\<lparr>u_active := b\<rparr> else u
      | PUuid r \<Rightarrow> if k = ''role_uuid'' then u\<lparr>u_role_uuid := r\<rparr> else u
      | _ \<Rightarrow> u)"

definition set_columns :: "pydict \<Rightarrow> user_row \<Rightarrow> user_row" where
  "set_columns values u = fold set_column values u"

definition new_user :: "string \<Rightarrow> string \<Rightarrow> uuid \<Rightarrow> uuid \<Rightarrow> int \<Rightarrow> user_row" where
  "new_user login password role_uuid u now =
     \<lparr>u_uuid = u, u_login = login, u_password = password, u_active = True, u_role_uuid = role_uuid,
      u_created_at = now, u_updated_at = now, u_role = NotLoaded\<rparr>"

definition user_values :: "string \<Rightarrow> string \<Rightarrow> uuid \<Rightarrow> pydict" where
  "user_values login password role_uuid =
     [(''login'', PStr login), (''password'', PStr password), (''role_uuid'', PUuid role_uuid)]"

text \<open>Constraints of the schema: unique identifiers and logins, and the foreign key.\<close>

definition valid_db :: "db \<Rightarrow> bool" where
  "valid_db D \<longleftrightarrow>
     distinct (map u_uuid (db_users D)) \<and> distinct (map u_login (db_users D)) \<and>
     distinct (map r_uuid (db_roles D)) \<and>
     (\<forall>u \<in> set (db_users D). u_role_uuid u \<in> r_uuid ` set (db_roles D) \<and> u_role u = NotLoaded)"

text \<open>A computation that leaves the committed database and the activity of its session alone.\<close>

definition session_frame :: "'d db_session \<Rightarrow> ('d \<Rightarrow> db) \<Rightarrow> ('d, 'a) io \<Rightarrow> bool" where
  "session_frame S comm m \<longleftrightarrow>
     (\<forall>d. comm (snd (m d)) = comm d \<and> ss_is_active S (snd (m d)) = ss_is_active S d)"

lemma frame_return: "session_frame S comm (io_return x)"
  and frame_raise: "session_frame S comm (io_raise e)"
  and frame_lift: "session_frame S comm (io_lift r)"
  by (simp_all add: session_frame_def io_simps)

lemma frame_bind:
  "session_frame S comm m \<Longrightarrow> (\<And>x. session_frame S comm (f x)) \<Longrightarrow> session_frame S comm (io_bind m f)"
  by (auto simp: session_frame_def io_simps split: sum.split)

lemma frame_on_integrity: "session_frame S comm m \<Longrightarrow> session_frame S comm (on_integrity us t b m)"
  by (simp add: session_frame_def on_integrity_state)

lemma frame_result: "session_frame S comm (result_of r)"
  by (auto simp: session_frame_def result_of_def io_simps split: option.split)

lemma distinct_map_filter: "distinct (map f xs) \<Longrightarrow> distinct (map f (filter P xs))"
  by (induction xs) auto

lemma distinct_map_eq:
  "distinct (map f xs) \<Longrightarrow> x \<in> set xs \<Longrightarrow> y \<in> set xs \<Longrightarrow> f x = f y \<Longrightarrow> x = y"
  by (auto simp: distinct_map inj_on_def)

text \<open>The first of the rows that match, when only one can.\<close>

lemma first_of_mset:
  assumes "mset us = mset (map f (filter P xs))" and "\<And>x y. x \<in> set xs \<Longrightarrow> y \<in> set xs \<Longrightarrow> P x \<Longrightarrow> P y \<Longrightarrow> x = y"
    and "distinct xs"
  shows "first us = map_option f (find P xs)"
proof (cases "find P xs")
  case None
  then have "filter P xs = []" by (auto simp: find_None_iff filter_empty_conv)
  with assms(1) None show ?thesis by simp
next
  case (Some x)
  then have x: "x \<in> set xs" "P x" by (auto simp: find_Some_iff)
  then have "set (filter P xs) = {x}" using assms(2) by auto
  moreover have "distinct (filter P xs)" using assms(3) by simp
  ultimately have "filter P xs = [x]"
    by (metis distinct.simps(2) distinct_length_2_or_more empty_iff insertE list.set_intros list.exhaust set_empty insert_not_empty)
  with assms(1) Some show ?thesis by simp
qed

section \<open>The laws\<close>

text \<open>
  A statement does not commit, and leaves the session active.  \<open>SELECT\<close> finds the rows that match,
  in some order; the page of an offset query is cut from the rows in the order asked for.
  \<open>INSERT\<close> checks the unique login before the foreign key; the message of the database names the
  column of the unique constraint, and that of the foreign key does not name the login.  A new
  session sees what is committed; a rollback, and closing, go back to it.
\<close>

definition sorted_dir :: "order_by \<Rightarrow> int list \<Rightarrow> bool" where
  "sorted_dir dir ts = (case dir of Asc \<Rightarrow> sorted ts | Desc \<Rightarrow> sorted (rev ts))"

definition page :: "int \<Rightarrow> int option \<Rightarrow> 'a list \<Rightarrow> 'a list" where
  "page offset limit xs =
     (case limit of None \<Rightarrow> drop (nat offset) xs | Some l \<Rightarrow> take (nat l) (drop (nat offset) xs))"

locale session_laws =
  fixes S :: "'d db_session"
    and tables :: "'d \<Rightarrow> db"
    and committed :: "'d \<Rightarrow> db"
    and ilike :: "string \<Rightarrow> string \<Rightarrow> bool"
    and valid_uuid :: "uuid \<Rightarrow> bool"
  assumes valid: "valid_db (tables d)"
    and user_unique: "distinct us \<Longrightarrow> ms_unique (ss_user S) us = us"
    and role_unique: "distinct rs \<Longrightarrow> ms_unique (ss_role S) rs = rs"
    and user_execute_frame: "committed (snd (ms_execute (ss_user S) st d)) = committed d \<and>
      ss_is_active S (snd (ms_execute (ss_user S) st d)) = ss_is_active S d"
    and role_execute_frame: "committed (snd (ms_execute (ss_role S) st d)) = committed d \<and>
      ss_is_active S (snd (ms_execute (ss_role S) st d)) = ss_is_active S d"
    and user_scalar_frame:
      "committed (snd (ms_scalar_bool (ss_user S) st d)) = committed d \<and>
       ss_is_active S (snd (ms_scalar_bool (ss_user S) st d)) = ss_is_active S d \<and>
       tables (snd (ms_scalar_bool (ss_user S) st d)) = tables d \<and>
       committed (snd (ms_scalar_int (ss_user S) st d)) = committed d \<and>
       ss_is_active S (snd (ms_scalar_int (ss_user S) st d)) = ss_is_active S d \<and>
       tables (snd (ms_scalar_int (ss_user S) st d)) = tables d"
    and user_select: "\<exists>us. fst (ms_execute (ss_user S) (SelectRows loads cs) d) = Inr us \<and>
      mset us = mset (map (with_loads loads (db_roles (tables d)))
        (filter (\<lambda>u. matches ilike (user_column u) cs) (db_users (tables d)))) \<and>
      tables (snd (ms_execute (ss_user S) (SelectRows loads cs) d)) = tables d"
    and role_select: "\<exists>rs. fst (ms_execute (ss_role S) (SelectRows [] cs) d) = Inr rs \<and>
      mset rs = mset (filter (\<lambda>r. matches ilike (role_column r) cs) (db_roles (tables d))) \<and>
      tables (snd (ms_execute (ss_role S) (SelectRows [] cs) d)) = tables d"
    and user_page: "0 \<le> offset \<Longrightarrow> (\<forall>l. limit = Some l \<longrightarrow> 0 \<le> l) \<Longrightarrow> \<exists>us ordered.
      fst (ms_execute (ss_user S) (OffsetQuery loads offset limit (''created_at'', dir) cs) d) = Inr us \<and>
      us = map (with_loads loads (db_roles (tables d))) (page offset limit ordered) \<and>
      mset ordered = mset (filter (\<lambda>u. matches ilike (user_column u) cs) (db_users (tables d))) \<and>
      sorted_dir dir (map u_created_at ordered) \<and>
      tables (snd (ms_execute (ss_user S) (OffsetQuery loads offset limit (''created_at'', dir) cs) d)) =
        tables d"
    and user_exists: "fst (ms_scalar_bool (ss_user S) (ExistsRow cs) d) =
      Inr (\<exists>u \<in> set (db_users (tables d)). matches ilike (user_column u) cs)"
    and user_count: "fst (ms_scalar_int (ss_user S) (CountRows cs) d) =
      Inr (int (length (filter (\<lambda>u. matches ilike (user_column u) cs) (db_users (tables d)))))"
    and insert_duplicate: "login \<in> u_login ` set (db_users (tables d)) \<Longrightarrow> \<exists>origin.
      fst (ms_execute (ss_user S) (InsertRow (user_values login password role)) d) =
        Inl (IntegrityError origin) \<and> sublist ''login'' origin"
    and insert_foreign: "login \<notin> u_login ` set (db_users (tables d)) \<Longrightarrow>
      role \<notin> r_uuid ` set (db_roles (tables d)) \<Longrightarrow> \<exists>origin.
      fst (ms_execute (ss_user S) (InsertRow (user_values login password role)) d) =
        Inl (IntegrityError origin) \<and> \<not> sublist ''login'' origin"
    and insert_ok: "login \<notin> u_login ` set (db_users (tables d)) \<Longrightarrow>
      role \<in> r_uuid ` set (db_roles (tables d)) \<Longrightarrow> \<exists>u now.
      valid_uuid u \<and> u \<notin> u_uuid ` set (db_users (tables d)) \<and>
      fst (ms_execute (ss_user S) (InsertRow (user_values login password role)) d) =
        Inr [new_user login password role u now] \<and>
      tables (snd (ms_execute (ss_user S) (InsertRow (user_values login password role)) d)) =
        tables d\<lparr>db_users := db_users (tables d) @ [new_user login password role u now]\<rparr>"
    and update_null: "target \<in> u_uuid ` set (db_users (tables d)) \<Longrightarrow>
      PNone \<in> snd ` set values \<Longrightarrow> \<exists>origin.
      fst (ms_execute (ss_user S) (UpdateRows [ColEq ''uuid'' (PUuid target)] values) d) =
        Inl (IntegrityError origin)"
    and update_missing: "target \<notin> u_uuid ` set (db_users (tables d)) \<Longrightarrow>
      fst (ms_execute (ss_user S) (UpdateRows [ColEq ''uuid'' (PUuid target)] values) d) = Inr [] \<and>
      tables (snd (ms_execute (ss_user S) (UpdateRows [ColEq ''uuid'' (PUuid target)] values) d)) =
        tables d"
    and update_ok: "u \<in> set (db_users (tables d)) \<Longrightarrow> u_uuid u = target \<Longrightarrow>
      set values \<subseteq> ({''password''} \<times> range PStr) \<union> ({''active''} \<times> range PBool) \<union>
        ({''role_uuid''} \<times> PUuid ` r_uuid ` set (db_roles (tables d))) \<Longrightarrow> \<exists>now.
      fst (ms_execute (ss_user S) (UpdateRows [ColEq ''uuid'' (PUuid target)] values) d) =
        Inr [(set_columns values u)\<lparr>u_updated_at := now\<rparr>] \<and>
      tables (snd (ms_execute (ss_user S) (UpdateRows [ColEq ''uuid'' (PUuid target)] values) d)) =
        tables d\<lparr>db_users := map (\<lambda>v. if u_uuid v = target
          then (set_columns values v)\<lparr>u_updated_at := now\<rparr> else v) (db_users (tables d))\<rparr>"
    and update_foreign: "target \<in> u_uuid ` set (db_users (tables d)) \<Longrightarrow>
      PNone \<notin> snd ` set values \<Longrightarrow> (''role_uuid'', PUuid role) \<in> set values \<Longrightarrow>
      role \<notin> r_uuid ` set (db_roles (tables d)) \<Longrightarrow> \<exists>origin.
      fst (ms_execute (ss_user S) (UpdateRows [ColEq ''uuid'' (PUuid target)] values) d) =
        Inl (IntegrityError origin) \<and> \<not> sublist ''login'' origin"
    and new_session: "\<not> ss_in_transaction S (ss_new S d) \<and> ss_is_active S (ss_new S d) \<and>
      tables (ss_new S d) = committed d \<and> committed (ss_new S d) = committed d"
    and begin_transaction: "\<not> ss_in_transaction S d \<Longrightarrow> ss_is_active S d \<Longrightarrow>
      fst (ss_begin S d) = Inr () \<and> tables (snd (ss_begin S d)) = tables d \<and>
      committed (snd (ss_begin S d)) = committed d \<and> ss_is_active S (snd (ss_begin S d)) \<and>
      ss_in_transaction S (snd (ss_begin S d))"
    and rollback: "fst (ss_rollback S d) = Inr () \<and> tables (snd (ss_rollback S d)) = committed d \<and>
      committed (snd (ss_rollback S d)) = committed d \<and> ss_is_active S (snd (ss_rollback S d))"
    and commit: "ss_is_active S d \<Longrightarrow> fst (ss_commit S d) = Inr () \<and>
      tables (snd (ss_commit S d)) = tables d \<and> committed (snd (ss_commit S d)) = tables d \<and>
      ss_is_active S (snd (ss_commit S d))"
    and close: "fst (ss_close S d) = Inr () \<and> tables (snd (ss_close S d)) = committed d \<and>
      committed (snd (ss_close S d)) = committed d"
begin

text \<open>The transaction of a gateway from the factory.\<close>

lemma create_transaction_new:
  "fst (create_transaction S (create_gateway S d)) = Inr ()"
  "tables (gw_session (snd (create_transaction S (create_gateway S d)))) = committed d"
  "committed (gw_session (snd (create_transaction S (create_gateway S d)))) = committed d"
  "ss_is_active S (gw_session (snd (create_transaction S (create_gateway S d))))"
  "gw_transaction (snd (create_transaction S (create_gateway S d)))"
  using begin_transaction [of "ss_new S d"] new_session [of d]
  by (auto simp: create_transaction_def create_gateway_def io_simps)

lemma aexit_commit:
  assumes "gw_transaction g" and "ss_is_active S (gw_session g)"
  shows "fst (manager_aexit S None g) = Inr ()"
    and "committed (gw_session (snd (manager_aexit S None g))) = tables (gw_session g)"
  using assms commit [of "gw_session g"] close
  by (auto simp: manager_aexit_def manager_commit_def close_transaction_def io_simps)

lemma aexit_rollback:
  assumes "gw_transaction g"
  shows "fst (manager_aexit S (Some e) g) = Inr ()"
    and "committed (gw_session (snd (manager_aexit S (Some e) g))) = committed (gw_session g)"
  using assms rollback [of "gw_session g"] close
  by (auto simp: manager_aexit_def manager_rollback_def close_transaction_def io_simps)

text \<open>
  Computations that do not commit: the statements, and what is built from them.
\<close>

lemma frame_user_execute: "session_frame S committed (ms_execute (ss_user S) st)"
  and frame_role_execute: "session_frame S committed (ms_execute (ss_role S) st)"
  and frame_user_scalar_bool: "session_frame S committed (ms_scalar_bool (ss_user S) st)"
  and frame_user_scalar_int: "session_frame S committed (ms_scalar_int (ss_user S) st)"
  using user_execute_frame role_execute_frame user_scalar_frame by (simp_all add: session_frame_def)

lemmas frame_statements =
  frame_user_execute frame_role_execute frame_user_scalar_bool frame_user_scalar_int

lemma frame_user_create: "session_frame S committed (user_create (ss_user S) data)"
  and frame_user_update: "session_frame S committed (user_update (ss_user S) u data)"
  and frame_user_select: "session_frame S committed (user_select (ss_user S) loads u' login)"
  and frame_role_select: "session_frame S committed (role_select (ss_role S) loads u' name)"
  and frame_user_exists: "session_frame S committed (user_exists (ss_user S) name')"
  and frame_user_select_many:
    "session_frame S committed (user_select_many (ss_user S) loads login ru dir offset limit)"
  by (auto simp: user_create_def user_update_def user_select_def role_select_def user_exists_def
      user_select_many_def select_page_def crud_insert_def crud_update_def crud_exists_def
      crud_count_def no_identifier_def
      intro!: frame_on_integrity frame_bind frame_return frame_raise frame_statements)

lemmas frame_repositories = frame_user_create frame_user_update frame_user_select
  frame_role_select frame_user_exists frame_user_select_many

text \<open>
  A block of \<open>async with database\<close>: it commits what its body did when the body returns, and nothing
  when the body raises.
\<close>

definition begun :: "'d \<Rightarrow> 'd" where
  "begun d = gw_session (snd (create_transaction S (create_gateway S d)))"

lemma begun_views: "tables (begun d) = committed d" "committed (begun d) = committed d"
  "ss_is_active S (begun d)"
  by (simp_all add: begun_def create_transaction_new)

lemma in_database_spec:
  assumes "session_frame S committed m"
  shows "fst (in_database S m d) = fst (m (begun d))"
    and "committed (snd (in_database S m d)) = (case fst (m (begun d)) of
      Inr _ \<Rightarrow> tables (snd (m (begun d))) | Inl _ \<Rightarrow> committed d)"
proof -
  let ?g = "snd (create_transaction S (create_gateway S d))"
  have f: "committed (snd (m (begun d))) = committed d" "ss_is_active S (snd (m (begun d)))"
    using assms by (simp_all add: session_frame_def begun_views)
  note ok = aexit_commit [of "?g\<lparr>gw_session := snd (m (begun d))\<rparr>"]
    and bad = aexit_rollback [of "?g\<lparr>gw_session := snd (m (begun d))\<rparr>"]
  show "fst (in_database S m d) = fst (m (begun d))"
    and "committed (snd (in_database S m d)) = (case fst (m (begun d)) of
      Inr _ \<Rightarrow> tables (snd (m (begun d))) | Inl _ \<Rightarrow> committed d)"
    using ok bad f create_transaction_new [of d]
    by (auto simp: in_database_def with_database_def io_simps Let_def begun_def split: sum.split)
qed

lemma in_session_spec:
  assumes "session_frame S committed m"
  shows "fst (in_session S m d) = fst (m (ss_new S d))"
    and "committed (snd (in_session S m d)) = committed d"
proof -
  have f: "committed (snd (m (ss_new S d))) = committed d"
    using assms new_session [of d] by (simp add: session_frame_def)
  show "fst (in_session S m d) = fst (m (ss_new S d))"
    and "committed (snd (in_session S m d)) = committed d"
    using f close [of "snd (m (ss_new S d))"]
    by (auto simp: in_session_def with_session_def create_gateway_def io_simps Let_def split: sum.split)
qed

lemma new_views: "tables (ss_new S d) = committed d" "committed (ss_new S d) = committed d"
  using new_session by simp_all

lemma valid_committed: "valid_db (committed d)"
  using valid [of "ss_new S d"] by (simp add: new_views)

text \<open>The repositories, in terms of the tables.\<close>

lemma distinct_loaded:
  assumes "mset us = mset (map (with_loads loads roles) (filter P (db_users (tables d))))"
  shows "distinct us"
proof -
  have "distinct (map u_uuid (filter P (db_users (tables d))))"
    using valid [of d] by (simp add: valid_db_def distinct_map_filter)
  moreover have "map u_uuid (filter P (db_users (tables d))) =
      map u_uuid (map (with_loads loads roles) (filter P (db_users (tables d))))"
    by (simp add: with_loads_def)
  ultimately have "distinct (map (with_loads loads roles) (filter P (db_users (tables d))))"
    by (metis distinct_map)
  with assms show ?thesis by (metis mset_eq_imp_distinct_iff)
qed

lemma user_select_finds:
  assumes "\<And>u. matches ilike (user_column u) (identifier_clauses ''login'' i l) \<longleftrightarrow> P u"
    and "i \<noteq> None \<or> truthy_str l"
    and "\<And>u v. u \<in> set (db_users (tables d)) \<Longrightarrow> v \<in> set (db_users (tables d)) \<Longrightarrow> P u \<Longrightarrow> P v \<Longrightarrow> u = v"
  shows "fst (user_select (ss_user S) loads i l d) = Inr (Result ESelect
      (map_option (with_loads loads (db_roles (tables d))) (find P (db_users (tables d)))))"
    and "tables (snd (user_select (ss_user S) loads i l d)) = tables d"
proof -
  obtain us where us: "fst (ms_execute (ss_user S) (SelectRows loads (identifier_clauses ''login'' i l)) d) = Inr us"
    "mset us = mset (map (with_loads loads (db_roles (tables d))) (filter P (db_users (tables d))))"
    "tables (snd (ms_execute (ss_user S) (SelectRows loads (identifier_clauses ''login'' i l)) d)) = tables d"
    using user_select [of loads "identifier_clauses ''login'' i l" d] assms(1) by auto
  have "distinct (db_users (tables d))"
    using valid [of d] by (auto simp: valid_db_def distinct_map)
  with us(2) assms(3) have "first us =
      map_option (with_loads loads (db_roles (tables d))) (find P (db_users (tables d)))"
    by (rule first_of_mset)
  with us assms(2) show "fst (user_select (ss_user S) loads i l d) = Inr (Result ESelect
      (map_option (with_loads loads (db_roles (tables d))) (find P (db_users (tables d)))))"
    and "tables (snd (user_select (ss_user S) loads i l d)) = tables d"
    using user_unique [OF distinct_loaded [OF us(2)]] by (auto simp: user_select_def io_simps)
qed

lemma user_select_login:
  assumes "l \<noteq> []"
  shows "fst (user_select (ss_user S) loads None (Some l) d) = Inr (Result ESelect
      (map_option (with_loads loads (db_roles (tables d)))
        (find (\<lambda>u. u_login u = l) (db_users (tables d)))))"
  by (rule user_select_finds)
    (use assms valid [of d] in \<open>auto simp: matches_def identifier_clauses_def user_column_def valid_db_def
      dest: distinct_map_eq\<close>)

lemma user_select_uuid:
  shows "fst (user_select (ss_user S) loads (Some i) None d) = Inr (Result ESelect
      (map_option (with_loads loads (db_roles (tables d)))
        (find (\<lambda>u. u_uuid u = i) (db_users (tables d)))))"
  by (rule user_select_finds)
    (use valid [of d] in \<open>auto simp: matches_def identifier_clauses_def user_column_def valid_db_def
      dest: distinct_map_eq\<close>)

lemma role_select_name:
  "\<exists>x. fst (role_select (ss_role S) [] None (Some (role_type_value n)) d) = Inr (Result ESelect x) \<and>
    (case x of None \<Rightarrow> \<forall>r \<in> set (db_roles (tables d)). r_name r \<noteq> n
     | Some r \<Rightarrow> r \<in> set (db_roles (tables d)) \<and> r_name r = n) \<and>
    tables (snd (role_select (ss_role S) [] None (Some (role_type_value n)) d)) = tables d"
proof -
  let ?cs = "identifier_clauses ''name'' None (Some (role_type_value n))"
  have n: "role_type_value n \<noteq> []" by (cases n) simp_all
  then have m: "matches ilike (role_column r) ?cs \<longleftrightarrow> r_name r = n" for r
    by (auto simp: matches_def identifier_clauses_def role_column_def)
  obtain rs where rs: "fst (ms_execute (ss_role S) (SelectRows [] ?cs) d) = Inr rs"
    "mset rs = mset (filter (\<lambda>r. r_name r = n) (db_roles (tables d)))"
    "tables (snd (ms_execute (ss_role S) (SelectRows [] ?cs) d)) = tables d"
    using role_select [of ?cs d] m by auto
  have "distinct (filter (\<lambda>r. r_name r = n) (db_roles (tables d)))"
    using valid [of d] by (auto simp: valid_db_def distinct_map)
  then have "ms_unique (ss_role S) rs = rs"
    using role_unique mset_eq_imp_distinct_iff [OF rs(2)] by blast
  moreover have "set rs = {r \<in> set (db_roles (tables d)). r_name r = n}"
    using mset_eq_setD [OF rs(2)] by simp
  ultimately show ?thesis
    using rs(1,3) n by (cases rs) (auto simp: role_select_def io_simps)
qed

lemma user_exists_login:
  "fst (user_exists (ss_user S) l d) =
    Inr (Result EExists (Some (l \<in> u_login ` set (db_users (tables d)))))"
proof -
  have "matches ilike (user_column u) [ColEq ''login'' (PStr l)] \<longleftrightarrow> u_login u = l" for u
    by (simp add: matches_def user_column_def)
  then show ?thesis
    using user_exists [of "[ColEq ''login'' (PStr l)]" d]
    by (auto simp: user_exists_def crud_exists_def io_simps)
qed

lemma user_create_duplicate:
  assumes "l \<in> u_login ` set (db_users (tables d))"
  shows "fst (user_create (ss_user S) (user_values l p r) d) =
    Inl (App (simple_error ConflictError ''login already in use''))"
  using insert_duplicate [OF assms, of p r]
  by (auto simp: user_create_def crud_insert_def io_simps intro!: on_integrity_unique [THEN trans])

lemma user_create_foreign:
  assumes "l \<notin> u_login ` set (db_users (tables d))" and "r \<notin> r_uuid ` set (db_roles (tables d))"
  shows "fst (user_create (ss_user S) (user_values l p r) d) = Inl (App default_app_exception)"
  using insert_foreign [OF assms, of p]
  by (auto simp: user_create_def crud_insert_def io_simps intro!: on_integrity_unique [THEN trans])

lemma user_create_ok:
  assumes "l \<notin> u_login ` set (db_users (tables d))" and "r \<in> r_uuid ` set (db_roles (tables d))"
  shows "\<exists>u now. valid_uuid u \<and> u \<notin> u_uuid ` set (db_users (tables d)) \<and>
    fst (user_create (ss_user S) (user_values l p r) d) =
      Inr (Result ECreate (Some (new_user l p r u now))) \<and>
    tables (snd (user_create (ss_user S) (user_values l p r) d)) =
      tables d\<lparr>db_users := db_users (tables d) @ [new_user l p r u now]\<rparr>"
proof -
  obtain u now where u: "valid_uuid u" "u \<notin> u_uuid ` set (db_users (tables d))"
    "fst (ms_execute (ss_user S) (InsertRow (user_values l p r)) d) = Inr [new_user l p r u now]"
    "tables (snd (ms_execute (ss_user S) (InsertRow (user_values l p r)) d)) =
      tables d\<lparr>db_users := db_users (tables d) @ [new_user l p r u now]\<rparr>"
    using insert_ok [OF assms, of p] by blast
  then show ?thesis
    by (auto simp: user_create_def crud_insert_def on_integrity_state on_integrity_ok io_simps)
qed

lemma user_update_ok:
  assumes "u \<in> set (db_users (tables d))" and "u_uuid u = target"
    and "set vals \<subseteq> ({''password''} \<times> range PStr) \<union> ({''active''} \<times> range PBool) \<union>
      ({''role_uuid''} \<times> PUuid ` r_uuid ` set (db_roles (tables d)))"
  shows "\<exists>now. fst (user_update (ss_user S) target vals d) =
      Inr (Result EUpdate (Some ((set_columns vals u)\<lparr>u_updated_at := now\<rparr>))) \<and>
    tables (snd (user_update (ss_user S) target vals d)) =
      tables d\<lparr>db_users := map (\<lambda>v. if u_uuid v = target
        then (set_columns vals v)\<lparr>u_updated_at := now\<rparr> else v) (db_users (tables d))\<rparr>"
  using update_ok [OF assms]
  by (auto simp: user_update_def crud_update_def on_integrity_state on_integrity_ok io_simps)

lemma user_update_missing:
  assumes "target \<notin> u_uuid ` set (db_users (tables d))"
  shows "fst (user_update (ss_user S) target vals d) = Inr (Result EUpdate None)"
  using update_missing [OF assms, of vals]
  by (simp add: user_update_def crud_update_def on_integrity_ok io_simps)

lemma user_update_null:
  assumes "target \<in> u_uuid ` set (db_users (tables d))" and "PNone \<in> snd ` set vals"
  shows "fst (user_update (ss_user S) target vals d) = Inl (App default_app_exception) \<or>
    fst (user_update (ss_user S) target vals d) =
      Inl (App (simple_error ConflictError ''login already in use''))"
proof -
  obtain origin where "fst (ms_execute (ss_user S)
      (UpdateRows [ColEq ''uuid'' (PUuid target)] vals) d) = Inl (IntegrityError origin)"
    using update_null [OF assms] by blast
  then show ?thesis
    using on_integrity_unique [of "io_bind (crud_update (ss_user S) [ColEq ''uuid'' (PUuid target)] vals)
          (\<lambda>rows. io_return (Result EUpdate (first rows)))" d origin "''login''"]
    by (auto simp: user_update_def crud_update_def io_simps split: if_splits)
qed

lemma user_update_foreign:
  assumes "target \<in> u_uuid ` set (db_users (tables d))" and "PNone \<notin> snd ` set vals"
    and "(''role_uuid'', PUuid role) \<in> set vals" and "role \<notin> r_uuid ` set (db_roles (tables d))"
  shows "fst (user_update (ss_user S) target vals d) = Inl (App default_app_exception)"
  using update_foreign [OF assms]
  by (auto simp: user_update_def crud_update_def io_simps intro!: on_integrity_unique [THEN trans])

lemma user_select_many_page:
  assumes "0 \<le> offset" and "\<forall>l. limit = Some l \<longrightarrow> 0 \<le> l"
  shows "\<exists>ordered. fst (user_select_many (ss_user S) loads login ru dir offset limit d) =
      Inr (Result ESelect (Some (int (length ordered),
        map (with_loads loads (db_roles (tables d))) (page offset limit ordered)))) \<and>
    mset ordered = mset (filter (\<lambda>u. matches ilike (user_column u) (user_filter login ru))
      (db_users (tables d))) \<and> sorted_dir dir (map u_created_at ordered)"
proof -
  let ?cs = "user_filter login ru" and ?d = "snd (ms_scalar_int (ss_user S) (CountRows (user_filter login ru)) d)"
  let ?rows = "filter (\<lambda>u. matches ilike (user_column u) ?cs) (db_users (tables d))"
  have t: "tables ?d = tables d" using user_scalar_frame by simp
  show ?thesis
  proof (cases "?rows = []")
    case True
    then show ?thesis
      using user_count [of ?cs d]
      by (auto simp: user_select_many_def select_page_def crud_count_def io_simps page_def
          sorted_dir_def split: order_by.split option.split)
  next
    case False
    obtain us ordered where o:
      "fst (ms_execute (ss_user S) (OffsetQuery loads offset limit (''created_at'', dir) ?cs) ?d) = Inr us"
      "us = map (with_loads loads (db_roles (tables d))) (page offset limit ordered)"
      "mset ordered = mset ?rows" "sorted_dir dir (map u_created_at ordered)"
      using user_page [OF assms, of loads dir ?cs ?d] by (auto simp: t)
    have len: "length ordered = length ?rows" using o(3) by (rule mset_eq_length)
    have "distinct (map u_uuid ordered)"
    proof -
      have "mset (map u_uuid ordered) = mset (map u_uuid ?rows)" using o(3) by simp
      moreover have "distinct (map u_uuid ?rows)"
        using valid [of d] by (simp add: valid_db_def distinct_map_filter)
      ultimately show ?thesis using mset_eq_imp_distinct_iff by blast
    qed
    then have "distinct (map u_uuid (page offset limit ordered))"
      by (auto simp: page_def take_map [symmetric] drop_map [symmetric] split: option.split)
    moreover have "map u_uuid us = map u_uuid (page offset limit ordered)"
      using o(2) by (simp add: with_loads_def)
    ultimately have "distinct us" by (metis distinct_map)
    with user_unique have "ms_unique (ss_user S) us = us" .
    with o len False user_count [of ?cs d] show ?thesis
      by (intro exI [of _ ordered]) (auto simp: user_select_many_def select_page_def crud_count_def io_simps t)
  qed
qed

end

end
