(* ===== verification/Use_Cases.thy ===== *)
theory Use_Cases
  imports Auth_Service Database_Laws
begin

text \<open>
  The ten use cases of \<open>application/v1/usecases\<close>, each as the whole \<open>__call__\<close>: its request, its
  guards in the order of the code, its database block and what it does to the cache.  They run on a
  state with the cache and the database.  The locale \<open>app_laws\<close> joins the contracts of the parts
  they rest on.
\<close>

section \<open>Requests\<close>

definition MIN_PASSWORD_LENGTH :: nat where "MIN_PASSWORD_LENGTH = 8"
definition MAX_PASSWORD_LENGTH :: nat where "MAX_PASSWORD_LENGTH = 32"
definition MAX_LOGIN_LENGTH :: nat where "MAX_LOGIN_LENGTH = 128"

lemmas length_limits = MIN_PASSWORD_LENGTH_def MAX_PASSWORD_LENGTH_def MAX_LOGIN_LENGTH_def

definition valid_login :: "string \<Rightarrow> bool" where
  "valid_login login \<longleftrightarrow> length login \<le> MAX_LOGIN_LENGTH"

definition valid_password :: "string \<Rightarrow> bool" where
  "valid_password password \<longleftrightarrow>
     MIN_PASSWORD_LENGTH \<le> length password \<and> length password \<le> MAX_PASSWORD_LENGTH"

record register_request =
  rg_login :: string
  rg_password :: string
  rg_fingerprint :: string

record login_request =
  lg_login :: string
  lg_password :: string
  lg_fingerprint :: string

record create_user_request =
  cu_login :: string
  cu_password :: string
  cu_role_uuid :: uuid

text \<open>The constructors of the requests validate the lengths.\<close>

definition make_register_request :: "string \<Rightarrow> string \<Rightarrow> string \<Rightarrow> exn + register_request" where
  "make_register_request login password fingerprint =
     (if valid_login login \<and> valid_password password
      then Inr \<lparr>rg_login = login, rg_password = password, rg_fingerprint = fingerprint\<rparr>
      else Inl PydanticValidationError)"

definition make_login_request :: "string \<Rightarrow> string \<Rightarrow> string \<Rightarrow> exn + login_request" where
  "make_login_request login password fingerprint =
     (if valid_login login \<and> valid_password password
      then Inr \<lparr>lg_login = login, lg_password = password, lg_fingerprint = fingerprint\<rparr>
      else Inl PydanticValidationError)"

definition make_create_user_request :: "string \<Rightarrow> string \<Rightarrow> uuid \<Rightarrow> exn + create_user_request" where
  "make_create_user_request login password role_uuid =
     (if valid_login login \<and> valid_password password
      then Inr \<lparr>cu_login = login, cu_password = password, cu_role_uuid = role_uuid\<rparr>
      else Inl PydanticValidationError)"

record logout_request =
  lo_user_uuid :: uuid
  lo_refresh_token :: string

record refresh_token_request =
  rf_fingerprint :: string
  rf_refresh_token :: string

record permission_request =
  pm_permissions :: "string option list"
  pm_access_token :: string

record select_user_request =
  su_loads :: "string list"
  su_user_uuid :: "uuid option"
  su_login :: "string option"

record offset_pagination =
  pg_order_by :: order_by
  pg_offset :: int
  pg_limit :: "int option"

definition default_pagination :: offset_pagination where
  "default_pagination = \<lparr>pg_order_by = Desc, pg_offset = 0, pg_limit = None\<rparr>"

record select_many_user_request =
  sm_loads :: "string list"
  sm_login :: "string option"
  sm_role_uuid :: "uuid option"
  sm_pagination :: offset_pagination

text \<open>
  A field of an update is unset (\<open>None\<close>), set to \<open>None\<close> (\<open>Some None\<close>) or set to a value.
\<close>

record update_user_request =
  up_user_uuid :: uuid
  up_password :: "string option option"
  up_role_uuid :: "uuid option option"
  up_active :: "bool option option"

section \<open>The state and the dependencies\<close>

text \<open>
  The dependencies the request bus injects.  The cache of the use cases is the one of the
  authentication service, as \<open>ApplicationProvider\<close> wires them.  The JSON text of a register request
  is written and read by pydantic: \<open>ap_dump\<close> and \<open>ap_parse\<close>.
\<close>

record ('c, 'd) app =
  ap_auth :: "'c auth"
  ap_session :: "'d db_session"
  ap_hasher :: hasher
  ap_dump :: "register_request \<Rightarrow> string"
  ap_parse :: "string \<Rightarrow> register_request option"

record ('c, 'd) ctx =
  cx_cache :: 'c
  cx_db :: 'd

abbreviation on_cache :: "('c, 'a) io \<Rightarrow> (('c, 'd) ctx, 'a) io" where
  "on_cache \<equiv> io_focus cx_cache (\<lambda>c. cx_cache_update (\<lambda>_. c))"

abbreviation on_db :: "('d, 'a) io \<Rightarrow> (('c, 'd) ctx, 'a) io" where
  "on_db \<equiv> io_focus cx_db (\<lambda>d. cx_db_update (\<lambda>_. d))"

abbreviation ap_cache :: "('c, 'd) app \<Rightarrow> 'c str_cache" where
  "ap_cache A \<equiv> as_cache (ap_auth A)"

definition code_key :: "string \<Rightarrow> string" where
  "code_key code = default_cache_key_builder None [(''code'', code)]"

lemma code_key_eq: "code_key code = ''code:'' @ code"
  by (simp add: code_key_def cache_key_single)

section \<open>usecases/auth\<close>

text \<open>The random code of a registration is the argument \<open>code\<close>.\<close>

definition register ::
  "('c, 'd) app \<Rightarrow> string \<Rightarrow> register_request \<Rightarrow> (('c, 'd) ctx, status_result) io" where
  "register A code request =
     io_bind (on_db (in_session (ap_session A)
       (io_bind (user_exists (ss_user (ap_session A)) (rg_login request)) result_of))) (\<lambda>user.
     if user then raise_app ConflictError ''User already exists''
     else
       io_bind (on_cache (sc_set (ap_cache A) (code_key code) (ap_dump A request)
           (Some (ETimedelta (10 * 60))))) (\<lambda>_.
       io_return \<lparr>st_status = True\<rparr>))"

definition confirm_user :: "('c, 'd) app \<Rightarrow> register_request \<Rightarrow> ('d, user_row) io" where
  "confirm_user A cached_user =
     io_bind (io_bind (role_select (ss_role (ap_session A)) [] None (Some ''User'')) result_of) (\<lambda>role.
     io_bind (io_lift (h_hash_password (ap_hasher A) (rg_password cached_user))) (\<lambda>password.
     io_bind (user_create (ss_user (ap_session A))
         (user_values (rg_login cached_user) password (r_uuid role))) result_of))"

definition confirm ::
  "('c, 'd) app \<Rightarrow> (nat \<Rightarrow> int) \<Rightarrow> string \<Rightarrow> (('c, 'd) ctx, tokens_expire) io" where
  "confirm A ts code =
     io_bind (on_cache (sc_get (ap_cache A) (code_key code))) (\<lambda>cached_data.
     if \<not> truthy_str cached_data then raise_app NotFoundError ''Code has expire or invalid''
     else
       io_bind (on_cache (sc_delete (ap_cache A) [code_key code])) (\<lambda>_.
       case ap_parse A (the cached_data) of
         None \<Rightarrow> io_raise PydanticValidationError
       | Some cached_user \<Rightarrow>
           io_bind (on_db (in_database (ap_session A) (confirm_user A cached_user))) (\<lambda>user.
           on_cache (auth_login (ap_auth A) ts (rg_fingerprint cached_user) (u_uuid user)))))"

definition login_user ::
  "('c, 'd) app \<Rightarrow> (nat \<Rightarrow> int) \<Rightarrow> login_request \<Rightarrow> (('c, 'd) ctx, tokens_expire) io" where
  "login_user A ts request =
     io_bind (on_db (in_session (ap_session A)
       (io_bind (user_select (ss_user (ap_session A)) [] None (Some (lg_login request))) result_of)))
     (\<lambda>user.
     if \<not> u_active user then raise_app ForbiddenError ''You have been blocked''
     else
       io_bind (io_lift (h_verify_password (ap_hasher A) (u_password user) (lg_password request)))
       (\<lambda>verified.
       if \<not> verified then raise_app UnAuthorizedError ''Incorrect password or login''
       else on_cache (auth_login (ap_auth A) ts (lg_fingerprint request) (u_uuid user))))"

definition logout ::
  "('c, 'd) app \<Rightarrow> (nat \<Rightarrow> int) \<Rightarrow> logout_request \<Rightarrow> (('c, 'd) ctx, status_result) io" where
  "logout A ts request =
     (if lo_refresh_token request = [] then raise_app UnAuthorizedError ''Not allowed''
      else
        io_bind (on_cache (auth_invalidate_refresh (ap_auth A) ts (lo_refresh_token request)
            (lo_user_uuid request))) (\<lambda>result.
        io_return \<lparr>st_status = result\<rparr>))"

definition refresh_token ::
  "('c, 'd) app \<Rightarrow> (nat \<Rightarrow> int) \<Rightarrow> refresh_token_request \<Rightarrow> (('c, 'd) ctx, tokens_expire) io" where
  "refresh_token A ts request =
     (if rf_refresh_token request = [] then raise_app UnAuthorizedError ''Not allowed''
      else on_cache (auth_verify_refresh (ap_auth A) ts (rf_fingerprint request)
        (rf_refresh_token request)))"

text \<open>
  A role that was not loaded would be loaded on access, which an asynchronous session refuses.
\<close>

definition check_permission :: "string option list \<Rightarrow> user_row \<Rightarrow> ('s, user_result) io" where
  "check_permission permissions user =
     (if \<not> u_active user then raise_app ForbiddenError ''You have been blocked''
      else case u_role user of
          NotLoaded \<Rightarrow> io_raise (SQLAlchemyError ''MissingGreenlet'')
        | Loaded None \<Rightarrow> raise_app ServiceNotImplementedError ''Role not found''
        | Loaded (Some role) \<Rightarrow>
            if permissions \<noteq> [] \<and> Some (role_type_value (r_name role)) \<notin> set permissions
            then raise_app UnAuthorizedError ''Not Allowed''
            else io_lift (user_result_from user))"

definition permission ::
  "('c, 'd) app \<Rightarrow> int \<Rightarrow> permission_request \<Rightarrow> (('c, 'd) ctx, user_result) io" where
  "permission A t request =
     io_bind (on_cache (auth_verify_token (ap_auth A) t (pm_access_token request) Access)) (\<lambda>user_uuid.
     on_db (in_session (ap_session A)
       (io_bind (io_bind (user_select (ss_user (ap_session A)) [''role''] (Some user_uuid) None) result_of)
         (check_permission (pm_permissions request)))))"

section \<open>usecases/user\<close>

definition create_user ::
  "('c, 'd) app \<Rightarrow> create_user_request \<Rightarrow> (('c, 'd) ctx, user_result) io" where
  "create_user A request =
     on_db (in_database (ap_session A)
       (io_bind (io_lift (h_hash_password (ap_hasher A) (cu_password request))) (\<lambda>password.
        io_bind (io_bind (user_create (ss_user (ap_session A))
            (user_values (cu_login request) password (cu_role_uuid request))) result_of)
          (\<lambda>user. io_lift (user_result_from user)))))"

definition select_user ::
  "('c, 'd) app \<Rightarrow> select_user_request \<Rightarrow> (('c, 'd) ctx, user_result) io" where
  "select_user A request =
     on_db (in_session (ap_session A)
       (io_bind (io_bind (user_select (ss_user (ap_session A)) (su_loads request)
            (su_user_uuid request) (su_login request)) result_of)
          (\<lambda>user. io_lift (user_result_from user))))"

definition select_many_user ::
  "('c, 'd) app \<Rightarrow> select_many_user_request \<Rightarrow> (('c, 'd) ctx, user_result offset_result) io" where
  "select_many_user A request =
     (let p = sm_pagination request
      in on_db (in_session (ap_session A)
        (io_bind (io_bind (user_select_many (ss_user (ap_session A)) (sm_loads request)
             (sm_login request) (sm_role_uuid request) (pg_order_by p) (pg_offset p) (pg_limit p))
             result_of)
           (\<lambda>(total, users).
            io_bind (io_map (\<lambda>user. io_lift (user_result_from user)) users) (\<lambda>results.
            io_return \<lparr>or_data = results, or_offset = pg_offset p, or_limit = pg_limit p,
              or_total = total\<rparr>)))))"

text \<open>\<open>model_dump(exclude_unset=True, exclude={"user_uuid"})\<close>: the fields that were set, in order.\<close>

definition set_field :: "string \<Rightarrow> ('a \<Rightarrow> pyval) \<Rightarrow> 'a option option \<Rightarrow> pydict" where
  "set_field name f x =
     (case x of None \<Rightarrow> [] | Some None \<Rightarrow> [(name, PNone)] | Some (Some v) \<Rightarrow> [(name, f v)])"

definition dump_update :: "update_user_request \<Rightarrow> pydict" where
  "dump_update request =
     set_field ''password'' PStr (up_password request) @
     set_field ''role_uuid'' PUuid (up_role_uuid request) @
     set_field ''active'' PBool (up_active request)"

definition hash_field :: "hasher \<Rightarrow> pydict \<Rightarrow> exn + pydict" where
  "hash_field H vals =
     (case dict_get vals ''password'' of
        Some (PStr plain) \<Rightarrow>
          (case h_hash_password H plain of
             Inl e \<Rightarrow> Inl e
           | Inr h \<Rightarrow> Inr (dict_set ''password'' (PStr h) vals))
      | _ \<Rightarrow> Inr vals)"

definition update_user ::
  "('c, 'd) app \<Rightarrow> update_user_request \<Rightarrow> (('c, 'd) ctx, user_result) io" where
  "update_user A request =
     on_db (in_database (ap_session A)
       (io_bind (io_lift (hash_field (ap_hasher A) (dump_update request))) (\<lambda>vals.
        io_bind (io_bind (user_update (ss_user (ap_session A)) (up_user_uuid request) vals) result_of)
          (\<lambda>user. io_lift (user_result_from user)))))"

section \<open>The contracts together\<close>

locale app_laws =
  auth: auth_service "ap_auth A" strs lists life +
  db: session_laws "ap_session A" tables committed ilike "known_uuid (ap_auth A)" +
  hasher: hasher_laws "ap_hasher A"
  for A :: "('c, 'd) app" and strs :: "'c \<Rightarrow> string \<Rightarrow> string option"
    and lists :: "'c \<Rightarrow> string \<Rightarrow> string list" and life
    and tables :: "'d \<Rightarrow> db" and committed :: "'d \<Rightarrow> db" and ilike +
  assumes json: "valid_login (rg_login r) \<Longrightarrow> valid_password (rg_password r) \<Longrightarrow>
    ap_dump A r \<noteq> [] \<and> ap_parse A (ap_dump A r) = Some r"
begin

lemmas frames = frame_return frame_raise frame_lift frame_bind frame_result db.frame_repositories

lemma frame_confirm: "session_frame (ap_session A) committed (confirm_user A r)"
  unfolding confirm_user_def by (intro frames)

lemma frame_update: "session_frame (ap_session A) committed
   (io_bind (io_lift (hash_field (ap_hasher A) f)) (\<lambda>vals.
        io_bind (io_bind (user_update (ss_user (ap_session A)) u vals) result_of)
          (\<lambda>user. io_lift (user_result_from user))))"
  by (intro frames)

lemma frame_check: "session_frame (ap_session A) committed (check_permission ps u)"
  by (auto simp: session_frame_def check_permission_def io_simps split: relation.split option.split)

text \<open>
  Permission is granted for an access token that verifies, to an active user with a role among
  those asked for, when any are.
\<close>

lemma permission_cases:
  "fst (permission A t request s) =
    (case fst (auth_verify_token (ap_auth A) t (pm_access_token request) Access (cx_cache s)) of
       Inl e \<Rightarrow> Inl e
     | Inr i \<Rightarrow>
         (case find (\<lambda>u. u_uuid u = i) (db_users (committed (cx_db s))) of
            None \<Rightarrow> Inl (App (exception_map ESelect))
          | Some u \<Rightarrow> fst (check_permission (pm_permissions request)
              (with_loads [''role''] (db_roles (committed (cx_db s))) u) s)))"
proof -
  let ?m = "\<lambda>i. io_bind (io_bind (user_select (ss_user (ap_session A)) [''role''] (Some i) None) result_of)
         (check_permission (pm_permissions request))"
  have "session_frame (ap_session A) committed (?m i)" for i
    by (intro frames frame_check)
  note spec = db.in_session_spec(1) [OF this]
  have c: "fst (check_permission p u x) = fst (check_permission p u y)" for p u x y
    by (auto simp: check_permission_def io_simps split: relation.split option.split)
  have sel: "fst (?m i (ss_new (ap_session A) (cx_db s))) =
      (case find (\<lambda>u. u_uuid u = i) (db_users (committed (cx_db s))) of
            None \<Rightarrow> Inl (App (exception_map ESelect))
          | Some u \<Rightarrow> fst (check_permission (pm_permissions request)
              (with_loads [''role''] (db_roles (committed (cx_db s))) u) s))" for i
    using db.user_select_uuid [of "[''role'']" i "ss_new (ap_session A) (cx_db s)"]
    by (auto simp: io_bind_def result_of_simps db.new_views intro: c split: option.split)
  show ?thesis
    by (auto simp: permission_def io_bind_def [of "on_cache _"] io_focus_def spec sel
        split: sum.split)
qed

lemma register_spec:
  assumes "lists (cx_cache s) (code_key code) = []"
  shows "committed (cx_db (snd (register A code r s))) = committed (cx_db s)"
    and "fst (register A code r s) =
      (if rg_login r \<in> u_login ` set (db_users (committed (cx_db s)))
       then Inl (App (simple_error ConflictError ''User already exists''))
       else Inr \<lparr>st_status = True\<rparr>)"
    and "strs (cx_cache (snd (register A code r s))) =
      (if rg_login r \<in> u_login ` set (db_users (committed (cx_db s))) then strs (cx_cache s)
       else (strs (cx_cache s))(code_key code \<mapsto> ap_dump A r))"
    and "lists (cx_cache (snd (register A code r s))) = lists (cx_cache s)"
proof -
  let ?m = "io_bind (user_exists (ss_user (ap_session A)) (rg_login r)) result_of"
  have "session_frame (ap_session A) committed ?m" by (intro frames)
  note spec = db.in_session_spec [OF this]
  have e: "fst (?m (ss_new (ap_session A) (cx_db s))) =
      Inr (rg_login r \<in> u_login ` set (db_users (committed (cx_db s))))"
    using db.user_exists_login [of "rg_login r" "ss_new (ap_session A) (cx_db s)"]
    by (simp add: io_bind_def result_of_simps db.new_views)
  note facts = register_def io_bind_def [of "on_db _"] io_bind_def [of "on_cache _"] io_focus_def
    io_apply spec e auth.cache.cache_laws assms
  show "committed (cx_db (snd (register A code r s))) = committed (cx_db s)"
    and "fst (register A code r s) =
      (if rg_login r \<in> u_login ` set (db_users (committed (cx_db s)))
       then Inl (App (simple_error ConflictError ''User already exists''))
       else Inr \<lparr>st_status = True\<rparr>)"
    and "strs (cx_cache (snd (register A code r s))) =
      (if rg_login r \<in> u_login ` set (db_users (committed (cx_db s))) then strs (cx_cache s)
       else (strs (cx_cache s))(code_key code \<mapsto> ap_dump A r))"
    and "lists (cx_cache (snd (register A code r s))) = lists (cx_cache s)"
    by (auto simp: facts split: sum.splits)
qed

text \<open>The database block of \<open>confirm\<close>.\<close>

lemma confirm_user_spec:
  fixes d :: 'd and r :: register_request
  defines "D \<equiv> committed d"
  shows "(\<exists>role h u now. role \<in> set (db_roles D) \<and> r_name role = USER \<and>
      h_hash_password (ap_hasher A) (rg_password r) = Inr h \<and> known_uuid (ap_auth A) u \<and>
      u \<notin> u_uuid ` set (db_users D) \<and> rg_login r \<notin> u_login ` set (db_users D) \<and>
      fst (in_database (ap_session A) (confirm_user A r) d) =
        Inr (new_user (rg_login r) h (r_uuid role) u now) \<and>
      committed (snd (in_database (ap_session A) (confirm_user A r) d)) =
        D\<lparr>db_users := db_users D @ [new_user (rg_login r) h (r_uuid role) u now]\<rparr>) \<or>
    (rg_login r \<in> u_login ` set (db_users D) \<and> (\<exists>role \<in> set (db_roles D). r_name role = USER) \<and>
      fst (in_database (ap_session A) (confirm_user A r) d) =
        Inl (App (simple_error ConflictError ''login already in use'')) \<and>
      committed (snd (in_database (ap_session A) (confirm_user A r) d)) = D) \<or>
    ((\<forall>role \<in> set (db_roles D). r_name role \<noteq> USER) \<and>
      fst (in_database (ap_session A) (confirm_user A r) d) = Inl (App (exception_map ESelect)) \<and>
      committed (snd (in_database (ap_session A) (confirm_user A r) d)) = D)"
proof -
  let ?S = "ap_session A" and ?d = "db.begun d"
  have t: "tables ?d = D" by (simp add: db.begun_views D_def)
  note spec = db.in_database_spec [OF frame_confirm, of r d]
  obtain h where h: "h_hash_password (ap_hasher A) (rg_password r) = Inr h"
    using hasher.hash by blast
  let ?d1 = "snd (role_select (ss_role ?S) [] None (Some ''User'') ?d)"
  obtain x where x: "fst (role_select (ss_role ?S) [] None (Some ''User'') ?d) = Inr (Result ESelect x)"
    "case x of None \<Rightarrow> \<forall>r \<in> set (db_roles D). r_name r \<noteq> USER
     | Some r \<Rightarrow> r \<in> set (db_roles D) \<and> r_name r = USER" "tables ?d1 = D"
    using db.role_select_name [of USER ?d] unfolding t role_type_value.simps by blast
  show ?thesis
  proof (cases x)
    case None
    with x have "fst (confirm_user A r ?d) = Inl (App (exception_map ESelect))"
      by (simp add: confirm_user_def io_bind_def result_of_simps)
    with None x(2) show ?thesis
      by (simp only: spec D_def) simp
  next
    case (Some role)
    with x(2) have role: "role \<in> set (db_roles D)" "r_name role = USER" by simp_all
    let ?c = "user_create (ss_user ?S) (user_values (rg_login r) h (r_uuid role)) ?d1"
    have body: "fst (confirm_user A r ?d) = (case fst ?c of Inl e \<Rightarrow> Inl e
        | Inr res \<Rightarrow> fst (result_of res (snd ?c)))"
      "fst ?c = Inr (Result ECreate (Some v)) \<Longrightarrow> snd (confirm_user A r ?d) = snd ?c" for v
      using x(1) Some h
      by (auto simp: confirm_user_def io_bind_def io_lift_def result_of_simps split: sum.split)
    show ?thesis
    proof (cases "rg_login r \<in> u_login ` set (db_users D)")
      case True
      then have "fst ?c = Inl (App (simple_error ConflictError ''login already in use''))"
        using db.user_create_duplicate [of "rg_login r" ?d1 h "r_uuid role"] x(3) by simp
      with body(1) have "fst (confirm_user A r ?d) =
          Inl (App (simple_error ConflictError ''login already in use''))" by simp
      with True role show ?thesis
        by (auto simp only: spec D_def sum.case)
    next
      case False
      then obtain u now where u: "known_uuid (ap_auth A) u" "u \<notin> u_uuid ` set (db_users D)"
        "fst ?c = Inr (Result ECreate (Some (new_user (rg_login r) h (r_uuid role) u now)))"
        "tables (snd ?c) = D\<lparr>db_users := db_users D @ [new_user (rg_login r) h (r_uuid role) u now]\<rparr>"
        using db.user_create_ok [of "rg_login r" ?d1 "r_uuid role" h] x(3) role(1) by auto
      then have "fst (confirm_user A r ?d) = Inr (new_user (rg_login r) h (r_uuid role) u now)"
        "tables (snd (confirm_user A r ?d)) =
          D\<lparr>db_users := db_users D @ [new_user (rg_login r) h (r_uuid role) u now]\<rparr>"
        using body by (simp_all add: result_of_simps)
      then have "fst (in_database ?S (confirm_user A r) d) = Inr (new_user (rg_login r) h (r_uuid role) u now)"
        "committed (snd (in_database ?S (confirm_user A r) d)) =
          D\<lparr>db_users := db_users D @ [new_user (rg_login r) h (r_uuid role) u now]\<rparr>"
        by (simp_all add: spec)
      with u(1,2) h role False show ?thesis by blast
    qed
  qed
qed

lemma confirm_no_code:
  assumes "lists (cx_cache s) (code_key code) = []"
    and "\<not> truthy_str (strs (cx_cache s) (code_key code))"
  shows "confirm A ts code s = (Inl (App (simple_error NotFoundError ''Code has expire or invalid'')), s)"
  using assms by (simp add: confirm_def io_simps auth.cache.get)

definition code_deleted :: "string \<Rightarrow> 'c \<Rightarrow> 'c" where
  "code_deleted code c = snd (sc_delete (ap_cache A) [code_key code] c)"

lemma code_deleted_views:
  assumes "plain_key (code_key code)" and "lists c (code_key code) = []"
  shows "strs (code_deleted code c) = (strs c)(code_key code := None)"
    and "lists (code_deleted code c) = lists c"
  using assms by (auto simp: code_deleted_def auth.cache.cache_laws)

lemma confirm_code:
  assumes "plain_key (code_key code)" and "lists (cx_cache s) (code_key code) = []"
    and "strs (cx_cache s) (code_key code) = Some txt" and "txt \<noteq> []"
  shows "confirm A ts code s =
    (let s' = s\<lparr>cx_cache := code_deleted code (cx_cache s)\<rparr>
     in case ap_parse A txt of
          None \<Rightarrow> (Inl PydanticValidationError, s')
        | Some r \<Rightarrow>
            (let b = in_database (ap_session A) (confirm_user A r) (cx_db s);
                 s'' = s'\<lparr>cx_db := snd b\<rparr>
             in case fst b of
                  Inl e \<Rightarrow> (Inl e, s'')
                | Inr user \<Rightarrow> on_cache (auth_login (ap_auth A) ts (rg_fingerprint r) (u_uuid user)) s''))"
  using assms
  by (simp add: confirm_def io_bind_def [of "on_cache _"] io_bind_def [of "on_db _"] io_focus_def
      auth.cache.get auth.cache.delete_ok code_deleted_def io_apply Let_def
      split: option.split sum.split)

lemma confirm_consumes_code:
  assumes "plain_key (code_key code)" and "lists (cx_cache s) (code_key code) = []"
    and "strs (cx_cache s) (code_key code) = Some txt" and "txt \<noteq> []"
    and free: "\<And>u. known_uuid (ap_auth A) u \<Longrightarrow> strs (cx_cache s) (uuid_str u) = None"
    and "0 \<le> ts 0" and "0 \<le> ts 1"
  shows "strs (cx_cache (snd (confirm A ts code s))) = (strs (cx_cache s))(code_key code := None)"
proof -
  have l: "strs (snd (auth_login (ap_auth A) ts fp u (code_deleted code (cx_cache s)))) =
      (strs (cx_cache s))(code_key code := None)" if "known_uuid (ap_auth A) u" for fp u
  proof -
    have "strs (code_deleted code (cx_cache s)) (uuid_str u) = None"
      using free [OF that] code_deleted_views [OF assms(1,2)] by simp
    from auth.login_spec [OF assms(6,7) that this, of fp] show ?thesis
      using code_deleted_views [OF assms(1,2)] by metis
  qed
  have k: "known_uuid (ap_auth A) (u_uuid v)"
    if "fst (in_database (ap_session A) (confirm_user A r) d) = Inr v" for r d v
    using confirm_user_spec [of d r] that by (auto simp: new_user_def)
  show ?thesis
    using l k code_deleted_views [OF assms(1,2)]
    by (auto simp: confirm_code [OF assms(1-4)] Let_def io_focus_def split: option.split sum.split)
qed

lemma confirm_creates_user:
  fixes s :: "('c, 'd) ctx"
  defines "D \<equiv> committed (cx_db s)" and "c \<equiv> cx_cache s"
  assumes code: "plain_key (code_key code)" "lists c (code_key code) = []"
    "strs c (code_key code) = Some (ap_dump A r)"
    and r: "valid_login (rg_login r)" "valid_password (rg_password r)"
    and role: "\<exists>role \<in> set (db_roles D). r_name role = USER"
    and new: "rg_login r \<notin> u_login ` set (db_users D)"
    and free: "\<And>u. known_uuid (ap_auth A) u \<Longrightarrow> strs c (uuid_str u) = None"
    and time: "0 \<le> ts 0" "0 \<le> ts 1"
  shows "\<exists>role h u now res. fst (confirm A ts code s) = Inr res \<and>
    role \<in> set (db_roles D) \<and> r_name role = USER \<and>
    h_hash_password (ap_hasher A) (rg_password r) = Inr h \<and>
    known_uuid (ap_auth A) u \<and> u \<notin> u_uuid ` set (db_users D) \<and>
    committed (cx_db (snd (confirm A ts code s))) =
      D\<lparr>db_users := db_users D @ [new_user (rg_login r) h (r_uuid role) u now]\<rparr> \<and>
    strs (cx_cache (snd (confirm A ts code s))) = (strs c)(code_key code := None) \<and>
    lists (cx_cache (snd (confirm A ts code s))) = (lists c)(uuid_str u :=
      sessions_after_login (lists c (uuid_str u))
        (session_entry (rg_fingerprint r) (tk_refresh (te_tokens res)))) \<and>
    j_create (as_jwt (ap_auth A)) (ts 1) Refresh (uuid_str u) None [] =
      Inr (te_refresh_expire res, tk_refresh (te_tokens res))"
proof -
  have json: "ap_dump A r \<noteq> []" "ap_parse A (ap_dump A r) = Some r"
    using json r by auto
  note cf = confirm_code [OF code [unfolded c_def] json(1)]
  let ?b = "in_database (ap_session A) (confirm_user A r) (cx_db s)"
  obtain role h u now where b: "role \<in> set (db_roles D)" "r_name role = USER"
    "h_hash_password (ap_hasher A) (rg_password r) = Inr h" "known_uuid (ap_auth A) u"
    "u \<notin> u_uuid ` set (db_users D)"
    "fst ?b = Inr (new_user (rg_login r) h (r_uuid role) u now)"
    "committed (snd ?b) = D\<lparr>db_users := db_users D @ [new_user (rg_login r) h (r_uuid role) u now]\<rparr>"
    using confirm_user_spec [of "cx_db s" r] role new unfolding D_def [symmetric] by blast
  let ?c1 = "code_deleted code c"
  note views = code_deleted_views [OF code(1,2)]
  have "strs ?c1 (uuid_str u) = None"
    using free [OF b(4)] by (simp add: views)
  from auth.login_spec [OF time b(4) this, of "rg_fingerprint r"]
  obtain res where "fst (auth_login (ap_auth A) ts (rg_fingerprint r) u ?c1) = Inr res"
    "j_create (as_jwt (ap_auth A)) (ts 1) Refresh (uuid_str u) None [] =
      Inr (te_refresh_expire res, tk_refresh (te_tokens res))"
    "strs (snd (auth_login (ap_auth A) ts (rg_fingerprint r) u ?c1)) = (strs c)(code_key code := None)"
    "lists (snd (auth_login (ap_auth A) ts (rg_fingerprint r) u ?c1)) = (lists c)(uuid_str u :=
      sessions_after_login (lists c (uuid_str u))
        (session_entry (rg_fingerprint r) (tk_refresh (te_tokens res))))"
    unfolding views by blast
  then show ?thesis
    using b by (intro exI [of _ role] exI [of _ h] exI [of _ u] exI [of _ now] exI [of _ res])
      (simp add: cf json(2) Let_def io_focus_def new_user_def c_def)
qed

lemma select_by_login:
  assumes "l \<noteq> []"
  shows "fst (io_bind (user_select (ss_user (ap_session A)) [] None (Some l)) result_of (ss_new (ap_session A) d)) =
    (case find (\<lambda>u. u_login u = l) (db_users (committed d)) of
       None \<Rightarrow> Inl (App (exception_map ESelect)) | Some u \<Rightarrow> Inr u)"
  using db.user_select_login [OF assms, of "[]" "ss_new (ap_session A) d"]
  by (auto simp: io_bind_def result_of_simps db.new_views with_loads_def split: option.split)

lemma login_user_cases:
  assumes "lg_login r \<noteq> []"
  shows "fst (login_user A ts r s) =
    (case find (\<lambda>u. u_login u = lg_login r) (db_users (committed (cx_db s))) of
       None \<Rightarrow> Inl (App (exception_map ESelect))
     | Some u \<Rightarrow>
         if \<not> u_active u then Inl (App (simple_error ForbiddenError ''You have been blocked''))
         else (case h_verify_password (ap_hasher A) (u_password u) (lg_password r) of
             Inl e \<Rightarrow> Inl e
           | Inr False \<Rightarrow> Inl (App (simple_error UnAuthorizedError ''Incorrect password or login''))
           | Inr True \<Rightarrow> fst (auth_login (ap_auth A) ts (lg_fingerprint r) (u_uuid u) (cx_cache s))))"
    and "cx_cache (snd (login_user A ts r s)) =
    (case find (\<lambda>u. u_login u = lg_login r) (db_users (committed (cx_db s))) of
       None \<Rightarrow> cx_cache s
     | Some u \<Rightarrow>
         if u_active u \<and> h_verify_password (ap_hasher A) (u_password u) (lg_password r) = Inr True
         then snd (auth_login (ap_auth A) ts (lg_fingerprint r) (u_uuid u) (cx_cache s))
         else cx_cache s)"
    and "committed (cx_db (snd (login_user A ts r s))) = committed (cx_db s)"
proof -
  let ?m = "io_bind (user_select (ss_user (ap_session A)) [] None (Some (lg_login r))) result_of"
  have "session_frame (ap_session A) committed ?m" by (intro frames)
  note spec = db.in_session_spec [OF this]
  note sel = select_by_login [OF assms, of "cx_db s"]
  note facts = login_user_def io_bind_def [of "on_db _"] io_bind_def [of "io_lift _"] io_focus_def
    io_apply spec sel
  show "fst (login_user A ts r s) =
    (case find (\<lambda>u. u_login u = lg_login r) (db_users (committed (cx_db s))) of
       None \<Rightarrow> Inl (App (exception_map ESelect))
     | Some u \<Rightarrow>
         if \<not> u_active u then Inl (App (simple_error ForbiddenError ''You have been blocked''))
         else (case h_verify_password (ap_hasher A) (u_password u) (lg_password r) of
             Inl e \<Rightarrow> Inl e
           | Inr False \<Rightarrow> Inl (App (simple_error UnAuthorizedError ''Incorrect password or login''))
           | Inr True \<Rightarrow> fst (auth_login (ap_auth A) ts (lg_fingerprint r) (u_uuid u) (cx_cache s))))"
    by (auto simp: facts split: option.split sum.split bool.split)
  show "cx_cache (snd (login_user A ts r s)) =
    (case find (\<lambda>u. u_login u = lg_login r) (db_users (committed (cx_db s))) of
       None \<Rightarrow> cx_cache s
     | Some u \<Rightarrow>
         if u_active u \<and> h_verify_password (ap_hasher A) (u_password u) (lg_password r) = Inr True
         then snd (auth_login (ap_auth A) ts (lg_fingerprint r) (u_uuid u) (cx_cache s))
         else cx_cache s)"
    by (auto simp: facts split: option.split sum.split)
  show "committed (cx_db (snd (login_user A ts r s))) = committed (cx_db s)"
    by (auto simp: facts split: option.split sum.split)
qed

lemma login_user_empty:
  assumes "lg_login r = []"
  shows "cx_cache (snd (login_user A ts r s)) = cx_cache s"
    and "committed (cx_db (snd (login_user A ts r s))) = committed (cx_db s)"
    and "fst (login_user A ts r s) =
      Inl (InvalidParamsError ''at least one identifier must be provided'')"
proof -
  let ?m = "io_bind (user_select (ss_user (ap_session A)) [] None (Some (lg_login r))) result_of"
  have "session_frame (ap_session A) committed ?m" by (intro frames)
  note spec = db.in_session_spec [OF this]
  have "fst (?m (ss_new (ap_session A) (cx_db s))) =
      Inl (InvalidParamsError ''at least one identifier must be provided'')"
    using assms by (simp add: user_select_def no_identifier_def io_simps)
  with spec show "cx_cache (snd (login_user A ts r s)) = cx_cache s"
    and "committed (cx_db (snd (login_user A ts r s))) = committed (cx_db s)"
    and "fst (login_user A ts r s) =
      Inl (InvalidParamsError ''at least one identifier must be provided'')"
    by (auto simp: login_user_def io_bind_def [of "on_db _"] io_focus_def)
qed

lemma create_user_duplicate:
  assumes "cu_login r \<in> u_login ` set (db_users (committed (cx_db s)))"
  shows "fst (create_user A r s) = Inl (App (simple_error ConflictError ''login already in use''))"
    and "committed (cx_db (snd (create_user A r s))) = committed (cx_db s)"
proof -
  let ?m = "io_bind (io_lift (h_hash_password (ap_hasher A) (cu_password r))) (\<lambda>password.
        io_bind (io_bind (user_create (ss_user (ap_session A))
            (user_values (cu_login r) password (cu_role_uuid r))) result_of)
          (\<lambda>user. io_lift (user_result_from user)))"
  have "session_frame (ap_session A) committed ?m" by (intro frames)
  note spec = db.in_database_spec [OF this]
  obtain h where h: "h_hash_password (ap_hasher A) (cu_password r) = Inr h"
    using hasher.hash by blast
  have "fst (?m (db.begun (cx_db s))) = Inl (App (simple_error ConflictError ''login already in use''))"
    using db.user_create_duplicate [of "cu_login r" "db.begun (cx_db s)" h "cu_role_uuid r"] assms h
    by (simp add: io_bind_def io_lift_def db.begun_views)
  then show "fst (create_user A r s) = Inl (App (simple_error ConflictError ''login already in use''))"
    and "committed (cx_db (snd (create_user A r s))) = committed (cx_db s)"
    by (simp_all add: create_user_def io_focus_def spec)
qed

lemma create_user_ok:
  fixes s :: "('c, 'd) ctx"
  defines "D \<equiv> committed (cx_db s)"
  assumes "cu_login r \<notin> u_login ` set (db_users D)" and "cu_role_uuid r \<in> r_uuid ` set (db_roles D)"
  shows "\<exists>h u now. h_hash_password (ap_hasher A) (cu_password r) = Inr h \<and>
    u \<notin> u_uuid ` set (db_users D) \<and>
    fst (create_user A r s) = Inr (user_view (new_user (cu_login r) h (cu_role_uuid r) u now)) \<and>
    committed (cx_db (snd (create_user A r s))) =
      D\<lparr>db_users := db_users D @ [new_user (cu_login r) h (cu_role_uuid r) u now]\<rparr>"
proof -
  let ?m = "io_bind (io_lift (h_hash_password (ap_hasher A) (cu_password r))) (\<lambda>password.
        io_bind (io_bind (user_create (ss_user (ap_session A))
            (user_values (cu_login r) password (cu_role_uuid r))) result_of)
          (\<lambda>user. io_lift (user_result_from user)))"
  have "session_frame (ap_session A) committed ?m" by (intro frames)
  note spec = db.in_database_spec [OF this]
  obtain h where h: "h_hash_password (ap_hasher A) (cu_password r) = Inr h"
    using hasher.hash by blast
  obtain u now where u: "u \<notin> u_uuid ` set (db_users D)"
    "fst (user_create (ss_user (ap_session A)) (user_values (cu_login r) h (cu_role_uuid r))
      (db.begun (cx_db s))) = Inr (Result ECreate (Some (new_user (cu_login r) h (cu_role_uuid r) u now)))"
    "tables (snd (user_create (ss_user (ap_session A)) (user_values (cu_login r) h (cu_role_uuid r))
      (db.begun (cx_db s)))) = D\<lparr>db_users := db_users D @ [new_user (cu_login r) h (cu_role_uuid r) u now]\<rparr>"
    using db.user_create_ok [of "cu_login r" "db.begun (cx_db s)" "cu_role_uuid r" h] assms(2,3)
    unfolding db.begun_views D_def by blast
  then have "fst (?m (db.begun (cx_db s))) = Inr (user_view (new_user (cu_login r) h (cu_role_uuid r) u now))"
    "tables (snd (?m (db.begun (cx_db s)))) =
      D\<lparr>db_users := db_users D @ [new_user (cu_login r) h (cu_role_uuid r) u now]\<rparr>"
    using h by (simp_all add: io_bind_def io_lift_def result_of_simps user_result_from_view)
  then have "fst (in_database (ap_session A) ?m (cx_db s)) =
      Inr (user_view (new_user (cu_login r) h (cu_role_uuid r) u now))"
    "committed (snd (in_database (ap_session A) ?m (cx_db s))) =
      D\<lparr>db_users := db_users D @ [new_user (cu_login r) h (cu_role_uuid r) u now]\<rparr>"
    by (simp_all only: spec sum.case)
  then have "fst (create_user A r s) = Inr (user_view (new_user (cu_login r) h (cu_role_uuid r) u now))"
    "committed (cx_db (snd (create_user A r s))) =
      D\<lparr>db_users := db_users D @ [new_user (cu_login r) h (cu_role_uuid r) u now]\<rparr>"
    by (simp_all add: create_user_def io_focus_def)
  with h u(1) show ?thesis by blast
qed

text \<open>What an update stores, after the hash: the fields the request set, and no other.\<close>

lemma hash_field_ok: "\<exists>vals. hash_field (ap_hasher A) (dump_update r) = Inr vals \<and>
    vals = (case up_password r of
        Some (Some plain) \<Rightarrow> [(''password'', PStr (projr (h_hash_password (ap_hasher A) plain)))]
      | Some None \<Rightarrow> [(''password'', PNone)] | None \<Rightarrow> []) @
      set_field ''role_uuid'' PUuid (up_role_uuid r) @ set_field ''active'' PBool (up_active r)"
proof -
  have role: "dict_get (set_field ''role_uuid'' PUuid (up_role_uuid r) @
      set_field ''active'' PBool (up_active r)) ''password'' = None"
    by (auto simp: set_field_def split: option.split)
  show ?thesis
  proof (cases "up_password r")
    case None
    with role show ?thesis
      by (simp add: hash_field_def dump_update_def set_field_def [of "''password''"] map_add_def)
  next
    case (Some x)
    then show ?thesis
      using hasher.hash [of "the x"]
      by (cases x) (auto simp: hash_field_def dump_update_def set_field_def [of "''password''"])
  qed
qed

lemma update_user_run:
  assumes "hash_field (ap_hasher A) (dump_update r) = Inr vals"
  shows "fst (update_user A r s) =
      (case fst (user_update (ss_user (ap_session A)) (up_user_uuid r) vals (db.begun (cx_db s))) of
         Inl e \<Rightarrow> Inl e
       | Inr (Result t None) \<Rightarrow> Inl (App (exception_map t))
       | Inr (Result t (Some u)) \<Rightarrow> Inr (user_view u))"
    and "committed (cx_db (snd (update_user A r s))) =
      (case fst (update_user A r s) of
         Inl e \<Rightarrow> committed (cx_db s)
       | Inr _ \<Rightarrow> tables (snd (user_update (ss_user (ap_session A)) (up_user_uuid r) vals
           (db.begun (cx_db s)))))"
proof -
  note spec = db.in_database_spec [OF frame_update]
  show *: "fst (update_user A r s) =
      (case fst (user_update (ss_user (ap_session A)) (up_user_uuid r) vals (db.begun (cx_db s))) of
         Inl e \<Rightarrow> Inl e
       | Inr (Result t None) \<Rightarrow> Inl (App (exception_map t))
       | Inr (Result t (Some u)) \<Rightarrow> Inr (user_view u))"
    by (simp add: update_user_def io_focus_def spec)
      (auto simp: io_bind_def io_lift_def assms result_of_simps user_result_from_view
        split: sum.split db_result.split option.split)
  show "committed (cx_db (snd (update_user A r s))) =
      (case fst (update_user A r s) of
         Inl e \<Rightarrow> committed (cx_db s)
       | Inr _ \<Rightarrow> tables (snd (user_update (ss_user (ap_session A)) (up_user_uuid r) vals
           (db.begun (cx_db s)))))"
    unfolding *
    by (simp add: update_user_def io_focus_def spec)
      (auto simp: io_bind_def io_lift_def assms result_of_simps user_result_from_view
        split: sum.split db_result.split option.split)
qed

lemma select_many_user_run:
  assumes "0 \<le> pg_offset (sm_pagination r)" and "\<forall>l. pg_limit (sm_pagination r) = Some l \<longrightarrow> 0 \<le> l"
  shows "\<exists>ordered. fst (select_many_user A r s) = Inr
      \<lparr>or_data = map (user_view \<circ> with_loads (sm_loads r) (db_roles (committed (cx_db s))))
         (page (pg_offset (sm_pagination r)) (pg_limit (sm_pagination r)) ordered),
       or_offset = pg_offset (sm_pagination r), or_limit = pg_limit (sm_pagination r),
       or_total = int (length ordered)\<rparr> \<and>
    mset ordered = mset (filter (\<lambda>u. matches ilike (user_column u) (user_filter (sm_login r) (sm_role_uuid r)))
      (db_users (committed (cx_db s)))) \<and>
    sorted_dir (pg_order_by (sm_pagination r)) (map u_created_at ordered)"
proof -
  let ?p = "sm_pagination r"
  let ?sel = "user_select_many (ss_user (ap_session A)) (sm_loads r) (sm_login r)
    (sm_role_uuid r) (pg_order_by ?p) (pg_offset ?p) (pg_limit ?p)"
  let ?m = "io_bind (io_bind ?sel result_of) (\<lambda>(total, users).
            io_bind (io_map (\<lambda>user. io_lift (user_result_from user)) users) (\<lambda>results.
            io_return \<lparr>or_data = results, or_offset = pg_offset ?p, or_limit = pg_limit ?p,
              or_total = total\<rparr>))"
  have map_ok: "io_map (\<lambda>user. io_lift (user_result_from user)) users x = (Inr (map user_view users), x)"
    for users and x :: 'd
    by (induction users) (simp_all add: io_simps user_result_from_view)
  have fr: "session_frame (ap_session A) committed (io_map (\<lambda>user. io_lift (user_result_from user)) users)"
    for users by (simp add: session_frame_def map_ok)
  have "session_frame (ap_session A) committed ?m"
    by (intro frames) (auto simp: split_beta intro!: frames fr)
  note spec = db.in_session_spec(1) [OF this]
  obtain ordered where o: "fst (?sel (ss_new (ap_session A) (cx_db s))) =
      Inr (Result ESelect (Some (int (length ordered),
        map (with_loads (sm_loads r) (db_roles (committed (cx_db s)))) (page (pg_offset ?p) (pg_limit ?p) ordered))))"
    "mset ordered = mset (filter (\<lambda>u. matches ilike (user_column u) (user_filter (sm_login r) (sm_role_uuid r)))
      (db_users (committed (cx_db s))))" "sorted_dir (pg_order_by ?p) (map u_created_at ordered)"
    using db.user_select_many_page [OF assms, of "sm_loads r" "sm_login r" "sm_role_uuid r"
        "pg_order_by ?p" "ss_new (ap_session A) (cx_db s)"]
    by (auto simp: db.new_views)
  have "fst (?m (ss_new (ap_session A) (cx_db s))) = Inr
      \<lparr>or_data = map (user_view \<circ> with_loads (sm_loads r) (db_roles (committed (cx_db s))))
         (page (pg_offset ?p) (pg_limit ?p) ordered),
       or_offset = pg_offset ?p, or_limit = pg_limit ?p, or_total = int (length ordered)\<rparr>"
    using o(1) by (simp add: io_bind_def result_of_simps map_ok io_apply)
  with o(2,3) show ?thesis
    by (intro exI [of _ ordered]) (simp add: select_many_user_def Let_def io_focus_def spec)
qed

lemma login_access_token:
  assumes "fst (auth_login (ap_auth A) ts fp u c) = Inr res"
  shows "\<exists>e. j_create (as_jwt (ap_auth A)) (ts 0) Access (uuid_str u) None [] =
    Inr (e, tk_access (te_tokens res))"
  using assms by (auto simp: auth_login_def issue_tokens_def io_simps split: sum.splits)

text \<open>An access token of a login opens what its user may do, until it expires.\<close>

lemma permission_with_token:
  assumes "fst (auth_login (ap_auth A) ts fp i c) = Inr res" and "known_uuid (ap_auth A) i"
    and "0 \<le> ts 0" and "ts 0 \<le> t" and "t < (ts 0 + life Access) div 1000000 * 1000000"
  shows "fst (permission A t \<lparr>pm_permissions = ps, pm_access_token = tk_access (te_tokens res)\<rparr> s) =
    (case find (\<lambda>u. u_uuid u = i) (db_users (committed (cx_db s))) of
       None \<Rightarrow> Inl (App (exception_map ESelect))
     | Some u \<Rightarrow> fst (check_permission ps (with_loads [''role''] (db_roles (committed (cx_db s))) u) s))"
proof -
  obtain e where e: "j_create (as_jwt (ap_auth A)) (ts 0) Access (uuid_str i) None [] =
      Inr (e, tk_access (te_tokens res))"
    using login_access_token [OF assms(1)] by blast
  moreover have "e = ts 0 + life Access"
    using auth.tokens.create [OF assms(3), of Access "uuid_str i"] e by auto
  ultimately have "auth_verify_token (ap_auth A) t (tk_access (te_tokens res)) Access (cx_cache s) =
      (Inr i, cx_cache s)"
    using auth.verify_token_spec [OF assms(3) e assms(4) _ assms(2), of Access "cx_cache s"] assms(5)
    by simp
  then show ?thesis by (auto simp: permission_cases split: option.split)
qed

lemma permission_frame:
  "cx_cache (snd (permission A t request s)) = cx_cache s"
  "committed (cx_db (snd (permission A t request s))) = committed (cx_db s)"
proof -
  let ?m = "\<lambda>i. io_bind (io_bind (user_select (ss_user (ap_session A)) [''role''] (Some i) None) result_of)
         (check_permission (pm_permissions request))"
  have "session_frame (ap_session A) committed (?m i)" for i
    by (intro frames frame_check)
  note spec = db.in_session_spec(2) [OF this]
  show "cx_cache (snd (permission A t request s)) = cx_cache s"
    and "committed (cx_db (snd (permission A t request s))) = committed (cx_db s)"
    by (auto simp: permission_def io_bind_def [of "on_cache _"] io_focus_def spec
        auth.verify_token_state split: sum.split)
qed

text \<open>An update without a role and an activity leaves both alone, whatever it comes to.\<close>

lemma update_password_only:
  assumes "up_role_uuid r = None" and "up_active r = None"
    and "v \<in> set (db_users (committed (cx_db (snd (update_user A r s)))))"
  shows "\<exists>u \<in> set (db_users (committed (cx_db s))). u_uuid v = u_uuid u \<and> u_login v = u_login u \<and>
    u_active v = u_active u \<and> u_role_uuid v = u_role_uuid u \<and> (u_uuid u \<noteq> up_user_uuid r \<longrightarrow> v = u)"
proof -
  let ?D = "committed (cx_db s)" and ?d = "db.begun (cx_db s)"
  have t: "tables ?d = ?D" by (rule db.begun_views(1))
  obtain vals where vals: "hash_field (ap_hasher A) (dump_update r) = Inr vals"
    "vals = (case up_password r of
        Some (Some plain) \<Rightarrow> [(''password'', PStr (projr (h_hash_password (ap_hasher A) plain)))]
      | Some None \<Rightarrow> [(''password'', PNone)] | None \<Rightarrow> [])"
    using hash_field_ok [of r] assms(1,2) by (auto simp: set_field_def)
  note run = update_user_run [OF vals(1), of s]
  have same: "?thesis" if "committed (cx_db (snd (update_user A r s))) = ?D"
    using assms(3) that by auto
  consider "up_user_uuid r \<notin> u_uuid ` set (db_users ?D)"
    | "up_user_uuid r \<in> u_uuid ` set (db_users ?D)" "PNone \<in> snd ` set vals"
    | u where "u \<in> set (db_users ?D)" "u_uuid u = up_user_uuid r" "PNone \<notin> snd ` set vals"
    unfolding image_iff by metis
  then show ?thesis
  proof cases
    case 1
    then have "fst (user_update (ss_user (ap_session A)) (up_user_uuid r) vals ?d) = Inr (Result EUpdate None)"
      using db.user_update_missing [of "up_user_uuid r" ?d vals] t by simp
    then show ?thesis using run by (intro same) simp
  next
    case 2
    then show ?thesis
      using db.user_update_null [of "up_user_uuid r" ?d vals] t run by (intro same) auto
  next
    case (3 u)
    have sub: "set vals \<subseteq> ({''password''} \<times> range PStr) \<union> ({''active''} \<times> range PBool) \<union>
        ({''role_uuid''} \<times> PUuid ` r_uuid ` set (db_roles (tables ?d)))"
      using vals(2) 3(3) by (auto split: option.splits)
    have keep: "u_uuid (set_columns vals w) = u_uuid w \<and> u_login (set_columns vals w) = u_login w \<and>
        u_active (set_columns vals w) = u_active w \<and> u_role_uuid (set_columns vals w) = u_role_uuid w" for w
      using vals(2) by (auto simp: set_columns_def split: option.splits)
    obtain now where
      "fst (user_update (ss_user (ap_session A)) (up_user_uuid r) vals ?d) =
        Inr (Result EUpdate (Some ((set_columns vals u)\<lparr>u_updated_at := now\<rparr>)))"
      "db_users (tables (snd (user_update (ss_user (ap_session A)) (up_user_uuid r) vals ?d))) =
        map (\<lambda>v. if u_uuid v = up_user_uuid r
          then (set_columns vals v)\<lparr>u_updated_at := now\<rparr> else v) (db_users ?D)"
      using db.user_update_ok [OF _ 3(2) sub] 3(1) unfolding t by fastforce
    then have "v \<in> set (map (\<lambda>v. if u_uuid v = up_user_uuid r
          then (set_columns vals v)\<lparr>u_updated_at := now\<rparr> else v) (db_users ?D))"
      using run assms(3) by simp
    then obtain x where "x \<in> set (db_users ?D)"
      "v = (if u_uuid x = up_user_uuid r then (set_columns vals x)\<lparr>u_updated_at := now\<rparr> else x)"
      by auto
    then show ?thesis using keep [of x] by (intro bexI [of _ x]) auto
  qed
qed

lemma select_user_by_uuid:
  "fst (select_user A \<lparr>su_loads = loads, su_user_uuid = Some i, su_login = None\<rparr> s) =
    (case find (\<lambda>u. u_uuid u = i) (db_users (committed (cx_db s))) of
       None \<Rightarrow> Inl (App (exception_map ESelect))
     | Some u \<Rightarrow> Inr (user_view (with_loads loads (db_roles (committed (cx_db s))) u)))"
proof -
  let ?m = "io_bind (io_bind (user_select (ss_user (ap_session A)) loads (Some i) None) result_of)
          (\<lambda>user. io_lift (user_result_from user))"
  have "session_frame (ap_session A) committed ?m" by (intro frames)
  note spec = db.in_session_spec(1) [OF this]
  have "fst (?m (ss_new (ap_session A) (cx_db s))) =
    (case find (\<lambda>u. u_uuid u = i) (db_users (committed (cx_db s))) of
       None \<Rightarrow> Inl (App (exception_map ESelect))
     | Some u \<Rightarrow> Inr (user_view (with_loads loads (db_roles (committed (cx_db s))) u)))"
    using db.user_select_uuid [of loads i "ss_new (ap_session A) (cx_db s)"]
    by (auto simp: io_bind_def result_of_simps db.new_views io_lift_def user_result_from_view
        split: option.split)
  then show ?thesis by (simp add: select_user_def io_focus_def spec)
qed

end

end
