(* ===== verification/Presentation.thy ===== *)
theory Presentation
  imports Http Use_Cases
begin

text \<open>
  The HTTP layer, \<open>src/presentation/http\<close>: responses and their serialization, the exception handlers,
  the middlewares and their order, the guard \<open>Authorization\<close>, the contracts, and the endpoints of
  \<open>v1\<close>.  FastAPI and Starlette are not part of the program; what they contribute is the order in
  which they call what the program gives them, as stated at the definitions.
\<close>

section \<open>Responses (responses.py, serializers)\<close>

record cookie =
  ck_name :: string
  ck_value :: string
  ck_expires :: "int option"
  ck_httponly :: bool
  ck_secure :: bool
  ck_samesite :: string

record http_response =
  hp_status :: int
  hp_headers :: pydict
  hp_content :: pyval
  hp_cookies :: "cookie list"

text \<open>
  \<open>orjson_dumps\<close>: a text goes out as it is, unless it is empty, and everything else as JSON;
  \<open>dumps\<close> is orjson's.
\<close>

definition predict_bytes :: "pyval \<Rightarrow> string option" where
  "predict_bytes v = (case v of PStr s \<Rightarrow> Some s | _ \<Rightarrow> None)"

definition orjson_dumps :: "(pyval \<Rightarrow> string) \<Rightarrow> pyval \<Rightarrow> string" where
  "orjson_dumps dumps v =
     (case predict_bytes v of Some s \<Rightarrow> if s \<noteq> [] then s else dumps v | None \<Rightarrow> dumps v)"

text \<open>
  \<open>_default\<close>, which \<open>orjson\<close> asks for what it cannot write itself: a model is dumped (\<open>dump\<close> is
  \<open>model_dump\<close> in JSON mode, by alias and without the fields that are \<open>None\<close>), an identifier is its
  text, an exception its first argument, and anything else becomes null.
\<close>

datatype 'm json_object = ObjModel 'm | ObjUuid uuid | ObjException "pyval list" | ObjOther

fun json_default :: "('m \<Rightarrow> pydict) \<Rightarrow> 'm json_object \<Rightarrow> pyval" where
  "json_default dump (ObjModel m) = PDict (dump m)"
| "json_default dump (ObjUuid u) = PStr (uuid_str u)"
| "json_default dump (ObjException args) = (case args of v # _ \<Rightarrow> v | [] \<Rightarrow> PStr ''Unknown error'')"
| "json_default dump ObjOther = PNone"

definition orjson_response :: "pyval \<Rightarrow> int \<Rightarrow> pydict \<Rightarrow> http_response" where
  "orjson_response content status headers =
     \<lparr>hp_status = status, hp_headers = headers, hp_content = content, hp_cookies = []\<rparr>"

definition ok_response :: "pyval \<Rightarrow> http_response" where
  "ok_response content = orjson_response content 200 []"

section \<open>Log levels\<close>

datatype log_level = LInfo | LWarning | LError

fun level_rank :: "log_level \<Rightarrow> nat" where
  "level_rank LInfo = 0"
| "level_rank LWarning = 1"
| "level_rank LError = 2"

lemma level_rank_inject [simp]: "level_rank a = level_rank b \<longleftrightarrow> a = b"
  by (cases a; cases b) simp_all

instantiation log_level :: linorder
begin

definition less_eq_log_level :: "log_level \<Rightarrow> log_level \<Rightarrow> bool" where
  "less_eq_log_level a b \<longleftrightarrow> level_rank a \<le> level_rank b"

definition less_log_level :: "log_level \<Rightarrow> log_level \<Rightarrow> bool" where
  "less_log_level a b \<longleftrightarrow> level_rank a < level_rank b"

instance
  by standard (auto simp: less_eq_log_level_def less_log_level_def)

end

record log_entry =
  le_level :: log_level
  le_event :: string
  le_fields :: pydict

section \<open>Exception handlers (exception\_handlers.py)\<close>

text \<open>The identifier of a request whose state has none is a fresh one, \<open>fresh\<close>.\<close>

definition ticket :: "string \<Rightarrow> http_request \<Rightarrow> string" where
  "ticket fresh r = (if truthy_str (hr_request_id r) then the (hr_request_id r) else fresh)"

definition exc_message :: "app_exc \<Rightarrow> pyval" where
  "exc_message e = (case dict_get (exc_content e) ''message'' of Some m \<Rightarrow> m | None \<Rightarrow> PNone)"

definition app_exception_handler ::
  "string \<Rightarrow> http_request \<Rightarrow> app_exc \<Rightarrow> log_entry \<times> http_response" where
  "app_exception_handler fresh r e =
     (let t = ticket fresh r; c = exc_class e;
          details = [(''status_code'', PInt (status_code c)), (''message'', exc_message e), (''ticket'', PStr t)]
      in (if expected c
          then \<lparr>le_level = LInfo, le_event = ''app_exception'', le_fields = details\<rparr>
          else \<lparr>le_level = LError, le_event = ''app_exception_unexpected'', le_fields = details\<rparr>,
          orjson_response (PDict (dict_set ''ticket'' (PStr t) (exc_content e))) (status_code c)
            (case exc_headers e of Some h \<Rightarrow> h | None \<Rightarrow> [])))"

definition validation_exception_handler ::
  "string \<Rightarrow> http_request \<Rightarrow> pyval list \<Rightarrow> log_entry \<times> http_response" where
  "validation_exception_handler fresh r errors =
     (let t = ticket fresh r
      in (\<lparr>le_level = LWarning, le_event = ''validation_error'',
            le_fields = [(''ticket'', PStr t), (''errors'', PList errors)]\<rparr>,
          orjson_response (PDict [(''message'', PStr ''Validation error''), (''detail'', PList errors),
            (''ticket'', PStr t)]) 400 []))"

definition unknown_exception_handler :: "string \<Rightarrow> http_request \<Rightarrow> log_entry \<times> http_response" where
  "unknown_exception_handler fresh r =
     (let t = ticket fresh r
      in (\<lparr>le_level = LError, le_event = ''unhandled_exception'',
            le_fields = [(''method'', PStr (hr_method r)), (''path'', PStr (hr_path r)),
              (''request_id'', PStr t), (''ticket'', PStr t)]\<rparr>,
          orjson_response (PDict [(''message'', PStr ''Internal Server Error''), (''ticket'', PStr t)]) 500
            [(''x-request-id'', PStr t)]))"

section \<open>Middlewares\<close>

text \<open>
  An application answers a request or raises, on a state with the log.  Starlette calls the handlers
  of the exceptions it is given inside all middlewares, the one of \<open>Exception\<close> outside of them.
\<close>

record 'w web =
  wb_world :: 'w
  wb_log :: "log_entry list"

type_synonym 'w asgi = "http_request \<Rightarrow> ('w web, http_response) io"

definition write_log :: "log_entry \<Rightarrow> 'w web \<Rightarrow> 'w web" where
  "write_log e w = w\<lparr>wb_log := wb_log w @ [e]\<rparr>"

definition exception_middleware :: "string \<Rightarrow> 'w asgi \<Rightarrow> 'w asgi" where
  "exception_middleware fresh inner r =
     io_try (inner r) (\<lambda>e. case e of
         App a \<Rightarrow> (\<lambda>w. let (l, resp) = app_exception_handler fresh r a in (Inr resp, write_log l w))
       | RequestValidationError es \<Rightarrow>
           (\<lambda>w. let (l, resp) = validation_exception_handler fresh r es in (Inr resp, write_log l w))
       | _ \<Rightarrow> io_raise e)"

definition server_error_middleware :: "string \<Rightarrow> 'w asgi \<Rightarrow> 'w asgi" where
  "server_error_middleware fresh inner r =
     io_try (inner r) (\<lambda>_ w.
       let (l, resp) = unknown_exception_handler fresh r in (Inr resp, write_log l w))"

text \<open>The access log: a request that ended without a response counts as 500.\<close>

definition access_level :: "int \<Rightarrow> log_level" where
  "access_level status = (if status \<ge> 500 then LError else if status \<ge> 400 then LWarning else LInfo)"

definition access_log_middleware :: "'w asgi \<Rightarrow> 'w asgi" where
  "access_log_middleware inner r w =
     (let res = inner r w;
          seen = (case fst res of Inr resp \<Rightarrow> hp_status resp | Inl _ \<Rightarrow> 0);
          status = (if seen = 0 then 500 else seen)
      in (fst res, write_log \<lparr>le_level = access_level status, le_event = ''http_request'',
            le_fields = [(''method'', PStr (hr_method r)), (''path'', PStr (hr_path r)),
              (''status'', PInt status)]\<rparr> (snd res)))"

text \<open>
  The request identifier: in the state of the request for what is inside, and as a header behind
  those of the response.  The scope the identifier is written into is shared, so the handler outside
  sees it too.
\<close>

definition with_request_id :: "string \<Rightarrow> http_request \<Rightarrow> http_request" where
  "with_request_id rid r = r\<lparr>hr_request_id := Some rid\<rparr>"

definition request_id_middleware :: "string \<Rightarrow> 'w asgi \<Rightarrow> 'w asgi" where
  "request_id_middleware rid inner r =
     io_bind (inner (with_request_id rid r)) (\<lambda>resp.
     io_return (resp\<lparr>hp_headers := hp_headers resp @ [(''x-request-id'', PStr rid)]\<rparr>))"

text \<open>
  Starlette's \<open>CORSMiddleware\<close>, made with the origins, methods and headers of the settings.  It answers
  a preflight itself, an \<open>OPTIONS\<close> request with the headers \<open>Origin\<close> and
  \<open>Access-Control-Request-Method\<close>; the answer to any other request with an \<open>Origin\<close> gets its headers.
  What it answers and which headers it sets are its own.
\<close>

record cors =
  co_preflight :: "http_request \<Rightarrow> http_response"
  co_headers :: "http_request \<Rightarrow> pydict \<Rightarrow> pydict"

definition is_preflight :: "http_request \<Rightarrow> bool" where
  "is_preflight r \<longleftrightarrow> hr_method r = ''OPTIONS'' \<and> header_get r ''Origin'' \<noteq> None \<and>
     header_get r ''Access-Control-Request-Method'' \<noteq> None"

definition cors_middleware :: "cors \<Rightarrow> 'w asgi \<Rightarrow> 'w asgi" where
  "cors_middleware C inner r =
     (if header_get r ''Origin'' = None then inner r
      else if is_preflight r then io_return (co_preflight C r)
      else io_bind (inner r) (\<lambda>resp.
        io_return (resp\<lparr>hp_headers := co_headers C r (hp_headers resp)\<rparr>)))"

text \<open>
  The application as \<open>create_app\<close> puts it together: \<open>AccessLogMiddleware\<close> was added first and is
  innermost, \<open>RequestIDMiddleware\<close> is around it, and \<open>CORSMiddleware\<close>, added last, around both.  The
  handler of \<open>Exception\<close> is outside of them all; what it sees of a request has the identifier, for
  the exceptions come from inside.
\<close>

definition serve :: "cors \<Rightarrow> string \<Rightarrow> string \<Rightarrow> 'w asgi \<Rightarrow> 'w asgi" where
  "serve C rid fresh routes r =
     server_error_middleware fresh
       (\<lambda>_. cors_middleware C
         (request_id_middleware rid (access_log_middleware (exception_middleware fresh routes))) r)
       (with_request_id rid r)"

section \<open>Authorization (v1/guards/auth.py)\<close>

text \<open>\<open>get_authorization_scheme_param\<close> of FastAPI is the parameter \<open>scheme_param\<close>.\<close>

definition extract_bearer ::
  "(string option \<Rightarrow> string \<times> string) \<Rightarrow> http_request \<Rightarrow> exn + string" where
  "extract_bearer scheme_param r =
     (let header = header_get r ''Authorization''; (scheme, token) = scheme_param header
      in if \<not> (truthy_str header \<and> scheme \<noteq> [] \<and> token \<noteq> [])
         then Inl (App (simple_error UnAuthorizedError ''Not authenticated''))
         else if py_lower scheme \<noteq> ''bearer''
         then Inl (App (simple_error UnAuthorizedError ''Invalid authentication credentials''))
         else Inr token)"

record ('c, 'd) site =
  si_app :: "('c, 'd) app"
  si_scheme_param :: "string option \<Rightarrow> string \<times> string"
  si_production :: bool

definition authorization ::
  "('c, 'd) site \<Rightarrow> int \<Rightarrow> string list \<Rightarrow> http_request \<Rightarrow> (('c, 'd) ctx, user_result) io" where
  "authorization W t roles r =
     io_bind (io_lift (extract_bearer (si_scheme_param W) r)) (\<lambda>token.
     permission (si_app W) t \<lparr>pm_permissions = map Some roles, pm_access_token = token\<rparr>)"

section \<open>Contracts (v1/contracts)\<close>

definition MIN_PAGINATION_LIMIT :: int where "MIN_PAGINATION_LIMIT = 10"
definition MAX_PAGINATION_LIMIT :: int where "MAX_PAGINATION_LIMIT = 200"

record login_contract =
  lc_fingerprint :: string
  lc_login :: string
  lc_password :: string

text \<open>\<open>Login\<close> and \<open>Register\<close> have the same fields and limits.\<close>

definition valid_login_contract :: "login_contract \<Rightarrow> bool" where
  "valid_login_contract b \<longleftrightarrow> valid_login (lc_login b) \<and> valid_password (lc_password b)"

record pagination_contract =
  pc_order_by :: order_by
  pc_offset :: int
  pc_limit :: int

definition default_pagination_contract :: pagination_contract where
  "default_pagination_contract = \<lparr>pc_order_by = Desc, pc_offset = 0, pc_limit = MIN_PAGINATION_LIMIT\<rparr>"

definition valid_pagination :: "pagination_contract \<Rightarrow> bool" where
  "valid_pagination p \<longleftrightarrow>
     0 \<le> pc_offset p \<and> MIN_PAGINATION_LIMIT \<le> pc_limit p \<and> pc_limit p \<le> MAX_PAGINATION_LIMIT"

text \<open>A field of an update contract is unset, \<open>None\<close> or a value; a password has its length.\<close>

record update_contract =
  uc_password :: "string option option"
  uc_role_uuid :: "uuid option option"
  uc_active :: "bool option option"

definition valid_update :: "update_contract \<Rightarrow> bool" where
  "valid_update b \<longleftrightarrow> (\<forall>p. uc_password b = Some (Some p) \<longrightarrow> valid_password p)"

text \<open>\<open>contracts.User.model_validate(result)\<close>, dumped without the fields that are \<open>None\<close>.\<close>

definition role_contract :: "role_result \<Rightarrow> pyval" where
  "role_contract x = PDict [(''uuid'', PStr (uuid_str (rr_uuid x))), (''name'', PStr (rr_name x))]"

definition user_contract :: "user_result \<Rightarrow> pyval" where
  "user_contract u =
     PDict ([(''uuid'', PStr (uuid_str (ur_uuid u))), (''login'', PStr (ur_login u)),
       (''active'', PBool (ur_active u))] @
       (case ur_role u of None \<Rightarrow> [] | Some x \<Rightarrow> [(''role'', role_contract x)]))"

definition status_contract :: "bool \<Rightarrow> pyval" where
  "status_contract b = PDict [(''status'', PBool b)]"

definition token_contract :: "string \<Rightarrow> pyval" where
  "token_contract token = PDict [(''token'', PStr token)]"

definition offset_contract :: "pyval offset_result \<Rightarrow> pyval" where
  "offset_contract x =
     PDict ([(''data'', PList (or_data x)), (''offset'', PInt (or_offset x))] @
       (case or_limit x of None \<Rightarrow> [] | Some l \<Rightarrow> [(''limit'', PInt l)]) @
       [(''total'', PInt (or_total x))])"

section \<open>Public endpoints (endpoints/public)\<close>

definition healthcheck_endpoint :: "('s, http_response) io" where
  "healthcheck_endpoint = io_return (ok_response (status_contract True))"

definition register_endpoint ::
  "('c, 'd) site \<Rightarrow> string \<Rightarrow> login_contract \<Rightarrow> (('c, 'd) ctx, http_response) io" where
  "register_endpoint W code body =
     io_bind (io_lift (make_register_request (lc_login body) (lc_password body) (lc_fingerprint body)))
       (\<lambda>request.
     io_bind (register (si_app W) code request) (\<lambda>result.
     io_return (ok_response (status_contract (st_status result)))))"

text \<open>The answer with tokens: the access token in the body, the refresh token in a cookie.\<close>

definition tokens_response :: "('c, 'd) site \<Rightarrow> tokens_expire \<Rightarrow> http_response" where
  "tokens_response W result =
     (ok_response (token_contract (tk_access (te_tokens result))))\<lparr>hp_cookies :=
        [\<lparr>ck_name = ''refresh_token'', ck_value = tk_refresh (te_tokens result),
          ck_expires = Some (te_refresh_expire result), ck_httponly = True,
          ck_secure = si_production W, ck_samesite = ''lax''\<rparr>]\<rparr>"

definition confirm_register_endpoint ::
  "('c, 'd) site \<Rightarrow> (nat \<Rightarrow> int) \<Rightarrow> string \<Rightarrow> (('c, 'd) ctx, http_response) io" where
  "confirm_register_endpoint W ts code =
     io_bind (confirm (si_app W) ts code) (\<lambda>result. io_return (tokens_response W result))"

definition login_endpoint ::
  "('c, 'd) site \<Rightarrow> (nat \<Rightarrow> int) \<Rightarrow> login_contract \<Rightarrow> (('c, 'd) ctx, http_response) io" where
  "login_endpoint W ts body =
     io_bind (io_lift (make_login_request (lc_login body) (lc_password body) (lc_fingerprint body)))
       (\<lambda>request.
     io_bind (login_user (si_app W) ts request) (\<lambda>result. io_return (tokens_response W result)))"

definition refresh_endpoint ::
  "('c, 'd) site \<Rightarrow> (nat \<Rightarrow> int) \<Rightarrow> http_request \<Rightarrow> string \<Rightarrow> (('c, 'd) ctx, http_response) io" where
  "refresh_endpoint W ts r fingerprint =
     io_bind (refresh_token (si_app W) ts
       \<lparr>rf_fingerprint = fingerprint, rf_refresh_token = cookie_get r ''refresh_token'' []\<rparr>)
       (\<lambda>result. io_return (tokens_response W result))"

section \<open>User endpoints (endpoints/user)\<close>

text \<open>
  The router and the endpoint each name a guard of their own, so a request is authorized twice, at
  the times \<open>t\<close> and \<open>t'\<close>.
\<close>

definition user_guard ::
  "('c, 'd) site \<Rightarrow> int \<Rightarrow> int \<Rightarrow> http_request \<Rightarrow> (('c, 'd) ctx, user_result) io" where
  "user_guard W t t' r = io_bind (authorization W t [] r) (\<lambda>_. authorization W t' [] r)"

definition logout_endpoint ::
  "('c, 'd) site \<Rightarrow> int \<Rightarrow> int \<Rightarrow> (nat \<Rightarrow> int) \<Rightarrow> http_request \<Rightarrow> (('c, 'd) ctx, http_response) io" where
  "logout_endpoint W t t' ts r =
     io_bind (user_guard W t t' r) (\<lambda>user.
     io_bind (logout (si_app W) ts
       \<lparr>lo_user_uuid = ur_uuid user, lo_refresh_token = cookie_get r ''refresh_token'' []\<rparr>) (\<lambda>result.
     io_return ((ok_response (status_contract (st_status result)))\<lparr>hp_cookies :=
        [\<lparr>ck_name = ''refresh_token'', ck_value = [], ck_expires = Some 0, ck_httponly = False,
          ck_secure = False, ck_samesite = ''lax''\<rparr>]\<rparr>)))"

definition get_me_endpoint ::
  "('c, 'd) site \<Rightarrow> int \<Rightarrow> int \<Rightarrow> http_request \<Rightarrow> (('c, 'd) ctx, http_response) io" where
  "get_me_endpoint W t t' r =
     io_bind (user_guard W t t' r) (\<lambda>user.
     io_bind (select_user (si_app W)
       \<lparr>su_loads = [''role''], su_user_uuid = Some (ur_uuid user), su_login = None\<rparr>) (\<lambda>result.
     io_return (ok_response (user_contract result))))"

text \<open>The contract of the own update has a password and no other field.\<close>

definition update_self_endpoint ::
  "('c, 'd) site \<Rightarrow> int \<Rightarrow> int \<Rightarrow> http_request \<Rightarrow> string option option \<Rightarrow>
    (('c, 'd) ctx, http_response) io" where
  "update_self_endpoint W t t' r password =
     io_bind (user_guard W t t' r) (\<lambda>user.
     io_bind (update_user (si_app W) \<lparr>up_user_uuid = ur_uuid user, up_password = password,
       up_role_uuid = None, up_active = None\<rparr>) (\<lambda>result.
     io_return (ok_response (user_contract result))))"

section \<open>Administration (endpoints/admin)\<close>

definition admin_guard ::
  "('c, 'd) site \<Rightarrow> int \<Rightarrow> http_request \<Rightarrow> (('c, 'd) ctx, user_result) io" where
  "admin_guard W t r = authorization W t [''Admin''] r"

definition select_users_endpoint ::
  "('c, 'd) site \<Rightarrow> int \<Rightarrow> http_request \<Rightarrow> string option \<Rightarrow> uuid option \<Rightarrow> pagination_contract \<Rightarrow>
    string list \<Rightarrow> (('c, 'd) ctx, http_response) io" where
  "select_users_endpoint W t r login role_uuid p loads =
     io_bind (admin_guard W t r) (\<lambda>_.
     io_bind (select_many_user (si_app W)
       \<lparr>sm_loads = loads, sm_login = login, sm_role_uuid = role_uuid,
        sm_pagination = \<lparr>pg_order_by = pc_order_by p, pg_offset = pc_offset p, pg_limit = Some (pc_limit p)\<rparr>\<rparr>)
       (\<lambda>result.
     io_return (ok_response (offset_contract (offset_result_map user_contract result)))))"

definition select_user_endpoint ::
  "('c, 'd) site \<Rightarrow> int \<Rightarrow> http_request \<Rightarrow> uuid \<Rightarrow> string list \<Rightarrow> (('c, 'd) ctx, http_response) io" where
  "select_user_endpoint W t r user_uuid loads =
     io_bind (admin_guard W t r) (\<lambda>_.
     io_bind (select_user (si_app W)
       \<lparr>su_loads = loads, su_user_uuid = Some user_uuid, su_login = None\<rparr>) (\<lambda>result.
     io_return (ok_response (user_contract result))))"

definition update_user_endpoint ::
  "('c, 'd) site \<Rightarrow> int \<Rightarrow> http_request \<Rightarrow> uuid \<Rightarrow> update_contract \<Rightarrow>
    (('c, 'd) ctx, http_response) io" where
  "update_user_endpoint W t r user_uuid body =
     io_bind (admin_guard W t r) (\<lambda>_.
     io_bind (update_user (si_app W) \<lparr>up_user_uuid = user_uuid, up_password = uc_password body,
       up_role_uuid = uc_role_uuid body, up_active = uc_active body\<rparr>) (\<lambda>result.
     io_return (ok_response (user_contract result))))"

end
