(* ===== verification/Cache_Instances.thy ===== *)
theory Cache_Instances
  imports Cache
begin

text \<open>
  Two stores on which the contracts of the cache hold: \<open>FakeStrCache\<close>, the in-memory cache of the
  unit tests, which implements the protocol directly, and \<open>ref_redis\<close>, an association list of
  strings and lists that follows the documentation of the Redis commands and stands for the server
  in the concrete examples of the development.
\<close>

section \<open>FakeStrCache (tests/fakes.py)\<close>

record fake_cache =
  fk_store :: "(string \<times> string) list"
  fk_lists :: "(string \<times> string list) list"

definition fake_get :: "string \<Rightarrow> (fake_cache, string option) io" where
  "fake_get key c = (Inr (map_of (fk_store c) key), c)"

definition fake_set :: "string \<Rightarrow> string \<Rightarrow> expiry option \<Rightarrow> (fake_cache, unit) io" where
  "fake_set key value expire c = (Inr (), c\<lparr>fk_store := AList.update key value (fk_store c)\<rparr>)"

definition fake_setnx :: "string \<Rightarrow> string \<Rightarrow> expiry option \<Rightarrow> (fake_cache, bool) io" where
  "fake_setnx key value expire c =
     (if map_of (fk_store c) key \<noteq> None then (Inr False, c)
      else (Inr True, c\<lparr>fk_store := AList.update key value (fk_store c)\<rparr>))"

fun fake_delete :: "string list \<Rightarrow> (fake_cache, unit) io" where
  "fake_delete [] c = (Inr (), c)"
| "fake_delete (key # keys) c =
     fake_delete keys (c\<lparr>fk_store := AList.delete key (fk_store c),
       fk_lists := AList.delete key (fk_lists c)\<rparr>)"

definition fake_bucket :: "fake_cache \<Rightarrow> string \<Rightarrow> string list" where
  "fake_bucket c key = (case map_of (fk_lists c) key of None \<Rightarrow> [] | Some xs \<Rightarrow> xs)"

definition fake_get_list :: "string \<Rightarrow> (fake_cache, string list) io" where
  "fake_get_list key c = (Inr (fake_bucket c key), c)"

definition fake_set_list :: "string \<Rightarrow> string list \<Rightarrow> expiry option \<Rightarrow> (fake_cache, unit) io" where
  "fake_set_list key values expire c =
     (Inr (), c\<lparr>fk_lists := AList.update key (fold (#) values (fake_bucket c key)) (fk_lists c)\<rparr>)"

definition fake_discard :: "string \<Rightarrow> string \<Rightarrow> (fake_cache, unit) io" where
  "fake_discard key value c =
     (if fake_bucket c key = [] then (Inr (), c)
      else (Inr (), c\<lparr>fk_lists :=
        AList.update key (filter (\<lambda>item. item \<noteq> value) (fake_bucket c key)) (fk_lists c)\<rparr>))"

definition fake_exists :: "string \<Rightarrow> (fake_cache, bool) io" where
  "fake_exists key c =
     (Inr (map_of (fk_store c) key \<noteq> None \<or> map_of (fk_lists c) key \<noteq> None), c)"

definition fake_keys :: "string option \<Rightarrow> (fake_cache, string list) io" where
  "fake_keys pat c = (Inr (map fst (fk_store c) @ map fst (fk_lists c)), c)"

definition fake_clear :: "(fake_cache, unit) io" where
  "fake_clear c = (Inr (), c\<lparr>fk_store := [], fk_lists := []\<rparr>)"

definition fake_str_cache :: "fake_cache str_cache" where
  "fake_str_cache =
     \<lparr>sc_exists = fake_exists, sc_get = fake_get, sc_set = fake_set, sc_setnx = fake_setnx,
      sc_delete = fake_delete, sc_get_list = fake_get_list, sc_set_list = fake_set_list,
      sc_discard = fake_discard, sc_keys = fake_keys, sc_clear = fake_clear\<rparr>"

definition fake_empty :: fake_cache where
  "fake_empty = \<lparr>fk_store = [], fk_lists = []\<rparr>"

lemmas fake_defs =
  fake_str_cache_def fake_get_def fake_set_def fake_get_list_def fake_set_list_def
  fake_discard_def fake_bucket_def fake_empty_def

interpretation fake: str_cache_laws fake_str_cache "\<lambda>c. map_of (fk_store c)" fake_bucket
  by unfold_locales
    (auto simp: fake_defs update_conv' delete_conv' fun_eq_iff restrict_map_def split: option.splits)

section \<open>A Redis server\<close>

datatype entry = EStr string | EList "string list"

type_synonym server = "(string \<times> entry) list"

definition server_strs :: "server \<Rightarrow> string \<Rightarrow> string option" where
  "server_strs r k = (case map_of r k of Some (EStr v) \<Rightarrow> Some v | _ \<Rightarrow> None)"

definition server_lists :: "server \<Rightarrow> string \<Rightarrow> string list" where
  "server_lists r k = (case map_of r k of Some (EList xs) \<Rightarrow> xs | _ \<Rightarrow> [])"

definition server_has :: "server \<Rightarrow> string \<Rightarrow> bool" where
  "server_has r k \<longleftrightarrow> server_strs r k \<noteq> None \<or> server_lists r k \<noteq> []"

text \<open>Patterns: a star matches any characters, a question mark one; a backslash quotes.\<close>

fun glob_match :: "string \<Rightarrow> string \<Rightarrow> bool" where
  "glob_match [] s = (s = [])"
| "glob_match (p # ps) s =
     (if p = CHR ''*'' then (\<exists>t \<in> set (suffixes s). glob_match ps t)
      else if p = CHR 0x5C \<and> ps \<noteq> [] then (s \<noteq> [] \<and> hd s = hd ps \<and> glob_match (tl ps) (tl s))
      else s \<noteq> [] \<and> (p = CHR ''?'' \<or> hd s = p) \<and> glob_match ps (tl s))"

lemma glob_match_plain: "plain_key p \<Longrightarrow> glob_match p k \<longleftrightarrow> k = p"
proof (induction p arbitrary: k)
  case (Cons c p)
  then show ?case by (cases k) (auto simp: plain_key_def)
qed simp

lemma glob_match_star: "glob_match ''*'' k"
  by simp

definition wrong_type :: exn where
  "wrong_type = RedisError ''WRONGTYPE''"

definition server_set :: "string \<Rightarrow> string \<Rightarrow> expiry option \<Rightarrow> bool \<Rightarrow> (server, bool) io" where
  "server_set k v e nx r =
     (if nx \<and> server_has r k then (Inr False, r) else (Inr True, AList.update k (EStr v) r))"

definition server_matching :: "string \<Rightarrow> (server, string list) io" where
  "server_matching p r = (Inr (filter (\<lambda>k. server_has r k \<and> glob_match p k) (map fst r)), r)"

definition server_delete :: "string list \<Rightarrow> (server, int) io" where
  "server_delete ks r =
     (Inr (int (length (filter (server_has r) ks))), filter (\<lambda>(k, v). k \<notin> set ks) r)"

definition server_lpush :: "string \<Rightarrow> string list \<Rightarrow> (server, int) io" where
  "server_lpush k vs r =
     (if server_strs r k \<noteq> None then (Inl wrong_type, r)
      else let xs = rev vs @ server_lists r k
           in (Inr (int (length xs)), AList.update k (EList xs) r))"

definition server_lrange :: "string \<Rightarrow> int \<Rightarrow> int \<Rightarrow> (server, string list) io" where
  "server_lrange k start end r =
     (if server_strs r k \<noteq> None then (Inl wrong_type, r)
      else let xs = server_lists r k; n = int (length xs);
               i = (if start < 0 then max 0 (n + start) else start);
               j = (if end < 0 then n + end else end)
           in (Inr (take (nat (j + 1 - i)) (drop (nat i) xs)), r))"

text \<open>Removal with count 0, the count the program gives: every occurrence.\<close>

definition server_lrem :: "string \<Rightarrow> int \<Rightarrow> string \<Rightarrow> (server, int) io" where
  "server_lrem k n v r =
     (if server_strs r k \<noteq> None then (Inl wrong_type, r)
      else let xs = server_lists r k; ys = filter (\<lambda>x. x \<noteq> v) xs
           in (Inr (int (length xs - length ys)), AList.update k (EList ys) r))"

definition ref_redis :: "server redis" where
  "ref_redis =
     \<lparr>r_get = (\<lambda>k r. if server_lists r k \<noteq> [] then (Inl wrong_type, r) else (Inr (server_strs r k), r)),
      r_set = server_set, r_scan_iter = server_matching, r_delete = server_delete,
      r_lpush = server_lpush, r_expire = (\<lambda>k e r. (Inr (server_has r k), r)),
      r_lrange = server_lrange, r_lrem = server_lrem,
      r_flushall = (\<lambda>_ _. (Inr (), [])), r_keys = server_matching\<rparr>"

lemma server_views_update [simp]:
  "server_strs (AList.update k (EStr v) r) = (server_strs r)(k \<mapsto> v)"
  "server_lists (AList.update k (EStr v) r) = (server_lists r)(k := [])"
  "server_strs (AList.update k (EList xs) r) = (server_strs r)(k := None)"
  "server_lists (AList.update k (EList xs) r) = (server_lists r)(k := xs)"
  by (auto simp: server_strs_def server_lists_def update_conv' fun_eq_iff)

lemma map_of_filter_keys:
  "map_of (filter (\<lambda>(k, v). k \<notin> K) r) k = (if k \<in> K then None else map_of r k)"
  by (induction r) auto

lemma server_has_key: "server_has r k \<Longrightarrow> k \<in> fst ` set r"
  by (cases "map_of r k")
    (auto simp: server_has_def server_strs_def server_lists_def dest!: map_of_SomeD
      intro: rev_image_eqI)

lemma server_matching_set:
  "\<exists>ks. fst (server_matching p r) = Inr ks \<and>
    set ks = {k. (server_strs r k \<noteq> None \<or> server_lists r k \<noteq> []) \<and> glob_match p k}"
  using server_has_key by (auto simp: server_matching_def server_has_def)

interpretation ref: redis_laws ref_redis server_strs server_lists glob_match
proof unfold_locales
  fix p r
  show "\<exists>ks. fst (r_scan_iter ref_redis p r) = Inr ks \<and>
    set ks = {k. (server_strs r k \<noteq> None \<or> server_lists r k \<noteq> []) \<and> glob_match p k}"
    and "\<exists>ks. fst (r_keys ref_redis p r) = Inr ks \<and>
    set ks = {k. (server_strs r k \<noteq> None \<or> server_lists r k \<noteq> []) \<and> glob_match p k}"
    using server_matching_set by (simp_all add: ref_redis_def)
next
  fix ks r
  show "server_strs (snd (r_delete ref_redis ks r)) =
      (\<lambda>k. if k \<in> set ks then None else server_strs r k)"
    and "server_lists (snd (r_delete ref_redis ks r)) =
      (\<lambda>k. if k \<in> set ks then [] else server_lists r k)"
    by (auto simp: ref_redis_def server_delete_def server_strs_def server_lists_def
        map_of_filter_keys fun_eq_iff)
qed (auto simp: ref_redis_def glob_match_plain server_set_def server_has_def server_matching_def
  server_delete_def server_lpush_def server_lrange_def server_lrem_def Let_def
  simp del: glob_match.simps intro: glob_match_star)

lemmas ref_redis_ok = ref.redis_laws_axioms
lemmas ref_cache_ok = ref.rc.str_cache_laws_axioms
lemmas fake_cache_ok = fake.str_cache_laws_axioms

section \<open>Properties\<close>

text \<open>
  \<open>RedisCache.delete\<close> takes its arguments as patterns.  It removes every key that one of them
  matches and no other; with plain keys these are exactly the arguments, while the single argument
  \<open>*\<close> empties the whole cache.
\<close>

theorem redis_delete_removes_matching_keys:
  assumes "redis_laws R strs lsts glob"
  shows "fst (redis_cache_delete R ps r) = Inr () \<and>
    strs (snd (redis_cache_delete R ps r)) = (\<lambda>k. if \<exists>p \<in> set ps. glob p k then None else strs r k) \<and>
    lsts (snd (redis_cache_delete R ps r)) = (\<lambda>k. if \<exists>p \<in> set ps. glob p k then [] else lsts r k) \<and>
    (list_all plain_key ps \<longrightarrow>
      strs (snd (redis_cache_delete R ps r)) = (\<lambda>k. if k \<in> set ps then None else strs r k)) \<and>
    strs (snd (redis_cache_delete R [''*''] r)) = (\<lambda>_. None) \<and>
    lsts (snd (redis_cache_delete R [''*''] r)) = (\<lambda>_. [])"
proof -
  note d = redis_laws.delete_views [OF assms]
  note g = redis_laws.glob_plain [OF assms] redis_laws.glob_star [OF assms]
  have "(\<exists>p \<in> set ps. glob p k) \<longleftrightarrow> k \<in> set ps" if "list_all plain_key ps" for k
    using that g(1) by (auto simp: list_all_iff)
  then show ?thesis by (simp add: d g(2))
qed

theorem redis_delete_removes_matching_keys_witness:
  "server_strs (snd (redis_cache_delete ref_redis [''*''] [(''code:12'', EStr ''x'')])) = (\<lambda>_. None)"
  using redis_delete_removes_matching_keys [OF ref_redis_ok] by blast

text \<open>
  \<open>setnx\<close> is a lock: it stores the value and says so if the key is free, and leaves the cache
  alone and says so otherwise; so of two attempts in a row on one key, with any values, exactly the
  first can win.
\<close>

theorem redis_setnx_is_exclusive:
  assumes "redis_laws R strs lsts glob"
  shows "redis_cache_setnx R k v e r =
      (if strs r k = None \<and> lsts r k = [] then (Inr True, snd (r_set R k v e False r))
       else (Inr False, r)) \<and>
    redis_cache_setnx R k w e' (snd (redis_cache_setnx R k v e r)) =
      (Inr False, snd (redis_cache_setnx R k v e r))"
proof -
  note laws = redis_laws.r_setnx [OF assms] redis_laws.r_set_strs [OF assms]
  show ?thesis
    by (simp add: redis_cache_setnx_def laws)
qed

theorem redis_setnx_is_exclusive_witness:
  "fst (redis_cache_setnx ref_redis ''job'' ''b'' None
    (snd (redis_cache_setnx ref_redis ''job'' ''a'' None []))) = Inr False"
  using redis_setnx_is_exclusive [OF ref_redis_ok, of "''job''" "''a''" None "[]" "''b''" None]
  by (metis fst_conv)

end
