(* ===== verification/Security_Instances.thy ===== *)
theory Security_Instances
  imports Security
begin

text \<open>
  Concrete libraries on which the contracts of the security adapters hold, for the examples of the
  development.  \<open>ref_pyjwt\<close> makes tokens of six fields joined by dots, each field written with the
  letters \<open>a\<close> to \<open>p\<close>; a token verifies with the key it was made with.  \<open>ref_argon2\<close> hashes like the
  \<open>FakeHasher\<close> of the unit tests, by a prefix.
\<close>

section \<open>Fields\<close>

definition armor_char :: "char \<Rightarrow> string" where
  "armor_char c =
     (let n = of_char c :: nat in [char_of (97 + n div 16), char_of (97 + n mod 16)])"

definition armor :: "string \<Rightarrow> string" where
  "armor s = concat (map armor_char s)"

fun dearmor :: "string \<Rightarrow> string" where
  "dearmor (a # b # s) = char_of (((of_char a :: nat) - 97) * 16 + ((of_char b :: nat) - 97)) # dearmor s"
| "dearmor _ = []"

lemma of_char_less: "(of_char c :: nat) < 256"
  by (metis of_char_of of_char_mod_256 mod_less_divisor zero_less_numeral)

lemma dearmor_armor [simp]: "dearmor (armor s) = s"
proof (induction s)
  case (Cons c s)
  have "(of_char c :: nat) div 16 < 16"
    using of_char_less [of c] by linarith
  then have "char_of (((of_char (char_of (97 + (of_char c :: nat) div 16) :: char) :: nat) - 97) * 16 +
      ((of_char (char_of (97 + (of_char c :: nat) mod 16) :: char) :: nat) - 97)) = c"
    by simp
  with Cons show ?case by (simp add: armor_def armor_char_def Let_def)
qed (simp add: armor_def)

lemma armor_letters: "c \<in> set (armor s) \<Longrightarrow> 97 \<le> (of_char c :: nat) \<and> (of_char c :: nat) \<le> 112"
proof (induction s)
  case (Cons d s)
  have "(of_char d :: nat) div 16 < 16"
    using of_char_less [of d] by linarith
  with Cons show ?case
    by (auto simp: armor_def armor_char_def Let_def)
qed (simp add: armor_def)

lemma armor_no_dot: "\<not> sublist ''.'' (armor s)"
  using armor_letters [of "CHR ''.''" s] by (auto dest: set_mono_sublist)

lemma armor_no_colon: "CHR '':'' \<notin> set (armor s)"
  using armor_letters [of "CHR '':''" s] by auto

lemma split_armor_join: "py_split ''.'' (armor a @ ''.'' @ rest) = armor a # py_split ''.'' rest"
  by (rule py_split_append) (simp_all add: armor_no_dot)

section \<open>PyJWT\<close>

definition ref_encode :: "pydict \<Rightarrow> string \<Rightarrow> string \<Rightarrow> exn + string" where
  "ref_encode claims key alg =
     (case (dict_get claims ''exp'', dict_get claims ''sub'', dict_get claims ''iat'',
            dict_get claims ''type'') of
        (Some (PDate e), Some (PStr sub), Some (PDate i), Some (PStr ty)) \<Rightarrow>
          Inr (armor alg @ ''.'' @ armor key @ ''.'' @ armor ty @ ''.'' @ armor sub @ ''.'' @
               armor (int_str (e div 1000000)) @ ''.'' @ armor (int_str (i div 1000000)))
      | _ \<Rightarrow> Inl (PyTypeError ''claims''))"

definition ref_decode :: "int \<Rightarrow> string \<Rightarrow> string \<Rightarrow> string list \<Rightarrow> exn + pydict" where
  "ref_decode now tok key algs =
     (case map dearmor (py_split ''.'' tok) of
        [alg, k, ty, sub, e, i] \<Rightarrow>
          (case (parse_int e, parse_int i) of
             (Some e, Some i) \<Rightarrow>
               if alg \<notin> set algs then Inl (PyJWTError ''InvalidAlgorithmError'')
               else if k \<noteq> key then Inl (PyJWTError ''InvalidSignatureError'')
               else if e * 1000000 \<le> now then Inl (PyJWTError ''ExpiredSignatureError'')
               else if now < i * 1000000 then Inl (PyJWTError ''ImmatureSignatureError'')
               else Inr [(''exp'', PInt e), (''sub'', PStr sub), (''iat'', PInt i), (''type'', PStr ty)]
           | _ \<Rightarrow> Inl (PyJWTError ''DecodeError''))
      | _ \<Rightarrow> Inl (PyJWTError ''DecodeError''))"

definition ref_pyjwt :: pyjwt where
  "ref_pyjwt = \<lparr>pj_encode = ref_encode, pj_decode = ref_decode\<rparr>"

lemma ref_split:
  "py_split ''.'' (armor a @ ''.'' @ armor b @ ''.'' @ armor c @ ''.'' @ armor d @ ''.'' @
     armor e @ ''.'' @ armor f) = [armor a, armor b, armor c, armor d, armor e, armor f]"
  by (simp only: split_armor_join py_split_no_sep [OF armor_no_dot])

lemma ref_encode_claims:
  "ref_encode (token_claims expire now ty sub) key alg =
     Inr (armor alg @ ''.'' @ armor key @ ''.'' @ armor (token_type_str ty) @ ''.'' @ armor sub @ ''.'' @
       armor (int_str (expire div 1000000)) @ ''.'' @ armor (int_str (now div 1000000)))"
  by (simp add: ref_encode_def token_claims_def)

lemma div_le_micro: "0 \<le> now \<Longrightarrow> now \<le> t \<Longrightarrow> \<not> t < now div 1000000 * 1000000" for now t :: int
  by (metis div_mult_mod_eq le_add_same_cancel1 not_le order_trans pos_mod_sign zero_less_numeral)

definition same_key :: "string \<Rightarrow> string \<Rightarrow> string \<Rightarrow> bool" where
  "same_key alg sk pk \<longleftrightarrow> sk = pk"

interpretation refjwt: pyjwt_laws ref_pyjwt same_key
proof unfold_locales
  fix expire now :: int
  fix ty sub sk alg tok
  assume "pj_encode ref_pyjwt (token_claims expire now ty sub) sk alg = Inr tok"
  then show "CHR '':'' \<notin> set tok"
    by (auto simp: ref_pyjwt_def ref_encode_claims armor_no_colon)
next
  fix now expire t :: int
  fix ty sub sk pk alg tok
  assume "0 \<le> now" and "same_key alg sk pk"
    and "pj_encode ref_pyjwt (token_claims expire now ty sub) sk alg = Inr tok"
  then have tok: "ref_decode t tok pk [alg] =
      (if expire div 1000000 * 1000000 \<le> t then Inl (PyJWTError ''ExpiredSignatureError'')
       else if t < now div 1000000 * 1000000 then Inl (PyJWTError ''ImmatureSignatureError'')
       else Inr (decoded_claims expire now ty sub))"
    by (auto simp: ref_pyjwt_def ref_encode_claims ref_decode_def same_key_def decoded_claims_def
        ref_split simp del: append.simps)
  show "pj_decode ref_pyjwt t tok pk [alg] = Inr (decoded_claims expire now ty sub)"
    if "now \<le> t" "t < expire div 1000000 * 1000000"
    using that div_le_micro [OF \<open>0 \<le> now\<close> that(1)] by (simp add: ref_pyjwt_def tok)
  show "\<exists>e. pj_decode ref_pyjwt t tok pk [alg] = Inl (PyJWTError e)"
    if "expire div 1000000 * 1000000 \<le> t"
    using that by (simp add: ref_pyjwt_def tok)
qed (simp add: ref_pyjwt_def ref_encode_claims)

text \<open>Settings for HS256, one key for both directions, tokens of an hour and of thirty days.\<close>

definition ref_ciphers :: cipher_settings where
  "ref_ciphers =
     \<lparr>cs_algorithm = ''HS256'', cs_secret_key = ''c2VjcmV0'', cs_public_key = ''c2VjcmV0'',
      cs_access_token_expire_seconds = 3600, cs_refresh_token_expire_seconds = 2592000\<rparr>"

lemma good_ref_ciphers: "good_ciphers same_key ref_ciphers"
  by (simp add: good_ciphers_def ref_ciphers_def b64decode_example same_key_def)

interpretation refservice: jwt_service ref_pyjwt same_key ref_ciphers
  by unfold_locales (rule good_ref_ciphers)

section \<open>Argon2\<close>

definition ref_argon2 :: password_hasher where
  "ref_argon2 =
     \<lparr>ph_hash = (\<lambda>plain. Inr (''fake-hash:'' @ plain)),
      ph_verify = (\<lambda>hashed plain.
        if hashed = ''fake-hash:'' @ plain then Inr True else Inl VerifyMismatchError)\<rparr>"

interpretation refargon: argon2_laws ref_argon2
  by unfold_locales (auto simp: ref_argon2_def)

lemma jwt_roundtrip_instance:
  "\<exists>tok. jwt_create ref_pyjwt ref_ciphers 0 Access ''u'' None [] = Inr (3600000000, tok)"
  using refservice.create_encodes [of 0 Access "''u''"] by (auto simp: token_life_def ref_ciphers_def)

lemmas ref_pyjwt_ok = refjwt.pyjwt_laws_axioms
lemmas ref_jwt_ok = refservice.jwt.jwt_laws_axioms
lemmas ref_argon2_ok = refargon.argon2_laws_axioms
lemmas ref_hasher_ok = refargon.hasher.hasher_laws_axioms

section \<open>Properties\<close>

text \<open>
  C33: a token verifies to its own type and subject from its issue to the last whole second of its
  lifetime, and from its expiry on it is refused with \<open>UnAuthorizedError\<close>; the lifetime is the one
  the settings give for its type.
\<close>

theorem jwt_roundtrip:
  assumes "pyjwt_laws P key_pair" and "good_ciphers key_pair S" and "0 \<le> now"
  shows "\<exists>e tok. jwt_create P S now ty sub None [] = Inr (e, tok) \<and>
    e = now + 1000000 * (if ty = Access then cs_access_token_expire_seconds S
                         else cs_refresh_token_expire_seconds S) \<and>
    (\<forall>t. now \<le> t \<and> t < e div 1000000 * 1000000 \<longrightarrow>
      (\<exists>p. jwt_verify_token P S t tok = Inr p \<and>
        dict_get p ''type'' = Some (PStr (token_type_str ty)) \<and> dict_get p ''sub'' = Some (PStr sub))) \<and>
    (\<forall>t. e \<le> t \<longrightarrow>
      (\<exists>a. jwt_verify_token P S t tok = Inl (App a) \<and> exc_class a = UnAuthorizedError))"
proof -
  have "jwt_service P key_pair S"
    using assms by (simp add: jwt_service_def jwt_service_axioms_def)
  then have laws: "jwt_laws (jwt_of P S) (token_life S)"
    by (rule jwt_service.class_keeps_contract)
  obtain tok where c: "j_create (jwt_of P S) now ty sub None [] = Inr (now + token_life S ty, tok)"
    using jwt_laws.create [OF laws assms(3)] by blast
  show ?thesis
    using c jwt_laws.verify [OF laws assms(3) c] jwt_laws.expired [OF laws assms(3) c]
    by (intro exI [of _ "now + token_life S ty"] exI [of _ tok])
      (simp add: jwt_of_def token_life_def)
qed

theorem jwt_roundtrip_witness:
  "\<exists>tok. jwt_create ref_pyjwt ref_ciphers 0 Access ''u'' None [] = Inr (3600000000, tok) \<and>
    (\<exists>p. jwt_verify_token ref_pyjwt ref_ciphers 3599999999 tok = Inr p \<and>
      dict_get p ''sub'' = Some (PStr ''u''))"
proof -
  obtain e tok where "jwt_create ref_pyjwt ref_ciphers 0 Access ''u'' None [] = Inr (e, tok)"
    "e = 3600000000"
    "\<forall>t. 0 \<le> t \<and> t < e div 1000000 * 1000000 \<longrightarrow>
      (\<exists>p. jwt_verify_token ref_pyjwt ref_ciphers t tok = Inr p \<and>
        dict_get p ''type'' = Some (PStr (token_type_str Access)) \<and> dict_get p ''sub'' = Some (PStr ''u''))"
    using jwt_roundtrip [OF ref_pyjwt_ok good_ref_ciphers, of 0 Access "''u''"]
    by (auto simp: ref_ciphers_def)
  then show ?thesis
    by (intro exI [of _ tok] conjI) (auto dest: spec [of _ 3599999999])
qed

text \<open>
  No token is issued whose expiry is not in the future.  With a lifetime of zero, the default of
  the settings for both types, and whatever the library does, \<open>create\<close> raises \<open>ConflictError\<close>.
\<close>

theorem jwt_create_needs_positive_lifetime:
  shows "(jwt_create P S now ty sub d kw = Inr (e, tok) \<longrightarrow> now < e) \<and>
    (\<exists>a. jwt_create P default_cipher_settings now ty sub None kw = Inl (App a) \<and>
      exc_class a = ConflictError)"
  by (auto simp: jwt_create_def Let_def token_expire_def default_cipher_settings_def
      split: if_splits sum.splits)

theorem jwt_create_needs_positive_lifetime_witness:
  "\<exists>tok. jwt_create ref_pyjwt ref_ciphers 0 Access ''u'' None [] = Inr (3600000000, tok) \<and>
    (0::int) < 3600000000"
  using jwt_roundtrip_instance
    jwt_create_needs_positive_lifetime [of ref_pyjwt ref_ciphers 0 Access "''u''" None "[]" 3600000000]
  by blast

text \<open>
  Password hashing and verification go together: the right password verifies against its hash,
  every other one gives \<open>False\<close> and not an exception; but a stored text that is no hash at all is
  an exception of the library that \<open>verify_password\<close> lets through.
\<close>

theorem argon2_verification:
  assumes "argon2_laws A"
  shows "(\<exists>h. argon2_hash_password A plain = Inr h \<and>
      argon2_verify_password A h other = Inr (other = plain)) \<and>
    (ph_verify B h q = Inl InvalidHashError \<longrightarrow>
      argon2_verify_password B h q = Inl InvalidHashError) \<and>
    (ph_verify B h q = Inl (VerificationError m) \<longrightarrow> argon2_verify_password B h q = Inr False)"
proof -
  obtain k where k: "ph_hash A plain = Inr k"
    using argon2_laws.ph_hash [OF assms] by blast
  show ?thesis
    using k argon2_laws.ph_verify [OF assms k, of other]
    by (simp add: argon2_hash_password_def argon2_verify_password_def)
qed

theorem argon2_verification_witness:
  "\<exists>h. argon2_hash_password ref_argon2 ''secret-1'' = Inr h \<and>
    argon2_verify_password ref_argon2 h ''secret-2'' = Inr (''secret-2'' = ''secret-1'')"
  using argon2_verification [OF ref_argon2_ok, of "''secret-1''" "''secret-2''"] by blast

end
