(* ===== verification/Auth_Properties.thy ===== *)
theory Auth_Properties
  imports Auth_Service Cache_Instances Security_Instances
begin

text \<open>
  The life of the sessions: any sequence of logins, refreshes and logouts as a step relation on the
  cache, with its invariant, and the properties of the authentication service.  The examples run
  the service over the reference Redis server and the reference PyJWT.
\<close>

section \<open>Runs\<close>

text \<open>
  One call of the service, whether it returns or raises.  The clock readings of a call are not
  negative; the identifiers of login and logout come from the database.
\<close>

inductive auth_step :: "'c auth \<Rightarrow> 'c \<Rightarrow> 'c \<Rightarrow> bool" for A :: "'c auth" where
  step_login: "known_uuid A u \<Longrightarrow> \<forall>i. 0 \<le> ts i \<Longrightarrow> auth_step A c (snd (auth_login A ts fp u c))"
| step_refresh: "\<forall>i. 0 \<le> ts i \<Longrightarrow> auth_step A c (snd (auth_verify_refresh A ts fp tok c))"
| step_logout: "known_uuid A u \<Longrightarrow> \<forall>i. 0 \<le> ts i \<Longrightarrow>
    auth_step A c (snd (auth_invalidate_refresh A ts tok u c))"

inductive auth_run :: "'c auth \<Rightarrow> 'c \<Rightarrow> 'c \<Rightarrow> bool" for A :: "'c auth" where
  run_start: "auth_run A c c"
| run_step: "auth_run A c d \<Longrightarrow> auth_step A d e \<Longrightarrow> auth_run A c e"

inductive_cases auth_stepE: "auth_step A c d"

text \<open>
  The invariant: no identifier has a string under it, and no user has more than one entry above
  the limit of the service.
\<close>

definition sessions_bounded ::
  "'c auth \<Rightarrow> ('c \<Rightarrow> string \<Rightarrow> string option) \<Rightarrow> ('c \<Rightarrow> string \<Rightarrow> string list) \<Rightarrow> 'c \<Rightarrow> bool" where
  "sessions_bounded A strs lsts c \<longleftrightarrow>
     (\<forall>u. known_uuid A u \<longrightarrow> strs c (uuid_str u) = None \<and>
       length (lsts c (uuid_str u)) \<le> DEFAULT_TOKENS_COUNT + 1)"

lemma sessions_bounded_update:
  "sessions_bounded A strs lsts c \<Longrightarrow> strs d = strs c \<Longrightarrow>
    lsts d = (lsts c)(uuid_str u := es) \<Longrightarrow> length es \<le> DEFAULT_TOKENS_COUNT + 1 \<Longrightarrow>
    sessions_bounded A strs lsts d"
  by (auto simp: sessions_bounded_def)

context auth_service
begin

lemma step_bounded:
  assumes "sessions_bounded A strs lists c" and "auth_step A c d"
  shows "sessions_bounded A strs lists d"
  using assms(2)
proof (cases rule: auth_step.cases)
  case (step_login u ts fp)
  then have "strs c (uuid_str u) = None"
    using assms(1) by (simp add: sessions_bounded_def)
  from login_spec [OF _ _ step_login(2) this, of ts fp] step_login(3) show ?thesis
    unfolding step_login(1)
    by (auto intro: sessions_bounded_update [OF assms(1)] sessions_after_login_length)
next
  case (step_refresh ts fp tok)
  show ?thesis
  proof (cases "fst (auth_verify_token A (ts 0) tok Refresh c)")
    case (Inl e)
    from refresh_token_refused [where ts = ts, OF this] assms(1) show ?thesis
      by (simp add: step_refresh(1))
  next
    case (Inr u)
    with verify_token_state [of "ts 0" tok Refresh c]
    have v: "auth_verify_token A (ts 0) tok Refresh c = (Inr u, c)" by (simp add: prod_eq_iff)
    have k: "known_uuid A u" using Inr by (rule verify_token_known)
    then have u: "strs c (uuid_str u) = None"
      "length (lists c (uuid_str u)) \<le> DEFAULT_TOKENS_COUNT + 1"
      using assms(1) by (auto simp: sessions_bounded_def)
    show ?thesis
    proof (cases "\<exists>e. find_pair fp tok (lists c (uuid_str u)) = Verified e")
      case True
      then obtain e where e: "find_pair fp tok (lists c (uuid_str u)) = Verified e" by blast
      then have "e \<in> set (lists c (uuid_str u))" by (auto dest: find_pair_verified)
      then have "length (sessions_after_refresh (lists c (uuid_str u)) e x) \<le> DEFAULT_TOKENS_COUNT + 1" for x
        using sessions_after_refresh_length u(2) by (meson order_trans)
      with refresh_verified [where ts = ts, OF v u(1) e] step_refresh(2) show ?thesis
        unfolding step_refresh(1) by (auto intro: sessions_bounded_update [OF assms(1)])
    next
      case False
      with refresh_rejected(2,3) [where ts = ts, OF v k u(1), of fp] show ?thesis
        unfolding step_refresh(1) by (auto intro: sessions_bounded_update [OF assms(1)])
    qed
  qed
next
  case (step_logout u ts tok)
  have u: "strs c (uuid_str u) = None" "length (lists c (uuid_str u)) \<le> DEFAULT_TOKENS_COUNT + 1"
    using assms(1) step_logout(2) by (auto simp: sessions_bounded_def)
  show ?thesis
  proof (cases "fst (auth_verify_token A (ts 0) tok Refresh c)")
    case (Inl e)
    from logout_token_refused [where ts = ts, OF this] assms(1) show ?thesis
      by (simp add: step_logout(1))
  next
    case (Inr u')
    with verify_token_state [of "ts 0" tok Refresh c]
    have v: "auth_verify_token A (ts 0) tok Refresh c = (Inr u', c)" by (simp add: prod_eq_iff)
    have "length (filter P (lists c (uuid_str u))) \<le> DEFAULT_TOKENS_COUNT + 1" for P
      using u(2) length_filter_le [of P] by (meson order_trans)
    with u(2) show ?thesis
      unfolding step_logout(1)
      by (intro sessions_bounded_update [OF assms(1) logout_spec(2,3) [where ts = ts, OF v step_logout(2) u(1)]])
        (auto split: scan.splits)
  qed
qed

lemma run_bounded:
  "auth_run A c d \<Longrightarrow> sessions_bounded A strs lists c \<Longrightarrow> sessions_bounded A strs lists d"
  by (induction rule: auth_run.induct) (blast intro: step_bounded)+

end

context auth_service
begin

lemma find_pair_head:
  "clean fp \<Longrightarrow> \<not> sublist ''::'' tok \<Longrightarrow>
    find_pair fp tok (session_entry fp tok # es) = Verified (session_entry fp tok)"
  by (simp add: split_session_entry)

lemma refresh_after_login:
  assumes "known_uuid A u" and "strs c (uuid_str u) = None"
    and "\<forall>i. 0 \<le> ts i" and "\<forall>i. 0 \<le> ts' i" and "clean fp"
    and "ts 1 \<le> ts' 0" and "ts' 0 < (ts 1 + life Refresh) div 1000000 * 1000000"
  shows "\<exists>res res'. fst (auth_login A ts fp u c) = Inr res \<and>
    fst (auth_verify_refresh A ts' fp (tk_refresh (te_tokens res)) (snd (auth_login A ts fp u c)))
      = Inr res' \<and>
    lists (snd (auth_verify_refresh A ts' fp (tk_refresh (te_tokens res))
        (snd (auth_login A ts fp u c)))) =
      (lists c)(uuid_str u := session_entry fp (tk_refresh (te_tokens res')) #
        filter (\<lambda>e. e \<noteq> session_entry fp (tk_refresh (te_tokens res)))
          (if DEFAULT_TOKENS_COUNT < length (lists c (uuid_str u)) then [] else lists c (uuid_str u)))"
proof -
  define c1 where "c1 = snd (auth_login A ts fp u c)"
  have ts: "0 \<le> ts 0" "0 \<le> ts 1" "0 \<le> ts' 1" "0 \<le> ts' 2"
    using assms(3,4) by blast+
  obtain res where res: "fst (auth_login A ts fp u c) = Inr res"
    and tok: "j_create (as_jwt A) (ts 1) Refresh (uuid_str u) None [] =
      Inr (ts 1 + life Refresh, tk_refresh (te_tokens res))"
    and c1: "strs c1 = strs c" "lists c1 = (lists c)(uuid_str u :=
      sessions_after_login (lists c (uuid_str u)) (session_entry fp (tk_refresh (te_tokens res))))"
    unfolding c1_def using login_spec [where ts = ts and fp = fp, OF ts(1,2) assms(1,2)] by auto
  have v: "auth_verify_token A (ts' 0) (tk_refresh (te_tokens res)) Refresh c1 = (Inr u, c1)"
    using verify_token_spec [OF ts(2) tok assms(6,7,1)] by simp
  have f: "find_pair fp (tk_refresh (te_tokens res)) (lists c1 (uuid_str u)) =
      Verified (session_entry fp (tk_refresh (te_tokens res)))"
    using find_pair_head [OF assms(5) tokens.no_separator [OF tok]]
    by (simp add: c1 sessions_after_login_def)
  have s: "strs c1 (uuid_str u) = None"
    using c1(1) assms(2) by simp
  show ?thesis
    using refresh_verified [where ts = ts', OF v s f ts(3,4)] res
    by (auto simp: c1_def [symmetric] c1 sessions_after_login_def sessions_after_refresh_def)
qed

text \<open>A used token is refused, and the attempt ends every session of its user.\<close>

lemma refresh_twice:
  assumes "fst (auth_verify_token A (ts 0) tok Refresh c) = Inr u"
    and "fst (auth_verify_token A (ts' 0) tok Refresh c) = Inr u"
    and "strs c (uuid_str u) = None" and "\<forall>e \<in> set (lists c (uuid_str u)). separated e"
    and "\<forall>e \<in> set (lists c (uuid_str u)). \<forall>e' \<in> set (lists c (uuid_str u)).
      (\<exists>r r'. entry_session e = (fp, tok, r) \<and> entry_session e' = (fp, tok, r')) \<longrightarrow> e = e'"
    and "\<forall>i. 0 \<le> ts i"
    and "fst (auth_verify_refresh A ts fp tok c) = Inr res" and "tk_refresh (te_tokens res) \<noteq> tok"
  shows "(\<exists>a. fst (auth_verify_refresh A ts' fp tok (snd (auth_verify_refresh A ts fp tok c))) =
      Inl (App a) \<and> exc_class a = ForbiddenError) \<and>
    lists (snd (auth_verify_refresh A ts' fp tok (snd (auth_verify_refresh A ts fp tok c))))
      (uuid_str u) = []"
proof -
  define c1 where "c1 = snd (auth_verify_refresh A ts fp tok c)"
  have ts: "0 \<le> ts 1" "0 \<le> ts 2" using assms(6) by blast+
  have k: "known_uuid A u" using assms(1) by (rule verify_token_known)
  have v: "auth_verify_token A (ts 0) tok Refresh d = (Inr u, d)"
    "auth_verify_token A (ts' 0) tok Refresh d = (Inr u, d)" for d
    using assms(1,2) by (auto intro: verify_token_any_state)
  obtain e where found: "find_pair fp tok (lists c (uuid_str u)) = Verified e"
    using refresh_rejected(1) [where ts = ts, OF v(1) k assms(3)] assms(7) by fastforce
  then have e: "e \<in> set (lists c (uuid_str u))" "\<exists>r. entry_session e = (fp, tok, r)"
    using find_pair_verified by (auto simp: entry_session_def dest: find_pair_verified)
  obtain x where res: "j_create (as_jwt A) (ts 2) Refresh (uuid_str u) None [] =
      Inr (x, tk_refresh (te_tokens res))"
    and c1: "strs c1 = strs c" "lists c1 = (lists c)(uuid_str u :=
      sessions_after_refresh (lists c (uuid_str u)) e (session_entry fp (tk_refresh (te_tokens res))))"
    using refresh_verified [where ts = ts, OF v(1) assms(3) found ts] assms(7)
    by (auto simp: c1_def)
  have "entry_session (session_entry fp (tk_refresh (te_tokens res))) = (fp, tk_refresh (te_tokens res), [])"
    by (rule entry_session_entry [OF find_pair_verified_clean [OF found] tokens.no_separator [OF res]])
  then have "\<forall>e' \<in> set (lists c1 (uuid_str u)). \<nexists>r. entry_session e' = (fp, tok, r)"
    using assms(5,8) e by (auto simp: c1 sessions_after_refresh_def)
  moreover have sep: "\<forall>e' \<in> set (lists c1 (uuid_str u)). separated e'"
    using assms(4) separated_entry by (auto simp: c1 sessions_after_refresh_def)
  ultimately have nf: "\<forall>e. find_pair fp tok (lists c1 (uuid_str u)) \<noteq> Verified e"
    by (auto simp: find_pair_separated [OF sep] find_None_iff split: option.split dest: find_SomeD)
  have s: "strs c1 (uuid_str u) = None" using c1(1) assms(3) by simp
  show ?thesis
    using refresh_rejected [where ts = ts', OF v(2) k s nf] by (simp add: c1_def [symmetric])
qed

lemma wrong_type_refused:
  assumes "0 \<le> now" and "j_create (as_jwt A) now Access (uuid_str u) None [] = Inr (e, tok)"
    and "now \<le> ts 0" and "ts 0 < e div 1000000 * 1000000" and "known_uuid A u"
  shows "auth_verify_refresh A ts fp tok c = (Inl (App (simple_error ForbiddenError ''Invalid token'')), c)"
    and "auth_invalidate_refresh A ts tok u' c = (Inl (App (simple_error ForbiddenError ''Invalid token'')), c)"
  using verify_token_spec [OF assms, of Refresh c]
  by (auto intro: refresh_token_refused logout_token_refused)

text \<open>A session whose fingerprint holds the separator is never found again.\<close>

lemma separator_fingerprint:
  assumes "known_uuid A u" and "strs c (uuid_str u) = None"
    and "\<forall>i. 0 \<le> ts i" and "\<forall>i. 0 \<le> ts' i" and "sublist ''::'' fp"
    and "ts 1 \<le> ts' 0" and "ts' 0 < (ts 1 + life Refresh) div 1000000 * 1000000"
  shows "\<exists>res a. fst (auth_login A ts fp u c) = Inr res \<and>
    fst (auth_verify_refresh A ts' fp (tk_refresh (te_tokens res)) (snd (auth_login A ts fp u c)))
      = Inl (App a) \<and> exc_class a = ForbiddenError \<and>
    lists (snd (auth_verify_refresh A ts' fp (tk_refresh (te_tokens res))
        (snd (auth_login A ts fp u c)))) (uuid_str u) = []"
proof -
  define c1 where "c1 = snd (auth_login A ts fp u c)"
  have ts: "0 \<le> ts 0" "0 \<le> ts 1" using assms(3) by blast+
  obtain res where res: "fst (auth_login A ts fp u c) = Inr res"
    and tok: "j_create (as_jwt A) (ts 1) Refresh (uuid_str u) None [] =
      Inr (ts 1 + life Refresh, tk_refresh (te_tokens res))"
    and c1: "strs c1 = strs c"
    unfolding c1_def using login_spec [where ts = ts and fp = fp, OF ts assms(1,2)] by auto
  have v: "auth_verify_token A (ts' 0) (tk_refresh (te_tokens res)) Refresh c1 = (Inr u, c1)"
    using verify_token_spec [OF ts(2) tok assms(6,7,1)] by simp
  have s: "strs c1 (uuid_str u) = None" using c1 assms(2) by simp
  show ?thesis
    using refresh_rejected [where ts = ts', OF v assms(1) s, of fp]
      find_pair_separator_in_fingerprint [OF assms(5)] res
    by (auto simp: c1_def [symmetric])
qed

text \<open>After a logout the token of the session is no longer good for a refresh from any device.\<close>

lemma refresh_after_logout:
  assumes "fst (auth_verify_token A (ts 0) tok Refresh c) = Inr u"
    and "fst (auth_verify_token A (ts' 0) tok Refresh c) = Inr u"
    and "strs c (uuid_str u) = None" and "\<forall>e \<in> set (lists c (uuid_str u)). separated e"
    and "\<forall>e \<in> set (lists c (uuid_str u)). \<forall>e' \<in> set (lists c (uuid_str u)).
      fst (snd (entry_session e)) = tok \<and> fst (snd (entry_session e')) = tok \<longrightarrow> e = e'"
  shows "fst (auth_invalidate_refresh A ts tok u c) = Inr True \<and>
    (\<exists>a. fst (auth_verify_refresh A ts' fp tok (snd (auth_invalidate_refresh A ts tok u c))) =
      Inl (App a) \<and> exc_class a = ForbiddenError)"
proof -
  define c1 where "c1 = snd (auth_invalidate_refresh A ts tok u c)"
  let ?es = "lists c (uuid_str u)"
  have k: "known_uuid A u" using assms(1) by (rule verify_token_known)
  have v: "auth_verify_token A (ts 0) tok Refresh d = (Inr u, d)"
    "auth_verify_token A (ts' 0) tok Refresh d = (Inr u, d)" for d
    using assms(1,2) by (auto intro: verify_token_any_state)
  note out = logout_spec [where ts = ts, OF v(1) k assms(3)]
  have sep: "\<forall>e \<in> set (lists c1 (uuid_str u)). separated e"
    using out(3) assms(4) by (auto simp: c1_def split: scan.splits)
  let ?P = "\<lambda>e. fst (snd (entry_session e)) = tok"
  have "\<not> ?P e" if "e \<in> set (lists c1 (uuid_str u))" for e
  proof (cases "find ?P ?es")
    case None
    then have "lists c1 (uuid_str u) = ?es" using out(3) by (simp add: c1_def find_token_separated [OF assms(4)])
    then show ?thesis using None that by (auto simp: find_None_iff)
  next
    case (Some e')
    then have "lists c1 (uuid_str u) = filter (\<lambda>x. x \<noteq> e') ?es"
      using out(3) by (simp add: c1_def find_token_separated [OF assms(4)])
    then show ?thesis using assms(5) find_SomeD [OF Some] that by auto
  qed
  then have nf: "\<forall>e. find_pair fp tok (lists c1 (uuid_str u)) \<noteq> Verified e"
    using find_pair_token [OF sep] by blast
  have s: "strs c1 (uuid_str u) = None" using out(2) assms(3) by (simp add: c1_def)
  show ?thesis
    using refresh_rejected(1) [where ts = ts', OF v(2) k s nf] out(1) by (simp add: c1_def [symmetric])
qed

end

section \<open>An instance\<close>

definition uuid_char :: "char \<Rightarrow> bool" where
  "uuid_char c \<longleftrightarrow> is_digit c \<or> 97 \<le> (of_char c :: nat) \<and> (of_char c :: nat) \<le> 102 \<or> c = CHR ''-''"

definition ref_parse_uuid :: "string \<Rightarrow> uuid option" where
  "ref_parse_uuid s = (if 36 \<le> length s \<and> list_all uuid_char s then Some (UUID s) else None)"

definition ref_auth :: "server auth" where
  "ref_auth = \<lparr>as_jwt = jwt_of ref_pyjwt ref_ciphers, as_cache = redis_cache ref_redis,
     as_parse_uuid = ref_parse_uuid\<rparr>"

definition ref_user :: uuid where
  "ref_user = UUID ''00000000-0000-4000-8000-000000000001''"

lemma uuid_char_plain: "list_all uuid_char s \<Longrightarrow> plain_key s"
  by (auto simp: list_all_iff plain_key_def uuid_char_def is_digit_def)

interpretation refauth:
  auth_service ref_auth server_strs server_lists "token_life ref_ciphers"
proof -
  have "str_cache_laws (as_cache ref_auth) server_strs server_lists"
    using ref_cache_ok by (simp add: ref_auth_def)
  moreover have "jwt_laws (as_jwt ref_auth) (token_life ref_ciphers)"
    using ref_jwt_ok by (simp add: ref_auth_def)
  moreover have "auth_service_axioms ref_auth"
    by unfold_locales
      (auto simp: ref_auth_def ref_parse_uuid_def known_uuid_def uuid_char_plain split: if_splits)
  ultimately show "auth_service ref_auth server_strs server_lists (token_life ref_ciphers)"
    by (rule auth_service.intro)
qed

lemma ref_user_known: "known_uuid ref_auth ref_user"
  by (simp add: known_uuid_def ref_auth_def ref_parse_uuid_def ref_user_def uuid_char_def is_digit_def)

lemmas ref_auth_ok = refauth.auth_service_axioms

lemma ref_life [simp]:
  "token_life ref_ciphers Refresh = 2592000000000" "token_life ref_ciphers Access = 3600000000"
  by (simp_all add: token_life_def ref_ciphers_def)

lemma ref_empty [simp]: "server_strs [] k = None" "server_lists [] k = []"
  by (simp_all add: server_strs_def server_lists_def)

text \<open>The tokens of the instance, written out.\<close>

definition ref_token :: "int \<Rightarrow> token_type \<Rightarrow> string \<Rightarrow> string" where
  "ref_token now ty sub =
     armor ''HS256'' @ ''.'' @ armor ''secret'' @ ''.'' @ armor (token_type_str ty) @ ''.'' @
     armor sub @ ''.'' @ armor (int_str ((now + token_life ref_ciphers ty) div 1000000)) @ ''.'' @
     armor (int_str (now div 1000000))"

lemma ref_create:
  "0 \<le> now \<Longrightarrow> j_create (as_jwt ref_auth) now ty sub None [] =
    Inr (now + token_life ref_ciphers ty, ref_token now ty sub)"
  using refservice.create_encodes [of now ty sub]
  by (auto simp: ref_auth_def jwt_of_def ref_token_def ref_pyjwt_def ref_encode_claims
      ref_ciphers_def b64decode_example)

lemma ref_token_time:
  assumes "ref_token t ty sub = ref_token t' ty sub"
  shows "t div 1000000 = t' div 1000000"
proof -
  have "dearmor (last (py_split ''.'' (ref_token t ty sub))) = int_str (t div 1000000)" for t
    unfolding ref_token_def ref_split by simp
  with assms have "int_str (t div 1000000) = int_str (t' div 1000000)" by metis
  then have "parse_int (int_str (t div 1000000)) = parse_int (int_str (t' div 1000000))" by simp
  then show ?thesis by simp
qed

lemma ref_verify:
  assumes "0 \<le> now" and "now \<le> t"
    and "t < (now + token_life ref_ciphers ty) div 1000000 * 1000000"
  shows "auth_verify_token ref_auth t (ref_token now ty (uuid_str ref_user)) ty c = (Inr ref_user, c)"
  using refauth.verify_token_spec [OF assms(1) ref_create [OF assms(1)] assms(2,3) ref_user_known] by simp

lemma ref_token_no_separator: "0 \<le> now \<Longrightarrow> \<not> sublist ''::'' (ref_token now ty sub)"
  using refauth.tokens.no_separator [OF ref_create] .

lemma clean_phone: "clean ''phone''"
  by (simp add: clean_def sublist_Cons_right)

text \<open>A server that holds one session of the user, made at time 0.\<close>

definition one_session :: server where
  "one_session = [(uuid_str ref_user,
     EList [session_entry ''phone'' (ref_token 0 Refresh (uuid_str ref_user))])]"

lemma one_session_views:
  "server_strs one_session (uuid_str ref_user) = None"
  "server_lists one_session (uuid_str ref_user) =
    [session_entry ''phone'' (ref_token 0 Refresh (uuid_str ref_user))]"
  by (simp_all add: one_session_def server_strs_def server_lists_def)

lemma one_session_well_formed:
  "\<forall>e \<in> set (server_lists one_session (uuid_str ref_user)). well_formed_entry e"
  by (simp add: one_session_views well_formed_entryI clean_phone ref_token_no_separator)

section \<open>Properties\<close>

text \<open>
  A login returns a pair of tokens and adds exactly one session, the entry of the returned
  refresh token; if the user has more than \<open>DEFAULT_TOKENS_COUNT\<close> sessions, all of them are dropped
  first.  Strings in the cache and the sessions of all other users stay as they are.
\<close>

theorem login_adds_one_session:
  assumes "auth_service A strs lsts life" and "known_uuid A u" and "strs c (uuid_str u) = None"
    and "0 \<le> ts 0" and "0 \<le> ts 1"
  shows "\<exists>res. fst (auth_login A ts fp u c) = Inr res \<and>
    te_refresh_expire res = ts 1 + life Refresh \<and>
    strs (snd (auth_login A ts fp u c)) = strs c \<and>
    lsts (snd (auth_login A ts fp u c)) = (lsts c)(uuid_str u :=
      session_entry fp (tk_refresh (te_tokens res)) #
        (if DEFAULT_TOKENS_COUNT < length (lsts c (uuid_str u)) then [] else lsts c (uuid_str u)))"
  using auth_service.login_spec [where ts = ts and fp = fp, OF assms(1,4,5,2,3)]
  by (auto simp: sessions_after_login_def)

theorem login_adds_one_session_witness:
  "\<exists>res. fst (auth_login ref_auth (\<lambda>_. 0) ''phone'' ref_user []) = Inr res \<and>
    te_refresh_expire res = 2592000000000 \<and>
    server_lists (snd (auth_login ref_auth (\<lambda>_. 0) ''phone'' ref_user [])) (uuid_str ref_user) =
      [session_entry ''phone'' (tk_refresh (te_tokens res))]"
  using login_adds_one_session [OF ref_auth_ok ref_user_known, of "[]" "\<lambda>_. 0" "''phone''"]
  by (auto simp: DEFAULT_TOKENS_COUNT_def)

text \<open>
  C10: whatever sequence of logins, refreshes and logouts is run, with any fingerprints and tokens,
  succeeding or failing, no user ever has more than six sessions.
\<close>

theorem sessions_never_exceed_bound:
  assumes "auth_service A strs lsts life" and "sessions_bounded A strs lsts c" and "auth_run A c d"
    and "known_uuid A u"
  shows "length (lsts d (uuid_str u)) \<le> 6"
  using auth_service.run_bounded [OF assms(1,3,2)] assms(4)
  by (auto simp: sessions_bounded_def DEFAULT_TOKENS_COUNT_def)

theorem sessions_never_exceed_bound_witness:
  "length (server_lists (snd (auth_login ref_auth (\<lambda>_. 0) ''phone'' ref_user [])) (uuid_str ref_user)) \<le> 6"
proof (rule sessions_never_exceed_bound [OF ref_auth_ok])
  show "sessions_bounded ref_auth server_strs server_lists []"
    by (simp add: sessions_bounded_def)
  show "auth_run ref_auth [] (snd (auth_login ref_auth (\<lambda>_. 0) ''phone'' ref_user []))"
    by (rule run_step [OF run_start step_login [OF ref_user_known]]) simp
qed (rule ref_user_known)

text \<open>
  The refresh token of a login is good for a refresh from the same device until it expires: the
  refresh returns a new pair and replaces the entry of the token by the entry of the new one.
\<close>

theorem login_then_refresh:
  assumes "auth_service A strs lsts life" and "known_uuid A u" and "strs c (uuid_str u) = None"
    and "\<forall>i. 0 \<le> ts i" and "\<forall>i. 0 \<le> ts' i" and "clean fp"
    and "ts 1 \<le> ts' 0" and "ts' 0 < (ts 1 + life Refresh) div 1000000 * 1000000"
  shows "\<exists>res res'. fst (auth_login A ts fp u c) = Inr res \<and>
    fst (auth_verify_refresh A ts' fp (tk_refresh (te_tokens res)) (snd (auth_login A ts fp u c)))
      = Inr res' \<and>
    lsts (snd (auth_verify_refresh A ts' fp (tk_refresh (te_tokens res))
        (snd (auth_login A ts fp u c)))) =
      (lsts c)(uuid_str u := session_entry fp (tk_refresh (te_tokens res')) #
        filter (\<lambda>e. e \<noteq> session_entry fp (tk_refresh (te_tokens res)))
          (if DEFAULT_TOKENS_COUNT < length (lsts c (uuid_str u)) then [] else lsts c (uuid_str u)))"
  by (rule auth_service.refresh_after_login [where ts = ts and ts' = ts', OF assms])

theorem login_then_refresh_witness:
  "\<exists>res res'. fst (auth_login ref_auth (\<lambda>_. 0) ''phone'' ref_user []) = Inr res \<and>
    fst (auth_verify_refresh ref_auth (\<lambda>_. 5000000) ''phone'' (tk_refresh (te_tokens res))
      (snd (auth_login ref_auth (\<lambda>_. 0) ''phone'' ref_user []))) = Inr res'"
  using login_then_refresh [OF ref_auth_ok ref_user_known, of "[]" "\<lambda>_. 0" "\<lambda>_. 5000000" "''phone''"]
    clean_phone by auto

text \<open>
  C15: a refresh token works once.  After it was used and replaced by a different one (which it is but
  within one second), using it again from the same device is refused with \<open>ForbiddenError\<close>, even while the
  token itself is still valid, and the attempt ends all sessions of its user.  The sessions have
  separators, as all have that the service makes, and one of them is of this device and this token.
\<close>

theorem refresh_token_single_use:
  assumes "auth_service A strs lsts life"
    and "fst (auth_verify_token A (ts 0) tok Refresh c) = Inr u"
    and "fst (auth_verify_token A (ts' 0) tok Refresh c) = Inr u"
    and "strs c (uuid_str u) = None" and "\<forall>e \<in> set (lsts c (uuid_str u)). separated e"
    and "\<forall>e \<in> set (lsts c (uuid_str u)). \<forall>e' \<in> set (lsts c (uuid_str u)).
      (\<exists>r r'. entry_session e = (fp, tok, r) \<and> entry_session e' = (fp, tok, r')) \<longrightarrow> e = e'"
    and "\<forall>i. 0 \<le> ts i"
    and "fst (auth_verify_refresh A ts fp tok c) = Inr res" and "tk_refresh (te_tokens res) \<noteq> tok"
  shows "(\<exists>a. fst (auth_verify_refresh A ts' fp tok (snd (auth_verify_refresh A ts fp tok c))) =
      Inl (App a) \<and> exc_class a = ForbiddenError) \<and>
    lsts (snd (auth_verify_refresh A ts' fp tok (snd (auth_verify_refresh A ts fp tok c))))
      (uuid_str u) = []"
  by (rule auth_service.refresh_twice [where ts = ts and ts' = ts', OF assms])

theorem refresh_token_single_use_witness:
  "let tok = ref_token 0 Refresh (uuid_str ref_user);
       c1 = snd (auth_verify_refresh ref_auth (\<lambda>_. 5000000) ''phone'' tok one_session)
   in server_lists (snd (auth_verify_refresh ref_auth (\<lambda>_. 9000000) ''phone'' tok c1))
        (uuid_str ref_user) = []"
proof -
  let ?tok = "ref_token 0 Refresh (uuid_str ref_user)"
  have v: "auth_verify_token ref_auth t ?tok Refresh one_session = (Inr ref_user, one_session)"
    if "0 \<le> t" "t < 2592000000000" for t
    using that by (intro ref_verify) simp_all
  have f: "find_pair ''phone'' ?tok (server_lists one_session (uuid_str ref_user)) =
      Verified (session_entry ''phone'' ?tok)"
    using find_pair_well_formed [OF one_session_well_formed clean_phone ref_token_no_separator [of 0 Refresh "uuid_str ref_user"]]
    by (simp add: one_session_views)
  obtain res where res: "fst (auth_verify_refresh ref_auth (\<lambda>_. 5000000) ''phone'' ?tok one_session) = Inr res"
    and new: "j_create (as_jwt ref_auth) 5000000 Refresh (uuid_str ref_user) None [] =
      Inr (te_refresh_expire res, tk_refresh (te_tokens res))"
    using refauth.refresh_verified [where ts = "\<lambda>_. 5000000", OF v one_session_views(1) f] by auto
  have "tk_refresh (te_tokens res) \<noteq> ?tok"
    using new ref_token_time [of 5000000 Refresh "uuid_str ref_user" 0] by (auto simp: ref_create)
  moreover have sep: "\<forall>e \<in> set (server_lists one_session (uuid_str ref_user)). separated e"
    by (simp add: one_session_views separated_entry)
  ultimately show ?thesis
    using refresh_token_single_use [where ts = "\<lambda>_. 5000000" and ts' = "\<lambda>_. 9000000" and fp = "''phone''",
        OF ref_auth_ok _ _ one_session_views(1) sep _ _ res] v by (simp add: one_session_views)
qed

text \<open>
  An access token is never taken for a refresh token: refresh and logout with it raise
  \<open>ForbiddenError\<close> and leave the cache as it is.
\<close>

theorem access_token_is_no_refresh_token:
  assumes "auth_service A strs lsts life" and "0 \<le> now"
    and "j_create (as_jwt A) now Access (uuid_str u) None [] = Inr (e, tok)"
    and "now \<le> ts 0" and "ts 0 < e div 1000000 * 1000000" and "known_uuid A u"
  shows "auth_verify_refresh A ts fp tok c = (Inl (App (simple_error ForbiddenError ''Invalid token'')), c)
    \<and> auth_invalidate_refresh A ts tok u' c =
      (Inl (App (simple_error ForbiddenError ''Invalid token'')), c)"
  using auth_service.wrong_type_refused [where ts = ts, OF assms] by blast

theorem access_token_is_no_refresh_token_witness:
  "auth_verify_refresh ref_auth (\<lambda>_. 0) ''phone'' (ref_token 0 Access (uuid_str ref_user)) one_session =
    (Inl (App (simple_error ForbiddenError ''Invalid token'')), one_session)"
  using access_token_is_no_refresh_token [where ts = "\<lambda>_. 0", OF ref_auth_ok _ ref_create, of 0]
    ref_user_known by simp

text \<open>
  C20: a logout ends the session of its refresh token: when no two sessions of the user have the token
  (two logins within one second get the same), it is refused by a later refresh from every device,
  even while it is still valid.
\<close>

theorem logout_ends_session:
  assumes "auth_service A strs lsts life"
    and "fst (auth_verify_token A (ts 0) tok Refresh c) = Inr u"
    and "fst (auth_verify_token A (ts' 0) tok Refresh c) = Inr u"
    and "strs c (uuid_str u) = None" and "\<forall>e \<in> set (lsts c (uuid_str u)). separated e"
    and "\<forall>e \<in> set (lsts c (uuid_str u)). \<forall>e' \<in> set (lsts c (uuid_str u)).
      fst (snd (entry_session e)) = tok \<and> fst (snd (entry_session e')) = tok \<longrightarrow> e = e'"
  shows "fst (auth_invalidate_refresh A ts tok u c) = Inr True \<and>
    (\<exists>a. fst (auth_verify_refresh A ts' fp tok (snd (auth_invalidate_refresh A ts tok u c))) =
      Inl (App a) \<and> exc_class a = ForbiddenError)"
  by (rule auth_service.refresh_after_logout [where ts = ts and ts' = ts', OF assms])

theorem logout_ends_session_witness:
  "let tok = ref_token 0 Refresh (uuid_str ref_user);
       c1 = snd (auth_invalidate_refresh ref_auth (\<lambda>_. 5000000) tok ref_user one_session)
   in \<exists>a. fst (auth_verify_refresh ref_auth (\<lambda>_. 9000000) ''phone'' tok c1) = Inl (App a)"
proof -
  let ?tok = "ref_token 0 Refresh (uuid_str ref_user)"
  have v: "auth_verify_token ref_auth t ?tok Refresh one_session = (Inr ref_user, one_session)"
    if "0 \<le> t" "t < 2592000000000" for t
    using that by (intro ref_verify) simp_all
  have sep: "\<forall>e \<in> set (server_lists one_session (uuid_str ref_user)). separated e"
    by (simp add: one_session_views separated_entry)
  show ?thesis
    using logout_ends_session [where ts = "\<lambda>_. 5000000" and ts' = "\<lambda>_. 9000000" and fp = "''phone''",
        OF ref_auth_ok _ _ one_session_views(1) sep, of ?tok] v
    by (auto simp: Let_def one_session_views(2))
qed

text \<open>
  A device whose fingerprint holds the separator \<open>::\<close> can log in but never refresh: the refresh
  with the very token of the login is refused, and it ends all sessions of the user on all devices.
\<close>

theorem separator_in_fingerprint_ends_sessions:
  assumes "auth_service A strs lsts life" and "known_uuid A u" and "strs c (uuid_str u) = None"
    and "\<forall>i. 0 \<le> ts i" and "\<forall>i. 0 \<le> ts' i" and "sublist ''::'' fp"
    and "ts 1 \<le> ts' 0" and "ts' 0 < (ts 1 + life Refresh) div 1000000 * 1000000"
  shows "\<exists>res a. fst (auth_login A ts fp u c) = Inr res \<and>
    fst (auth_verify_refresh A ts' fp (tk_refresh (te_tokens res)) (snd (auth_login A ts fp u c)))
      = Inl (App a) \<and> exc_class a = ForbiddenError \<and>
    lsts (snd (auth_verify_refresh A ts' fp (tk_refresh (te_tokens res))
        (snd (auth_login A ts fp u c)))) (uuid_str u) = []"
  by (rule auth_service.separator_fingerprint [where ts = ts and ts' = ts', OF assms])

theorem separator_in_fingerprint_ends_sessions_witness:
  "\<exists>res a. fst (auth_login ref_auth (\<lambda>_. 0) ''fe80::1'' ref_user one_session) = Inr res \<and>
    fst (auth_verify_refresh ref_auth (\<lambda>_. 5000000) ''fe80::1'' (tk_refresh (te_tokens res))
      (snd (auth_login ref_auth (\<lambda>_. 0) ''fe80::1'' ref_user one_session))) = Inl (App a)"
  using separator_in_fingerprint_ends_sessions [OF ref_auth_ok ref_user_known one_session_views(1),
      of "\<lambda>_. 0" "\<lambda>_. 5000000" "''fe80::1''"]
  by (auto simp: sublist_Cons_right)

end
