(* ===== verification/Database_Instances.thy ===== *)
theory Database_Instances
  imports Database_Laws Auth_Properties
begin

text \<open>
  A reference database: two tables in memory, with the constraints of the schema and transactions
  by copy.  It satisfies \<open>session_laws\<close>, so the laws can hold, and the examples of the database
  and of the use cases run on it.  The second part holds the properties of the database layer.
\<close>

section \<open>The reference database\<close>

record rel =
  rel_seen :: db
  rel_stored :: db
  rel_tx :: bool

definition empty_db :: db where
  "empty_db = \<lparr>db_users = [], db_roles = []\<rparr>"

definition checked :: "db \<Rightarrow> db" where
  "checked D = (if valid_db D then D else empty_db)"

lemma valid_empty [simp]: "valid_db empty_db"
  by (simp add: valid_db_def empty_db_def)

lemma valid_checked [simp]: "valid_db (checked D)"
  by (simp add: checked_def)

lemma checked_valid [simp]: "valid_db D \<Longrightarrow> checked D = D"
  by (simp add: checked_def)

definition rel_tables :: "rel \<Rightarrow> db" where
  "rel_tables d = checked (rel_seen d)"

definition rel_committed :: "rel \<Rightarrow> db" where
  "rel_committed d = checked (rel_stored d)"

lemma valid_rel [simp]: "valid_db (rel_tables d)" "valid_db (rel_committed d)"
  by (simp_all add: rel_tables_def rel_committed_def)

definition rel_write :: "db \<Rightarrow> rel \<Rightarrow> rel" where
  "rel_write D d = d\<lparr>rel_seen := D, rel_tx := True\<rparr>"

definition ref_ilike :: "string \<Rightarrow> string \<Rightarrow> bool" where
  "ref_ilike s p = sublist (py_lower (butlast (tl p))) (py_lower s)"

definition longest :: "user_row list \<Rightarrow> nat" where
  "longest us = foldr (\<lambda>u n. max (length (uuid_str (u_uuid u))) n) us 36"

definition fresh_uuid :: "user_row list \<Rightarrow> uuid" where
  "fresh_uuid us = UUID (replicate (Suc (longest us)) CHR ''0'')"

lemma longest_ge: "36 \<le> longest us" "u \<in> set us \<Longrightarrow> length (uuid_str (u_uuid u)) \<le> longest us"
  by (induction us) (auto simp: longest_def)

lemma fresh_uuid_fresh: "fresh_uuid us \<notin> u_uuid ` set us"
proof
  assume "fresh_uuid us \<in> u_uuid ` set us"
  then obtain u where "u \<in> set us" "u_uuid u = fresh_uuid us" by auto
  then have "Suc (longest us) \<le> longest us"
    using longest_ge(2) [of u us] by (simp add: fresh_uuid_def)
  then show False by simp
qed

lemma fresh_uuid_known: "known_uuid ref_auth (fresh_uuid us)"
  using longest_ge(1) [of us]
  by (simp add: known_uuid_def ref_auth_def ref_parse_uuid_def fresh_uuid_def uuid_char_def
      is_digit_def list_all_iff)

definition sort_rows :: "order_by \<Rightarrow> user_row list \<Rightarrow> user_row list" where
  "sort_rows dir us =
     (case dir of Asc \<Rightarrow> sort_key u_created_at us | Desc \<Rightarrow> rev (sort_key u_created_at us))"

definition rel_insert :: "string \<Rightarrow> string \<Rightarrow> uuid \<Rightarrow> (rel, user_row list) io" where
  "rel_insert login password role d =
     (let D = rel_tables d; us = db_users D; u = new_user login password role (fresh_uuid us) 0
      in if login \<in> u_login ` set us then (Inl (IntegrityError ''Key (login) already exists''), d)
         else if role \<notin> r_uuid ` set (db_roles D) then (Inl (IntegrityError ''fk_user_role''), d)
         else (Inr [u], rel_write (D\<lparr>db_users := us @ [u]\<rparr>) d))"

definition rel_update :: "uuid \<Rightarrow> pydict \<Rightarrow> (rel, user_row list) io" where
  "rel_update target vals d =
     (let D = rel_tables d; us = db_users D; change = (\<lambda>v. (set_columns vals v)\<lparr>u_updated_at := 0\<rparr>)
      in if target \<notin> u_uuid ` set us then (Inr [], rel_write D d)
         else if PNone \<in> snd ` set vals then (Inl (IntegrityError ''null value''), d)
         else if \<exists>u. (''role_uuid'', PUuid u) \<in> set vals \<and> u \<notin> r_uuid ` set (db_roles D)
           then (Inl (IntegrityError ''fk_user_role''), d)
         else (Inr (map change (filter (\<lambda>v. u_uuid v = target) us)),
           rel_write (D\<lparr>db_users := map (\<lambda>v. if u_uuid v = target then change v else v) us\<rparr>) d))"

definition unsupported :: "('s, 'a) io" where
  "unsupported = io_raise (SQLAlchemyError ''unsupported statement'')"

fun rel_execute_user :: "stmt \<Rightarrow> (rel, user_row list) io" where
  "rel_execute_user (SelectRows loads cs) d =
     (let D = rel_tables d
      in (Inr (map (with_loads loads (db_roles D))
            (filter (\<lambda>u. matches ref_ilike (user_column u) cs) (db_users D))), rel_write D d))"
| "rel_execute_user (OffsetQuery loads offset limit (col, dir) cs) d =
     (let D = rel_tables d
      in (Inr (map (with_loads loads (db_roles D)) (page offset limit (sort_rows dir
            (filter (\<lambda>u. matches ref_ilike (user_column u) cs) (db_users D))))), rel_write D d))"
| "rel_execute_user (InsertRow vals) d =
     (case map snd vals of
        [PStr login, PStr password, PUuid role] \<Rightarrow> rel_insert login password role d
      | _ \<Rightarrow> unsupported d)"
| "rel_execute_user (UpdateRows [ColEq col (PUuid target)] vals) d = rel_update target vals d"
| "rel_execute_user st d = unsupported d"

fun rel_execute_role :: "stmt \<Rightarrow> (rel, role_row list) io" where
  "rel_execute_role (SelectRows loads cs) d =
     (let D = rel_tables d
      in (Inr (filter (\<lambda>r. matches ref_ilike (role_column r) cs) (db_roles D)), rel_write D d))"
| "rel_execute_role st d = unsupported d"

fun rel_exists_user :: "stmt \<Rightarrow> (rel, bool) io" where
  "rel_exists_user (ExistsRow cs) d =
     (let D = rel_tables d
      in (Inr (list_ex (\<lambda>u. matches ref_ilike (user_column u) cs) (db_users D)), rel_write D d))"
| "rel_exists_user st d = unsupported d"

fun rel_count_user :: "stmt \<Rightarrow> (rel, int) io" where
  "rel_count_user (CountRows cs) d =
     (let D = rel_tables d
      in (Inr (int (length (filter (\<lambda>u. matches ref_ilike (user_column u) cs) (db_users D)))),
          rel_write D d))"
| "rel_count_user st d = unsupported d"

definition rel_back :: "rel \<Rightarrow> rel" where
  "rel_back d = \<lparr>rel_seen = rel_committed d, rel_stored = rel_committed d, rel_tx = False\<rparr>"

definition ref_session :: "rel db_session" where
  "ref_session =
     \<lparr>ss_user = \<lparr>ms_execute = rel_execute_user, ms_scalar_bool = rel_exists_user,
        ms_scalar_int = rel_count_user, ms_unique = remdups\<rparr>,
      ss_role = \<lparr>ms_execute = rel_execute_role, ms_scalar_bool = (\<lambda>_. unsupported),
        ms_scalar_int = (\<lambda>_. unsupported), ms_unique = remdups\<rparr>,
      ss_new = rel_back, ss_in_transaction = rel_tx, ss_is_active = (\<lambda>_. True),
      ss_begin = (\<lambda>d. (Inr (), d\<lparr>rel_tx := True\<rparr>)),
      ss_commit = (\<lambda>d. (Inr (), \<lparr>rel_seen = rel_tables d, rel_stored = rel_tables d, rel_tx = False\<rparr>)),
      ss_rollback = (\<lambda>d. (Inr (), rel_back d)), ss_close = (\<lambda>d. (Inr (), rel_back d))\<rparr>"

lemma rel_write_views [simp]:
  "valid_db D \<Longrightarrow> rel_tables (rel_write D d) = D"
  "rel_committed (rel_write D d) = rel_committed d"
  by (simp_all add: rel_write_def rel_tables_def rel_committed_def)

lemma rel_back_views [simp]:
  "rel_tables (rel_back d) = rel_committed d" "rel_committed (rel_back d) = rel_committed d"
  by (simp_all add: rel_back_def rel_tables_def [of "\<lparr>rel_seen = _, rel_stored = _, rel_tx = _\<rparr>"]
      rel_committed_def)

lemma unsupported_frame [simp]:
  "snd (unsupported d) = d"
  by (simp add: unsupported_def io_simps)

lemma rel_insert_frame: "rel_committed (snd (rel_insert l p r d)) = rel_committed d"
  by (simp add: rel_insert_def Let_def)

lemma rel_update_frame: "rel_committed (snd (rel_update t vals d)) = rel_committed d"
  by (simp add: rel_update_def Let_def)

lemma rel_execute_user_frame: "rel_committed (snd (rel_execute_user st d)) = rel_committed d"
  by (cases "(st, d)" rule: rel_execute_user.cases)
    (auto simp: Let_def rel_insert_frame rel_update_frame split: list.split pyval.split)

lemma rel_execute_role_frame: "rel_committed (snd (rel_execute_role st d)) = rel_committed d"
  by (cases st) (auto simp: Let_def)

lemma rel_scalar_frame:
  "rel_committed (snd (rel_exists_user st d)) = rel_committed d"
  "rel_tables (snd (rel_exists_user st d)) = rel_tables d"
  "rel_committed (snd (rel_count_user st d)) = rel_committed d"
  "rel_tables (snd (rel_count_user st d)) = rel_tables d"
  by (cases st; auto simp: Let_def)+

lemma sort_rows_props:
  "mset (sort_rows dir us) = mset us" "sorted_dir dir (map u_created_at (sort_rows dir us))"
  by (cases dir; simp add: sort_rows_def sorted_dir_def rev_map [symmetric])+

lemma valid_db_insert:
  "valid_db D \<Longrightarrow> l \<notin> u_login ` set (db_users D) \<Longrightarrow> r \<in> r_uuid ` set (db_roles D) \<Longrightarrow>
    u \<notin> u_uuid ` set (db_users D) \<Longrightarrow> valid_db (D\<lparr>db_users := db_users D @ [new_user l p r u now]\<rparr>)"
  by (auto simp: valid_db_def new_user_def)

lemma set_columns_keeps:
  assumes "set vals \<subseteq> ({''password''} \<times> range PStr) \<union> ({''active''} \<times> range PBool) \<union>
    ({''role_uuid''} \<times> PUuid ` R)"
  shows "u_uuid (set_columns vals u) = u_uuid u \<and> u_login (set_columns vals u) = u_login u \<and>
    u_role (set_columns vals u) = u_role u \<and>
    (u_role_uuid u \<in> R \<longrightarrow> u_role_uuid (set_columns vals u) \<in> R)"
  using assms
proof (induction vals arbitrary: u)
  case Nil
  then show ?case by (simp add: set_columns_def)
next
  case (Cons kv vals)
  obtain k v where kv: "kv = (k, v)" by (cases kv)
  have "u_uuid (set_column kv u) = u_uuid u \<and> u_login (set_column kv u) = u_login u \<and>
    u_role (set_column kv u) = u_role u \<and> (u_role_uuid u \<in> R \<longrightarrow> u_role_uuid (set_column kv u) \<in> R)"
    using Cons.prems by (auto simp: kv)
  with Cons.IH [of "set_column kv u"] Cons.prems show ?case
    by (simp add: set_columns_def)
qed

lemma valid_db_map:
  assumes "valid_db D" and "\<And>v. u_uuid (f v) = u_uuid v \<and> u_login (f v) = u_login v \<and>
      u_role (f v) = u_role v \<and>
      (u_role_uuid v \<in> r_uuid ` set (db_roles D) \<longrightarrow> u_role_uuid (f v) \<in> r_uuid ` set (db_roles D))"
  shows "valid_db (D\<lparr>db_users := map f (db_users D)\<rparr>)"
  using assms by (auto simp: valid_db_def comp_def)

lemma valid_db_update:
  assumes "valid_db D"
    and "set vals \<subseteq> ({''password''} \<times> range PStr) \<union> ({''active''} \<times> range PBool) \<union>
      ({''role_uuid''} \<times> PUuid ` r_uuid ` set (db_roles D))"
  shows "valid_db (D\<lparr>db_users := map (\<lambda>v. if u_uuid v = t
    then (set_columns vals v)\<lparr>u_updated_at := now\<rparr> else v) (db_users D)\<rparr>)"
  using set_columns_keeps [OF assms(2)] by (intro valid_db_map [OF assms(1)]) auto

lemma filter_unique_key:
  "distinct (map f xs) \<Longrightarrow> x \<in> set xs \<Longrightarrow> f x = k \<Longrightarrow> filter (\<lambda>y. f y = k) xs = [x]"
proof (induction xs)
  case (Cons y ys)
  show ?case
  proof (cases "f y = k")
    case True
    with Cons.prems have "x = y" by (metis distinct_map_eq list.set_intros(1))
    moreover have "filter (\<lambda>y. f y = k) ys = []"
      using Cons.prems True by (auto simp: filter_empty_conv image_iff)
    ultimately show ?thesis using True by simp
  qed (use Cons in auto)
qed simp

lemma rel_begin_views: "rel_tables (d\<lparr>rel_tx := True\<rparr>) = rel_tables d"
  "rel_committed (d\<lparr>rel_tx := True\<rparr>) = rel_committed d"
  "rel_tables \<lparr>rel_seen = rel_tables d, rel_stored = rel_tables d, rel_tx = False\<rparr> = rel_tables d"
  "rel_committed \<lparr>rel_seen = rel_tables d, rel_stored = rel_tables d, rel_tx = False\<rparr> = rel_tables d"
  by (simp_all add: rel_tables_def [of "_\<lparr>rel_tx := _\<rparr>"] rel_committed_def rel_tables_def [of "\<lparr>rel_seen = _, rel_stored = _, rel_tx = _\<rparr>"])
    (simp_all add: rel_tables_def)

lemma rel_back_tx: "\<not> rel_tx (rel_back d)"
  by (simp add: rel_back_def)

lemma sublist_login_origin:
  "sublist ''login'' ''Key (login) already exists''" "\<not> sublist ''login'' ''fk_user_role''"
  by (simp_all add: sublist_code)

lemma rel_update_ok:
  assumes "u \<in> set (db_users (rel_tables d))" and "u_uuid u = target"
    and vals: "set vals \<subseteq> ({''password''} \<times> range PStr) \<union> ({''active''} \<times> range PBool) \<union>
      ({''role_uuid''} \<times> PUuid ` r_uuid ` set (db_roles (rel_tables d)))"
  shows "fst (rel_update target vals d) = Inr [(set_columns vals u)\<lparr>u_updated_at := 0\<rparr>]"
    and "rel_tables (snd (rel_update target vals d)) = rel_tables d\<lparr>db_users := map (\<lambda>v.
      if u_uuid v = target then (set_columns vals v)\<lparr>u_updated_at := 0\<rparr> else v)
      (db_users (rel_tables d))\<rparr>"
proof -
  have "distinct (map u_uuid (db_users (rel_tables d)))"
    using valid_rel(1) [of d] by (simp add: valid_db_def)
  then have f: "filter (\<lambda>v. u_uuid v = target) (db_users (rel_tables d)) = [u]"
    using assms(1,2) by (auto simp: filter_unique_key)
  have c: "target \<in> u_uuid ` set (db_users (rel_tables d))" "PNone \<notin> snd ` set vals"
    "\<nexists>u. (''role_uuid'', PUuid u) \<in> set vals \<and> u \<notin> r_uuid ` set (db_roles (rel_tables d))"
    using assms by auto
  then show "fst (rel_update target vals d) = Inr [(set_columns vals u)\<lparr>u_updated_at := 0\<rparr>]"
    and "rel_tables (snd (rel_update target vals d)) = rel_tables d\<lparr>db_users := map (\<lambda>v.
      if u_uuid v = target then (set_columns vals v)\<lparr>u_updated_at := 0\<rparr> else v)
      (db_users (rel_tables d))\<rparr>"
    using f valid_db_update [OF valid_rel(1) vals]
    by (simp_all only: rel_update_def Let_def if_False if_True not_not fst_conv snd_conv
        list.map rel_write_views simp_thms)
qed

interpretation refdb: session_laws ref_session rel_tables rel_committed ref_ilike
  "known_uuid ref_auth"
proof unfold_locales
  fix d loads cs dir limit and offset :: int
  show "\<exists>us ordered. fst (ms_execute (ss_user ref_session)
        (OffsetQuery loads offset limit (''created_at'', dir) cs) d) = Inr us \<and>
      us = map (with_loads loads (db_roles (rel_tables d))) (page offset limit ordered) \<and>
      mset ordered = mset (filter (\<lambda>u. matches ref_ilike (user_column u) cs) (db_users (rel_tables d))) \<and>
      sorted_dir dir (map u_created_at ordered) \<and>
      rel_tables (snd (ms_execute (ss_user ref_session)
        (OffsetQuery loads offset limit (''created_at'', dir) cs) d)) = rel_tables d"
    by (rule exI, rule exI [of _ "sort_rows dir
        (filter (\<lambda>u. matches ref_ilike (user_column u) cs) (db_users (rel_tables d)))"])
      (simp add: ref_session_def Let_def sort_rows_props)
next
  fix login password role d
  assume "login \<notin> u_login ` set (db_users (rel_tables d))"
    and "role \<in> r_uuid ` set (db_roles (rel_tables d))"
  then show "\<exists>u now. known_uuid ref_auth u \<and> u \<notin> u_uuid ` set (db_users (rel_tables d)) \<and>
      fst (ms_execute (ss_user ref_session) (InsertRow (user_values login password role)) d) =
        Inr [new_user login password role u now] \<and>
      rel_tables (snd (ms_execute (ss_user ref_session) (InsertRow (user_values login password role)) d)) =
        rel_tables d\<lparr>db_users := db_users (rel_tables d) @ [new_user login password role u now]\<rparr>"
    using fresh_uuid_fresh [of "db_users (rel_tables d)"]
    by (intro exI [of _ "fresh_uuid (db_users (rel_tables d))"] exI [of _ 0])
      (simp add: ref_session_def user_values_def rel_insert_def Let_def fresh_uuid_known valid_db_insert)
next
  fix u target vals d
  assume "u \<in> set (db_users (rel_tables d))" "u_uuid u = target"
    "set vals \<subseteq> ({''password''} \<times> range PStr) \<union> ({''active''} \<times> range PBool) \<union>
      ({''role_uuid''} \<times> PUuid ` r_uuid ` set (db_roles (rel_tables d)))"
  from rel_update_ok [OF this]
  show "\<exists>now. fst (ms_execute (ss_user ref_session) (UpdateRows [ColEq ''uuid'' (PUuid target)] vals) d) =
        Inr [(set_columns vals u)\<lparr>u_updated_at := now\<rparr>] \<and>
      rel_tables (snd (ms_execute (ss_user ref_session) (UpdateRows [ColEq ''uuid'' (PUuid target)] vals) d)) =
        rel_tables d\<lparr>db_users := map (\<lambda>v. if u_uuid v = target
          then (set_columns vals v)\<lparr>u_updated_at := now\<rparr> else v) (db_users (rel_tables d))\<rparr>"
    by (intro exI [of _ 0]) (simp add: ref_session_def)
next
  fix target d vals role
  assume "target \<in> u_uuid ` set (db_users (rel_tables d))" "PNone \<notin> snd ` set vals"
    "(''role_uuid'', PUuid role) \<in> set vals" "role \<notin> r_uuid ` set (db_roles (rel_tables d))"
  then show "\<exists>origin. fst (ms_execute (ss_user ref_session)
      (UpdateRows [ColEq ''uuid'' (PUuid target)] vals) d) = Inl (IntegrityError origin) \<and>
      \<not> sublist ''login'' origin"
    by (auto simp: ref_session_def rel_update_def Let_def sublist_login_origin)
qed (simp_all add: ref_session_def rel_execute_user_frame rel_execute_role_frame rel_scalar_frame
  Let_def list_ex_iff user_values_def rel_insert_def rel_update_def rel_begin_views rel_back_tx
  sublist_login_origin distinct_remdups_id)

lemmas ref_session_ok = refdb.session_laws_axioms

end
