(* ===== verification/Database_Properties.thy ===== *)
theory Database_Properties
  imports Database_Instances
begin

text \<open>
  The properties of the database layer: what a transaction keeps and what it loses, what the
  repositories find, and how database errors reach the caller.  The examples run on the reference
  database with two roles and one user.
\<close>

section \<open>An example database\<close>

definition admin_role :: role_row where
  "admin_role = \<lparr>r_uuid = UUID ''r1'', r_name = ADMIN, r_created_at = 0, r_updated_at = 0\<rparr>"

definition user_role :: role_row where
  "user_role = \<lparr>r_uuid = UUID ''r2'', r_name = USER, r_created_at = 0, r_updated_at = 0\<rparr>"

text \<open>The row of \<open>bob\<close> holds the hash of the reference hasher for \<open>pass-word\<close>.\<close>

definition bob :: user_row where
  "bob = new_user ''bob'' ''fake-hash:pass-word'' (UUID ''r2'') ref_user 0"

definition example_db :: db where
  "example_db = \<lparr>db_users = [bob], db_roles = [admin_role, user_role]\<rparr>"

definition example_rel :: rel where
  "example_rel = \<lparr>rel_seen = example_db, rel_stored = example_db, rel_tx = False\<rparr>"

lemma example_rows [simp]:
  "u_uuid bob = ref_user" "u_login bob = ''bob''" "u_password bob = ''fake-hash:pass-word''"
  "u_active bob" "u_role_uuid bob = UUID ''r2''" "u_role bob = NotLoaded"
  "r_uuid admin_role = UUID ''r1''" "r_uuid user_role = UUID ''r2''"
  "r_name admin_role = ADMIN" "r_name user_role = USER"
  by (simp_all add: bob_def new_user_def admin_role_def user_role_def)

lemma example_tables [simp]:
  "rel_tables example_rel = example_db" "rel_committed example_rel = example_db"
  "db_users example_db = [bob]" "db_roles example_db = [admin_role, user_role]"
  by (simp_all add: rel_tables_def rel_committed_def example_rel_def checked_def valid_db_def
      example_db_def)

section \<open>Transactions\<close>

text \<open>
  C11: a block \<open>async with database\<close> is all or nothing.  Its body starts from the committed
  database and its outcome is the outcome of the block; when it returns, exactly what it did is
  committed, and when it raises, whatever it did before, the committed database is what it was.
\<close>

theorem transaction_is_atomic:
  assumes "session_laws S tables committed ilike valid_uuid" and "session_frame S committed m"
  shows "\<exists>start. tables start = committed d \<and> fst (in_database S m d) = fst (m start) \<and>
    committed (snd (in_database S m d)) =
      (case fst (in_database S m d) of Inr _ \<Rightarrow> tables (snd (m start)) | Inl _ \<Rightarrow> committed d)"
  using session_laws.in_database_spec [OF assms, of d] session_laws.begun_views(1) [OF assms(1), of d]
  by (intro exI [of _ "session_laws.begun S d"]) simp

theorem transaction_is_atomic_witness:
  "\<exists>start. rel_tables start = example_db \<and>
    fst (in_database ref_session (user_update (ss_user ref_session) ref_user [(''active'', PNone)])
      example_rel) = fst (user_update (ss_user ref_session) ref_user [(''active'', PNone)] start)"
  using transaction_is_atomic [OF ref_session_ok refdb.frame_user_update, of example_rel ref_user
      "[(''active'', PNone)]"]
  by auto

text \<open>
  A commit that fails is reported as \<open>CommitError\<close> though the body returned, and a rollback
  that fails as \<open>RollbackError\<close>, in place of the exception of the body; in both cases the session
  is not closed, since \<open>close_transaction\<close> is not reached.
\<close>

theorem failed_end_of_transaction:
  assumes "gw_transaction g"
  shows "(\<forall>e. fst (ss_commit S (gw_session g)) = Inl e \<longrightarrow> is_sqlalchemy_error e \<longrightarrow>
      manager_aexit S None g = (Inl CommitError, g\<lparr>gw_session := snd (ss_commit S (gw_session g))\<rparr>)) \<and>
    (\<forall>e err. fst (ss_rollback S (gw_session g)) = Inl e \<longrightarrow> is_sqlalchemy_error e \<longrightarrow>
      manager_aexit S (Some err) g =
        (Inl RollbackError, g\<lparr>gw_session := snd (ss_rollback S (gw_session g))\<rparr>))"
  using assms by (auto simp: manager_aexit_def manager_commit_def manager_rollback_def io_simps)

definition broken_session :: "unit db_session" where
  "broken_session =
     \<lparr>ss_user = \<lparr>ms_execute = (\<lambda>_. unsupported), ms_scalar_bool = (\<lambda>_. unsupported),
        ms_scalar_int = (\<lambda>_. unsupported), ms_unique = id\<rparr>,
      ss_role = \<lparr>ms_execute = (\<lambda>_. unsupported), ms_scalar_bool = (\<lambda>_. unsupported),
        ms_scalar_int = (\<lambda>_. unsupported), ms_unique = id\<rparr>,
      ss_new = id, ss_in_transaction = (\<lambda>_. False), ss_is_active = (\<lambda>_. True),
      ss_begin = io_return (), ss_commit = unsupported, ss_rollback = unsupported,
      ss_close = io_return ()\<rparr>"

theorem failed_end_of_transaction_witness:
  "manager_aexit broken_session None \<lparr>gw_session = (), gw_transaction = True\<rparr> =
    (Inl CommitError, \<lparr>gw_session = (), gw_transaction = True\<rparr>)"
  using failed_end_of_transaction [of "\<lparr>gw_session = (), gw_transaction = True\<rparr>" broken_session]
  by (simp add: broken_session_def unsupported_def io_simps is_sqlalchemy_error_def)

text \<open>
  A block on a gateway whose session is already in a transaction (any earlier statement opens
  one) does not begin, and so does not commit: what its body writes is lost, and nothing is raised.
\<close>

theorem block_in_open_transaction_is_lost:
  assumes "session_laws S tables committed ilike valid_uuid" and "session_frame S committed m"
    and "ss_in_transaction S (gw_session g)" and "\<not> gw_transaction g"
    and "ss_is_active S (gw_session g)"
  shows "fst (with_database S (on_session m) g) = fst (m (gw_session g)) \<and>
    tables (gw_session (snd (with_database S (on_session m) g))) = committed (gw_session g) \<and>
    committed (gw_session (snd (with_database S (on_session m) g))) = committed (gw_session g)"
proof -
  have f: "committed (snd (m (gw_session g))) = committed (gw_session g)"
    "ss_is_active S (snd (m (gw_session g)))"
    using assms(2,5) by (simp_all add: session_frame_def)
  show ?thesis
    using assms(3-5) f session_laws.close [OF assms(1), of "snd (m (gw_session g))"]
    by (auto simp: with_database_def create_transaction_def manager_aexit_def close_transaction_def
        io_simps split: sum.split)
qed

theorem block_in_open_transaction_is_lost_witness:
  "rel_committed (gw_session (snd (with_database ref_session
     (on_session (user_create (ss_user ref_session) (user_values ''eve'' ''h'' (UUID ''r2''))))
     \<lparr>gw_session = rel_write example_db example_rel, gw_transaction = False\<rparr>))) = example_db"
  using block_in_open_transaction_is_lost [OF ref_session_ok refdb.frame_user_create,
      of "\<lparr>gw_session = rel_write example_db example_rel, gw_transaction = False\<rparr>"]
  by (simp add: ref_session_def rel_write_def rel_committed_def example_rel_def checked_def
      valid_db_def example_db_def)

section \<open>Repositories\<close>

text \<open>
  \<open>UserRepository.select\<close> refuses a call without an identifier (an empty login is none) and
  otherwise finds the one user with the identifier or the login, with the role when it is asked
  for; no such user is a result without data.
\<close>

theorem user_select_finds_the_user:
  assumes "session_laws S tables committed ilike valid_uuid"
  shows "fst (user_select (ss_user S) loads None login d) =
      (if truthy_str login then Inr (Result ESelect (map_option
         (with_loads loads (db_roles (tables d)))
         (find (\<lambda>u. Some (u_login u) = login) (db_users (tables d)))))
       else Inl (InvalidParamsError ''at least one identifier must be provided'')) \<and>
    fst (user_select (ss_user S) loads (Some i) None d) = Inr (Result ESelect (map_option
      (with_loads loads (db_roles (tables d))) (find (\<lambda>u. u_uuid u = i) (db_users (tables d)))))"
  using session_laws.user_select_login [OF assms, of "the login" loads d]
    session_laws.user_select_uuid [OF assms, of loads i d]
  by (cases login) (auto simp: user_select_def no_identifier_def io_simps truthy_str_def)

theorem user_select_finds_the_user_witness:
  "fst (user_select (ss_user ref_session) [''role''] None (Some ''bob'') example_rel) =
    Inr (Result ESelect (Some (bob\<lparr>u_role := Loaded (Some user_role)\<rparr>)))"
  using user_select_finds_the_user [OF ref_session_ok, of "[''role'']" "Some ''bob''" example_rel]
  by (simp add: with_loads_def)

text \<open>
  \<open>UserRepository.select_many\<close> returns the number of all users that match and, in the order of
  their creation asked for, the page between \<open>offset\<close> and \<open>offset + limit\<close> of them; when nothing
  matches, the page is empty and no second query is needed.
\<close>

theorem user_select_many_is_a_page:
  assumes "session_laws S tables committed ilike valid_uuid"
    and "0 \<le> offset" and "\<forall>l. limit = Some l \<longrightarrow> 0 \<le> l"
  shows "\<exists>ordered. fst (user_select_many (ss_user S) loads login ru dir offset limit d) =
      Inr (Result ESelect (Some (int (length ordered),
        map (with_loads loads (db_roles (tables d))) (page offset limit ordered)))) \<and>
    mset ordered = mset (filter (\<lambda>u. matches ilike (user_column u) (user_filter login ru))
      (db_users (tables d))) \<and>
    sorted_dir dir (map u_created_at ordered)"
  by (rule session_laws.user_select_many_page [OF assms])

theorem user_select_many_is_a_page_witness:
  "\<exists>ordered. fst (user_select_many (ss_user ref_session) [] (Some ''B'') None Desc 0 (Some 10)
      example_rel) = Inr (Result ESelect (Some (int (length ordered),
        map (with_loads [] [admin_role, user_role]) (page 0 (Some 10) ordered)))) \<and>
    sorted_dir Desc (map u_created_at ordered)"
  using user_select_many_is_a_page [OF ref_session_ok, of 0 "Some 10" "[]" "Some ''B''" None Desc
      example_rel] by auto

text \<open>
  \<open>UserRepository.create\<close>: a login that is taken is a conflict that names the column, a role
  that does not exist is the general server error, and otherwise exactly one active user is added,
  with a new identifier.
\<close>

theorem user_create_outcomes:
  assumes "session_laws S tables committed ilike valid_uuid"
  shows "(login \<in> u_login ` set (db_users (tables d)) \<longrightarrow>
      fst (user_create (ss_user S) (user_values login password role) d) =
        Inl (App (simple_error ConflictError ''login already in use''))) \<and>
    (login \<notin> u_login ` set (db_users (tables d)) \<longrightarrow>
      role \<notin> r_uuid ` set (db_roles (tables d)) \<longrightarrow>
      fst (user_create (ss_user S) (user_values login password role) d) =
        Inl (App default_app_exception)) \<and>
    (login \<notin> u_login ` set (db_users (tables d)) \<longrightarrow>
      role \<in> r_uuid ` set (db_roles (tables d)) \<longrightarrow>
      (\<exists>u now. valid_uuid u \<and> u \<notin> u_uuid ` set (db_users (tables d)) \<and>
        fst (user_create (ss_user S) (user_values login password role) d) =
          Inr (Result ECreate (Some (new_user login password role u now))) \<and>
        tables (snd (user_create (ss_user S) (user_values login password role) d)) =
          tables d\<lparr>db_users := db_users (tables d) @ [new_user login password role u now]\<rparr>))"
  using session_laws.user_create_duplicate [OF assms, of login d password role]
    session_laws.user_create_foreign [OF assms, of login d role password]
    session_laws.user_create_ok [OF assms, of login d role password]
  by blast

theorem user_create_outcomes_witness:
  "fst (user_create (ss_user ref_session) (user_values ''bob'' ''h'' (UUID ''r2'')) example_rel) =
     Inl (App (simple_error ConflictError ''login already in use''))"
  using user_create_outcomes [OF ref_session_ok, of "''bob''" example_rel "''h''" "UUID ''r2''"]
  by simp

text \<open>
  \<open>on_integrity\<close> touches integrity errors only: every other outcome of the wrapped coroutine,
  and the state it leaves, go through unchanged; an integrity error becomes the error asked for,
  with the first of the names that its text holds, or the general server error.
\<close>

theorem on_integrity_translates:
  "snd (on_integrity uniques (RaiseClass c) base coro s) = snd (coro s) \<and>
   fst (on_integrity uniques (RaiseClass c) base coro s) =
     (case fst (coro s) of
        Inl (IntegrityError origin) \<Rightarrow>
          (case filter (\<lambda>u. sublist u origin) uniques of
             [] \<Rightarrow> Inl (App default_app_exception)
           | u # _ \<Rightarrow> Inl (App (simple_error c (u @ '' '' @ base))))
      | r \<Rightarrow> r)"
proof -
  have "find_unique uniques origin =
      (case filter (\<lambda>u. sublist u origin) uniques of [] \<Rightarrow> None | u # _ \<Rightarrow> Some u)" for origin
    by (induction uniques) auto
  then show ?thesis
    by (auto simp: on_integrity_state on_integrity_def io_simps split: sum.split exn.split list.split)
qed

end
