(* ===== verification/Use_Case_Properties.thy ===== *)
theory Use_Case_Properties
  imports Use_Cases Database_Properties
begin

text \<open>
  The properties of the use cases.  The examples run on the reference application: the reference
  Redis, PyJWT, argon2 and database.
\<close>

section \<open>The reference application\<close>

definition ref_dump :: "register_request \<Rightarrow> string" where
  "ref_dump r =
     armor (rg_login r) @ ''.'' @ armor (rg_password r) @ ''.'' @ armor (rg_fingerprint r)"

definition ref_parse :: "string \<Rightarrow> register_request option" where
  "ref_parse txt =
     (case map dearmor (py_split ''.'' txt) of
        [l, p, f] \<Rightarrow> Some \<lparr>rg_login = l, rg_password = p, rg_fingerprint = f\<rparr>
      | _ \<Rightarrow> None)"

definition ref_app :: "(server, rel) app" where
  "ref_app =
     \<lparr>ap_auth = ref_auth, ap_session = ref_session, ap_hasher = argon2_of ref_argon2,
      ap_dump = ref_dump, ap_parse = ref_parse\<rparr>"

lemma ref_parse_dump: "ref_parse (ref_dump r) = Some r"
proof -
  have "py_split ''.'' (ref_dump r) =
      [armor (rg_login r), armor (rg_password r), armor (rg_fingerprint r)]"
    unfolding ref_dump_def by (simp only: split_armor_join py_split_no_sep [OF armor_no_dot])
  then show ?thesis by (simp add: ref_parse_def)
qed

interpretation refapp: app_laws ref_app server_strs server_lists "token_life ref_ciphers"
  rel_tables rel_committed ref_ilike
proof -
  have "auth_service (ap_auth ref_app) server_strs server_lists (token_life ref_ciphers)"
    using ref_auth_ok by (simp add: ref_app_def)
  moreover have "session_laws (ap_session ref_app) rel_tables rel_committed ref_ilike
      (known_uuid (ap_auth ref_app))"
    using ref_session_ok by (simp add: ref_app_def)
  moreover have "hasher_laws (ap_hasher ref_app)"
    using ref_hasher_ok by (simp add: ref_app_def)
  moreover have "app_laws_axioms ref_app"
  proof
    fix r :: register_request
    show "ap_dump ref_app r \<noteq> [] \<and> ap_parse ref_app (ap_dump ref_app r) = Some r"
      by (simp add: ref_app_def ref_parse_dump) (simp add: ref_dump_def)
  qed
  ultimately show "app_laws ref_app server_strs server_lists (token_life ref_ciphers)
      rel_tables rel_committed ref_ilike"
    by (rule app_laws.intro)
qed

lemmas ref_app_ok = refapp.app_laws_axioms

definition example_ctx :: "(server, rel) ctx" where
  "example_ctx = \<lparr>cx_cache = [], cx_db = example_rel\<rparr>"

definition eve :: register_request where
  "eve = \<lparr>rg_login = ''eve'', rg_password = ''secret-123'', rg_fingerprint = ''phone''\<rparr>"

lemma example_code: "plain_key (code_key ''c0de'')"
  by (simp add: code_key_eq plain_key_def)

lemma example_ctx_simps [simp]:
  "cx_cache example_ctx = []" "cx_db example_ctx = example_rel"
  by (simp_all add: example_ctx_def)

lemma eve_simps [simp]:
  "rg_login eve = ''eve''" "valid_login ''eve''" "valid_password (rg_password eve)"
  by (simp_all add: eve_def valid_login_def valid_password_def length_limits)

lemma find_append: "find P (xs @ ys) = (case find P xs of None \<Rightarrow> find P ys | Some x \<Rightarrow> Some x)"
  by (induction xs) auto

lemma find_none_image: "k \<notin> f ` set xs \<Longrightarrow> find (\<lambda>x. f x = k) xs = None"
  by (induction xs) auto

lemma find_unique_key:
  "distinct (map f xs) \<Longrightarrow> x \<in> set xs \<Longrightarrow> find (\<lambda>y. f y = f x) xs = Some x"
  by (induction xs) (auto dest: distinct_map_eq)

lemma ref_code_free:
  "known_uuid (ap_auth ref_app) u \<Longrightarrow> uuid_str u \<noteq> code_key ''c0de''"
  by (auto simp: known_uuid_def ref_app_def ref_auth_def ref_parse_uuid_def code_key_eq split: if_splits)

section \<open>Registration\<close>

text \<open>The whole way of an account, with what each step leaves for the next one.\<close>

lemma registration_flow:
  assumes laws: "app_laws A strs lsts life tables committed ilike"
    and r: "valid_login (rg_login r)" "valid_password (rg_password r)" "rg_login r \<noteq> []"
    and code: "plain_key (code_key code)" "lsts (cx_cache s) (code_key code) = []"
    and free: "\<forall>u. known_uuid (ap_auth A) u \<longrightarrow>
      strs (cx_cache s) (uuid_str u) = None \<and> uuid_str u \<noteq> code_key code"
    and new: "rg_login r \<notin> u_login ` set (db_users (committed (cx_db s)))"
    and role: "\<exists>role \<in> set (db_roles (committed (cx_db s))). r_name role = USER"
    and time: "0 \<le> ts 0" "0 \<le> ts 1" "0 \<le> ts' 0" "0 \<le> ts' 1"
    and login: "login = \<lparr>lg_login = rg_login r, lg_password = rg_password r, lg_fingerprint = fp\<rparr>"
    and s1: "s1 = snd (register A code r s)" and s2: "s2 = snd (confirm A ts code s1)"
    and s3: "s3 = snd (login_user A ts' login s2)"
  obtains res res' role h u now user where
    "fst (register A code r s) = Inr \<lparr>st_status = True\<rparr>"
    "fst (confirm A ts code s1) = Inr res" "fst (login_user A ts' login s2) = Inr res'"
    "role \<in> set (db_roles (committed (cx_db s)))" "r_name role = USER"
    "h_hash_password (ap_hasher A) (rg_password r) = Inr h"
    "user = new_user (rg_login r) h (r_uuid role) u now" "known_uuid (ap_auth A) u"
    "committed (cx_db s2) = committed (cx_db s)\<lparr>db_users := db_users (committed (cx_db s)) @ [user]\<rparr>"
    "committed (cx_db s3) = committed (cx_db s2)"
    "fst (auth_login (ap_auth A) ts' fp u (cx_cache s2)) = Inr res'"
    "find (\<lambda>v. u_uuid v = u) (db_users (committed (cx_db s3))) = Some user"
    "find (\<lambda>x. r_uuid x = r_uuid role) (db_roles (committed (cx_db s3))) = Some role"
proof -
  let ?D = "committed (cx_db s)"
  note reg = app_laws.register_spec [OF laws code(2), of r, folded s1]
  have v1: "committed (cx_db s1) = ?D" "lsts (cx_cache s1) (code_key code) = []"
    "strs (cx_cache s1) (code_key code) = Some (ap_dump A r)"
    "\<And>u. known_uuid (ap_auth A) u \<Longrightarrow> strs (cx_cache s1) (uuid_str u) = None"
    using reg new code(2) free by auto
  obtain role h u now res where c: "fst (confirm A ts code s1) = Inr res"
    "role \<in> set (db_roles ?D)" "r_name role = USER"
    "h_hash_password (ap_hasher A) (rg_password r) = Inr h"
    "known_uuid (ap_auth A) u" "u \<notin> u_uuid ` set (db_users ?D)"
    "committed (cx_db s2) = ?D\<lparr>db_users := db_users ?D @ [new_user (rg_login r) h (r_uuid role) u now]\<rparr>"
    "strs (cx_cache s2) = (strs (cx_cache s1))(code_key code := None)"
    using app_laws.confirm_creates_user [OF laws code(1) v1(2,3) r(1,2) _ _ v1(4) time(1,2)]
      role new unfolding v1(1) s2 by blast
  let ?user = "new_user (rg_login r) h (r_uuid role) u now"
  have find_login: "find (\<lambda>v. u_login v = rg_login r) (db_users (committed (cx_db s2))) = Some ?user"
    using new by (simp add: c(7) find_append find_none_image new_user_def)
  have find_uuid: "find (\<lambda>v. u_uuid v = u) (db_users (committed (cx_db s2))) = Some ?user"
    using c(6) by (simp add: c(7) find_append find_none_image new_user_def)
  have "h_verify_password (ap_hasher A) h (rg_password r) = Inr True"
    using hasher_laws.verify_hash [OF app_laws.axioms(3) [OF laws] c(4)] by simp
  then have step: "fst (login_user A ts' login s2) = fst (auth_login (ap_auth A) ts' fp u (cx_cache s2))"
    using app_laws.login_user_cases(1) [OF laws, of login ts' s2] r(3) find_login
    by (simp add: login new_user_def)
  have "strs (cx_cache s2) (uuid_str u) = None"
    using c(8) v1(4) [OF c(5)] by simp
  then obtain res' where l: "fst (auth_login (ap_auth A) ts' fp u (cx_cache s2)) = Inr res'"
    using auth_service.login_spec [where ts = ts', OF app_laws.axioms(1) [OF laws] time(3,4) c(5)] by blast
  have v3: "committed (cx_db s3) = committed (cx_db s2)"
    using app_laws.login_user_cases(3) [OF laws, of login ts' s2] r(3) by (simp add: login s3)
  have "distinct (map r_uuid (db_roles ?D))"
    using session_laws.valid_committed [OF app_laws.axioms(2) [OF laws], of "cx_db s"]
    by (simp add: valid_db_def)
  then have find_role: "find (\<lambda>x. r_uuid x = r_uuid role) (db_roles (committed (cx_db s3))) = Some role"
    using find_unique_key [OF _ c(2), of r_uuid] by (simp add: v3 c(7))
  show thesis
    by (rule that [OF _ c(1) _ c(2,3,4) refl c(5,7) v3 l _ find_role])
      (use reg(2) new step l find_uuid v3 in simp_all)
qed

text \<open>An active user with a role is let in with the access token of a login.\<close>

lemma permission_after_login:
  assumes laws: "app_laws A strs lsts life tables committed ilike"
    and "fst (auth_login (ap_auth A) ts fp u c) = Inr res" and "known_uuid (ap_auth A) u"
    and "find (\<lambda>v. u_uuid v = u) (db_users (committed (cx_db s))) = Some user"
    and "find (\<lambda>x. r_uuid x = u_role_uuid user) (db_roles (committed (cx_db s))) = Some role"
    and "u_active user" and "ps = [] \<or> Some (role_type_value (r_name role)) \<in> set ps"
    and "0 \<le> ts 0" "ts 0 \<le> t" "t < (ts 0 + life Access) div 1000000 * 1000000"
  shows "fst (permission A t \<lparr>pm_permissions = ps, pm_access_token = tk_access (te_tokens res)\<rparr> s) =
    Inr (user_view (user\<lparr>u_role := Loaded (Some role)\<rparr>))"
  using app_laws.permission_with_token [OF laws assms(2,3,8,9,10), of ps s] assms(4-7)
  by (auto simp: check_permission_def with_loads_def user_result_from_view io_simps)

text \<open>
  Registration, confirmation, login and access fit together.  After a registration of a free
  login, confirming its code creates exactly one user, with the role \<open>User\<close> and the hash of the
  password; the login with the same password then succeeds, and its access token opens what a
  \<open>User\<close> may do until it expires.
\<close>

theorem register_confirm_login:
  assumes laws: "app_laws A strs lsts life tables committed ilike"
    and r: "valid_login (rg_login r)" "valid_password (rg_password r)" "rg_login r \<noteq> []"
    and code: "plain_key (code_key code)" "lsts (cx_cache s) (code_key code) = []"
    and free: "\<forall>u. known_uuid (ap_auth A) u \<longrightarrow>
      strs (cx_cache s) (uuid_str u) = None \<and> uuid_str u \<noteq> code_key code"
    and new: "rg_login r \<notin> u_login ` set (db_users (committed (cx_db s)))"
    and role: "\<exists>role \<in> set (db_roles (committed (cx_db s))). r_name role = USER"
    and time: "0 \<le> ts 0" "0 \<le> ts 1" "0 \<le> ts' 0" "0 \<le> ts' 1" "ts' 0 \<le> t"
      "t < (ts' 0 + life Access) div 1000000 * 1000000"
  shows "let s1 = snd (register A code r s); s2 = snd (confirm A ts code s1);
      login = \<lparr>lg_login = rg_login r, lg_password = rg_password r, lg_fingerprint = fp\<rparr>;
      s3 = snd (login_user A ts' login s2)
    in fst (register A code r s) = Inr \<lparr>st_status = True\<rparr> \<and>
      (\<exists>res role h u now. fst (confirm A ts code s1) = Inr res \<and>
        role \<in> set (db_roles (committed (cx_db s))) \<and> r_name role = USER \<and>
        h_hash_password (ap_hasher A) (rg_password r) = Inr h \<and>
        committed (cx_db s2) = committed (cx_db s)\<lparr>db_users := db_users (committed (cx_db s)) @
          [new_user (rg_login r) h (r_uuid role) u now]\<rparr>) \<and>
      (\<exists>res view. fst (login_user A ts' login s2) = Inr res \<and>
        fst (permission A t \<lparr>pm_permissions = [Some ''User''],
          pm_access_token = tk_access (te_tokens res)\<rparr> s3) = Inr view \<and>
        ur_login view = rg_login r \<and> ur_active view)"
proof -
  obtain res res' role h u now user where flow:
    "fst (register A code r s) = Inr \<lparr>st_status = True\<rparr>"
    "fst (confirm A ts code (snd (register A code r s))) = Inr res"
    "fst (login_user A ts' \<lparr>lg_login = rg_login r, lg_password = rg_password r, lg_fingerprint = fp\<rparr>
      (snd (confirm A ts code (snd (register A code r s))))) = Inr res'"
    "role \<in> set (db_roles (committed (cx_db s)))" "r_name role = USER"
    "h_hash_password (ap_hasher A) (rg_password r) = Inr h"
    and user: "user = new_user (rg_login r) h (r_uuid role) u now" and u: "known_uuid (ap_auth A) u"
    and db: "committed (cx_db (snd (confirm A ts code (snd (register A code r s))))) =
      committed (cx_db s)\<lparr>db_users := db_users (committed (cx_db s)) @ [user]\<rparr>"
    and l: "fst (auth_login (ap_auth A) ts' fp u
      (cx_cache (snd (confirm A ts code (snd (register A code r s)))))) = Inr res'"
    and finds: "find (\<lambda>v. u_uuid v = u) (db_users (committed (cx_db (snd (login_user A ts'
        \<lparr>lg_login = rg_login r, lg_password = rg_password r, lg_fingerprint = fp\<rparr>
        (snd (confirm A ts code (snd (register A code r s))))))))) = Some user"
      "find (\<lambda>x. r_uuid x = r_uuid role) (db_roles (committed (cx_db (snd (login_user A ts'
        \<lparr>lg_login = rg_login r, lg_password = rg_password r, lg_fingerprint = fp\<rparr>
        (snd (confirm A ts code (snd (register A code r s))))))))) = Some role"
    by (rule registration_flow [OF laws r code free new role time(1-4) refl refl refl refl]) blast
  have "u_active user" "u_role_uuid user = r_uuid role" "u_login user = rg_login r"
    by (simp_all add: user new_user_def)
  with permission_after_login [OF laws l u finds(1), of role "[Some ''User'']" t] finds(2) time(3,5,6) flow(5)
  show ?thesis
    unfolding Let_def using flow db user by (auto simp: user_view_def)
qed

theorem register_confirm_login_witness:
  "\<exists>res. fst (confirm ref_app (\<lambda>_. 0) ''c0de'' (snd (register ref_app ''c0de'' eve example_ctx))) = Inr res"
  using register_confirm_login [OF ref_app_ok, of eve "''c0de''" example_ctx "\<lambda>_. 0" "\<lambda>_. 0" 0 "''tab''"]
    example_code ref_code_free
  by (auto simp: Let_def)

text \<open>
  A confirmation code works once.  Whatever the first confirmation comes to (the login was taken
  meanwhile, the role is missing, the text is broken), the code is gone before the database is
  touched, and a second confirmation with it raises \<open>NotFoundError\<close>.
\<close>

theorem confirmation_code_single_use:
  assumes "app_laws A strs lsts life tables committed ilike"
    and "plain_key (code_key code)" and "lsts (cx_cache s) (code_key code) = []"
    and "strs (cx_cache s) (code_key code) = Some txt" and "txt \<noteq> []"
    and "\<forall>u. known_uuid (ap_auth A) u \<longrightarrow> strs (cx_cache s) (uuid_str u) = None"
    and "0 \<le> ts 0" and "0 \<le> ts 1"
    and "lsts (cx_cache (snd (confirm A ts code s))) (code_key code) = []"
  shows "confirm A ts' code (snd (confirm A ts code s)) =
    (Inl (App (simple_error NotFoundError ''Code has expire or invalid'')), snd (confirm A ts code s))"
proof -
  have "strs (cx_cache (snd (confirm A ts code s))) = (strs (cx_cache s))(code_key code := None)"
    by (rule app_laws.confirm_consumes_code [where ts = ts, OF assms(1-5) _ assms(7,8)])
      (use assms(6) in auto)
  then show ?thesis
    by (intro app_laws.confirm_no_code [OF assms(1,9)]) simp
qed

definition pending_ctx :: "(server, rel) ctx" where
  "pending_ctx = \<lparr>cx_cache = [(code_key ''c0de'', EStr ''broken'')], cx_db = example_rel\<rparr>"

lemma pending_views:
  "server_lists (cx_cache pending_ctx) k = []"
  "server_strs (cx_cache pending_ctx) (code_key ''c0de'') = Some ''broken''"
  "k \<noteq> code_key ''c0de'' \<Longrightarrow> server_strs (cx_cache pending_ctx) k = None"
  by (simp_all add: pending_ctx_def server_lists_def server_strs_def)

lemma pending_confirmed:
  "server_lists (cx_cache (snd (confirm ref_app (\<lambda>_. 0) ''c0de'' pending_ctx))) k = []"
proof -
  have "ap_parse ref_app ''broken'' = None"
    by (simp add: ref_app_def ref_parse_def)
  then show ?thesis
    using refapp.confirm_code [OF example_code pending_views(1,2), of "\<lambda>_. 0"]
      refapp.code_deleted_views(2) [OF example_code pending_views(1)]
    by (simp add: Let_def pending_views(1))
qed

theorem confirmation_code_single_use_witness:
  "fst (confirm ref_app (\<lambda>_. 0) ''c0de'' (snd (confirm ref_app (\<lambda>_. 0) ''c0de'' pending_ctx))) =
    Inl (App (simple_error NotFoundError ''Code has expire or invalid''))"
  using confirmation_code_single_use [OF ref_app_ok example_code pending_views(1,2) _ _ _ _
      pending_confirmed, of "\<lambda>_. 0"] ref_code_free
  by (auto simp: pending_views(3))

text \<open>
  C28: \<open>register\<close> answers with a conflict when the login is taken, and then leaves the cache alone;
  otherwise it stores the request under the code and writes nothing to the database.
\<close>

theorem register_outcomes:
  assumes "app_laws A strs lsts life tables committed ilike"
    and "lsts (cx_cache s) (code_key code) = []"
  shows "committed (cx_db (snd (register A code r s))) = committed (cx_db s) \<and>
    lsts (cx_cache (snd (register A code r s))) = lsts (cx_cache s) \<and>
    (if rg_login r \<in> u_login ` set (db_users (committed (cx_db s)))
     then fst (register A code r s) = Inl (App (simple_error ConflictError ''User already exists'')) \<and>
       strs (cx_cache (snd (register A code r s))) = strs (cx_cache s)
     else fst (register A code r s) = Inr \<lparr>st_status = True\<rparr> \<and>
       strs (cx_cache (snd (register A code r s))) =
         (strs (cx_cache s))(code_key code \<mapsto> ap_dump A r))"
  using app_laws.register_spec [OF assms, of r] by simp

theorem register_outcomes_witness:
  "fst (register ref_app ''c0de'' (eve\<lparr>rg_login := ''bob''\<rparr>) example_ctx) =
    Inl (App (simple_error ConflictError ''User already exists''))"
  using register_outcomes [OF ref_app_ok, of example_ctx "''c0de''" "eve\<lparr>rg_login := ''bob''\<rparr>"]
  by simp

section \<open>Login and permission\<close>

text \<open>
  C21: What a login does, case by case: an empty login name is \<open>InvalidParamsError\<close>, an unknown one
  \<open>NotFoundError\<close>, a blocked user \<open>ForbiddenError\<close> whatever the password, a password the hasher does not
  verify \<open>UnAuthorizedError\<close>, an error of the hasher that error; else the login succeeds and puts its
  session into the list of the user.  The hasher verifies exactly the password a stored hash was made
  of.  A login that fails leaves the cache as it is, and no login changes the database.
\<close>

theorem login_outcomes:
  fixes s :: "('c, 'd) ctx" and committed :: "'d \<Rightarrow> db"
  defines "users \<equiv> db_users (committed (cx_db s))"
  assumes laws: "app_laws A strs lsts life tables committed ilike"
    and known: "list_all (\<lambda>u. known_uuid (ap_auth A) (u_uuid u) \<and>
      strs (cx_cache s) (uuid_str (u_uuid u)) = None) users"
    and time: "0 \<le> ts 0" "0 \<le> ts 1"
  shows "(lg_login r = [] \<longrightarrow> fst (login_user A ts r s) =
      Inl (InvalidParamsError ''at least one identifier must be provided'')) \<and>
    (lg_login r \<noteq> [] \<longrightarrow> find (\<lambda>u. u_login u = lg_login r) users = None \<longrightarrow>
      fst (login_user A ts r s) = Inl (App (simple_error NotFoundError ''Not found''))) \<and>
    (\<forall>u. lg_login r \<noteq> [] \<longrightarrow> find (\<lambda>u. u_login u = lg_login r) users = Some u \<longrightarrow>
      (\<not> u_active u \<longrightarrow> fst (login_user A ts r s) =
        Inl (App (simple_error ForbiddenError ''You have been blocked''))) \<and>
      (u_active u \<longrightarrow> (case h_verify_password (ap_hasher A) (u_password u) (lg_password r) of
          Inl e \<Rightarrow> fst (login_user A ts r s) = Inl e
        | Inr False \<Rightarrow> fst (login_user A ts r s) =
            Inl (App (simple_error UnAuthorizedError ''Incorrect password or login''))
        | Inr True \<Rightarrow> (\<exists>res. fst (login_user A ts r s) = Inr res \<and>
            lsts (cx_cache (snd (login_user A ts r s))) = (lsts (cx_cache s))(uuid_str (u_uuid u) :=
              sessions_after_login (lsts (cx_cache s) (uuid_str (u_uuid u)))
                (session_entry (lg_fingerprint r) (tk_refresh (te_tokens res))))))) \<and>
      (\<forall>plain. h_hash_password (ap_hasher A) plain = Inr (u_password u) \<longrightarrow>
        h_verify_password (ap_hasher A) (u_password u) (lg_password r) = Inr (lg_password r = plain))) \<and>
    (\<forall>e. fst (login_user A ts r s) = Inl e \<longrightarrow> cx_cache (snd (login_user A ts r s)) = cx_cache s) \<and>
    committed (cx_db (snd (login_user A ts r s))) = committed (cx_db s)"
proof (cases "lg_login r = []")
  case True
  then show ?thesis using app_laws.login_user_empty [OF laws True, of ts s] by simp
next
  case False
  note cases = app_laws.login_user_cases [where ts = ts and s = s, OF laws False, folded users_def]
  show ?thesis
  proof (cases "find (\<lambda>u. u_login u = lg_login r) users")
    case None
    then show ?thesis using False cases by simp
  next
    case (Some u)
    then have u: "known_uuid (ap_auth A) (u_uuid u)" "strs (cx_cache s) (uuid_str (u_uuid u)) = None"
      using known by (auto simp: list_all_iff dest: find_SomeD)
    obtain res where res: "fst (auth_login (ap_auth A) ts (lg_fingerprint r) (u_uuid u) (cx_cache s)) = Inr res"
      "lsts (snd (auth_login (ap_auth A) ts (lg_fingerprint r) (u_uuid u) (cx_cache s))) =
        (lsts (cx_cache s))(uuid_str (u_uuid u) := sessions_after_login (lsts (cx_cache s) (uuid_str (u_uuid u)))
          (session_entry (lg_fingerprint r) (tk_refresh (te_tokens res))))"
      using auth_service.login_spec [where ts = ts, OF app_laws.axioms(1) [OF laws] time u] by blast
    have hash: "h_verify_password (ap_hasher A) (u_password u) (lg_password r) = Inr (lg_password r = plain)"
      if "h_hash_password (ap_hasher A) plain = Inr (u_password u)" for plain
      by (rule hasher_laws.verify_hash [OF app_laws.axioms(3) [OF laws] that])
    show ?thesis
      using False Some cases res hash by (auto split: sum.split bool.split)
  qed
qed

theorem login_outcomes_witness:
  "fst (login_user ref_app (\<lambda>_. 0) \<lparr>lg_login = ''bob'', lg_password = ''wrong-word'',
     lg_fingerprint = ''tab''\<rparr> example_ctx) =
   Inl (App (simple_error UnAuthorizedError ''Incorrect password or login'')) \<and>
   fst (login_user ref_app (\<lambda>_. 0) \<lparr>lg_login = ''eve'', lg_password = ''pass-word'',
     lg_fingerprint = ''my::tab''\<rparr> example_ctx) = Inl (App (simple_error NotFoundError ''Not found'')) \<and>
   fst (login_user ref_app (\<lambda>_. 0) \<lparr>lg_login = [], lg_password = ''pass-word'',
     lg_fingerprint = ''tab''\<rparr> example_ctx) =
   Inl (InvalidParamsError ''at least one identifier must be provided'')"
  using login_outcomes [OF ref_app_ok, of example_ctx "\<lambda>_. 0" "\<lparr>lg_login = ''bob'',
      lg_password = ''wrong-word'', lg_fingerprint = ''tab''\<rparr>"]
    login_outcomes [OF ref_app_ok, of example_ctx "\<lambda>_. 0" "\<lparr>lg_login = ''eve'',
      lg_password = ''pass-word'', lg_fingerprint = ''my::tab''\<rparr>"]
    login_outcomes [OF ref_app_ok, of example_ctx "\<lambda>_. 0" "\<lparr>lg_login = [],
      lg_password = ''pass-word'', lg_fingerprint = ''tab''\<rparr>"] ref_user_known
  by (simp add: ref_app_def argon2_of_def argon2_hash_password_def argon2_verify_password_def ref_argon2_def)

lemma permission_granted:
  assumes "app_laws A strs lsts life tables committed ilike"
  shows "fst (permission A t request s) = Inr view \<longleftrightarrow>
    (\<exists>i u role. fst (auth_verify_token (ap_auth A) t (pm_access_token request) Access (cx_cache s)) = Inr i \<and>
      find (\<lambda>u. u_uuid u = i) (db_users (committed (cx_db s))) = Some u \<and> u_active u \<and>
      find (\<lambda>r. r_uuid r = u_role_uuid u) (db_roles (committed (cx_db s))) = Some role \<and>
      (pm_permissions request = [] \<or>
        Some (role_type_value (r_name role)) \<in> set (pm_permissions request)) \<and>
      view = user_view (u\<lparr>u_role := Loaded (Some role)\<rparr>))"
  unfolding app_laws.permission_cases [OF assms]
  by (auto simp: check_permission_def with_loads_def user_result_from_view io_simps
      split: sum.split option.split if_splits)

text \<open>
  C5: permission is granted exactly when the access token verifies to an identifier, a user with it
  exists and is active, its role exists, and no roles are asked for or its role is one of them; the
  answer is then the view of that user.
\<close>

theorem permission_granted_iff:
  assumes "app_laws A strs lsts life tables committed ilike"
  shows "fst (permission A t request s) = Inr view \<longleftrightarrow>
    (\<exists>i u role. fst (auth_verify_token (ap_auth A) t (pm_access_token request) Access (cx_cache s)) = Inr i \<and>
      find (\<lambda>u. u_uuid u = i) (db_users (committed (cx_db s))) = Some u \<and> u_active u \<and>
      find (\<lambda>r. r_uuid r = u_role_uuid u) (db_roles (committed (cx_db s))) = Some role \<and>
      (pm_permissions request = [] \<or>
        Some (role_type_value (r_name role)) \<in> set (pm_permissions request)) \<and>
      view = user_view (u\<lparr>u_role := Loaded (Some role)\<rparr>))"
  by (rule permission_granted [OF assms])

lemma ref_access:
  "auth_verify_token ref_auth 0 (ref_token 0 Access (uuid_str ref_user)) Access c = (Inr ref_user, c)"
  by (rule ref_verify) simp_all

theorem permission_granted_iff_witness:
  "fst (permission ref_app 0 \<lparr>pm_permissions = [Some ''User''],
     pm_access_token = ref_token 0 Access (uuid_str ref_user)\<rparr> example_ctx) =
   Inr (user_view (bob\<lparr>u_role := Loaded (Some user_role)\<rparr>)) \<and>
   fst (permission ref_app 0 \<lparr>pm_permissions = [Some ''Admin''],
     pm_access_token = ref_token 0 Access (uuid_str ref_user)\<rparr> example_ctx) \<noteq>
   Inr (user_view (bob\<lparr>u_role := Loaded (Some user_role)\<rparr>))"
  using permission_granted_iff [OF ref_app_ok] ref_access by (simp add: ref_app_def)

text \<open>
  Blocking a user stops new logins and every access token at once, but not the sessions: the
  refresh looks at the cache only, so its outcome does not depend on the database.
\<close>

theorem blocked_user:
  assumes laws: "app_laws A strs lsts life tables committed ilike"
    and user: "find (\<lambda>v. u_uuid v = u_uuid u) (db_users (committed (cx_db s))) = Some u"
    and login: "find (\<lambda>v. u_login v = lg_login r) (db_users (committed (cx_db s))) = Some u"
    and "lg_login r \<noteq> []" and "\<not> u_active u"
    and "fst (auth_verify_token (ap_auth A) t (pm_access_token request) Access (cx_cache s)) = Inr (u_uuid u)"
  shows "fst (permission A t request s) =
      Inl (App (simple_error ForbiddenError ''You have been blocked'')) \<and>
    fst (login_user A ts r s) = Inl (App (simple_error ForbiddenError ''You have been blocked'')) \<and>
    fst (refresh_token A ts q s) = fst (refresh_token A ts q (s\<lparr>cx_db := other\<rparr>))"
  using app_laws.permission_cases [OF laws, of t request s] user assms(4-6)
    app_laws.login_user_cases(1) [OF laws assms(4), of ts s] login
  by (simp add: check_permission_def with_loads_def refresh_token_def io_simps)

definition blocked_ctx :: "(server, rel) ctx" where
  "blocked_ctx =
     \<lparr>cx_cache = one_session,
      cx_db = \<lparr>rel_seen = example_db\<lparr>db_users := [bob\<lparr>u_active := False\<rparr>]\<rparr>,
               rel_stored = example_db\<lparr>db_users := [bob\<lparr>u_active := False\<rparr>]\<rparr>, rel_tx = False\<rparr>\<rparr>"

lemma blocked_users:
  "db_users (rel_committed (cx_db blocked_ctx)) = [bob\<lparr>u_active := False\<rparr>]"
  by (simp add: blocked_ctx_def rel_committed_def checked_def valid_db_def)

theorem blocked_user_witness:
  "fst (login_user ref_app (\<lambda>_. 0) \<lparr>lg_login = ''bob'', lg_password = ''pass-word'',
     lg_fingerprint = ''phone''\<rparr> blocked_ctx) =
   Inl (App (simple_error ForbiddenError ''You have been blocked''))"
  using blocked_user [OF ref_app_ok, of "bob\<lparr>u_active := False\<rparr>" blocked_ctx
      "\<lparr>lg_login = ''bob'', lg_password = ''pass-word'', lg_fingerprint = ''phone''\<rparr>" 0
      "\<lparr>pm_permissions = [], pm_access_token = ref_token 0 Access (uuid_str ref_user)\<rparr>" "\<lambda>_. 0"]
    ref_access [of "cx_cache blocked_ctx"]
  by (simp add: blocked_users) (simp add: ref_app_def)

section \<open>Users\<close>

text \<open>
  C31: an update of an existing user changes the fields the request sets, stores the hash of a new
  password and never its text, and leaves every other user alone; a user that does not exist is
  \<open>ForbiddenError\<close>.
\<close>

theorem update_user_sets_given_fields:
  assumes laws: "app_laws A strs lsts life tables committed ilike"
    and "up_user_uuid r = u_uuid u" and "u \<in> set (db_users (committed (cx_db s)))"
    and pw: "up_password r = map_option Some new_password"
    and ac: "up_active r = map_option Some new_active"
    and ro: "up_role_uuid r = map_option Some new_role"
    and "\<forall>x. new_role = Some x \<longrightarrow> x \<in> r_uuid ` set (db_roles (committed (cx_db s)))"
  shows "\<exists>now v. fst (update_user A r s) = Inr (user_view v) \<and>
    v = u\<lparr>u_password := (case new_password of None \<Rightarrow> u_password u
           | Some p \<Rightarrow> projr (h_hash_password (ap_hasher A) p)),
         u_role_uuid := (case new_role of None \<Rightarrow> u_role_uuid u | Some x \<Rightarrow> x),
         u_active := (case new_active of None \<Rightarrow> u_active u | Some b \<Rightarrow> b),
         u_updated_at := now\<rparr> \<and>
    (\<forall>w. w \<in> set (db_users (committed (cx_db (snd (update_user A r s))))) \<longleftrightarrow>
      w = v \<or> (w \<in> set (db_users (committed (cx_db s))) \<and> w \<noteq> u))"
proof -
  let ?S = "ap_session A" and ?D = "committed (cx_db s)"
  let ?d = "session_laws.begun ?S (cx_db s)"
  note db = app_laws.axioms(2) [OF laws]
  have t: "tables ?d = ?D" by (rule session_laws.begun_views(1) [OF db])
  obtain vals where vals: "hash_field (ap_hasher A) (dump_update r) = Inr vals"
    "vals = (case up_password r of
        Some (Some plain) \<Rightarrow> [(''password'', PStr (projr (h_hash_password (ap_hasher A) plain)))]
      | Some None \<Rightarrow> [(''password'', PNone)] | None \<Rightarrow> []) @
      set_field ''role_uuid'' PUuid (up_role_uuid r) @ set_field ''active'' PBool (up_active r)"
    using app_laws.hash_field_ok [OF laws] by blast
  have sub: "set vals \<subseteq> ({''password''} \<times> range PStr) \<union> ({''active''} \<times> range PBool) \<union>
      ({''role_uuid''} \<times> PUuid ` r_uuid ` set (db_roles (tables ?d)))"
    using vals(2) pw ac ro assms(7) unfolding t
    by (cases new_password; cases new_active; cases new_role) (simp_all add: set_field_def)
  have set: "set_columns vals u = u\<lparr>u_password := (case new_password of None \<Rightarrow> u_password u
           | Some p \<Rightarrow> projr (h_hash_password (ap_hasher A) p)),
         u_role_uuid := (case new_role of None \<Rightarrow> u_role_uuid u | Some x \<Rightarrow> x),
         u_active := (case new_active of None \<Rightarrow> u_active u | Some b \<Rightarrow> b)\<rparr>"
    using vals(2) pw ac ro
    by (cases new_password; cases new_active; cases new_role)
      (simp_all add: set_field_def set_columns_def)
  obtain now where upd:
    "fst (user_update (ss_user ?S) (u_uuid u) vals ?d) =
      Inr (Result EUpdate (Some ((set_columns vals u)\<lparr>u_updated_at := now\<rparr>)))"
    "tables (snd (user_update (ss_user ?S) (u_uuid u) vals ?d)) =
      ?D\<lparr>db_users := map (\<lambda>v. if u_uuid v = u_uuid u
        then (set_columns vals v)\<lparr>u_updated_at := now\<rparr> else v) (db_users ?D)\<rparr>"
    using session_laws.user_update_ok [OF db _ refl sub, of u] assms(3) unfolding t by blast
  note run = app_laws.update_user_run [OF laws vals(1), of s]
  have out: "fst (update_user A r s) = Inr (user_view ((set_columns vals u)\<lparr>u_updated_at := now\<rparr>))"
    "db_users (committed (cx_db (snd (update_user A r s)))) = map (\<lambda>v. if u_uuid v = u_uuid u
        then (set_columns vals v)\<lparr>u_updated_at := now\<rparr> else v) (db_users ?D)"
    using run upd assms(2) by simp_all
  have "distinct (map u_uuid (db_users ?D))"
    using session_laws.valid_committed [OF db, of "cx_db s"] by (simp add: valid_db_def)
  then have uniq: "v \<in> set (db_users ?D) \<Longrightarrow> u_uuid v = u_uuid u \<longleftrightarrow> v = u" for v
    using assms(3) by (auto dest: distinct_map_eq)
  have "w \<in> set (map (\<lambda>v. if u_uuid v = u_uuid u then f v else v) (db_users ?D)) \<longleftrightarrow>
      w = f u \<or> (w \<in> set (db_users ?D) \<and> w \<noteq> u)" for f and w :: user_row
    using uniq assms(3) by (auto simp: image_iff)
  with out set show ?thesis
    by (intro exI [of _ now] exI [of _ "(set_columns vals u)\<lparr>u_updated_at := now\<rparr>"]) simp
qed

theorem update_user_sets_given_fields_witness:
  "\<exists>v. fst (update_user ref_app \<lparr>up_user_uuid = ref_user, up_password = None, up_role_uuid = None,
     up_active = Some (Some False)\<rparr> example_ctx) = Inr v \<and> ur_login v = ''bob'' \<and> \<not> ur_active v"
  using update_user_sets_given_fields [OF ref_app_ok, of "\<lparr>up_user_uuid = ref_user,
      up_password = None, up_role_uuid = None, up_active = Some (Some False)\<rparr>" bob example_ctx
      None "Some False" None]
  by (auto simp: user_view_def)

text \<open>
  A field an update sets to \<open>null\<close> explicitly (the request allows it for every field) is handed
  to the database, which refuses it: the client gets the general server error, or, when the text of
  the refusal happens to hold the word, a conflict on the login; nothing is changed.
\<close>

theorem update_with_null_is_an_error:
  assumes laws: "app_laws A strs lsts life tables committed ilike"
    and user: "up_user_uuid r \<in> u_uuid ` set (db_users (committed (cx_db s)))"
    and null: "up_password r = Some None \<or> up_role_uuid r = Some None \<or> up_active r = Some None"
  shows "fst (update_user A r s) \<in> {Inl (App default_app_exception),
      Inl (App (simple_error ConflictError ''login already in use''))} \<and>
    committed (cx_db (snd (update_user A r s))) = committed (cx_db s)"
proof -
  note db = app_laws.axioms(2) [OF laws]
  have t: "tables (session_laws.begun (ap_session A) (cx_db s)) = committed (cx_db s)"
    by (rule session_laws.begun_views(1) [OF db])
  obtain vals where vals: "hash_field (ap_hasher A) (dump_update r) = Inr vals"
    "vals = (case up_password r of
        Some (Some plain) \<Rightarrow> [(''password'', PStr (projr (h_hash_password (ap_hasher A) plain)))]
      | Some None \<Rightarrow> [(''password'', PNone)] | None \<Rightarrow> []) @
      set_field ''role_uuid'' PUuid (up_role_uuid r) @ set_field ''active'' PBool (up_active r)"
    using app_laws.hash_field_ok [OF laws] by blast
  then have "PNone \<in> snd ` set vals"
    using null by (auto simp: set_field_def)
  from session_laws.user_update_null [OF db, of "up_user_uuid r" _ vals, unfolded t, OF _ this]
  have "fst (user_update (ss_user (ap_session A)) (up_user_uuid r) vals
      (session_laws.begun (ap_session A) (cx_db s))) \<in> {Inl (App default_app_exception),
      Inl (App (simple_error ConflictError ''login already in use''))}"
    using session_laws.user_update_null [OF db, of "up_user_uuid r"
        "session_laws.begun (ap_session A) (cx_db s)" vals, unfolded t] user
      \<open>PNone \<in> snd ` set vals\<close> by blast
  then show ?thesis
    using app_laws.update_user_run [OF laws vals(1), of s] by auto
qed

theorem update_with_null_is_an_error_witness:
  "rel_committed (cx_db (snd (update_user ref_app \<lparr>up_user_uuid = ref_user,
     up_password = Some None, up_role_uuid = None, up_active = None\<rparr> example_ctx))) = example_db"
  using update_with_null_is_an_error [OF ref_app_ok, of "\<lparr>up_user_uuid = ref_user,
      up_password = Some None, up_role_uuid = None, up_active = None\<rparr>" example_ctx]
  by simp

text \<open>
  The creation of a user by an administrator: a login that is taken is a conflict and commits
  nothing; with an existing role it commits exactly one new active user with the hash of the
  password, and answers with its view.
\<close>

theorem create_user_outcomes:
  assumes "app_laws A strs lsts life tables committed ilike"
  shows "(cu_login r \<in> u_login ` set (db_users (committed (cx_db s))) \<longrightarrow>
      fst (create_user A r s) = Inl (App (simple_error ConflictError ''login already in use'')) \<and>
      committed (cx_db (snd (create_user A r s))) = committed (cx_db s)) \<and>
    (cu_login r \<notin> u_login ` set (db_users (committed (cx_db s))) \<longrightarrow>
      cu_role_uuid r \<in> r_uuid ` set (db_roles (committed (cx_db s))) \<longrightarrow>
      (\<exists>h u now. h_hash_password (ap_hasher A) (cu_password r) = Inr h \<and>
        u \<notin> u_uuid ` set (db_users (committed (cx_db s))) \<and>
        fst (create_user A r s) = Inr (user_view (new_user (cu_login r) h (cu_role_uuid r) u now)) \<and>
        committed (cx_db (snd (create_user A r s))) = committed (cx_db s)\<lparr>db_users :=
          db_users (committed (cx_db s)) @ [new_user (cu_login r) h (cu_role_uuid r) u now]\<rparr>))"
  using app_laws.create_user_duplicate [OF assms] app_laws.create_user_ok [OF assms] by metis

theorem create_user_outcomes_witness:
  "rel_committed (cx_db (snd (create_user ref_app \<lparr>cu_login = ''bob'', cu_password = ''12345678'',
     cu_role_uuid = UUID ''r2''\<rparr> example_ctx))) = example_db"
  using create_user_outcomes [OF ref_app_ok, of "\<lparr>cu_login = ''bob'', cu_password = ''12345678'',
     cu_role_uuid = UUID ''r2''\<rparr>" example_ctx]
  by simp

text \<open>
  C32: the list of users: the answer repeats the offset and the limit, gives the number of all users
  that match, and holds at most \<open>limit\<close> views, those from \<open>offset\<close> on in the order of creation.
\<close>

theorem select_many_user_page:
  assumes "app_laws A strs lsts life tables committed ilike"
    and "0 \<le> pg_offset (sm_pagination r)" and "\<forall>l. pg_limit (sm_pagination r) = Some l \<longrightarrow> 0 \<le> l"
  shows "\<exists>res ordered. fst (select_many_user A r s) = Inr res \<and>
    or_offset res = pg_offset (sm_pagination r) \<and> or_limit res = pg_limit (sm_pagination r) \<and>
    or_total res = int (length (filter (\<lambda>u. matches ilike (user_column u)
      (user_filter (sm_login r) (sm_role_uuid r))) (db_users (committed (cx_db s))))) \<and>
    (\<forall>l. or_limit res = Some l \<longrightarrow> int (length (or_data res)) \<le> l) \<and>
    map ur_uuid (or_data res) = map u_uuid (page (or_offset res) (or_limit res) ordered) \<and>
    mset ordered = mset (filter (\<lambda>u. matches ilike (user_column u)
      (user_filter (sm_login r) (sm_role_uuid r))) (db_users (committed (cx_db s)))) \<and>
    sorted_dir (pg_order_by (sm_pagination r)) (map u_created_at ordered)"
proof -
  let ?p = "sm_pagination r"
  obtain ordered where o: "fst (select_many_user A r s) = Inr
      \<lparr>or_data = map (user_view \<circ> with_loads (sm_loads r) (db_roles (committed (cx_db s))))
         (page (pg_offset ?p) (pg_limit ?p) ordered),
       or_offset = pg_offset ?p, or_limit = pg_limit ?p, or_total = int (length ordered)\<rparr>"
    "mset ordered = mset (filter (\<lambda>u. matches ilike (user_column u)
      (user_filter (sm_login r) (sm_role_uuid r))) (db_users (committed (cx_db s))))"
    "sorted_dir (pg_order_by ?p) (map u_created_at ordered)"
    using app_laws.select_many_user_run [OF assms] by blast
  have "length ordered = length (filter (\<lambda>u. matches ilike (user_column u)
      (user_filter (sm_login r) (sm_role_uuid r))) (db_users (committed (cx_db s))))"
    using o(2) by (rule mset_eq_length)
  moreover have "int (length (page (pg_offset ?p) (Some l) ordered)) \<le> l" if "0 \<le> l" for l
    using that by (simp add: page_def)
  ultimately show ?thesis
    using o assms(3) by (intro exI conjI) (auto simp: user_view_def with_loads_def)
qed

theorem select_many_user_page_witness:
  "\<exists>res. fst (select_many_user ref_app \<lparr>sm_loads = [''role''], sm_login = None, sm_role_uuid = None,
     sm_pagination = default_pagination\<rparr> example_ctx) = Inr res \<and> or_total res = 1"
  using select_many_user_page [OF ref_app_ok, of "\<lparr>sm_loads = [''role''], sm_login = None,
     sm_role_uuid = None, sm_pagination = default_pagination\<rparr>" example_ctx]
  by (auto simp: default_pagination_def matches_def user_filter_def)

text \<open>
  An empty login passes the validation of every request, and a user with it can be registered;
  but \<open>UserRepository.select\<close> takes it for no identifier at all, so the login of that user is not
  refused: it raises \<open>InvalidParamsError\<close>, which no handler of the application expects.
\<close>

theorem empty_login_is_unusable:
  assumes "valid_password password" and "\<forall>d. fst (ss_close (ap_session A) d) = Inr ()"
  shows "make_register_request [] password fp = Inr \<lparr>rg_login = [], rg_password = password, rg_fingerprint = fp\<rparr> \<and>
    make_login_request [] password fp = Inr \<lparr>lg_login = [], lg_password = password, lg_fingerprint = fp\<rparr> \<and>
    fst (login_user A ts \<lparr>lg_login = [], lg_password = password, lg_fingerprint = fp\<rparr> s) =
      Inl (InvalidParamsError ''at least one identifier must be provided'')"
  using assms
  by (simp add: make_register_request_def make_login_request_def valid_login_def login_user_def
      in_session_def with_session_def user_select_def no_identifier_def io_simps Let_def)

theorem empty_login_is_unusable_witness:
  "fst (login_user ref_app (\<lambda>_. 0) \<lparr>lg_login = [], lg_password = ''12345678'', lg_fingerprint = ''x''\<rparr>
     example_ctx) = Inl (InvalidParamsError ''at least one identifier must be provided'')"
  using empty_login_is_unusable [of "''12345678''" ref_app "''x''" "\<lambda>_. 0" example_ctx] refdb.close
  by (simp add: valid_password_def length_limits ref_app_def)

end
