(* ===== verification/Presentation_Properties.thy ===== *)
theory Presentation_Properties
  imports Presentation Use_Case_Properties
begin

text \<open>
  The properties of the HTTP layer: every request gets an answer that can be traced, the log levels
  agree with the answers, and the guards let through whom they should.
\<close>

section \<open>Answers and logs\<close>

text \<open>The exceptions no handler of the program is for.\<close>

definition unhandled :: "exn \<Rightarrow> bool" where
  "unhandled e \<longleftrightarrow> (\<forall>a. e \<noteq> App a) \<and> (\<forall>es. e \<noteq> RequestValidationError es)"

lemma unhandled_case:
  "unhandled e \<Longrightarrow> (case e of App a \<Rightarrow> f a | RequestValidationError es \<Rightarrow> g es | _ \<Rightarrow> h) = h"
  by (cases e) (auto simp: unhandled_def)

text \<open>The answer an exception becomes.\<close>

definition answers_error :: "string \<Rightarrow> exn \<Rightarrow> http_response \<Rightarrow> bool" where
  "answers_error rid e resp \<longleftrightarrow>
     (case e of
        App a \<Rightarrow> hp_status resp = status_code (exc_class a) \<and>
          hp_content resp = PDict (dict_set ''ticket'' (PStr rid) (exc_content a))
      | RequestValidationError es \<Rightarrow> hp_status resp = 400 \<and>
          hp_content resp = PDict [(''message'', PStr ''Validation error''), (''detail'', PList es),
            (''ticket'', PStr rid)]
      | _ \<Rightarrow> hp_status resp = 500 \<and>
          hp_content resp = PDict [(''message'', PStr ''Internal Server Error''), (''ticket'', PStr rid)])"

text \<open>The headers of \<open>CORSMiddleware\<close> come beside those of the answer.\<close>

definition keeps_request_id :: "cors \<Rightarrow> bool" where
  "keeps_request_id C \<longleftrightarrow> (\<forall>r h v. (''x-request-id'', v) \<in> set h \<longrightarrow> (''x-request-id'', v) \<in> set (co_headers C r h))"

lemma serve_preflight: "is_preflight r \<Longrightarrow> serve C rid fresh routes r w = (Inr (co_preflight C r), w)"
  by (auto simp: serve_def cors_middleware_def server_error_middleware_def is_preflight_def io_try_def io_apply)

lemma headers_update_same [simp]: "hp_headers_update (\<lambda>h. h) = (\<lambda>x. x)"
  by auto

lemma cors_middleware_answer:
  assumes "\<not> is_preflight r"
  obtains f where "cors_middleware C inner r w = map_prod (map_sum id (hp_headers_update f)) id (inner r w)"
    "\<And>v h. keeps_request_id C \<Longrightarrow> (''x-request-id'', v) \<in> set h \<Longrightarrow> (''x-request-id'', v) \<in> set (f h)"
proof (cases "header_get r ''Origin'' = None")
  case True
  then show ?thesis
    by (intro that [of id]) (simp_all add: cors_middleware_def prod_eq_iff id_def sum.map_ident)
next
  case False
  then show ?thesis
    using assms by (intro that [of "co_headers C r"])
      (auto simp: cors_middleware_def keeps_request_id_def io_bind_def io_apply prod_eq_iff split: sum.split)
qed

lemma serve_answer:
  fixes routes :: "'w asgi"
  assumes "rid \<noteq> []" and "\<not> is_preflight r"
  shows "\<exists>resp. fst (serve C rid fresh routes r w) = Inr resp \<and>
    (keeps_request_id C \<longrightarrow> (''x-request-id'', PStr rid) \<in> set (hp_headers resp)) \<and>
    wb_world (snd (serve C rid fresh routes r w)) = wb_world (snd (routes (with_request_id rid r) w)) \<and>
    (case fst (routes (with_request_id rid r) w) of
       Inr x \<Rightarrow> hp_status resp = hp_status x \<and> hp_content resp = hp_content x
     | Inl e \<Rightarrow> answers_error rid e resp) \<and>
    (hp_status resp \<noteq> 0 \<longrightarrow> (\<exists>e \<in> set (wb_log (snd (serve C rid fresh routes r w))).
      le_event e = ''http_request'' \<and> le_level e = access_level (hp_status resp) \<and>
      dict_get (le_fields e) ''status'' = Some (PInt (hp_status resp))))"
proof -
  let ?q = "with_request_id rid r"
  let ?inner = "request_id_middleware rid (access_log_middleware (exception_middleware fresh routes))"
  obtain f where f: "cors_middleware C ?inner r w = map_prod (map_sum id (hp_headers_update f)) id (?inner r w)"
    "\<And>v h. keeps_request_id C \<Longrightarrow> (''x-request-id'', v) \<in> set h \<Longrightarrow> (''x-request-id'', v) \<in> set (f h)"
    by (rule cors_middleware_answer [OF assms(2), of C ?inner w]) blast
  have t: "ticket fresh ?q = rid" using assms by (simp add: ticket_def with_request_id_def)
  have q: "with_request_id rid ?q = ?q" by (simp add: with_request_id_def)
  note defs = serve_def server_error_middleware_def io_try_def f(1) request_id_middleware_def
    access_log_middleware_def exception_middleware_def io_bind_def io_apply app_exception_handler_def
    validation_exception_handler_def unknown_exception_handler_def orjson_response_def write_log_def Let_def
    t q answers_error_def
  show ?thesis
  proof (cases "fst (routes ?q w)")
    case (Inr x)
    then show ?thesis using f(2) by (simp add: defs)
  next
    case (Inl e)
    consider a where "e = App a" | es where "e = RequestValidationError es" | "unhandled e"
      unfolding unhandled_def by blast
    then show ?thesis
      using Inl f(2) by cases (simp_all add: defs unhandled_case)
  qed
qed

text \<open>
  C23: every request is answered.  A CORS preflight gets the answer of \<open>CORSMiddleware\<close>, and nothing
  else happens: neither the routes nor the logs see it.  The answer to any other request carries the
  identifier of the request: a response of the routes goes out with its status and content; an
  application error becomes a response with its status and the identifier as ticket; wrong input a
  400 with the errors; any other exception a 500 with the ticket.  What the routes did to the world
  stands, and the access log has an entry with the status that went out.
\<close>

theorem every_request_is_answered:
  fixes routes :: "'w asgi"
  assumes "rid \<noteq> []" and "keeps_request_id C"
  shows "if is_preflight r then serve C rid fresh routes r w = (Inr (co_preflight C r), w)
    else \<exists>resp. fst (serve C rid fresh routes r w) = Inr resp \<and>
      (''x-request-id'', PStr rid) \<in> set (hp_headers resp) \<and>
      wb_world (snd (serve C rid fresh routes r w)) = wb_world (snd (routes (with_request_id rid r) w)) \<and>
      (case fst (routes (with_request_id rid r) w) of
         Inr x \<Rightarrow> hp_status resp = hp_status x \<and> hp_content resp = hp_content x
       | Inl e \<Rightarrow> answers_error rid e resp) \<and>
      (hp_status resp \<noteq> 0 \<longrightarrow> (\<exists>e \<in> set (wb_log (snd (serve C rid fresh routes r w))).
        le_event e = ''http_request'' \<and> le_level e = access_level (hp_status resp) \<and>
        dict_get (le_fields e) ''status'' = Some (PInt (hp_status resp))))"
  using serve_answer [OF assms(1), of r C fresh routes w] serve_preflight [of r C rid fresh routes w] assms(2)
  by auto

definition example_request :: http_request where
  "example_request =
     \<lparr>hr_method = ''GET'', hr_path = ''/x'', hr_headers = [], hr_client = None, hr_query = [],
      hr_body = [], hr_cookies = [], hr_request_id = None\<rparr>"

definition failing_routes :: "unit asgi" where
  "failing_routes r = io_raise (InvalidParamsError ''at least one identifier must be provided'')"

text \<open>A CORS middleware that allows any origin.\<close>

definition ref_cors :: cors where
  "ref_cors =
     \<lparr>co_preflight = (\<lambda>r. orjson_response (PStr ''OK'') 200
        [(''access-control-allow-origin'', PStr ''*'')]),
      co_headers = (\<lambda>r h. h @ [(''access-control-allow-origin'', PStr ''*'')])\<rparr>"

lemma ref_cors_keeps: "keeps_request_id ref_cors"
  by (simp add: keeps_request_id_def ref_cors_def)

definition preflight_request :: http_request where
  "preflight_request = example_request\<lparr>hr_method := ''OPTIONS'',
     hr_headers := [(''origin'', ''http://a''), (''access-control-request-method'', ''GET'')]\<rparr>"

lemma example_requests_preflight:
  "is_preflight preflight_request" "\<not> is_preflight example_request"
  by (code_simp, code_simp)

theorem every_request_is_answered_witness:
  "(\<exists>resp. fst (serve ref_cors ''id1'' ''f'' failing_routes example_request \<lparr>wb_world = (), wb_log = []\<rparr>) = Inr resp \<and>
    hp_status resp = 500) \<and>
   serve ref_cors ''id1'' ''f'' failing_routes preflight_request \<lparr>wb_world = (), wb_log = []\<rparr> =
     (Inr (co_preflight ref_cors preflight_request), \<lparr>wb_world = (), wb_log = []\<rparr>)"
  using every_request_is_answered [OF _ ref_cors_keeps, of "''id1''" example_request "''f''" failing_routes
      "\<lparr>wb_world = (), wb_log = []\<rparr>"]
    every_request_is_answered [OF _ ref_cors_keeps, of "''id1''" preflight_request "''f''" failing_routes
      "\<lparr>wb_world = (), wb_log = []\<rparr>"]
  by (auto simp: example_requests_preflight failing_routes_def io_apply answers_error_def)

text \<open>
  The two logs agree.  For every class of application error but the bare \<open>DetailedError\<close> the
  handler logs an error exactly when the access log does, that is for the statuses from 500 on; and
  the access log never gives a higher status a lower level.
\<close>

theorem log_levels_agree:
  "(exc_class a \<noteq> DetailedError \<longrightarrow>
      (le_level (fst (app_exception_handler fresh r a)) = LError) =
      (access_level (hp_status (snd (app_exception_handler fresh r a))) = LError)) \<and>
   (s \<le> s' \<longrightarrow> access_level s \<le> access_level s')"
proof -
  have "expected c \<longleftrightarrow> status_code c < 500" if "c \<noteq> DetailedError" for c
    using that by (cases c) simp_all
  then show ?thesis
    by (auto simp: app_exception_handler_def access_level_def Let_def orjson_response_def
        less_eq_log_level_def)
qed

theorem log_levels_agree_witness:
  "access_level 404 \<le> access_level 503"
  using log_levels_agree [of default_app_exception "[]" example_request 404 503] by simp

section \<open>Guards\<close>

text \<open>Who is behind a request: the user of its bearer token, when it is active and has the role.\<close>

definition acts_as ::
  "('c, 'd) site \<Rightarrow> ('d \<Rightarrow> db) \<Rightarrow> int \<Rightarrow> http_request \<Rightarrow> ('c, 'd) ctx \<Rightarrow> user_row \<Rightarrow> role_row \<Rightarrow> bool" where
  "acts_as W committed t r s u role \<longleftrightarrow>
     (\<exists>token. extract_bearer (si_scheme_param W) r = Inr token \<and>
       fst (auth_verify_token (ap_auth (si_app W)) t token Access (cx_cache s)) = Inr (u_uuid u) \<and>
       u \<in> set (db_users (committed (cx_db s))) \<and> u_active u \<and>
       role \<in> set (db_roles (committed (cx_db s))) \<and> r_uuid role = u_role_uuid u)"

lemma authorization_grants:
  assumes "app_laws (si_app W) strs lsts life tables committed ilike"
    and "fst (authorization W t roles r s) = Inr view"
  shows "\<exists>u role. acts_as W committed t r s u role \<and> ur_uuid view = u_uuid u \<and>
    (roles = [] \<or> role_type_value (r_name role) \<in> set roles)"
proof -
  obtain token where token: "extract_bearer (si_scheme_param W) r = Inr token"
    "fst (permission (si_app W) t \<lparr>pm_permissions = map Some roles, pm_access_token = token\<rparr> s) = Inr view"
    using assms(2) by (auto simp: authorization_def io_bind_def io_lift_def split: sum.splits)
  note cases = app_laws.permission_cases [OF assms(1), of t _ s]
  obtain i u where u: "fst (auth_verify_token (ap_auth (si_app W)) t token Access (cx_cache s)) = Inr i"
    "find (\<lambda>u. u_uuid u = i) (db_users (committed (cx_db s))) = Some u"
    "fst (check_permission (map Some roles)
      (with_loads [''role''] (db_roles (committed (cx_db s))) u) s) = Inr view"
    using token(2) unfolding cases by (auto split: sum.splits option.splits)
  obtain role where "find (\<lambda>x. r_uuid x = u_role_uuid u) (db_roles (committed (cx_db s))) = Some role"
    "u_active u" "roles = [] \<or> role_type_value (r_name role) \<in> set roles" "ur_uuid view = u_uuid u"
    using u(3) by (auto simp: check_permission_def with_loads_def io_apply user_result_from_view
        user_view_def split: if_splits option.splits)
  with token(1) u(1,2) show ?thesis
    by (intro exI [of _ u] exI [of _ role]) (auto simp: acts_as_def dest!: find_SomeD)
qed

lemma authorization_frame:
  assumes "app_laws (si_app W) strs lsts life tables committed ilike"
  shows "cx_cache (snd (authorization W t roles r s)) = cx_cache s"
    and "committed (cx_db (snd (authorization W t roles r s))) = committed (cx_db s)"
  using app_laws.permission_frame [OF assms]
  by (auto simp: authorization_def io_bind_def io_lift_def split: sum.split)

text \<open>
  Administration is for administrators.  An answer from any of the three endpoints, and any
  change of the committed database by the update, means that the bearer token of the request is an
  access token of an active user with the role \<open>Admin\<close>.
\<close>

theorem admin_endpoints_need_admin:
  assumes laws: "app_laws (si_app W) strs lsts life tables committed ilike"
    and act: "(\<exists>x. fst (update_user_endpoint W t r i body s) = Inr x) \<or>
      committed (cx_db (snd (update_user_endpoint W t r i body s))) \<noteq> committed (cx_db s) \<or>
      (\<exists>x. fst (select_user_endpoint W t r j loads s) = Inr x) \<or>
      (\<exists>x. fst (select_users_endpoint W t r login role_uuid p loads s) = Inr x)"
  shows "\<exists>u role. acts_as W committed t r s u role \<and> r_name role = ADMIN"
proof -
  have guarded: "\<exists>view. fst (admin_guard W t r s) = Inr view"
  proof (cases "fst (admin_guard W t r s)")
    case (Inl e)
    then have "io_bind (admin_guard W t r) f s = (Inl e, snd (admin_guard W t r s))" for f :: "_ \<Rightarrow> (_, http_response) io"
      by (simp add: io_bind_def)
    then show ?thesis
      using act authorization_frame [OF laws]
      by (simp add: update_user_endpoint_def select_user_endpoint_def select_users_endpoint_def
          admin_guard_def)
  qed blast
  then obtain view where "fst (authorization W t [''Admin''] r s) = Inr view"
    by (auto simp: admin_guard_def)
  from authorization_grants [OF laws this] obtain u role where
    "acts_as W committed t r s u role" "role_type_value (r_name role) = ''Admin''" by auto
  then show ?thesis by (cases "r_name role") auto
qed

definition ref_scheme_param :: "string option \<Rightarrow> string \<times> string" where
  "ref_scheme_param h = (case h of None \<Rightarrow> ([], []) | Some s \<Rightarrow> partition_char (CHR '' '') s)"

definition ref_site :: "(server, rel) site" where
  "ref_site = \<lparr>si_app = ref_app, si_scheme_param = ref_scheme_param, si_production = True\<rparr>"

lemma ref_site_simps [simp]: "si_app ref_site = ref_app" "si_scheme_param ref_site = ref_scheme_param"
  by (simp_all add: ref_site_def)

lemma ref_site_app: "app_laws (si_app ref_site) server_strs server_lists (token_life ref_ciphers)
    rel_tables rel_committed ref_ilike"
  using ref_app_ok by simp

text \<open>A request of \<open>bob\<close>, and the same database with \<open>bob\<close> as an administrator.\<close>

definition bob_request :: http_request where
  "bob_request = example_request\<lparr>hr_headers :=
     [(''Authorization'', ''Bearer '' @ ref_token 0 Access (uuid_str ref_user))]\<rparr>"

definition admin_ctx :: "(server, rel) ctx" where
  "admin_ctx =
     \<lparr>cx_cache = [],
      cx_db = \<lparr>rel_seen = example_db\<lparr>db_users := [bob\<lparr>u_role_uuid := UUID ''r1''\<rparr>]\<rparr>,
               rel_stored = example_db\<lparr>db_users := [bob\<lparr>u_role_uuid := UUID ''r1''\<rparr>]\<rparr>, rel_tx = False\<rparr>\<rparr>"

lemma admin_ctx_simps [simp]:
  "cx_cache admin_ctx = []"
  "rel_committed (cx_db admin_ctx) = example_db\<lparr>db_users := [bob\<lparr>u_role_uuid := UUID ''r1''\<rparr>]\<rparr>"
  by (simp_all add: admin_ctx_def rel_committed_def checked_def valid_db_def)

lemma ref_token_nonempty: "ref_token now ty sub \<noteq> []"
  by (simp add: ref_token_def)

lemma bob_bearer: "extract_bearer ref_scheme_param bob_request =
    Inr (ref_token 0 Access (uuid_str ref_user))"
proof -
  have "header_get bob_request ''Authorization'' =
      Some (''Bearer'' @ CHR '' '' # ref_token 0 Access (uuid_str ref_user))"
    by (simp add: bob_request_def header_get_def)
  moreover have "ref_scheme_param (Some (''Bearer'' @ CHR '' '' # ref_token 0 Access (uuid_str ref_user))) =
      (''Bearer'', ref_token 0 Access (uuid_str ref_user))"
    unfolding ref_scheme_param_def option.case by (rule partition_char_hit) simp
  ultimately show ?thesis
    by (simp add: extract_bearer_def ref_token_nonempty to_lower_def is_upper_def char_of_def bit_0)
qed


lemma admin_selects:
  "\<exists>x. fst (select_user_endpoint ref_site 0 bob_request ref_user [] admin_ctx) = Inr x"
proof -
  let ?g = "admin_guard ref_site 0 bob_request"
  have v: "auth_verify_token (ap_auth ref_app) 0 (ref_token 0 Access (uuid_str ref_user)) Access c = (Inr ref_user, c)" for c
    using ref_access by (simp add: ref_app_def)
  have g: "fst (?g admin_ctx) =
      Inr (user_view (bob\<lparr>u_role_uuid := UUID ''r1'', u_role := Loaded (Some admin_role)\<rparr>))"
    using permission_granted [OF ref_app_ok, of 0 "\<lparr>pm_permissions = [Some ''Admin''],
        pm_access_token = ref_token 0 Access (uuid_str ref_user)\<rparr>" admin_ctx]
    by (simp add: admin_guard_def authorization_def bob_bearer io_bind_def io_lift_def v)
  have "committed = rel_committed \<Longrightarrow> db_users (committed (cx_db (snd (?g admin_ctx)))) =
      [bob\<lparr>u_role_uuid := UUID ''r1''\<rparr>]" for committed
    using authorization_frame(2) [OF ref_site_app, of 0 "[''Admin'']" bob_request admin_ctx]
    by (simp add: admin_guard_def)
  then have "\<exists>x. fst (select_user ref_app \<lparr>su_loads = [], su_user_uuid = Some ref_user, su_login = None\<rparr>
      (snd (?g admin_ctx))) = Inr x"
    by (simp add: refapp.select_user_by_uuid)
  with g show ?thesis
    by (auto simp: select_user_endpoint_def io_bind_def io_apply)
qed

theorem admin_endpoints_need_admin_witness:
  "\<exists>u role. acts_as ref_site rel_committed 0 bob_request admin_ctx u role \<and> r_name role = ADMIN"
  by (rule admin_endpoints_need_admin [OF ref_site_app, where j = ref_user and loads = "[]"])
    (use admin_selects in blast)

lemma user_guard_frame:
  assumes "app_laws (si_app W) strs lsts life tables committed ilike"
  shows "cx_cache (snd (user_guard W t t' r s)) = cx_cache s"
    and "committed (cx_db (snd (user_guard W t t' r s))) = committed (cx_db s)"
  using authorization_frame [OF assms] by (auto simp: user_guard_def io_bind_def split: sum.split)

lemma user_guard_grants:
  assumes laws: "app_laws (si_app W) strs lsts life tables committed ilike"
    and "fst (user_guard W t t' r s) = Inr view"
  shows "\<exists>u role. acts_as W committed t' r s u role \<and> ur_uuid view = u_uuid u"
proof -
  have "fst (authorization W t' [] r (snd (authorization W t [] r s))) = Inr view"
    using assms(2) by (simp add: user_guard_def io_bind_def split: sum.splits)
  from authorization_grants [OF laws this] authorization_frame [OF laws]
  show ?thesis by (auto simp: acts_as_def)
qed

text \<open>
  The own update gives no rights.  Whatever password a user sends, no user has another login,
  activity or role afterwards, and the rows of all users but the one behind the request are as they
  were.
\<close>

theorem self_update_gives_no_rights:
  assumes laws: "app_laws (si_app W) strs lsts life tables committed ilike"
    and v: "v \<in> set (db_users (committed (cx_db (snd (update_self_endpoint W t t' r password s)))))"
  shows "\<exists>u \<in> set (db_users (committed (cx_db s))). u_uuid v = u_uuid u \<and> u_login v = u_login u \<and>
    u_active v = u_active u \<and> u_role_uuid v = u_role_uuid u \<and>
    (v \<noteq> u \<longrightarrow> (\<exists>w role. acts_as W committed t' r s w role \<and> u_uuid w = u_uuid u))"
proof -
  let ?g = "user_guard W t t' r"
  note state = user_guard_frame [OF laws, of t t' r s]
  show ?thesis
  proof (cases "fst (?g s)")
    case (Inl e)
    then have "v \<in> set (db_users (committed (cx_db s)))"
      using v state(2) by (simp add: update_self_endpoint_def io_bind_def)
    then show ?thesis by blast
  next
    case (Inr view)
    let ?r = "\<lparr>up_user_uuid = ur_uuid view, up_password = password, up_role_uuid = None, up_active = None\<rparr>"
    have "v \<in> set (db_users (committed (cx_db (snd (update_user (si_app W) ?r (snd (?g s)))))))"
      using v Inr by (simp add: update_self_endpoint_def io_bind_def io_apply split: sum.splits)
    from app_laws.update_password_only [OF laws _ _ this]
    obtain u where u: "u \<in> set (db_users (committed (cx_db s)))" "u_uuid v = u_uuid u" "u_login v = u_login u"
      "u_active v = u_active u" "u_role_uuid v = u_role_uuid u" "u_uuid u \<noteq> ur_uuid view \<longrightarrow> v = u"
      by (auto simp: state)
    with user_guard_grants [OF laws Inr] show ?thesis by metis
  qed
qed

theorem self_update_gives_no_rights_witness:
  "u_role_uuid ` set (db_users (rel_committed (cx_db (snd (update_self_endpoint ref_site 0 0 bob_request
     (Some (Some ''12345678'')) example_ctx))))) \<subseteq> {UUID ''r2''}"
  using self_update_gives_no_rights [OF ref_site_app] by fastforce

text \<open>
  The refresh token travels in the cookie only.  Every answer of login, confirmation and refresh
  has the access token of the issued pair as its whole body and one cookie with the refresh token,
  hidden from scripts, secure in production, until the token expires; and a refresh without the
  cookie is refused before the cache is looked at.
\<close>

theorem tokens_in_answers:
  assumes "fst (login_endpoint W ts body s) = Inr x \<or> fst (confirm_register_endpoint W ts code s) = Inr x \<or>
    fst (refresh_endpoint W ts r fp s) = Inr x"
  shows "\<exists>res. hp_content x = PDict [(''token'', PStr (tk_access (te_tokens res)))] \<and>
      (\<exists>c. hp_cookies x = [c] \<and> ck_name c = ''refresh_token'' \<and>
        ck_value c = tk_refresh (te_tokens res) \<and> ck_expires c = Some (te_refresh_expire res) \<and>
        ck_httponly c \<and> ck_secure c = si_production W) \<and>
      ((\<exists>q s'. fst (login_user (si_app W) ts q s') = Inr res) \<or>
        fst (confirm (si_app W) ts code s) = Inr res \<or>
        fst (refresh_token (si_app W) ts \<lparr>rf_fingerprint = fp,
          rf_refresh_token = cookie_get r ''refresh_token'' []\<rparr> s) = Inr res) \<and>
    (map_of (hr_cookies q) ''refresh_token'' = None \<longrightarrow>
      refresh_endpoint W ts q fp s = (Inl (App (simple_error UnAuthorizedError ''Not allowed'')), s))"
proof -
  have t: "\<exists>c. hp_cookies (tokens_response W res) = [c] \<and> ck_name c = ''refresh_token'' \<and>
        ck_value c = tk_refresh (te_tokens res) \<and> ck_expires c = Some (te_refresh_expire res) \<and>
        ck_httponly c \<and> ck_secure c = si_production W"
    "hp_content (tokens_response W res) = PDict [(''token'', PStr (tk_access (te_tokens res)))]" for res
    by (simp_all add: tokens_response_def ok_response_def orjson_response_def token_contract_def)
  have none: "map_of (hr_cookies q) ''refresh_token'' = None \<longrightarrow>
      refresh_endpoint W ts q fp s = (Inl (App (simple_error UnAuthorizedError ''Not allowed'')), s)"
    by (simp add: refresh_endpoint_def refresh_token_def cookie_get_def io_bind_def io_raise_def)
  have "\<exists>res. x = tokens_response W res \<and> ((\<exists>q s'. fst (login_user (si_app W) ts q s') = Inr res) \<or>
        fst (confirm (si_app W) ts code s) = Inr res \<or>
        fst (refresh_token (si_app W) ts \<lparr>rf_fingerprint = fp,
          rf_refresh_token = cookie_get r ''refresh_token'' []\<rparr> s) = Inr res)"
    using assms
    by (auto simp: login_endpoint_def confirm_register_endpoint_def refresh_endpoint_def io_bind_def
        io_apply split: sum.splits)
  then obtain res where "x = tokens_response W res"
    "(\<exists>q s'. fst (login_user (si_app W) ts q s') = Inr res) \<or>
        fst (confirm (si_app W) ts code s) = Inr res \<or>
        fst (refresh_token (si_app W) ts \<lparr>rf_fingerprint = fp,
          rf_refresh_token = cookie_get r ''refresh_token'' []\<rparr> s) = Inr res"
    by (elim exE conjE)
  with t [of res] none show ?thesis
    by (intro exI [of _ res] conjI) simp_all
qed

lemma bob_logs_in:
  "\<exists>x. fst (login_endpoint ref_site (\<lambda>_. 0)
     \<lparr>lc_fingerprint = ''tab'', lc_login = ''bob'', lc_password = ''pass-word''\<rparr> example_ctx) = Inr x"
proof -
  let ?r = "\<lparr>lg_login = ''bob'', lg_password = ''pass-word'', lg_fingerprint = ''tab''\<rparr>"
  have "server_strs [] (uuid_str ref_user) = None" by (simp add: server_strs_def)
  then obtain res where "fst (auth_login ref_auth (\<lambda>_. 0) ''tab'' ref_user []) = Inr res"
    using refauth.login_spec [of "\<lambda>_. 0" ref_user "[]" "''tab''"] ref_user_known by auto
  then have "fst (login_user ref_app (\<lambda>_. 0) ?r example_ctx) = Inr res"
    by (simp add: refapp.login_user_cases(1))
      (simp add: ref_app_def argon2_of_def argon2_verify_password_def ref_argon2_def)
  moreover have "make_login_request ''bob'' ''pass-word'' ''tab'' = Inr ?r"
    by (simp add: make_login_request_def valid_password_def MIN_PASSWORD_LENGTH_def
        MAX_PASSWORD_LENGTH_def MAX_LOGIN_LENGTH_def valid_login_def)
  ultimately show ?thesis
    by (simp add: login_endpoint_def io_simps)
qed

theorem tokens_in_answers_witness:
  "\<exists>x token. fst (login_endpoint ref_site (\<lambda>_. 0)
       \<lparr>lc_fingerprint = ''tab'', lc_login = ''bob'', lc_password = ''pass-word''\<rparr> example_ctx) = Inr x \<and>
     hp_content x = PDict [(''token'', PStr token)]"
proof -
  obtain x where x: "fst (login_endpoint ref_site (\<lambda>_. 0)
     \<lparr>lc_fingerprint = ''tab'', lc_login = ''bob'', lc_password = ''pass-word''\<rparr> example_ctx) = Inr x"
    using bob_logs_in by blast
  then show ?thesis
    using tokens_in_answers [OF disjI1 [OF x], where code = "[]" and r = example_request and fp = "[]" and
        q = example_request] by auto
qed

end
