(* ===== verification/Formatter.thy ===== *)
theory Formatter
  imports Http
begin

text \<open>
  JSON values and their texts, and \<open>src/common/tools/formatter.py\<close>: the parser of Python's format
  strings, which \<open>extract_keys_formatter\<close> and \<open>SafeFormatter\<close> rest on, and the two themselves.
\<close>

section \<open>JSON values and \<open>str\<close>\<close>

text \<open>What \<open>json.loads\<close> gives; numbers with a fraction are left out.\<close>

datatype jvalue =
    JNull
  | JBool bool
  | JInt int
  | JStr string
  | JList "jvalue list"
  | JDict "(string \<times> jvalue) list"

text \<open>\<open>repr\<close> of a string of one-byte characters: quotes, escapes, and what is not printable in hex.\<close>

definition hex_digit :: "nat \<Rightarrow> char" where
  "hex_digit n = ''0123456789abcdef'' ! (n mod 16)"

definition repr_char :: "char \<Rightarrow> char \<Rightarrow> string" where
  "repr_char q c =
     (let n = of_char c :: nat
      in if c = q \<or> n = 92 then [CHR 0x5C, c]
         else if n = 10 then [CHR 0x5C, CHR ''n'']
         else if n = 13 then [CHR 0x5C, CHR ''r'']
         else if n = 9 then [CHR 0x5C, CHR ''t'']
         else if n < 32 \<or> 127 \<le> n \<and> n \<le> 160 \<or> n = 173
         then [CHR 0x5C, CHR ''x'', hex_digit (n div 16), hex_digit n]
         else [c])"

definition repr_str :: "string \<Rightarrow> string" where
  "repr_str s =
     (let q = (if CHR 0x27 \<in> set s \<and> CHR 0x22 \<notin> set s then CHR 0x22 else CHR 0x27)
      in [q] @ concat (map (repr_char q) s) @ [q])"

fun py_repr :: "jvalue \<Rightarrow> string" where
  "py_repr JNull = ''None''"
| "py_repr (JBool b) = (if b then ''True'' else ''False'')"
| "py_repr (JInt i) = int_str i"
| "py_repr (JStr s) = repr_str s"
| "py_repr (JList vs) = ''['' @ py_join '', '' (map py_repr vs) @ '']''"
| "py_repr (JDict kvs) =
     ''{'' @ py_join '', '' (map (\<lambda>(k, v). repr_str k @ '': '' @ py_repr v) kvs) @ ''}''"

fun py_str :: "jvalue \<Rightarrow> string" where
  "py_str (JStr s) = s"
| "py_str v = py_repr v"

section \<open>The parser of format strings\<close>

text \<open>
  \<open>string.Formatter().parse(text)\<close> gives pieces: a literal text, and behind it a replacement field
  with its name, its format specification and its conversion, or none.  The parser runs in the way
  of the interpreter's: up to a brace; a doubled brace ends a piece whose literal has the brace; a
  field name ends at a colon, an exclamation mark or a closing brace outside of square brackets.
\<close>

record field =
  fd_name :: string
  fd_spec :: string
  fd_conv :: "char option"

datatype literal_end = Escaped | Markup | Final

fun scan_literal :: "string \<Rightarrow> exn + (string \<times> literal_end \<times> string)" where
  "scan_literal [] = Inr ([], Final, [])"
| "scan_literal (c # s) =
     (if c \<noteq> CHR ''{'' \<and> c \<noteq> CHR ''}''
      then map_sum id (\<lambda>(l, e, rest). (c # l, e, rest)) (scan_literal s)
      else case s of
          [] \<Rightarrow> Inl (PyValueError (''Single '' @ repr_str [c] @ '' encountered in format string''))
        | d # t \<Rightarrow>
            if d = c then Inr ([c], Escaped, t)
            else if c = CHR ''}''
            then Inl (PyValueError (''Single '' @ repr_str [c] @ '' encountered in format string''))
            else Inr ([], Markup, s))"

text \<open>The name of a field, the character that ended it, and the rest; the flag says: inside brackets.\<close>

fun scan_name :: "bool \<Rightarrow> string \<Rightarrow> exn + (string \<times> char \<times> string)" where
  "scan_name inside [] = Inl (PyValueError (''expected '' @ repr_str ''}'' @ '' before end of string''))"
| "scan_name inside (c # s) =
     (if inside then map_sum id (\<lambda>(n, e, rest). (c # n, e, rest)) (scan_name (c \<noteq> CHR '']'') s)
      else if c = CHR ''{''
      then Inl (PyValueError (''unexpected '' @ repr_str ''{'' @ '' in field name''))
      else if c = CHR ''}'' \<or> c = CHR '':'' \<or> c = CHR ''!'' then Inr ([], c, s)
      else map_sum id (\<lambda>(n, e, rest). (c # n, e, rest)) (scan_name (c = CHR ''['') s))"

fun scan_spec :: "nat \<Rightarrow> string \<Rightarrow> exn + (string \<times> string)" where
  "scan_spec depth [] = Inl (PyValueError (''unmatched '' @ repr_str ''{'' @ '' in format spec''))"
| "scan_spec depth (c # s) =
     (if c = CHR ''}'' \<and> depth = 0 then Inr ([], s)
      else map_sum id (\<lambda>(spec, rest). (c # spec, rest))
        (scan_spec (if c = CHR ''{'' then Suc depth else if c = CHR ''}'' then depth - 1 else depth) s))"

definition parse_field :: "string \<Rightarrow> exn + (field \<times> string)" where
  "parse_field s =
     (case scan_name False s of
        Inl e \<Rightarrow> Inl e
      | Inr (name, c, rest) \<Rightarrow>
          let with_spec = (\<lambda>conv t. map_sum id (\<lambda>(spec, u).
                (\<lparr>fd_name = name, fd_spec = spec, fd_conv = conv\<rparr>, u)) (scan_spec 0 t))
          in if c = CHR ''}'' then Inr (\<lparr>fd_name = name, fd_spec = [], fd_conv = None\<rparr>, rest)
             else if c = CHR '':'' then with_spec None rest
             else case rest of
                 [] \<Rightarrow> Inl (PyValueError ''end of string while looking for conversion specifier'')
               | conv # [] \<Rightarrow> with_spec (Some conv) []
               | conv # d # t \<Rightarrow>
                   if d = CHR ''}''
                   then Inr (\<lparr>fd_name = name, fd_spec = [], fd_conv = Some conv\<rparr>, t)
                   else if d = CHR '':'' then with_spec (Some conv) t
                   else Inl (PyValueError (''expected '' @ repr_str '':'' @ '' after conversion specifier'')))"

lemma scan_literal_shorter:
  "scan_literal s = Inr (l, e, rest) \<Longrightarrow> e \<noteq> Final \<Longrightarrow> length rest < length s"
proof (induction s arbitrary: l e rest)
  case (Cons c s)
  show ?case
  proof (cases "c = CHR ''{'' \<or> c = CHR ''}''")
    case True
    with Cons.prems(1) show ?thesis
      by (cases s) (auto split: if_splits)
  next
    case False
    with Cons.prems obtain l' where "scan_literal s = Inr (l', e, rest)"
      by (cases "scan_literal s") auto
    with Cons.IH Cons.prems(2) show ?thesis by fastforce
  qed
qed simp

lemma scan_name_shorter: "scan_name b s = Inr (n, c, rest) \<Longrightarrow> length rest < length s"
  by (induction s arbitrary: b n c rest)
    (auto split: if_splits sum.splits simp: map_sum_def less_SucI)

lemma scan_spec_shorter: "scan_spec d s = Inr (spec, rest) \<Longrightarrow> length rest < length s"
  by (induction s arbitrary: d spec rest)
    (auto split: if_splits sum.splits simp: map_sum_def less_SucI)

lemma spec_field_shorter:
  "map_sum id (\<lambda>(spec, u). (g spec, u)) (scan_spec d t) = Inr (f, rest) \<Longrightarrow> length rest < length t"
  by (cases "scan_spec d t") (auto dest: scan_spec_shorter)

lemma parse_field_shorter:
  assumes "parse_field s = Inr (f, rest)"
  shows "length rest < length s"
proof -
  obtain n c t where t: "scan_name False s = Inr (n, c, t)" and p: "parse_field s = Inr (f, rest)"
    using assms by (auto simp: parse_field_def split: sum.splits)
  have "length rest \<le> length t"
    using p unfolding parse_field_def t
    by (auto simp: Let_def split: if_splits list.splits dest!: spec_field_shorter)
  with scan_name_shorter [OF t] show ?thesis by simp
qed

function parse_format :: "string \<Rightarrow> exn + (string \<times> field option) list" where
  "parse_format s =
     (case scan_literal s of
        Inl e \<Rightarrow> Inl e
      | Inr (l, Final, _) \<Rightarrow> Inr (if l = [] then [] else [(l, None)])
      | Inr (l, Escaped, rest) \<Rightarrow> map_sum id (\<lambda>ps. (l, None) # ps) (parse_format rest)
      | Inr (l, Markup, rest) \<Rightarrow>
          (case parse_field rest of
             Inl e \<Rightarrow> Inl e
           | Inr (f, t) \<Rightarrow> map_sum id (\<lambda>ps. (l, Some f) # ps) (parse_format t)))"
  by pat_completeness auto

termination
  by (relation "measure length")
    (auto dest!: scan_literal_shorter parse_field_shorter)

declare parse_format.simps [simp del]

section \<open>extract\_keys\_formatter and SafeFormatter\<close>

definition extract_keys_formatter :: "string \<Rightarrow> exn + string list" where
  "extract_keys_formatter text =
     map_sum id (\<lambda>ps. concat (map (\<lambda>(_, f). case f of None \<Rightarrow> [] | Some f \<Rightarrow> [fd_name f]) ps))
       (parse_format text)"

text \<open>
  \<open>get_value\<close>: a name that is not among the keyword arguments gives itself in braces.  The part of
  a field name behind the first dot or bracket is a path into the value, which is followed, converted
  and formatted by \<open>render\<close>: that is the attribute access and the formatting of the Python object, a
  parameter here; a plain field is the text of the value.  A position (a number or nothing) is looked
  up in the positional arguments, and there are none.
\<close>

definition safe_get_value :: "(string \<Rightarrow> jvalue option) \<Rightarrow> string \<Rightarrow> jvalue" where
  "safe_get_value kwargs key =
     (case kwargs key of Some v \<Rightarrow> v | None \<Rightarrow> JStr (''{'' @ key @ ''}''))"

definition first_name :: "string \<Rightarrow> string" where
  "first_name name = takeWhile (\<lambda>c. c \<noteq> CHR ''.'' \<and> c \<noteq> CHR ''['') name"

definition format_one ::
  "(jvalue \<Rightarrow> string \<Rightarrow> char option \<Rightarrow> string \<Rightarrow> exn + string) \<Rightarrow> (string \<Rightarrow> jvalue option) \<Rightarrow> field \<Rightarrow>
    exn + string" where
  "format_one render kwargs f =
     (let first = first_name (fd_name f); path = drop (length first) (fd_name f)
      in if fd_name f = [] \<or> (first \<noteq> [] \<and> list_all is_digit first)
         then Inl (PyIndexError ''tuple index out of range'')
         else let v = safe_get_value kwargs first
              in if path = [] \<and> fd_conv f = None \<and> fd_spec f = [] then Inr (py_str v)
                 else render v path (fd_conv f) (fd_spec f))"

fun format_pieces ::
  "(jvalue \<Rightarrow> string \<Rightarrow> char option \<Rightarrow> string \<Rightarrow> exn + string) \<Rightarrow> (string \<Rightarrow> jvalue option) \<Rightarrow>
    (string \<times> field option) list \<Rightarrow> exn + string" where
  "format_pieces render kwargs [] = Inr []"
| "format_pieces render kwargs ((l, f) # ps) =
     (case (case f of None \<Rightarrow> Inr [] | Some f \<Rightarrow> format_one render kwargs f) of
        Inl e \<Rightarrow> Inl e
      | Inr t \<Rightarrow> map_sum id (\<lambda>rest. l @ t @ rest) (format_pieces render kwargs ps))"

definition safe_format ::
  "(jvalue \<Rightarrow> string \<Rightarrow> char option \<Rightarrow> string \<Rightarrow> exn + string) \<Rightarrow> string \<Rightarrow> (string \<Rightarrow> jvalue option) \<Rightarrow>
    exn + string" where
  "safe_format render text kwargs =
     (case parse_format text of Inl e \<Rightarrow> Inl e | Inr ps \<Rightarrow> format_pieces render kwargs ps)"

section \<open>Templates\<close>

text \<open>
  The format strings of cache keys: literal texts without braces, each with a plain name behind it,
  and a literal at the end.
\<close>

definition name_text :: "string \<Rightarrow> bool" where
  "name_text n \<longleftrightarrow>
     (\<forall>c \<in> set n. c \<notin> {CHR ''{'', CHR ''}'', CHR '':'', CHR ''!'', CHR ''['', CHR ''.''})"

definition plain_name :: "string \<Rightarrow> bool" where
  "plain_name n \<longleftrightarrow> n \<noteq> [] \<and> \<not> list_all is_digit n \<and> name_text n"

definition no_braces :: "string \<Rightarrow> bool" where
  "no_braces s \<longleftrightarrow> CHR ''{'' \<notin> set s \<and> CHR ''}'' \<notin> set s"

definition template :: "(string \<times> string) list \<Rightarrow> string \<Rightarrow> string" where
  "template ps end_text = concat (map (\<lambda>(l, n). l @ ''{'' @ n @ ''}'') ps) @ end_text"

definition simple_template :: "(string \<times> string) list \<Rightarrow> string \<Rightarrow> bool" where
  "simple_template ps end_text \<longleftrightarrow>
     list_all (\<lambda>(l, n). no_braces l \<and> name_text n) ps \<and> no_braces end_text"

definition plain_template :: "(string \<times> string) list \<Rightarrow> string \<Rightarrow> bool" where
  "plain_template ps end_text \<longleftrightarrow>
     list_all (\<lambda>(l, n). no_braces l \<and> plain_name n) ps \<and> no_braces end_text"

lemma plain_template_simple: "plain_template ps end_text \<Longrightarrow> simple_template ps end_text"
  by (auto simp: plain_template_def simple_template_def plain_name_def list_all_iff)

definition plain_field :: "string \<Rightarrow> field" where
  "plain_field n = \<lparr>fd_name = n, fd_spec = [], fd_conv = None\<rparr>"

lemma scan_literal_text: "no_braces l \<Longrightarrow> scan_literal l = Inr (l, Final, [])"
  by (induction l) (auto simp: no_braces_def)

lemma scan_literal_markup:
  "no_braces l \<Longrightarrow> s \<noteq> [] \<Longrightarrow> hd s \<noteq> CHR ''{'' \<Longrightarrow>
    scan_literal (l @ CHR ''{'' # s) = Inr (l, Markup, s)"
  by (induction l) (auto simp: no_braces_def split: list.splits)

lemma scan_plain_name:
  "name_text n \<Longrightarrow> scan_name False (n @ CHR ''}'' # s) = Inr (n, CHR ''}'', s)"
  by (induction n) (auto simp: name_text_def)

lemma parse_plain_field:
  "name_text n \<Longrightarrow> parse_field (n @ CHR ''}'' # s) = Inr (plain_field n, s)"
  by (simp add: parse_field_def scan_plain_name plain_field_def)

lemma parse_template:
  "simple_template ps end_text \<Longrightarrow> parse_format (template ps end_text) =
    Inr (map (\<lambda>(l, n). (l, Some (plain_field n))) ps @ (if end_text = [] then [] else [(end_text, None)]))"
proof (induction ps)
  case Nil
  then show ?case
    by (simp add: simple_template_def template_def parse_format.simps [of end_text] scan_literal_text)
next
  case (Cons p ps)
  obtain l n where p: "p = (l, n)" by (cases p)
  with Cons.prems have n: "no_braces l" "name_text n" and rest: "simple_template ps end_text"
    by (auto simp: simple_template_def)
  from n(2) have hd: "hd (n @ CHR ''}'' # template ps end_text) \<noteq> CHR ''{''"
    by (cases n) (auto simp: name_text_def)
  have "template (p # ps) end_text = l @ CHR ''{'' # n @ CHR ''}'' # template ps end_text"
    by (simp add: p template_def)
  then show ?case
    using Cons.IH [OF rest] scan_literal_markup [OF n(1) _ hd] parse_plain_field [OF n(2)]
    by (simp add: p parse_format.simps [of "l @ CHR ''{'' # n @ CHR ''}'' # template ps end_text"])
qed

lemma format_plain_field:
  "plain_name n \<Longrightarrow> format_one render kwargs (plain_field n) = Inr (py_str (safe_get_value kwargs n))"
proof -
  assume n: "plain_name n"
  then have "first_name n = n"
    by (auto simp: first_name_def plain_name_def name_text_def takeWhile_eq_all_conv)
  with n show ?thesis
    by (simp add: format_one_def plain_field_def plain_name_def Let_def)
qed

lemma format_template:
  assumes "plain_template ps end_text"
  shows "safe_format render (template ps end_text) kwargs =
    Inr (concat (map (\<lambda>(l, n). l @ py_str (safe_get_value kwargs n)) ps) @ end_text)"
proof -
  have "format_pieces render kwargs (map (\<lambda>(l, n). (l, Some (plain_field n))) ps @
      (if end_text = [] then [] else [(end_text, None)])) =
    Inr (concat (map (\<lambda>(l, n). l @ py_str (safe_get_value kwargs n)) ps) @ end_text)"
    using assms
    by (induction ps) (auto simp: plain_template_def format_plain_field)
  then show ?thesis
    by (simp add: safe_format_def parse_template [OF plain_template_simple [OF assms]])
qed

lemma extract_keys_template:
  "plain_template ps end_text \<Longrightarrow> extract_keys_formatter (template ps end_text) = Inr (map snd ps)"
  by (simp add: extract_keys_formatter_def parse_template plain_template_simple case_prod_beta' comp_def plain_field_def)

end
