(* ===== verification/Settings.thy ===== *)
theory Settings
  imports Formatter Security
begin

text \<open>
  \<open>src/settings/core.py\<close>: the settings with their defaults, the database URL and \<open>load_settings\<close>,
  and what the clients of the database, of Redis and of NATS are given of them.  Reading the
  environment and the file \<open>.env\<close> is pydantic-settings and not part of the program: the defaults
  below are what is left of a class when the environment is empty.
\<close>

section \<open>Positional formatting\<close>

text \<open>
  \<open>text.format(a, b, ...)\<close> with positional arguments only: an empty name takes the next argument, a
  number the argument at its place; the two must not be mixed in one text, and any other name is
  looked up in the keyword arguments, of which there are none.
\<close>

datatype numbering = Unused | Automatic nat | Manual

definition digits_nat :: "string \<Rightarrow> nat" where
  "digits_nat s = fold (\<lambda>c n. 10 * n + (of_char c - 48)) s 0"

definition take_position :: "string \<Rightarrow> numbering \<Rightarrow> exn + (nat \<times> numbering)" where
  "take_position name m =
     (if name = [] then
        (case m of
           Unused \<Rightarrow> Inr (0, Automatic 1)
         | Automatic n \<Rightarrow> Inr (n, Automatic (Suc n))
         | Manual \<Rightarrow> Inl (PyValueError
             ''cannot switch from manual field specification to automatic field numbering''))
      else if list_all is_digit name then
        (case m of
           Automatic _ \<Rightarrow> Inl (PyValueError
             ''cannot switch from automatic field numbering to manual field specification'')
         | _ \<Rightarrow> Inr (digits_nat name, Manual))
      else Inl (PyKeyError name))"

fun format_args_from ::
  "(jvalue \<Rightarrow> string \<Rightarrow> char option \<Rightarrow> string \<Rightarrow> exn + string) \<Rightarrow> jvalue list \<Rightarrow> numbering \<Rightarrow>
    (string \<times> field option) list \<Rightarrow> exn + string" where
  "format_args_from render args m [] = Inr []"
| "format_args_from render args m ((l, None) # ps) =
     map_sum id (\<lambda>rest. l @ rest) (format_args_from render args m ps)"
| "format_args_from render args m ((l, Some f) # ps) =
     (let name = first_name (fd_name f); path = drop (length name) (fd_name f)
      in case take_position name m of
           Inl e \<Rightarrow> Inl e
         | Inr (i, m') \<Rightarrow>
             if i \<ge> length args
             then Inl (PyIndexError (''Replacement index '' @ nat_str i @
               '' out of range for positional args tuple''))
             else (case (if path = [] \<and> fd_conv f = None \<and> fd_spec f = [] then Inr (py_str (args ! i))
                         else render (args ! i) path (fd_conv f) (fd_spec f)) of
                 Inl e \<Rightarrow> Inl e
               | Inr t \<Rightarrow> map_sum id (\<lambda>rest. l @ t @ rest) (format_args_from render args m' ps)))"

definition str_format ::
  "(jvalue \<Rightarrow> string \<Rightarrow> char option \<Rightarrow> string \<Rightarrow> exn + string) \<Rightarrow> string \<Rightarrow> jvalue list \<Rightarrow> exn + string" where
  "str_format render text args =
     (case parse_format text of
        Inl e \<Rightarrow> Inl e | Inr ps \<Rightarrow> format_args_from render args Unused ps)"

section \<open>Paths\<close>

text \<open>
  \<open>root_dir\<close>: three times the parent of the resolved file of the module.  \<open>os.path.join\<close> puts one
  separator between the parts, and an absolute part drops what comes before it.
\<close>

definition parent_dir :: "string \<Rightarrow> string" where
  "parent_dir p = (let d = py_join ''/'' (butlast (py_split ''/'' p)) in if d = [] then ''/'' else d)"

definition root_dir :: "string \<Rightarrow> string" where
  "root_dir file = parent_dir (parent_dir (parent_dir file))"

fun os_path_join :: "string \<Rightarrow> string list \<Rightarrow> string" where
  "os_path_join p [] = p"
| "os_path_join p (b # bs) =
     os_path_join
       (if prefix ''/'' b \<or> p = [] then b else if suffix ''/'' p then p @ b else p @ ''/'' @ b) bs"

definition settings_path :: "string \<Rightarrow> string list \<Rightarrow> string option \<Rightarrow> string" where
  "settings_path file paths base_path =
     os_path_join (case base_path of None \<Rightarrow> root_dir file | Some b \<Rightarrow> b) paths"

lemma os_path_join_absolute:
  "prefix ''/'' b \<Longrightarrow> os_path_join p (bs @ b # cs) = os_path_join b cs"
  by (induction bs arbitrary: p) simp_all

lemma settings_path_example:
  "settings_path ''/app/src/settings/core.py'' [''docs'', ''api.md''] None = ''/app/docs/api.md''"
  by code_simp

section \<open>The settings\<close>

record database_settings =
  ds_uri :: string
  ds_name :: string
  ds_host :: "string option"
  ds_port :: "int option"
  ds_user :: "string option"
  ds_password :: "string option"
  ds_connection_pool_size :: int
  ds_connection_max_overflow :: int
  ds_connection_pool_pre_ping :: bool

definition default_database_settings :: database_settings where
  "default_database_settings =
     \<lparr>ds_uri = [], ds_name = [], ds_host = None, ds_port = None, ds_user = None, ds_password = None,
      ds_connection_pool_size = 10, ds_connection_max_overflow = 90,
      ds_connection_pool_pre_ping = True\<rparr>"

definition opt_str :: "string option \<Rightarrow> jvalue" where
  "opt_str x = (case x of None \<Rightarrow> JNull | Some s \<Rightarrow> JStr s)"

definition opt_int :: "int option \<Rightarrow> jvalue" where
  "opt_int x = (case x of None \<Rightarrow> JNull | Some i \<Rightarrow> JInt i)"

definition database_url ::
  "(jvalue \<Rightarrow> string \<Rightarrow> char option \<Rightarrow> string \<Rightarrow> exn + string) \<Rightarrow> database_settings \<Rightarrow> exn + string" where
  "database_url render s =
     (if sublist ''sqlite'' (ds_uri s) then str_format render (ds_uri s) [JStr (ds_name s)]
      else str_format render (ds_uri s)
        [opt_str (ds_user s), opt_str (ds_password s), opt_str (ds_host s), opt_int (ds_port s),
         JStr (ds_name s)])"

record app_settings =
  as_root_path :: string
  as_title :: string
  as_debug :: bool
  as_version :: string
  as_production :: bool
  as_swagger :: bool
  as_log_level :: string

definition default_app_settings :: app_settings where
  "default_app_settings =
     \<lparr>as_root_path = ''/api'', as_title = ''Example'', as_debug = True, as_version = ''0.0.1'',
      as_production = True, as_swagger = True, as_log_level = ''DEBUG''\<rparr>"

record redis_settings =
  rs_host :: string
  rs_port :: int
  rs_password :: "string option"

definition default_redis_settings :: redis_settings where
  "default_redis_settings = \<lparr>rs_host = ''127.0.0.1'', rs_port = 6379, rs_password = None\<rparr>"

datatype server_type = Uvicorn | Granian

datatype workers = Workers int | AutoWorkers

record server_settings =
  ss_methods :: "string list"
  ss_headers :: "string list"
  ss_origins :: "string list"
  ss_type :: server_type
  ss_host :: string
  ss_port :: int
  ss_workers :: workers
  ss_threads :: int

definition METHODS :: "string list" where
  "METHODS =
     [''*'', ''GET'', ''POST'', ''DELETE'', ''PATCH'', ''PUT'', ''HEAD'', ''TRACE'', ''OPTIONS'']"

definition valid_server_settings :: "server_settings \<Rightarrow> bool" where
  "valid_server_settings s \<longleftrightarrow> set (ss_methods s) \<subseteq> set METHODS"

definition default_server_settings :: server_settings where
  "default_server_settings =
     \<lparr>ss_methods = [''*''], ss_headers = [''*''], ss_origins = [''*''], ss_type = Granian,
      ss_host = ''127.0.0.1'', ss_port = 8080, ss_workers = AutoWorkers, ss_threads = 1\<rparr>"

record nats_settings =
  ns_servers :: "string list"
  ns_user :: string
  ns_password :: string

definition default_nats_settings :: nats_settings where
  "default_nats_settings = \<lparr>ns_servers = [], ns_user = [], ns_password = []\<rparr>"

record settings =
  st_app :: app_settings
  st_db :: database_settings
  st_redis :: redis_settings
  st_server :: server_settings
  st_ciphers :: cipher_settings
  st_nats :: nats_settings

text \<open>A group that is not given is built from its class.\<close>

definition load_settings ::
  "database_settings option \<Rightarrow> redis_settings option \<Rightarrow> server_settings option \<Rightarrow>
    cipher_settings option \<Rightarrow> app_settings option \<Rightarrow> nats_settings option \<Rightarrow> settings" where
  "load_settings db redis_group server_group ciphers app_group nats =
     \<lparr>st_app = (case app_group of Some x \<Rightarrow> x | None \<Rightarrow> default_app_settings),
      st_db = (case db of Some x \<Rightarrow> x | None \<Rightarrow> default_database_settings),
      st_redis = (case redis_group of Some x \<Rightarrow> x | None \<Rightarrow> default_redis_settings),
      st_server = (case server_group of Some x \<Rightarrow> x | None \<Rightarrow> default_server_settings),
      st_ciphers = (case ciphers of Some x \<Rightarrow> x | None \<Rightarrow> default_cipher_settings),
      st_nats = (case nats of Some x \<Rightarrow> x | None \<Rightarrow> default_nats_settings)\<rparr>"

text \<open>A URI of the form of \<open>.env.example\<close>: texts, each with an empty field behind it.\<close>

lemma format_args_template:
  "length xs = length args \<Longrightarrow>
    format_args_from render (pre @ args) (if n = 0 then Unused else Automatic n)
      (map (\<lambda>l. (l, Some (plain_field []))) xs) = Inr (concat (map2 (\<lambda>l v. l @ py_str v) xs args))"
  if "n = length pre" for pre
  using that
proof (induction xs args arbitrary: pre n rule: list_induct2')
  case (4 l xs v args)
  have "format_args_from render ((pre @ [v]) @ args) (if Suc n = 0 then Unused else Automatic (Suc n))
      (map (\<lambda>l. (l, Some (plain_field []))) xs) = Inr (concat (map2 (\<lambda>l v. l @ py_str v) xs args))"
    using 4 by (intro "4.IH") auto
  then show ?case
    using 4(3) by (cases pre) (simp_all add: plain_field_def first_name_def take_position_def)
qed auto

lemma str_format_template:
  assumes "list_all no_braces xs" and "length xs = length args"
  shows "str_format render (template (map (\<lambda>l. (l, [])) xs) []) args =
    Inr (concat (map2 (\<lambda>l v. l @ py_str v) xs args))"
proof -
  have "simple_template (map (\<lambda>l. (l, [])) xs) []"
    using assms(1) by (auto simp: simple_template_def list_all_iff name_text_def no_braces_def)
  then show ?thesis
    using format_args_template [of 0 "[]" xs args render] assms(2)
    by (simp add: str_format_def parse_template comp_def)
qed

section \<open>Properties\<close>

definition postgres_uri :: string where
  "postgres_uri = ''postgresql+asyncpg://{}:{}'' @ ''@'' @ ''{}:{}/{}''"

lemma postgres_uri_eq:
  "postgres_uri = template (map (\<lambda>l. (l, [])) [''postgresql+asyncpg://'', '':'', ''@'', '':'', ''/'']) []"
  by (simp add: postgres_uri_def template_def)

text \<open>
  With the URI of the example configuration the URL holds the user, the password, the host, the
  port and the name at their places; a value that is not set is written as None; and nothing is
  quoted, so that an @ in the password moves the border to the host: two settings with different
  passwords and hosts have the same URL.
\<close>

theorem database_url_parts:
  assumes "ds_uri s = postgres_uri"
  shows "database_url render s = Inr (''postgresql+asyncpg://'' @ py_str (opt_str (ds_user s)) @ '':'' @
      py_str (opt_str (ds_password s)) @ ''@'' @ py_str (opt_str (ds_host s)) @ '':'' @
      py_str (opt_int (ds_port s)) @ ''/'' @ ds_name s) \<and>
    database_url render (s\<lparr>ds_password := Some (p @ ''@'' @ h), ds_host := Some h'\<rparr>) =
    database_url render (s\<lparr>ds_password := Some p, ds_host := Some (h @ ''@'' @ h')\<rparr>)"
proof -
  have parts: "database_url render t = Inr (''postgresql+asyncpg://'' @ py_str (opt_str (ds_user t)) @ '':'' @
      py_str (opt_str (ds_password t)) @ ''@'' @ py_str (opt_str (ds_host t)) @ '':'' @
      py_str (opt_int (ds_port t)) @ ''/'' @ ds_name t)" if "ds_uri t = postgres_uri" for t
  proof -
    have "\<not> sublist ''sqlite'' postgres_uri"
      by (simp add: postgres_uri_def sublist_code)
    then show ?thesis
      using that str_format_template [of "[''postgresql+asyncpg://'', '':'', ''@'', '':'', ''/'']"
        "[opt_str (ds_user t), opt_str (ds_password t), opt_str (ds_host t), opt_int (ds_port t),
          JStr (ds_name t)]" render]
      by (simp add: database_url_def postgres_uri_eq no_braces_def)
  qed
  show ?thesis
    using assms by (intro conjI) (simp_all add: parts opt_str_def)
qed

theorem database_url_parts_witness:
  "database_url (\<lambda>v _ _ _. Inr (py_str v)) (default_database_settings\<lparr>ds_uri := postgres_uri,
     ds_user := Some ''app'', ds_password := Some ''a@b'', ds_host := Some ''db'', ds_name := ''main''\<rparr>) =
   Inr ''postgresql+asyncpg://app:a@b@db:None/main''"
  using database_url_parts [of "default_database_settings\<lparr>ds_uri := postgres_uri,
     ds_user := Some ''app'', ds_password := Some ''a@b'', ds_host := Some ''db'', ds_name := ''main''\<rparr>"
     "\<lambda>v _ _ _. Inr (py_str v)" "[]" "[]" "[]"]
  by (simp add: default_database_settings_def opt_str_def opt_int_def)

end
