(* ===== verification/Startup.thy ===== *)
theory Startup
  imports Settings
begin

text \<open>
  How the processes are put together: what the clients are given of the settings, the HTTP server and
  the application (\<open>src/entrypoints\<close>), the container of \<open>src/common/di\<close>, the providers of the
  dependencies, the routes with their guards, and the set-up of the logs.  The libraries that are
  called with these values (redis, nats, SQLAlchemy, Granian, FastAPI, dishka, logging) are not part
  of the program; what the model has of them is the arguments of the call.
\<close>

section \<open>Clients\<close>

record redis_options =
  ro_host :: string
  ro_port :: int
  ro_password :: "string option"
  ro_decode_responses :: bool

definition get_redis :: "redis_settings \<Rightarrow> redis_options" where
  "get_redis s =
     \<lparr>ro_host = rs_host s, ro_port = rs_port s, ro_password = rs_password s, ro_decode_responses = True\<rparr>"

text \<open>\<open>value or None\<close> for a text.\<close>

definition non_empty :: "string \<Rightarrow> string option" where
  "non_empty s = (if s = [] then None else Some s)"

record nats_options =
  no_servers :: "string list"
  no_user :: "string option"
  no_password :: "string option"

definition create_nats_connection :: "settings \<Rightarrow> nats_options" where
  "create_nats_connection s =
     \<lparr>no_servers = ns_servers (st_nats s), no_user = non_empty (ns_user (st_nats s)),
      no_password = non_empty (ns_password (st_nats s))\<rparr>"

record taskiq_options =
  to_servers :: "string list"
  to_queue :: string
  to_subject :: string
  to_user :: "string option"
  to_password :: "string option"

definition create_taskiq_broker :: "settings \<Rightarrow> taskiq_options" where
  "create_taskiq_broker s =
     \<lparr>to_servers = ns_servers (st_nats s), to_queue = ''taskiq.template'', to_subject = ''taskiq.template'',
      to_user = non_empty (ns_user (st_nats s)), to_password = non_empty (ns_password (st_nats s))\<rparr>"

text \<open>The consumers authenticate when both the user and the password are there.\<close>

definition consumer_security :: "settings \<Rightarrow> (string \<times> string) option" where
  "consumer_security s =
     (if ns_user (st_nats s) \<noteq> [] \<and> ns_password (st_nats s) \<noteq> []
      then Some (ns_user (st_nats s), ns_password (st_nats s)) else None)"

record engine_options =
  eo_url :: string
  eo_pool_size :: int
  eo_max_overflow :: int
  eo_pool_pre_ping :: bool

definition create_sa_engine ::
  "(jvalue \<Rightarrow> string \<Rightarrow> char option \<Rightarrow> string \<Rightarrow> exn + string) \<Rightarrow> settings \<Rightarrow> exn + engine_options" where
  "create_sa_engine render s =
     map_sum id (\<lambda>url.
       \<lparr>eo_url = url, eo_pool_size = ds_connection_pool_size (st_db s),
        eo_max_overflow = ds_connection_max_overflow (st_db s),
        eo_pool_pre_ping = ds_connection_pool_pre_ping (st_db s)\<rparr>) (database_url render (st_db s))"

text \<open>The sessions of the factory neither flush before a query nor forget their rows at a commit.\<close>

record session_options =
  so_engine :: engine_options
  so_autoflush :: bool
  so_expire_on_commit :: bool

definition create_sa_session_factory :: "engine_options \<Rightarrow> session_options" where
  "create_sa_session_factory engine =
     \<lparr>so_engine = engine, so_autoflush = False, so_expire_on_commit = False\<rparr>"

section \<open>The HTTP server (entrypoints/http.py, entrypoints/server)\<close>

definition workers_count :: "int \<Rightarrow> int" where
  "workers_count cpu_count = cpu_count - 1"

record granian =
  gr_target :: string
  gr_address :: string
  gr_port :: int
  gr_workers :: int
  gr_runtime_threads :: int
  gr_log_access :: bool
  gr_factory :: bool

definition run_api_granian :: "int \<Rightarrow> string \<Rightarrow> server_settings \<Rightarrow> granian" where
  "run_api_granian cpu_count target s =
     \<lparr>gr_target = target, gr_address = ss_host s, gr_port = ss_port s,
      gr_workers = (case ss_workers s of Workers n \<Rightarrow> n | AutoWorkers \<Rightarrow> workers_count cpu_count),
      gr_runtime_threads = ss_threads s, gr_log_access = False, gr_factory = True\<rparr>"

fun server_type_str :: "server_type \<Rightarrow> string" where
  "server_type_str Uvicorn = ''uvicorn''"
| "server_type_str Granian = ''granian''"

definition run :: "int \<Rightarrow> settings \<Rightarrow> exn + granian" where
  "run cpu_count s =
     (case ss_type (st_server s) of
        Granian \<Rightarrow> Inr (run_api_granian cpu_count ''src.entrypoints.http:create_app_factory'' (st_server s))
      | _ \<Rightarrow> Inl (PyValueError (''Unsupported server type: '' @ [CHR 0x27] @
          server_type_str (ss_type (st_server s)) @ [CHR 0x27] @ ''. '' @
          ''Currently only '' @ [CHR 0x27] @ ''granian'' @ [CHR 0x27] @ '' server type is supported.'')))"

text \<open>
  The application: its constructor arguments, its exception handlers and its middlewares, outermost
  first (\<open>add_middleware\<close> puts the new one outside), with the CORS arguments.
\<close>

record fastapi_app =
  fa_title :: string
  fa_version :: string
  fa_docs_url :: "string option"
  fa_redoc_url :: "string option"
  fa_swagger_ui_oauth2_redirect_url :: "string option"
  fa_root_path :: string
  fa_exception_handlers :: "string list"
  fa_middlewares :: "string list"
  fa_cors :: "string list \<times> string list \<times> string list"

definition add_middleware :: "string \<Rightarrow> fastapi_app \<Rightarrow> fastapi_app" where
  "add_middleware m a = a\<lparr>fa_middlewares := m # fa_middlewares a\<rparr>"

definition setup_exception_handlers :: "fastapi_app \<Rightarrow> fastapi_app" where
  "setup_exception_handlers a =
     a\<lparr>fa_exception_handlers := fa_exception_handlers a @
        [''AppException'', ''RequestValidationError'', ''Exception'']\<rparr>"

definition setup_global_middlewares :: "server_settings \<Rightarrow> fastapi_app \<Rightarrow> fastapi_app" where
  "setup_global_middlewares s a =
     (add_middleware ''CORSMiddleware'' (add_middleware ''RequestIDMiddleware''
       (add_middleware ''AccessLogMiddleware'' a)))
       \<lparr>fa_cors := (ss_origins s, ss_methods s, ss_headers s)\<rparr>"

definition create_app ::
  "settings \<Rightarrow> string \<Rightarrow> string \<Rightarrow> string option \<Rightarrow> string option \<Rightarrow> string option \<Rightarrow> string \<Rightarrow> fastapi_app" where
  "create_app s title version docs_url redoc_url redirect_url root_path =
     setup_global_middlewares (st_server s) (setup_exception_handlers
       \<lparr>fa_title = title, fa_version = version, fa_docs_url = docs_url, fa_redoc_url = redoc_url,
        fa_swagger_ui_oauth2_redirect_url = redirect_url, fa_root_path = root_path,
        fa_exception_handlers = [], fa_middlewares = [], fa_cors = ([], [], [])\<rparr>)"

text \<open>\<open>create_app_factory\<close> calls it with the settings only; the other arguments have their defaults.\<close>

definition create_app_factory :: "settings \<Rightarrow> fastapi_app" where
  "create_app_factory s =
     create_app s ''FastAPI'' ''0.1.0'' (Some ''/docs'') (Some ''/redoc'') (Some ''/docs/oauth2-redirect'') []"

section \<open>Routes (presentation/http/v1/endpoints)\<close>

text \<open>
  A guard is the list of roles of an \<open>Authorization\<close>; the empty list asks for a valid token only.
  A router puts its prefix and its guards in front of those of its routes, and including a router
  adds its routes in order.
\<close>

record route =
  rt_method :: string
  rt_path :: string
  rt_guards :: "string list list"
  rt_endpoint :: string

record api_router =
  ar_prefix :: string
  ar_dependencies :: "string list list"
  ar_routes :: "route list"

definition api_router :: "string \<Rightarrow> string list list \<Rightarrow> api_router" where
  "api_router pre deps = \<lparr>ar_prefix = pre, ar_dependencies = deps, ar_routes = []\<rparr>"

definition add_api_route :: "string \<Rightarrow> string \<Rightarrow> string list list \<Rightarrow> string \<Rightarrow> api_router \<Rightarrow> api_router" where
  "add_api_route verb path guards endpoint r =
     r\<lparr>ar_routes := ar_routes r @ [\<lparr>rt_method = verb, rt_path = ar_prefix r @ path,
        rt_guards = ar_dependencies r @ guards, rt_endpoint = endpoint\<rparr>]\<rparr>"

definition include_router :: "api_router \<Rightarrow> api_router \<Rightarrow> api_router" where
  "include_router child parent =
     fold (\<lambda>x. add_api_route (rt_method x) (rt_path x) (rt_guards x) (rt_endpoint x))
       (ar_routes child) parent"

definition healthcheck_router :: api_router where
  "healthcheck_router =
     add_api_route ''GET'' [] [] ''healthcheck_endpoint'' (api_router ''/healthcheck'' [])"

definition public_auth_router :: api_router where
  "public_auth_router =
     add_api_route ''POST'' ''/refresh'' [] ''refresh_endpoint''
     (add_api_route ''POST'' ''/login'' [] ''login_endpoint''
     (add_api_route ''POST'' ''/register/confirm'' [] ''confirm_register_endpoint''
     (add_api_route ''POST'' ''/register'' [] ''register_endpoint'' (api_router ''/auth'' []))))"

definition setup_public_router :: api_router where
  "setup_public_router =
     include_router public_auth_router (include_router healthcheck_router (api_router [] []))"

definition user_auth_router :: api_router where
  "user_auth_router = add_api_route ''POST'' ''/logout'' [[]] ''logout_endpoint'' (api_router ''/auth'' [])"

definition user_me_router :: api_router where
  "user_me_router =
     add_api_route ''PATCH'' [] [[]] ''update_self_endpoint''
     (add_api_route ''GET'' [] [[]] ''get_me_endpoint'' (api_router ''/users/me'' []))"

definition setup_user_router :: api_router where
  "setup_user_router =
     include_router user_auth_router (include_router user_me_router (api_router [] [[]]))"

definition admin_user_router :: api_router where
  "admin_user_router =
     add_api_route ''PATCH'' ''/{user_uuid}'' [] ''update_user_endpoint''
     (add_api_route ''GET'' ''/{user_uuid}'' [] ''select_user_endpoint''
     (add_api_route ''GET'' [] [] ''select_users_endpoint'' (api_router ''/users'' [])))"

definition setup_admin_router :: api_router where
  "setup_admin_router = include_router admin_user_router (api_router ''/admin'' [[''Admin'']])"

definition setup_internal_router :: api_router where
  "setup_internal_router = api_router ''/internal'' []"

definition setup_v1_routers :: api_router where
  "setup_v1_routers =
     include_router setup_internal_router (include_router setup_admin_router
       (include_router setup_user_router (include_router setup_public_router (api_router ''/v1'' []))))"

section \<open>The container (common/di)\<close>

text \<open>
  \<open>DynamicContainer\<close>: the container is the list of the providers of each \<open>add_providers\<close>, the newest
  first, the others being its parents.  What \<open>inject\<close> wraps asks for the container at each call.
\<close>

record 'p dynamic_container =
  dc_container :: "'p list list option"
  dc_sync_container :: "'p list list option"

definition new_dynamic_container :: "'p dynamic_container" where
  "new_dynamic_container = \<lparr>dc_container = None, dc_sync_container = None\<rparr>"

definition with_parent :: "'p list \<Rightarrow> 'p list list option \<Rightarrow> 'p list list option" where
  "with_parent ps parent = Some (ps # (case parent of None \<Rightarrow> [] | Some c \<Rightarrow> c))"

definition add_providers :: "'p list \<Rightarrow> 'p dynamic_container \<Rightarrow> 'p dynamic_container" where
  "add_providers ps d =
     \<lparr>dc_container = with_parent ps (dc_container d),
      dc_sync_container = with_parent ps (dc_sync_container d)\<rparr>"

definition get_container :: "'p dynamic_container \<Rightarrow> exn + 'p list list" where
  "get_container d =
     (case dc_container d of None \<Rightarrow> Inl (PyRuntimeError ''Container is not initialized'') | Some c \<Rightarrow> Inr c)"

definition get_sync_container :: "'p dynamic_container \<Rightarrow> exn + 'p list list" where
  "get_sync_container d =
     (case dc_sync_container d of
        None \<Rightarrow> Inl (PyRuntimeError ''Container is not initialized'') | Some c \<Rightarrow> Inr c)"

definition inject ::
  "bool \<Rightarrow> 'p dynamic_container \<Rightarrow> ('p list list \<Rightarrow> ('s, 'a) io) \<Rightarrow> ('s, 'a) io" where
  "inject is_async d func =
     io_bind (io_lift (if is_async then get_container d else get_sync_container d)) func"

section \<open>The providers\<close>

text \<open>
  The factories of \<open>build_container\<close>: the type each one provides, the types of its parameters, and
  its scope.  The two aliases \<open>DatabaseFactory\<close> stand for the type they abbreviate.
\<close>

datatype scope = APP | REQUEST

record factory =
  fc_provides :: string
  fc_requires :: "string list"
  fc_scope :: scope

definition factory :: "scope \<Rightarrow> string \<Rightarrow> string list \<Rightarrow> factory" where
  "factory s t ts = \<lparr>fc_provides = t, fc_requires = ts, fc_scope = s\<rparr>"

definition settings_provider :: "factory list" where
  "settings_provider = [factory APP ''Settings'' []]"

definition infrastructure_provider :: "factory list" where
  "infrastructure_provider =
     [factory APP ''StrCache'' [''Settings''], factory APP ''AiohttpProvider'' [],
      factory APP ''JWT'' [''Settings''], factory APP ''Hasher'' []]"

definition database_provider :: "factory list" where
  "database_provider =
     [factory APP ''AsyncEngine'' [''Settings''], factory APP ''SessionFactoryType'' [''AsyncEngine''],
      factory APP ''Callable[[], DBGateway]'' [''SessionFactoryType''],
      factory REQUEST ''DBGateway'' [''Callable[[], DBGateway]'']]"

definition broker_provider :: "factory list" where
  "broker_provider =
     [factory APP ''NatsBroker'' [''Settings''], factory APP ''NatsJetStreamBroker'' [''NatsBroker''],
      factory APP ''EventBus'' [''NatsBroker'', ''NatsJetStreamBroker'']]"

definition application_provider :: "factory list" where
  "application_provider =
     [factory APP ''AuthService'' [''JWT'', ''StrCache''], factory APP ''ServiceGateway'' [''AuthService''],
      factory APP ''RequestBus'' [''Hasher'', ''StrCache'', ''ServiceGateway'', ''Callable[[], DBGateway]'',
        ''EventBus'']]"

definition build_container :: "factory list \<Rightarrow> factory list" where
  "build_container extra =
     settings_provider @ infrastructure_provider @ database_provider @ broker_provider @
     application_provider @ extra"

text \<open>A type is resolved within a scope when some factory of the scope provides it from resolved ones.\<close>

fun resolvable :: "factory list \<Rightarrow> scope \<Rightarrow> nat \<Rightarrow> string \<Rightarrow> bool" where
  "resolvable fs s 0 t = False"
| "resolvable fs s (Suc n) t =
     list_ex (\<lambda>f. fc_provides f = t \<and> (s = REQUEST \<or> fc_scope f = APP) \<and>
       list_all (resolvable fs (fc_scope f) n) (fc_requires f)) fs"

section \<open>Logs (infrastructure/logging/setup.py)\<close>

text \<open>
  The loggers by name (the root has the empty one), the level of the filter of structlog, the
  processors of the chain and whether warnings are captured.  A handler is known by the processors of
  its formatter.
\<close>

record logger_state =
  lg_level :: int
  lg_handlers :: "string list list"
  lg_propagate :: bool

record logging =
  lo_loggers :: "string \<Rightarrow> logger_state"
  lo_processors :: "string list"
  lo_filter_level :: int
  lo_capture_warnings :: bool

definition level_names :: "(string \<times> int) list" where
  "level_names =
     [(''CRITICAL'', 50), (''FATAL'', 50), (''ERROR'', 40), (''WARN'', 30), (''WARNING'', 30),
      (''INFO'', 20), (''DEBUG'', 10), (''NOTSET'', 0)]"

definition shared_processors :: "string list" where
  "shared_processors =
     [''merge_contextvars'', ''add_log_level'', ''add_logger_name'', ''_drop_color_message_key'',
      ''TimeStamper'', ''StackInfoRenderer'']"

definition final_processors :: "bool \<Rightarrow> string list" where
  "final_processors production =
     ''remove_processors_meta'' #
     (if production then [''ExceptionRenderer'', ''JSONRenderer''] else [''ConsoleRenderer''])"

definition drop_color_message_key :: "pydict \<Rightarrow> pydict" where
  "drop_color_message_key event_dict = AList.delete ''color_message'' event_dict"

definition noisy_loggers :: "(string \<times> int) list" where
  "noisy_loggers =
     [(''uvicorn'', 20), (''uvicorn.error'', 20), (''uvicorn.access'', 30), (''granian'', 20),
      (''granian.access'', 30), (''sqlalchemy.engine'', 30), (''aiosqlite'', 30), (''asyncio'', 30),
      (''httpx'', 30), (''aiohttp.access'', 30)]"

definition tame_noisy_loggers :: "(string \<Rightarrow> logger_state) \<Rightarrow> string \<Rightarrow> logger_state" where
  "tame_noisy_loggers =
     fold (\<lambda>(name, level) ls. ls(name := \<lparr>lg_level = level, lg_handlers = [], lg_propagate = True\<rparr>))
       noisy_loggers"

definition py_upper :: "string \<Rightarrow> string" where
  "py_upper s = map (\<lambda>c. if CHR ''a'' \<le> c \<and> c \<le> CHR ''z'' then char_of (of_char c - 32 :: nat) else c) s"

definition setup_logging :: "settings \<Rightarrow> (logging, unit) io" where
  "setup_logging s g =
     (let name = py_upper (as_log_level (st_app s))
      in case map_of level_names name of
           None \<Rightarrow> (Inl (PyKeyError name), g)
         | Some level \<Rightarrow>
             let root = (lo_loggers g [])\<lparr>lg_level := level,
                   lg_handlers := [final_processors (as_production (st_app s))]\<rparr>
             in (Inr (), \<lparr>lo_loggers = tame_noisy_loggers ((lo_loggers g)([] := root)),
                   lo_processors = shared_processors @ [''wrap_for_formatter''],
                   lo_filter_level = level, lo_capture_warnings = True\<rparr>))"

section \<open>Properties\<close>

text \<open>
  The guards.  No two routes have the same method and path; every route under /v1/admin asks
  for the role Admin; and the routes without a guard are exactly the health check, the registration
  and its confirmation, the login and the refresh.
\<close>

theorem routes_are_guarded:
  "let routes = ar_routes setup_v1_routers
   in distinct (map (\<lambda>r. (rt_method r, rt_path r)) routes) \<and>
     list_all (\<lambda>r. prefix ''/v1/admin'' (rt_path r) = ([''Admin''] \<in> set (rt_guards r))) routes \<and>
     map rt_endpoint (filter (\<lambda>r. rt_guards r = []) routes) =
       [''healthcheck_endpoint'', ''register_endpoint'', ''confirm_register_endpoint'',
        ''login_endpoint'', ''refresh_endpoint'']"
  by code_simp

text \<open>
  The providers.  Every type has one factory; every type the program asks for is resolved, the
  gateway of a request within a request only; and nothing that lives as long as the process needs
  something that lives as long as a request.
\<close>

theorem container_is_complete:
  "let fs = build_container []
   in distinct (map fc_provides fs) \<and>
     list_all (\<lambda>f. resolvable fs (fc_scope f) (length fs) (fc_provides f)) fs \<and>
     list_all (resolvable fs APP 6) [''Settings'', ''StrCache'', ''RequestBus'', ''EventBus''] \<and>
     resolvable fs REQUEST 6 ''DBGateway'' \<and> \<not> resolvable fs APP (length fs) ''DBGateway''"
  by code_simp

text \<open>
  Before any provider is added, everything \<open>inject\<close> wraps raises instead of running; afterwards
  it runs on a container with the newest providers in front of all the earlier ones.
\<close>

theorem inject_needs_providers:
  "inject is_async new_dynamic_container func s =
      (Inl (PyRuntimeError ''Container is not initialized''), s) \<and>
   inject is_async (fold add_providers (pss @ [ps]) new_dynamic_container) func s =
      func (ps # rev pss) s"
proof -
  have chain: "dc_container (fold add_providers qss d) =
      (case dc_container d of None \<Rightarrow> if qss = [] then None else Some (rev qss) | Some c \<Rightarrow> Some (rev qss @ c))"
    "dc_sync_container (fold add_providers qss d) =
      (case dc_sync_container d of None \<Rightarrow> if qss = [] then None else Some (rev qss) | Some c \<Rightarrow> Some (rev qss @ c))"
    for qss d
    by (induction qss arbitrary: d) (auto simp: add_providers_def with_parent_def split: option.splits)
  show ?thesis
    by (simp add: inject_def get_container_def get_sync_container_def new_dynamic_container_def
        io_bind_def io_apply chain [of "pss @ [ps]", simplified])
qed

text \<open>
  The server settings.  The type uvicorn is valid, but \<open>run\<close> refuses it; the automatic number of
  workers is one less than the processors, so a machine with one processor gets none; and what the
  settings say of the application itself (title, version, root path, whether there is documentation)
  has no effect on the application.
\<close>

theorem server_settings_effects:
  assumes "ss_workers (st_server s) = AutoWorkers"
  shows "(\<exists>m. run cpus (s\<lparr>st_server := (st_server s)\<lparr>ss_type := Uvicorn\<rparr>\<rparr>) = Inl (PyValueError m)) \<and>
    (\<exists>g. run cpus (s\<lparr>st_server := (st_server s)\<lparr>ss_type := Granian\<rparr>\<rparr>) = Inr g \<and>
      gr_workers g = cpus - 1 \<and> (cpus = 1 \<longrightarrow> gr_workers g = 0)) \<and>
    create_app_factory (s\<lparr>st_app := a\<rparr>) = create_app_factory s \<and>
    fa_docs_url (create_app_factory s) = Some ''/docs''"
  using assms
  by (auto simp: run_def run_api_granian_def workers_count_def create_app_factory_def create_app_def
      setup_global_middlewares_def setup_exception_handlers_def add_middleware_def)

theorem server_settings_effects_witness:
  "\<exists>g. run 1 (load_settings None None None None None None) = Inr g \<and> gr_workers g = 0"
  using server_settings_effects [of "load_settings None None None None None None" 1]
  by (auto simp: load_settings_def default_server_settings_def)

lemma tame_lookup:
  "tame_noisy_loggers ls name =
     (case map_of noisy_loggers name of
        Some level \<Rightarrow> \<lparr>lg_level = level, lg_handlers = [], lg_propagate = True\<rparr> | None \<Rightarrow> ls name)"
  by (simp add: tame_noisy_loggers_def noisy_loggers_def)

lemma noisy_root [simp]: "map_of noisy_loggers [] = None"
  by (simp add: noisy_loggers_def)

text \<open>
  Setting up the logs twice is the same as once, so that the entry points and the factory of the
  workers may both do it: the root logger has one handler, not two, and the loggers of the libraries
  have none and pass their records on.  An unknown level is an error and changes nothing.
\<close>

theorem setup_logging_idempotent:
  "setup_logging s (snd (setup_logging s g)) = setup_logging s g \<and>
   (fst (setup_logging s g) = Inr () \<longrightarrow>
     lg_handlers (lo_loggers (snd (setup_logging s g)) []) = [final_processors (as_production (st_app s))] \<and>
     (\<forall>name \<in> fst ` set noisy_loggers. lg_handlers (lo_loggers (snd (setup_logging s g)) name) = [] \<and>
       lg_propagate (lo_loggers (snd (setup_logging s g)) name))) \<and>
   (fst (setup_logging s g) \<noteq> Inr () \<longrightarrow> snd (setup_logging s g) = g)"
proof (cases "map_of level_names (py_upper (as_log_level (st_app s)))")
  case None
  then show ?thesis by (simp add: setup_logging_def)
next
  case (Some level)
  then show ?thesis
    using noisy_root
    by (auto simp: setup_logging_def fun_eq_iff tame_lookup split: option.splits dest!: weak_map_of_SomeI)
qed

theorem setup_logging_idempotent_witness:
  "lg_handlers (lo_loggers (snd (setup_logging (load_settings None None None None None None)
     \<lparr>lo_loggers = (\<lambda>_. \<lparr>lg_level = 0, lg_handlers = [], lg_propagate = True\<rparr>), lo_processors = [],
      lo_filter_level = 0, lo_capture_warnings = False\<rparr>)) ''uvicorn'') = []"
proof -
  let ?g = "\<lparr>lo_loggers = (\<lambda>_. \<lparr>lg_level = 0, lg_handlers = [], lg_propagate = True\<rparr>), lo_processors = [],
      lo_filter_level = 0, lo_capture_warnings = False\<rparr>"
  let ?s = "load_settings None None None None None None"
  have "fst (setup_logging ?s ?g) = Inr ()" by code_simp
  moreover have "''uvicorn'' \<in> fst ` set noisy_loggers" by (simp add: noisy_loggers_def)
  ultimately show ?thesis
    using setup_logging_idempotent [of ?s ?g] by blast
qed

end
