(* ===== verification/Dispatch.thy ===== *)
theory Dispatch
  imports Presentation_Properties Startup
begin

text \<open>
  From a request to its endpoint: the route that matches, the reading of the input into the
  contracts, the guards, the call, and the whole application inside its middlewares.  What FastAPI
  does between them is written at the definitions: the body is read before anything else, then the
  guards run, then the errors of the input count.
\<close>

section \<open>Matching\<close>

text \<open>
  The segments of a path template; a segment in braces takes any segment that is not empty.  (The
  templates of the program have whole segments as parameters.)
\<close>

definition is_path_parameter :: "string \<Rightarrow> bool" where
  "is_path_parameter t \<longleftrightarrow> 2 \<le> length t \<and> hd t = CHR ''{'' \<and> last t = CHR ''}''"

fun match_segments :: "string list \<Rightarrow> string list \<Rightarrow> (string \<times> string) list option" where
  "match_segments [] [] = Some []"
| "match_segments (t # ts) (s # ss) =
     (if is_path_parameter t
      then if s = [] then None else map_option ((#) (butlast (tl t), s)) (match_segments ts ss)
      else if t = s then match_segments ts ss else None)"
| "match_segments _ _ = None"

definition match_path :: "string \<Rightarrow> string \<Rightarrow> (string \<times> string) list option" where
  "match_path tmpl path = match_segments (py_split ''/'' tmpl) (py_split ''/'' path)"

text \<open>The first route with the path and the method, and what its parameters are.\<close>

fun find_route :: "route list \<Rightarrow> http_request \<Rightarrow> (route \<times> (string \<times> string) list) option" where
  "find_route [] r = None"
| "find_route (rt # rts) r =
     (case match_path (rt_path rt) (hr_path r) of
        Some params \<Rightarrow> if rt_method rt = hr_method r then Some (rt, params) else find_route rts r
      | None \<Rightarrow> find_route rts r)"

lemma find_route_sound:
  "find_route rts r = Some (rt, params) \<Longrightarrow>
    rt \<in> set rts \<and> match_path (rt_path rt) (hr_path r) = Some params \<and> rt_method rt = hr_method r"
  by (induction rts) (auto split: option.splits if_splits)

section \<open>Reading input\<close>

text \<open>
  What is the libraries' own: reading the body as JSON (the errors of a malformed one, nothing for an
  empty one), the conversion of a value to the type of a field, the error for a location, the
  answer when no route matches, and the CORS middleware.
\<close>

record framework =
  fw_body :: "http_request \<Rightarrow> pyval list + pyval option"
  fw_str :: "pyval \<Rightarrow> string option"
  fw_bool :: "pyval \<Rightarrow> bool option"
  fw_int :: "pyval \<Rightarrow> int option"
  fw_uuid :: "pyval \<Rightarrow> uuid option"
  fw_error :: "string list \<Rightarrow> pyval"
  fw_unmatched :: "http_request \<Rightarrow> http_response"
  fw_cors :: cors

text \<open>A result of reading: the value, or all errors in the order of the fields.\<close>

type_synonym 'a parsed = "pyval list + 'a"

fun parsed_pair :: "'a parsed \<Rightarrow> 'b parsed \<Rightarrow> ('a \<times> 'b) parsed" where
  "parsed_pair (Inr x) (Inr y) = Inr (x, y)"
| "parsed_pair (Inl es) (Inr y) = Inl es"
| "parsed_pair (Inr x) (Inl fs) = Inl fs"
| "parsed_pair (Inl es) (Inl fs) = Inl (es @ fs)"

definition parsed_map :: "('a \<Rightarrow> 'b) \<Rightarrow> 'a parsed \<Rightarrow> 'b parsed" where
  "parsed_map f = map_sum id f"

lemma parsed_pair_Inr: "parsed_pair a b = Inr z \<longleftrightarrow> a = Inr (fst z) \<and> b = Inr (snd z)"
  by (cases z; cases a; cases b) auto

lemma parsed_map_Inr: "parsed_map f p = Inr y \<longleftrightarrow> (\<exists>x. p = Inr x \<and> y = f x)"
  by (cases p) (auto simp: parsed_map_def)

definition read_value :: "framework \<Rightarrow> (pyval \<Rightarrow> 'a option) \<Rightarrow> string list \<Rightarrow> pyval \<Rightarrow> 'a parsed" where
  "read_value F conv loc v = (case conv v of Some x \<Rightarrow> Inr x | None \<Rightarrow> Inl [fw_error F loc])"

definition limited :: "(pyval \<Rightarrow> 'a option) \<Rightarrow> ('a \<Rightarrow> bool) \<Rightarrow> pyval \<Rightarrow> 'a option" where
  "limited conv ok v = (case conv v of Some x \<Rightarrow> if ok x then Some x else None | None \<Rightarrow> None)"

text \<open>A required field of a body, and one that may be missing or null.\<close>

definition required_field ::
  "framework \<Rightarrow> (pyval \<Rightarrow> 'a option) \<Rightarrow> pydict \<Rightarrow> string \<Rightarrow> 'a parsed" where
  "required_field F conv d name =
     (case dict_get d name of
        None \<Rightarrow> Inl [fw_error F [''body'', name]]
      | Some v \<Rightarrow> read_value F conv [''body'', name] v)"

definition nullable_field ::
  "framework \<Rightarrow> (pyval \<Rightarrow> 'a option) \<Rightarrow> pydict \<Rightarrow> string \<Rightarrow> 'a option option parsed" where
  "nullable_field F conv d name =
     (case dict_get d name of
        None \<Rightarrow> Inr None
      | Some PNone \<Rightarrow> Inr (Some None)
      | Some v \<Rightarrow> parsed_map (\<lambda>x. Some (Some x)) (read_value F conv [''body'', name] v))"

definition body_object :: "framework \<Rightarrow> pyval option \<Rightarrow> (pydict \<Rightarrow> 'a parsed) \<Rightarrow> 'a parsed" where
  "body_object F b k = (case b of Some (PDict d) \<Rightarrow> k d | _ \<Rightarrow> Inl [fw_error F [''body'']])"

lemma read_value_Inr: "read_value F conv loc v = Inr x \<longleftrightarrow> conv v = Some x"
  by (auto simp: read_value_def split: option.split)

lemma limited_Some: "limited conv ok v = Some x \<longleftrightarrow> conv v = Some x \<and> ok x"
  by (auto simp: limited_def split: option.split)

lemma required_limited:
  "required_field F (limited conv ok) d name = Inr x \<Longrightarrow> ok x"
  by (auto simp: required_field_def read_value_Inr limited_Some split: option.splits)

lemma nullable_limited:
  "nullable_field F (limited conv ok) d name = Inr (Some (Some x)) \<Longrightarrow> ok x"
  by (auto simp: nullable_field_def parsed_map_Inr read_value_Inr limited_Some
      split: option.splits pyval.splits)

text \<open>The contracts of the bodies (v1/contracts), the fields of a base class first.\<close>

definition fingerprint_contract_of :: "framework \<Rightarrow> pyval option \<Rightarrow> string parsed" where
  "fingerprint_contract_of F b = body_object F b (\<lambda>d. required_field F (fw_str F) d ''fingerprint'')"

definition login_contract_of :: "framework \<Rightarrow> pyval option \<Rightarrow> login_contract parsed" where
  "login_contract_of F b =
     body_object F b (\<lambda>d.
       parsed_map (\<lambda>(fp, l, p). \<lparr>lc_fingerprint = fp, lc_login = l, lc_password = p\<rparr>)
         (parsed_pair (required_field F (fw_str F) d ''fingerprint'')
           (parsed_pair (required_field F (limited (fw_str F) valid_login) d ''login'')
             (required_field F (limited (fw_str F) valid_password) d ''password''))))"

definition verification_code_of :: "framework \<Rightarrow> pyval option \<Rightarrow> string parsed" where
  "verification_code_of F b = body_object F b (\<lambda>d. required_field F (fw_str F) d ''code'')"

definition update_self_of :: "framework \<Rightarrow> pyval option \<Rightarrow> string option option parsed" where
  "update_self_of F b =
     body_object F b (\<lambda>d. nullable_field F (limited (fw_str F) valid_password) d ''password'')"

definition admin_update_of :: "framework \<Rightarrow> pyval option \<Rightarrow> update_contract parsed" where
  "admin_update_of F b =
     body_object F b (\<lambda>d.
       parsed_map (\<lambda>(p, u, a). \<lparr>uc_password = p, uc_role_uuid = u, uc_active = a\<rparr>)
         (parsed_pair (nullable_field F (limited (fw_str F) valid_password) d ''password'')
           (parsed_pair (nullable_field F (fw_uuid F) d ''role_uuid'')
             (nullable_field F (fw_bool F) d ''active''))))"

text \<open>
  A query parameter with a default: of several values with the name the last counts; a list takes
  all of them.
\<close>

definition query_field ::
  "framework \<Rightarrow> (pyval \<Rightarrow> 'a option) \<Rightarrow> http_request \<Rightarrow> string \<Rightarrow> 'a \<Rightarrow> 'a parsed" where
  "query_field F conv r name dflt =
     (case map_of (rev (hr_query r)) name of
        None \<Rightarrow> Inr dflt
      | Some v \<Rightarrow> read_value F conv [''query'', name] (PStr v))"

definition order_by_of :: "pyval \<Rightarrow> order_by option" where
  "order_by_of v = (if v = PStr ''asc'' then Some Asc else if v = PStr ''desc'' then Some Desc else None)"

definition select_users_of :: "framework \<Rightarrow> http_request \<Rightarrow> (string option \<times> uuid option) parsed" where
  "select_users_of F r =
     parsed_pair (query_field F (\<lambda>v. map_option Some (fw_str F v)) r ''login'' None)
       (query_field F (\<lambda>v. map_option Some (fw_uuid F v)) r ''role_uuid'' None)"

definition pagination_of :: "framework \<Rightarrow> http_request \<Rightarrow> pagination_contract parsed" where
  "pagination_of F r =
     parsed_map (\<lambda>(o', i, l). \<lparr>pc_order_by = o', pc_offset = i, pc_limit = l\<rparr>)
       (parsed_pair (query_field F order_by_of r ''order_by'' Desc)
         (parsed_pair (query_field F (limited (fw_int F) (\<lambda>i. 0 \<le> i)) r ''offset'' 0)
           (query_field F (limited (fw_int F) (\<lambda>l. MIN_PAGINATION_LIMIT \<le> l \<and> l \<le> MAX_PAGINATION_LIMIT))
             r ''limit'' MIN_PAGINATION_LIMIT)))"

text \<open>\<open>loads: tuple[UserLoads, ...]\<close>, where the only value of \<open>UserLoads\<close> is \<open>role\<close>.\<close>

definition loads_of :: "framework \<Rightarrow> http_request \<Rightarrow> string list parsed" where
  "loads_of F r =
     (let vs = query_getlist r ''loads'';
          errors = [fw_error F [''query'', ''loads'', nat_str i]. (i, v) \<leftarrow> enumerate 0 vs, v \<noteq> ''role'']
      in if errors = [] then Inr vs else Inl errors)"

definition path_uuid :: "framework \<Rightarrow> (string \<times> string) list \<Rightarrow> uuid parsed" where
  "path_uuid F params =
     read_value F (fw_uuid F) [''path'', ''user_uuid'']
       (case map_of params ''user_uuid'' of Some s \<Rightarrow> PStr s | None \<Rightarrow> PNone)"

section \<open>Calls\<close>

text \<open>The endpoints with their arguments.\<close>

datatype api_call =
    HealthCall
  | RegisterCall login_contract
  | ConfirmCall string
  | SignInCall login_contract
  | RenewCall string
  | SignOutCall
  | GetMeCall
  | UpdateSelfCall "string option option"
  | SelectUsersCall "string option" "uuid option" pagination_contract "string list"
  | SelectUserCall uuid "string list"
  | UpdateUserCall uuid update_contract

text \<open>
  The arguments of the endpoint of a name.  The parameters of the classes an endpoint requires come
  before its own, those of the path before the query, and the body is last.
\<close>

definition has_body :: "string \<Rightarrow> bool" where
  "has_body name \<longleftrightarrow>
     name \<in> {''register_endpoint'', ''confirm_register_endpoint'', ''login_endpoint'',
       ''refresh_endpoint'', ''update_self_endpoint'', ''update_user_endpoint''}"

definition api_call_of ::
  "framework \<Rightarrow> string \<Rightarrow> (string \<times> string) list \<Rightarrow> http_request \<Rightarrow> pyval option \<Rightarrow> api_call parsed" where
  "api_call_of F name params r b =
     (if name = ''register_endpoint'' then parsed_map RegisterCall (login_contract_of F b)
      else if name = ''confirm_register_endpoint'' then parsed_map ConfirmCall (verification_code_of F b)
      else if name = ''login_endpoint'' then parsed_map SignInCall (login_contract_of F b)
      else if name = ''refresh_endpoint'' then parsed_map RenewCall (fingerprint_contract_of F b)
      else if name = ''logout_endpoint'' then Inr SignOutCall
      else if name = ''get_me_endpoint'' then Inr GetMeCall
      else if name = ''update_self_endpoint'' then parsed_map UpdateSelfCall (update_self_of F b)
      else if name = ''select_users_endpoint'' then
        parsed_map (\<lambda>((l, u), p, ls). SelectUsersCall l u p ls)
          (parsed_pair (select_users_of F r) (parsed_pair (pagination_of F r) (loads_of F r)))
      else if name = ''select_user_endpoint'' then
        parsed_map (\<lambda>(u, ls). SelectUserCall u ls) (parsed_pair (path_uuid F params) (loads_of F r))
      else if name = ''update_user_endpoint'' then
        parsed_map (\<lambda>(u, c). UpdateUserCall u c) (parsed_pair (path_uuid F params) (admin_update_of F b))
      else Inr HealthCall)"

text \<open>
  What a request finds when it is served: the readings of the clock, in the guards and in the use
  case, and the code a registration draws.
\<close>

record request_env =
  en_guard :: "nat \<Rightarrow> int"
  en_clock :: "nat \<Rightarrow> int"
  en_code :: string

fun run_call ::
  "('c, 'd) site \<Rightarrow> request_env \<Rightarrow> http_request \<Rightarrow> api_call \<Rightarrow> (('c, 'd) ctx, http_response) io" where
  "run_call W E r HealthCall = healthcheck_endpoint"
| "run_call W E r (RegisterCall c) = register_endpoint W (en_code E) c"
| "run_call W E r (ConfirmCall code) = confirm_register_endpoint W (en_clock E) code"
| "run_call W E r (SignInCall c) = login_endpoint W (en_clock E) c"
| "run_call W E r (RenewCall fp) = refresh_endpoint W (en_clock E) r fp"
| "run_call W E r SignOutCall = logout_endpoint W (en_guard E 0) (en_guard E 1) (en_clock E) r"
| "run_call W E r GetMeCall = get_me_endpoint W (en_guard E 0) (en_guard E 1) r"
| "run_call W E r (UpdateSelfCall p) = update_self_endpoint W (en_guard E 0) (en_guard E 1) r p"
| "run_call W E r (SelectUsersCall l u p ls) = select_users_endpoint W (en_guard E 0) r l u p ls"
| "run_call W E r (SelectUserCall u ls) = select_user_endpoint W (en_guard E 0) r u ls"
| "run_call W E r (UpdateUserCall u c) = update_user_endpoint W (en_guard E 0) r u c"

text \<open>The guards of a route in their order, each at its own time.\<close>

fun run_guards ::
  "('c, 'd) site \<Rightarrow> (nat \<Rightarrow> int) \<Rightarrow> nat \<Rightarrow> string list list \<Rightarrow> http_request \<Rightarrow> (('c, 'd) ctx, unit) io" where
  "run_guards W ts k [] r = io_return ()"
| "run_guards W ts k (g # gs) r =
     io_bind (authorization W (ts k) g r) (\<lambda>_. run_guards W ts (Suc k) gs r)"

text \<open>
  A route: a malformed body is refused at once; wrong input only after the guards.  (The calls have
  the guards of their endpoints in them.)
\<close>

definition run_route ::
  "framework \<Rightarrow> ('c, 'd) site \<Rightarrow> request_env \<Rightarrow> route \<Rightarrow> (string \<times> string) list \<Rightarrow> http_request \<Rightarrow>
    (('c, 'd) ctx, http_response) io" where
  "run_route F W E rt params r =
     io_bind (if has_body (rt_endpoint rt)
              then (case fw_body F r of Inl es \<Rightarrow> io_raise (RequestValidationError es) | Inr b \<Rightarrow> io_return b)
              else io_return None) (\<lambda>b.
     case api_call_of F (rt_endpoint rt) params r b of
       Inl es \<Rightarrow>
         io_bind (run_guards W (en_guard E) 0 (rt_guards rt) r) (\<lambda>_.
         io_raise (RequestValidationError es))
     | Inr c \<Rightarrow> run_call W E r c)"

definition dispatch ::
  "framework \<Rightarrow> ('c, 'd) site \<Rightarrow> request_env \<Rightarrow> http_request \<Rightarrow> (('c, 'd) ctx, http_response) io" where
  "dispatch F W E r =
     (case find_route (ar_routes setup_v1_routers) r of
        None \<Rightarrow> io_return (fw_unmatched F r)
      | Some (rt, params) \<Rightarrow> run_route F W E rt params r)"

text \<open>The application: the routes on the state behind the middlewares.\<close>

definition api_routes ::
  "framework \<Rightarrow> ('c, 'd) site \<Rightarrow> request_env \<Rightarrow> ('c, 'd) ctx asgi" where
  "api_routes F W E r = io_focus wb_world (\<lambda>x. wb_world_update (\<lambda>_. x)) (dispatch F W E r)"

definition application ::
  "framework \<Rightarrow> ('c, 'd) site \<Rightarrow> request_env \<Rightarrow> string \<Rightarrow> string \<Rightarrow> ('c, 'd) ctx asgi" where
  "application F W E rid fresh = serve (fw_cors F) rid fresh (api_routes F W E)"

section \<open>The declared answers\<close>

text \<open>
  The response models of the endpoints: the fields with whether they are required and what their
  value is.  (The endpoints return responses of their own, so nothing checks them at run time.)
\<close>

fun fits_model :: "(string \<times> bool \<times> (pyval \<Rightarrow> bool)) list \<Rightarrow> pyval \<Rightarrow> bool" where
  "fits_model fs (PDict d) \<longleftrightarrow>
     distinct (map fst d) \<and> list_all (\<lambda>k. k \<in> set (map fst fs)) (map fst d) \<and>
     list_all (\<lambda>(n, req, ok). case dict_get d n of None \<Rightarrow> \<not> req | Some v \<Rightarrow> ok v) fs"
| "fits_model fs _ = False"

fun is_text :: "pyval \<Rightarrow> bool" where "is_text (PStr _) = True" | "is_text _ = False"
fun is_flag :: "pyval \<Rightarrow> bool" where "is_flag (PBool _) = True" | "is_flag _ = False"
fun is_number :: "pyval \<Rightarrow> bool" where "is_number (PInt _) = True" | "is_number _ = False"
fun is_list_of :: "(pyval \<Rightarrow> bool) \<Rightarrow> pyval \<Rightarrow> bool" where
  "is_list_of ok (PList vs) = list_all ok vs" | "is_list_of ok _ = False"

definition role_model :: "pyval \<Rightarrow> bool" where
  "role_model = fits_model [(''uuid'', True, is_text), (''name'', True, is_text)]"

definition user_model :: "pyval \<Rightarrow> bool" where
  "user_model =
     fits_model [(''uuid'', True, is_text), (''login'', True, is_text), (''active'', True, is_flag),
       (''role'', False, role_model)]"

definition status_model :: "pyval \<Rightarrow> bool" where
  "status_model = fits_model [(''status'', True, is_flag)]"

definition token_model :: "pyval \<Rightarrow> bool" where
  "token_model = fits_model [(''token'', True, is_text)]"

definition page_model :: "pyval \<Rightarrow> bool" where
  "page_model =
     fits_model [(''data'', True, is_list_of user_model), (''offset'', True, is_number),
       (''limit'', False, is_number), (''total'', True, is_number)]"

definition response_model :: "string \<Rightarrow> pyval \<Rightarrow> bool" where
  "response_model name =
     (if name \<in> {''healthcheck_endpoint'', ''register_endpoint'', ''logout_endpoint''} then status_model
      else if name \<in> {''confirm_register_endpoint'', ''login_endpoint'', ''refresh_endpoint''} then token_model
      else if name = ''select_users_endpoint'' then page_model
      else user_model)"

section \<open>Facts about the routes\<close>

lemma routes_list:
  "ar_routes setup_v1_routers =
    [\<lparr>rt_method = ''GET'', rt_path = ''/v1/healthcheck'', rt_guards = [], rt_endpoint = ''healthcheck_endpoint''\<rparr>,
     \<lparr>rt_method = ''POST'', rt_path = ''/v1/auth/register'', rt_guards = [], rt_endpoint = ''register_endpoint''\<rparr>,
     \<lparr>rt_method = ''POST'', rt_path = ''/v1/auth/register/confirm'', rt_guards = [], rt_endpoint = ''confirm_register_endpoint''\<rparr>,
     \<lparr>rt_method = ''POST'', rt_path = ''/v1/auth/login'', rt_guards = [], rt_endpoint = ''login_endpoint''\<rparr>,
     \<lparr>rt_method = ''POST'', rt_path = ''/v1/auth/refresh'', rt_guards = [], rt_endpoint = ''refresh_endpoint''\<rparr>,
     \<lparr>rt_method = ''GET'', rt_path = ''/v1/users/me'', rt_guards = [[], []], rt_endpoint = ''get_me_endpoint''\<rparr>,
     \<lparr>rt_method = ''PATCH'', rt_path = ''/v1/users/me'', rt_guards = [[], []], rt_endpoint = ''update_self_endpoint''\<rparr>,
     \<lparr>rt_method = ''POST'', rt_path = ''/v1/auth/logout'', rt_guards = [[], []], rt_endpoint = ''logout_endpoint''\<rparr>,
     \<lparr>rt_method = ''GET'', rt_path = ''/v1/admin/users'', rt_guards = [[''Admin'']], rt_endpoint = ''select_users_endpoint''\<rparr>,
     \<lparr>rt_method = ''GET'', rt_path = ''/v1/admin/users/{user_uuid}'', rt_guards = [[''Admin'']], rt_endpoint = ''select_user_endpoint''\<rparr>,
     \<lparr>rt_method = ''PATCH'', rt_path = ''/v1/admin/users/{user_uuid}'', rt_guards = [[''Admin'']], rt_endpoint = ''update_user_endpoint''\<rparr>]"
  by code_simp

text \<open>No route is for \<open>OPTIONS\<close>, so a request with a route is no preflight.\<close>

lemma routed_no_preflight:
  "find_route (ar_routes setup_v1_routers) r = Some (rt, params) \<Longrightarrow> \<not> is_preflight r"
  using find_route_sound [of "ar_routes setup_v1_routers" r rt params]
  by (auto simp: is_preflight_def routes_list)

text \<open>A call runs the guards of its route before anything else.\<close>

lemma guards_first:
  assumes "rt \<in> set (ar_routes setup_v1_routers)" and "api_call_of F (rt_endpoint rt) params r b = Inr c"
    and "fst (run_guards W (en_guard E) 0 (rt_guards rt) r s) = Inl e"
  shows "run_call W E r c s = (Inl e, snd (run_guards W (en_guard E) 0 (rt_guards rt) r s))"
  using assms
  by (auto simp: routes_list api_call_of_def parsed_map_Inr logout_endpoint_def get_me_endpoint_def
      update_self_endpoint_def select_users_endpoint_def select_user_endpoint_def
      update_user_endpoint_def user_guard_def admin_guard_def io_bind_def io_apply split: sum.splits)

end
