(* ===== verification/Dispatch_Properties.thy ===== *)
theory Dispatch_Properties
  imports Dispatch
begin

text \<open>
  The properties of the whole application: strangers are refused at every guarded route, the
  administration is closed over HTTP, wrong input changes nothing, and input and answers have the
  types their contracts declare.
\<close>

section \<open>The application, unrolled\<close>

lemma with_request_id_simps [simp]:
  "hr_path (with_request_id rid r) = hr_path r" "hr_method (with_request_id rid r) = hr_method r"
  "hr_query (with_request_id rid r) = hr_query r" "hr_headers (with_request_id rid r) = hr_headers r"
  by (simp_all add: with_request_id_def)

lemma extract_bearer_request_id [simp]:
  "extract_bearer sp (with_request_id rid r) = extract_bearer sp r"
  by (simp add: extract_bearer_def header_get_def)

lemma find_route_request_id [simp]: "find_route rts (with_request_id rid r) = find_route rts r"
  by (induction rts) (simp_all split: option.split)

lemma acts_as_request_id [simp]:
  "acts_as W committed t (with_request_id rid r) s u role \<longleftrightarrow> acts_as W committed t r s u role"
  by (simp add: acts_as_def)

lemma application_answer:
  fixes r :: http_request and w :: "('c, 'd) ctx web"
  assumes "rid \<noteq> []" and "\<not> is_preflight r"
  defines "q \<equiv> with_request_id rid r"
  shows "\<exists>resp. fst (application F W E rid fresh r w) = Inr resp \<and>
    wb_world (snd (application F W E rid fresh r w)) = snd (dispatch F W E q (wb_world w)) \<and>
    (case fst (dispatch F W E q (wb_world w)) of
       Inr x \<Rightarrow> hp_status resp = hp_status x \<and> hp_content resp = hp_content x
     | Inl e \<Rightarrow> answers_error rid e resp)"
proof -
  have e: "fst (api_routes F W E q w) = fst (dispatch F W E q (wb_world w))"
    "wb_world (snd (api_routes F W E q w)) = snd (dispatch F W E q (wb_world w))"
    by (simp_all add: api_routes_def io_focus_def)
  show ?thesis
    using serve_answer [OF assms(1,2), of "fw_cors F" fresh "api_routes F W E" w]
    unfolding application_def q_def [symmetric] e answers_error_def by (auto split: sum.splits)
qed

lemma answers_error_status: "answers_error rid e resp \<Longrightarrow> 400 \<le> hp_status resp"
proof -
  have "400 \<le> status_code c" for c by (cases c) simp_all
  then show "answers_error rid e resp \<Longrightarrow> 400 \<le> hp_status resp"
    by (cases e) (simp_all add: answers_error_def)
qed

lemma application_preflight:
  "is_preflight r \<Longrightarrow> application F W E rid fresh r w = (Inr (co_preflight (fw_cors F) r), w)"
  by (simp add: application_def serve_preflight)

lemma application_routed:
  assumes "rid \<noteq> []" and "find_route (ar_routes setup_v1_routers) r = Some (rt, params)"
  shows "\<exists>resp. fst (application F W E rid fresh r w) = Inr resp \<and>
    wb_world (snd (application F W E rid fresh r w)) =
      snd (run_route F W E rt params (with_request_id rid r) (wb_world w)) \<and>
    (case fst (run_route F W E rt params (with_request_id rid r) (wb_world w)) of
       Inr x \<Rightarrow> hp_status resp = hp_status x \<and> hp_content resp = hp_content x
     | Inl e \<Rightarrow> answers_error rid e resp)"
proof -
  have "dispatch F W E (with_request_id rid r) = run_route F W E rt params (with_request_id rid r)"
    by (simp add: dispatch_def assms(2))
  with application_answer [OF assms(1) routed_no_preflight [OF assms(2)], of F W E fresh w]
  show ?thesis by simp
qed

lemma run_guards_frame:
  assumes "app_laws (si_app W) strs lsts life tables committed ilike"
  shows "cx_cache (snd (run_guards W ts k gs r s)) = cx_cache s \<and>
    committed (cx_db (snd (run_guards W ts k gs r s))) = committed (cx_db s)"
proof (induction gs arbitrary: k s)
  case (Cons g gs)
  then show ?case
    using authorization_frame [OF assms] by (simp add: io_bind_def split: sum.split)
qed (simp add: io_apply)

lemma guards_without_token:
  assumes "gs \<noteq> []" and "extract_bearer (si_scheme_param W) r = Inl e"
  shows "run_guards W ts k gs r s = (Inl e, s)"
  using assms by (cases gs) (auto simp: authorization_def io_bind_def io_apply)

lemma extract_bearer_error:
  "extract_bearer sp r = Inl e \<Longrightarrow> \<exists>a. e = App a \<and> exc_class a = UnAuthorizedError"
  by (auto simp: extract_bearer_def Let_def split: prod.splits if_splits)

text \<open>The body a route reads, or its refusal.\<close>

definition route_body :: "framework \<Rightarrow> route \<Rightarrow> http_request \<Rightarrow> pyval list + pyval option" where
  "route_body F rt r = (if has_body (rt_endpoint rt) then fw_body F r else Inr None)"

lemma run_route_eq:
  "run_route F W E rt params r s =
    (case route_body F rt r of
       Inl es \<Rightarrow> (Inl (RequestValidationError es), s)
     | Inr b \<Rightarrow>
         (case api_call_of F (rt_endpoint rt) params r b of
            Inl es \<Rightarrow>
              (let g = run_guards W (en_guard E) 0 (rt_guards rt) r s in
               (case fst g of Inl e \<Rightarrow> Inl e | Inr _ \<Rightarrow> Inl (RequestValidationError es), snd g))
          | Inr c \<Rightarrow> run_call W E r c s))"
  by (auto simp: run_route_def route_body_def io_bind_def io_apply Let_def split: sum.split)

lemma run_route_guard_fails:
  assumes "rt \<in> set (ar_routes setup_v1_routers)" and "route_body F rt r = Inr b"
    and "fst (run_guards W (en_guard E) 0 (rt_guards rt) r s) = Inl e"
  shows "run_route F W E rt params r s =
    (Inl e, snd (run_guards W (en_guard E) 0 (rt_guards rt) r s))"
  using assms guards_first [OF assms(1) _ assms(3)]
  by (cases "api_call_of F (rt_endpoint rt) params r b") (simp_all add: run_route_eq Let_def)

section \<open>Properties\<close>

text \<open>
  C7: A request without credentials gets nowhere.  At every guarded route, whatever its body and
  parameters, a request without a bearer token is answered with 401 (with 400 when its body is not
  even JSON), and the cache and the database are as they were.
\<close>

theorem strangers_are_refused:
  fixes w :: "('c, 'd) ctx web"
  assumes "rid \<noteq> []" and "find_route (ar_routes setup_v1_routers) r = Some (rt, params)"
    and "rt_guards rt \<noteq> []" and "extract_bearer (si_scheme_param W) r = Inl e"
  shows "wb_world (snd (application F W E rid fresh r w)) = wb_world w \<and>
    (\<exists>resp. fst (application F W E rid fresh r w) = Inr resp \<and>
      (hp_status resp = 401 \<or>
       hp_status resp = 400 \<and> (\<exists>es. fw_body F (with_request_id rid r) = Inl es)))"
proof -
  let ?q = "with_request_id rid r" and ?s = "wb_world w"
  have rt: "rt \<in> set (ar_routes setup_v1_routers)" using find_route_sound [OF assms(2)] by blast
  obtain a where a: "e = App a" "exc_class a = UnAuthorizedError"
    using extract_bearer_error [OF assms(4)] by blast
  have g: "run_guards W (en_guard E) 0 (rt_guards rt) ?q ?s = (Inl e, ?s)"
    using assms(3,4) by (intro guards_without_token) simp_all
  have d: "dispatch F W E ?q ?s = run_route F W E rt params ?q ?s"
    by (simp add: dispatch_def assms(2))
  note ans = application_answer [OF assms(1) routed_no_preflight [OF assms(2)], of F W E fresh w]
  show ?thesis
  proof (cases "route_body F rt ?q")
    case (Inl es)
    then have "dispatch F W E ?q ?s = (Inl (RequestValidationError es), ?s)" "fw_body F ?q = Inl es"
      by (simp_all add: d run_route_eq route_body_def split: if_splits)
    with ans show ?thesis by (auto simp: answers_error_def)
  next
    case (Inr b)
    have "fst (run_guards W (en_guard E) 0 (rt_guards rt) ?q ?s) = Inl e" by (simp add: g)
    from run_route_guard_fails [OF rt Inr this] have "dispatch F W E ?q ?s = (Inl e, ?s)"
      by (simp add: d g)
    with ans a show ?thesis by (auto simp: answers_error_def)
  qed
qed

text \<open>A reference for the libraries: a body is a form, a text is read by the functions of the references.\<close>

definition ref_body :: "http_request \<Rightarrow> pyval list + pyval option" where
  "ref_body r =
     (if hr_body r = [] then Inr None
      else Inr (Some (PDict (map (\<lambda>kv. let (k, v) = partition_char (CHR ''='') kv in (k, PStr v))
        (py_split ''&'' (hr_body r))))))"

definition ref_framework :: framework where
  "ref_framework =
     \<lparr>fw_body = ref_body,
      fw_str = (\<lambda>v. case v of PStr s \<Rightarrow> Some s | _ \<Rightarrow> None),
      fw_bool = (\<lambda>v. if v = PStr ''true'' then Some True else if v = PStr ''false'' then Some False else None),
      fw_int = (\<lambda>v. case v of PStr s \<Rightarrow> parse_int s | _ \<Rightarrow> None),
      fw_uuid = (\<lambda>v. case v of PStr s \<Rightarrow> ref_parse_uuid s | _ \<Rightarrow> None),
      fw_error = (\<lambda>loc. PList (map PStr loc)),
      fw_unmatched = (\<lambda>_. orjson_response (PDict [(''detail'', PStr ''Not Found'')]) 404 []),
      fw_cors = ref_cors\<rparr>"

definition ref_env :: request_env where
  "ref_env = \<lparr>en_guard = (\<lambda>_. 0), en_clock = (\<lambda>_. 0), en_code = ''c0de''\<rparr>"

lemma ref_env_simps [simp]: "en_guard ref_env k = 0" "en_clock ref_env k = 0"
  by (simp_all add: ref_env_def)

definition me_request :: http_request where
  "me_request = example_request\<lparr>hr_method := ''PATCH'', hr_path := ''/v1/users/me'', hr_body := ''password=short''\<rparr>"

definition me_route :: route where
  "me_route = \<lparr>rt_method = ''PATCH'', rt_path = ''/v1/users/me'', rt_guards = [[], []],
     rt_endpoint = ''update_self_endpoint''\<rparr>"

lemma me_routed: "find_route (ar_routes setup_v1_routers) me_request = Some (me_route, [])"
  by code_simp

theorem strangers_are_refused_witness:
  "let w = \<lparr>wb_world = example_ctx, wb_log = []\<rparr>
   in \<exists>resp. fst (application ref_framework ref_site ref_env ''id1'' ''f'' me_request w) = Inr resp \<and>
     hp_status resp = 401"
proof -
  have "header_get me_request ''Authorization'' = None"
    by (simp add: me_request_def example_request_def header_get_def)
  then have "\<exists>e. extract_bearer (si_scheme_param ref_site) me_request = Inl e"
    by (simp add: extract_bearer_def ref_scheme_param_def)
  then obtain e where "extract_bearer (si_scheme_param ref_site) me_request = Inl e" ..
  from strangers_are_refused [OF _ me_routed _ this, of "''id1''" ref_framework ref_env "''f''"
      "\<lparr>wb_world = example_ctx, wb_log = []\<rparr>"]
  show ?thesis
    by (auto simp: me_route_def Let_def ref_framework_def ref_body_def split: if_splits)
qed

lemma admin_guards:
  "rt \<in> set (ar_routes setup_v1_routers) \<Longrightarrow> prefix ''/v1/admin'' (rt_path rt) \<Longrightarrow>
    rt_guards rt = [[''Admin'']]"
  by (auto simp: routes_list)

lemma error_status: "status_code c \<noteq> 200"
  by (cases c) simp_all

text \<open>
  C6: The administration over HTTP.  At a route under \<open>/v1/admin\<close>, an answer 200 and any change of
  the committed database mean that the bearer token of the request is an access token of an active
  user with the role \<open>Admin\<close>.
\<close>

theorem administration_over_http:
  fixes w :: "('c, 'd) ctx web"
  assumes laws: "app_laws (si_app W) strs lsts life tables committed ilike" and "rid \<noteq> []"
    and route: "find_route (ar_routes setup_v1_routers) r = Some (rt, params)"
    and "prefix ''/v1/admin'' (rt_path rt)"
    and act: "(\<exists>resp. fst (application F W E rid fresh r w) = Inr resp \<and> hp_status resp = 200) \<or>
      committed (cx_db (wb_world (snd (application F W E rid fresh r w)))) \<noteq> committed (cx_db (wb_world w))"
  shows "\<exists>u role. acts_as W committed (en_guard E 0) r (wb_world w) u role \<and> r_name role = ADMIN"
proof -
  let ?q = "with_request_id rid r" and ?s = "wb_world w"
  let ?g = "run_guards W (en_guard E) 0 (rt_guards rt) ?q ?s"
  have rt: "rt \<in> set (ar_routes setup_v1_routers)" using find_route_sound [OF route] by blast
  have d: "dispatch F W E ?q ?s = run_route F W E rt params ?q ?s"
    by (simp add: dispatch_def route)
  note ans = application_answer [OF assms(2) routed_no_preflight [OF route], of F W E fresh w]
  have ok: "(\<exists>x. fst (dispatch F W E ?q ?s) = Inr x) \<or>
      committed (cx_db (snd (dispatch F W E ?q ?s))) \<noteq> committed (cx_db ?s)"
  proof (cases "fst (dispatch F W E ?q ?s)")
    case (Inl e)
    then show ?thesis
      using ans act error_status by (cases e) (auto simp: answers_error_def)
  qed blast
  have "\<exists>x. fst ?g = Inr x"
  proof (cases "fst ?g")
    case (Inl e)
    show ?thesis
    proof (cases "route_body F rt ?q")
      case (Inl es)
      then show ?thesis using ok by (simp add: d run_route_eq)
    next
      case (Inr b)
      from run_route_guard_fails [OF rt this Inl] show ?thesis
        using ok run_guards_frame [OF laws] by (simp add: d)
    qed
  qed blast
  then obtain view where "fst (authorization W (en_guard E 0) [''Admin''] ?q ?s) = Inr view"
    by (auto simp: admin_guards [OF rt assms(4)] io_bind_def split: sum.splits)
  from authorization_grants [OF laws this] obtain u role where
    "acts_as W committed (en_guard E 0) ?q ?s u role" "role_type_value (r_name role) = ''Admin''" by auto
  then show ?thesis by (cases "r_name role") auto
qed

lemma authorization_headers:
  "hr_headers r = hr_headers r' \<Longrightarrow> authorization W t g r = authorization W t g r'"
  by (simp add: authorization_def extract_bearer_def header_get_def)

definition admin_request :: http_request where
  "admin_request =
     (example_request\<lparr>hr_path := ''/v1/admin/users/00000000-0000-4000-8000-000000000001''\<rparr>)
       \<lparr>hr_headers := hr_headers bob_request\<rparr>"

definition admin_route :: route where
  "admin_route = \<lparr>rt_method = ''GET'', rt_path = ''/v1/admin/users/{user_uuid}'',
     rt_guards = [[''Admin'']], rt_endpoint = ''select_user_endpoint''\<rparr>"

lemma admin_routed:
  "find_route (ar_routes setup_v1_routers) admin_request =
    Some (admin_route, [(''user_uuid'', uuid_str ref_user)])"
proof -
  have "find_route (ar_routes setup_v1_routers)
      (example_request\<lparr>hr_path := ''/v1/admin/users/00000000-0000-4000-8000-000000000001''\<rparr>) =
    Some (admin_route, [(''user_uuid'', uuid_str ref_user)])"
    by code_simp
  moreover have "find_route rts (r\<lparr>hr_headers := h\<rparr>) = find_route rts r" for rts r h
    by (induction rts) (simp_all split: option.split)
  ultimately show ?thesis
    unfolding admin_request_def by (simp only:)
qed

lemma admin_request_simps [simp]:
  "hr_query admin_request = []" "hr_headers admin_request = hr_headers bob_request"
  by (simp_all add: admin_request_def example_request_def)

lemma admin_answered:
  "\<exists>resp. fst (application ref_framework ref_site ref_env ''id1'' ''f'' admin_request
      \<lparr>wb_world = admin_ctx, wb_log = []\<rparr>) = Inr resp \<and> hp_status resp = 200"
proof -
  let ?q = "with_request_id ''id1'' admin_request"
  have "select_user_endpoint ref_site 0 ?q ref_user [] = select_user_endpoint ref_site 0 bob_request ref_user []"
    using authorization_headers [of ?q bob_request ref_site 0 "[''Admin'']"]
    by (simp add: select_user_endpoint_def admin_guard_def)
  with admin_selects obtain x where
    x: "fst (select_user_endpoint ref_site 0 ?q ref_user [] admin_ctx) = Inr x" by auto
  then have "hp_status x = 200"
    by (auto simp: select_user_endpoint_def io_bind_def io_apply ok_response_def orjson_response_def
        split: sum.splits)
  moreover have "ref_parse_uuid (uuid_str ref_user) = Some ref_user"
    using ref_user_known by (simp add: known_uuid_def ref_auth_def)
  then have "fst (dispatch ref_framework ref_site ref_env ?q admin_ctx) = Inr x"
    using x by (simp add: dispatch_def admin_routed run_route_eq route_body_def admin_route_def
        has_body_def api_call_of_def path_uuid_def read_value_def ref_framework_def loads_of_def
        query_getlist_def parsed_map_def)
  ultimately show ?thesis
    using application_answer [OF _ routed_no_preflight [OF admin_routed], of "''id1''" ref_framework ref_site
        ref_env "''f''" "\<lparr>wb_world = admin_ctx, wb_log = []\<rparr>"] by auto
qed

theorem administration_over_http_witness:
  "\<exists>u role. acts_as ref_site rel_committed 0 admin_request admin_ctx u role \<and> r_name role = ADMIN"
  using administration_over_http [OF ref_site_app _ admin_routed _ disjI1 [OF admin_answered]]
  by (simp add: admin_route_def)

text \<open>
  C22: Wrong input changes nothing.  When the body of a request is malformed or the arguments of its
  endpoint cannot be read, the cache and the committed database stay as they are, and the answer is
  an error, never below 400: for a malformed body a 400 with its errors; else what the first guard of
  the route that refuses the request answers (401 without a token, 403 for a role that is not enough,
  and so on, with the ticket); and when they all let it pass, a 400 that lists every error of the
  input.
\<close>

theorem wrong_input_changes_nothing:
  fixes w :: "('c, 'd) ctx web" and r :: http_request and rid :: string
  defines "q \<equiv> with_request_id rid r"
  assumes laws: "app_laws (si_app W) strs lsts life tables committed ilike" and "rid \<noteq> []"
    and route: "find_route (ar_routes setup_v1_routers) r = Some (rt, params)"
    and wrong: "case route_body F rt q of Inl es \<Rightarrow> True
      | Inr b \<Rightarrow> \<exists>es. api_call_of F (rt_endpoint rt) params q b = Inl es"
  shows "let (answer, w') = application F W E rid fresh r w
    in cx_cache (wb_world w') = cx_cache (wb_world w) \<and>
      committed (cx_db (wb_world w')) = committed (cx_db (wb_world w)) \<and>
      (\<exists>resp. answer = Inr resp \<and> 400 \<le> hp_status resp \<and>
        (case route_body F rt q of
           Inl es \<Rightarrow> answers_error rid (RequestValidationError es) resp
         | Inr b \<Rightarrow>
             (case fst (run_guards W (en_guard E) 0 (rt_guards rt) q (wb_world w)) of
                Inl e \<Rightarrow> answers_error rid e resp
              | Inr _ \<Rightarrow> (\<exists>es. api_call_of F (rt_endpoint rt) params q b = Inl es \<and>
                  answers_error rid (RequestValidationError es) resp))))"
proof -
  let ?q = q and ?s = "wb_world w"
  let ?g = "run_guards W (en_guard E) 0 (rt_guards rt) ?q ?s"
  let ?e = "case route_body F rt ?q of Inl es \<Rightarrow> RequestValidationError es
    | Inr b \<Rightarrow> (case fst ?g of Inl e \<Rightarrow> e
        | Inr _ \<Rightarrow> RequestValidationError (projl (api_call_of F (rt_endpoint rt) params ?q b)))"
  have d: "fst (run_route F W E rt params ?q ?s) = Inl ?e"
    "cx_cache (snd (run_route F W E rt params ?q ?s)) = cx_cache ?s"
    "committed (cx_db (snd (run_route F W E rt params ?q ?s))) = committed (cx_db ?s)"
    using wrong run_guards_frame [OF laws] by (auto simp: run_route_eq Let_def split: sum.split)
  obtain resp where resp: "fst (application F W E rid fresh r w) = Inr resp" "answers_error rid ?e resp"
    "wb_world (snd (application F W E rid fresh r w)) = snd (run_route F W E rt params ?q ?s)"
    using application_routed [OF assms(3) route, where F = F and W = W and E = E and w = w and fresh = fresh] d(1) unfolding q_def by auto
  show ?thesis
    using resp(1,2) d(2,3) wrong answers_error_status [OF resp(2)]
    unfolding resp(3) [symmetric] Let_def by (auto split: sum.splits prod.split)
qed

definition bad_login_request :: http_request where
  "bad_login_request = example_request\<lparr>hr_method := ''POST'', hr_path := ''/v1/auth/login'',
     hr_body := ''login=bob&password=short''\<rparr>"

definition login_route :: route where
  "login_route = \<lparr>rt_method = ''POST'', rt_path = ''/v1/auth/login'', rt_guards = [],
     rt_endpoint = ''login_endpoint''\<rparr>"

lemma login_routed: "find_route (ar_routes setup_v1_routers) bad_login_request = Some (login_route, [])"
  by code_simp

lemma bad_login_body:
  "route_body ref_framework login_route (with_request_id ''id1'' bad_login_request) =
    Inr (Some (PDict [(''login'', PStr ''bob''), (''password'', PStr ''short'')]))"
  by code_simp

lemma bad_login_errors:
  "api_call_of ref_framework (rt_endpoint login_route) [] (with_request_id ''id1'' bad_login_request)
      (Some (PDict [(''login'', PStr ''bob''), (''password'', PStr ''short'')])) =
    Inl [PList [PStr ''body'', PStr ''fingerprint''], PList [PStr ''body'', PStr ''password'']]"
  by code_simp

theorem wrong_input_changes_nothing_witness:
  "\<exists>resp. fst (application ref_framework ref_site ref_env ''id1'' ''f'' bad_login_request
      \<lparr>wb_world = example_ctx, wb_log = []\<rparr>) = Inr resp \<and> hp_status resp = 400"
  using wrong_input_changes_nothing [OF ref_site_app _ login_routed, of "''id1''" ref_framework ref_env "''f''"
      "\<lparr>wb_world = example_ctx, wb_log = []\<rparr>"] bad_login_body bad_login_errors
  by (auto simp: Let_def login_route_def io_apply answers_error_def split: prod.splits)

section \<open>Types\<close>

text \<open>What the contracts declare of the arguments of an endpoint.\<close>

fun valid_call :: "api_call \<Rightarrow> bool" where
  "valid_call (RegisterCall c) = valid_login_contract c"
| "valid_call (SignInCall c) = valid_login_contract c"
| "valid_call (UpdateSelfCall p) = (case p of Some (Some x) \<Rightarrow> valid_password x | _ \<Rightarrow> True)"
| "valid_call (SelectUsersCall l u p ls) = (valid_pagination p \<and> list_all (\<lambda>x. x = ''role'') ls)"
| "valid_call (SelectUserCall u ls) = list_all (\<lambda>x. x = ''role'') ls"
| "valid_call (UpdateUserCall u c) = valid_update c"
| "valid_call _ = True"

lemma login_contract_of_valid: "login_contract_of F b = Inr c \<Longrightarrow> valid_login_contract c"
  by (auto simp: login_contract_of_def body_object_def parsed_map_Inr parsed_pair_Inr valid_login_contract_def
      dest: required_limited split: option.splits pyval.splits)

lemma update_self_of_valid: "update_self_of F b = Inr (Some (Some p)) \<Longrightarrow> valid_password p"
  by (auto simp: update_self_of_def body_object_def dest: nullable_limited split: option.splits pyval.splits)

lemma admin_update_of_valid: "admin_update_of F b = Inr c \<Longrightarrow> valid_update c"
  by (auto simp: admin_update_of_def body_object_def parsed_map_Inr parsed_pair_Inr valid_update_def
      dest: nullable_limited split: option.splits pyval.splits)

lemma query_limited: "query_field F (limited conv ok) r name d = Inr x \<Longrightarrow> ok d \<Longrightarrow> ok x"
  by (auto simp: query_field_def read_value_Inr limited_Some split: option.splits)

lemma pagination_of_valid: "pagination_of F r = Inr p \<Longrightarrow> valid_pagination p"
  by (auto simp: pagination_of_def parsed_map_Inr parsed_pair_Inr valid_pagination_def
      MIN_PAGINATION_LIMIT_def MAX_PAGINATION_LIMIT_def dest!: query_limited)

lemma loads_of_valid:
  assumes "loads_of F r = Inr ls"
  shows "list_all (\<lambda>x. x = ''role'') ls"
proof -
  let ?vs = "query_getlist r ''loads''"
  have errors: "[fw_error F [''query'', ''loads'', nat_str i]. (i, v) \<leftarrow> enumerate 0 ?vs, v \<noteq> ''role''] = []"
    and ls: "ls = ?vs"
    using assms by (auto simp: loads_of_def Let_def split: if_splits)
  have "v = ''role''" if v: "v \<in> set ?vs" for v
  proof -
    from v obtain i where "i < length ?vs" "?vs ! i = v" by (auto simp: in_set_conv_nth)
    then have "(i, v) \<in> set (enumerate 0 ?vs)" by (simp add: in_set_enumerate_eq)
    then have "(case (i, v) of (i, v) \<Rightarrow>
        if v \<noteq> ''role'' then [fw_error F [''query'', ''loads'', nat_str i]] else []) = []"
      using errors unfolding concat_eq_Nil_conv by (metis (no_types, lifting) image_eqI list.set_map)
    then show ?thesis by (simp split: if_splits)
  qed
  then show ?thesis by (simp add: ls list_all_iff)
qed

lemma call_is_valid:
  "api_call_of F name params r b = Inr c \<Longrightarrow> valid_call c"
  by (auto simp: api_call_of_def parsed_map_Inr parsed_pair_Inr
      intro: login_contract_of_valid admin_update_of_valid pagination_of_valid loads_of_valid
      update_self_of_valid split: if_splits option.split)

text \<open>
  C24: What passes the reading of the input is typed.  Whatever a client sends, the arguments an
  endpoint gets keep the limits of their contracts: the lengths of login and password, the bounds of
  a page, the known relations; so building the request of the use case from them never fails.
\<close>

theorem input_is_typed:
  assumes "api_call_of F name params r b = Inr c"
  shows "valid_call c \<and>
    (\<forall>x. c = RegisterCall x \<longrightarrow>
      (\<exists>q. make_register_request (lc_login x) (lc_password x) (lc_fingerprint x) = Inr q)) \<and>
    (\<forall>x. c = SignInCall x \<longrightarrow>
      (\<exists>q. make_login_request (lc_login x) (lc_password x) (lc_fingerprint x) = Inr q))"
  using call_is_valid [OF assms]
  by (auto simp: valid_login_contract_def make_register_request_def make_login_request_def)

theorem input_is_typed_witness:
  "\<exists>p. api_call_of ref_framework ''select_users_endpoint'' []
      (example_request\<lparr>hr_query := [(''limit'', ''50''), (''loads'', ''role'')]\<rparr>) None =
    Inr (SelectUsersCall None None p [''role'']) \<and> valid_pagination p \<and> pc_limit p = 50"
proof -
  let ?p = "\<lparr>pc_order_by = Desc, pc_offset = 0, pc_limit = 50\<rparr>"
  have c: "api_call_of ref_framework ''select_users_endpoint'' []
      (example_request\<lparr>hr_query := [(''limit'', ''50''), (''loads'', ''role'')]\<rparr>) None =
    Inr (SelectUsersCall None None ?p [''role''])"
    by code_simp
  from input_is_typed [OF c] c show ?thesis
    by (intro exI [of _ ?p]) simp
qed

lemma status_contract_fits: "status_model (status_contract b)"
  by (simp add: status_model_def status_contract_def)

lemma token_contract_fits: "token_model (token_contract t)"
  by (simp add: token_model_def token_contract_def)

lemma user_contract_fits: "user_model (user_contract u)"
  by (auto simp: user_model_def user_contract_def role_model_def role_contract_def split: option.split)

lemma offset_contract_fits: "page_model (offset_contract (offset_result_map user_contract x))"
  by (auto simp: page_model_def offset_contract_def offset_result_map_def list_all_iff
      user_contract_fits split: option.split)

lemmas contracts_fit = status_contract_fits token_contract_fits user_contract_fits offset_contract_fits

fun answer_model :: "api_call \<Rightarrow> pyval \<Rightarrow> bool" where
  "answer_model HealthCall = status_model"
| "answer_model (RegisterCall _) = status_model"
| "answer_model SignOutCall = status_model"
| "answer_model (ConfirmCall _) = token_model"
| "answer_model (SignInCall _) = token_model"
| "answer_model (RenewCall _) = token_model"
| "answer_model (SelectUsersCall _ _ _ _) = page_model"
| "answer_model _ = user_model"

lemma call_answers:
  assumes "fst (run_call W E r c s) = Inr x"
  shows "hp_status x = 200 \<and> answer_model c (hp_content x)"
proof -
  note answers = contracts_fit ok_response_def orjson_response_def tokens_response_def io_bind_def io_apply
  show ?thesis
    using assms
    by (cases c)
      (auto simp: answers healthcheck_endpoint_def register_endpoint_def confirm_register_endpoint_def
        login_endpoint_def refresh_endpoint_def logout_endpoint_def get_me_endpoint_def
        update_self_endpoint_def select_users_endpoint_def select_user_endpoint_def
        update_user_endpoint_def split: sum.splits)
qed

lemma call_model:
  assumes "rt \<in> set (ar_routes setup_v1_routers)" and "api_call_of F (rt_endpoint rt) params r b = Inr c"
  shows "response_model (rt_endpoint rt) = answer_model c"
proof -
  have "rt_endpoint rt \<in> set (map rt_endpoint (ar_routes setup_v1_routers))"
    using assms(1) by simp
  moreover have "map rt_endpoint (ar_routes setup_v1_routers) =
      [''healthcheck_endpoint'', ''register_endpoint'', ''confirm_register_endpoint'', ''login_endpoint'',
       ''refresh_endpoint'', ''get_me_endpoint'', ''update_self_endpoint'', ''logout_endpoint'',
       ''select_users_endpoint'', ''select_user_endpoint'', ''update_user_endpoint'']"
    by (simp add: routes_list)
  ultimately consider
    "rt_endpoint rt = ''healthcheck_endpoint''" | "rt_endpoint rt = ''register_endpoint''"
    | "rt_endpoint rt = ''confirm_register_endpoint''" | "rt_endpoint rt = ''login_endpoint''"
    | "rt_endpoint rt = ''refresh_endpoint''" | "rt_endpoint rt = ''get_me_endpoint''"
    | "rt_endpoint rt = ''update_self_endpoint''" | "rt_endpoint rt = ''logout_endpoint''"
    | "rt_endpoint rt = ''select_users_endpoint''" | "rt_endpoint rt = ''select_user_endpoint''"
    | "rt_endpoint rt = ''update_user_endpoint''"
    by (simp only: list.set insert_iff empty_iff) blast
  then show ?thesis
    using assms(2)
    by cases (auto simp: api_call_of_def parsed_map_Inr response_model_def)
qed

text \<open>
  C25: What an endpoint returns is what it declares.  Every answer of a route has the status 200 and a
  content with exactly the fields of its response model, each with a value of its type.
\<close>

theorem answers_fit_their_models:
  assumes "rt \<in> set (ar_routes setup_v1_routers)" and "fst (run_route F W E rt params r s) = Inr x"
  shows "hp_status x = 200 \<and> response_model (rt_endpoint rt) (hp_content x)"
proof -
  obtain b c where "api_call_of F (rt_endpoint rt) params r b = Inr c" "fst (run_call W E r c s) = Inr x"
    using assms(2) by (auto simp: run_route_eq Let_def split: sum.splits)
  with call_answers [of W E r c s x] call_model [OF assms(1), of F params r b c] show ?thesis
    by simp
qed

theorem answers_fit_their_models_witness:
  "\<exists>x. fst (run_route ref_framework ref_site ref_env
      \<lparr>rt_method = ''GET'', rt_path = ''/v1/healthcheck'', rt_guards = [], rt_endpoint = ''healthcheck_endpoint''\<rparr>
      [] example_request example_ctx) = Inr x \<and> status_model (hp_content x)"
proof -
  let ?rt = "\<lparr>rt_method = ''GET'', rt_path = ''/v1/healthcheck'', rt_guards = [], rt_endpoint = ''healthcheck_endpoint''\<rparr>"
  have rt: "?rt \<in> set (ar_routes setup_v1_routers)" by (simp add: routes_list)
  obtain x where x: "fst (run_route ref_framework ref_site ref_env ?rt [] example_request example_ctx) = Inr x"
    by (simp add: run_route_eq route_body_def has_body_def api_call_of_def healthcheck_endpoint_def io_apply)
  from answers_fit_their_models [OF rt x] x show ?thesis
    by (intro exI [of _ x]) (simp add: response_model_def)
qed

end
