(* ===== verification/Account_Flow.thy ===== *)
theory Account_Flow
  imports Dispatch_Properties
begin

text \<open>
  The program from outside: a client that registers, confirms, logs in and asks who it is, as four
  requests to the whole application, each through the middlewares, the dispatch, the guards, the
  endpoint, the use case, the cache and the database.
\<close>

section \<open>Requests to the application\<close>

text \<open>The route of a request depends on its path and method only.\<close>

lemma find_route_cong:
  "hr_path r = hr_path r' \<Longrightarrow> hr_method r = hr_method r' \<Longrightarrow> find_route rts r = find_route rts r'"
  by (induction rts) (simp_all split: option.split)

definition calls :: "string \<Rightarrow> string \<Rightarrow> http_request \<Rightarrow> bool" where
  "calls m p r \<longleftrightarrow> hr_method r = m \<and> hr_path r = p"

definition auth_route :: "string \<Rightarrow> string \<Rightarrow> route" where
  "auth_route p e = \<lparr>rt_method = ''POST'', rt_path = p, rt_guards = [], rt_endpoint = e\<rparr>"

definition get_me_route :: route where
  "get_me_route = \<lparr>rt_method = ''GET'', rt_path = ''/v1/users/me'', rt_guards = [[], []],
     rt_endpoint = ''get_me_endpoint''\<rparr>"

lemma routed:
  "calls ''POST'' ''/v1/auth/register'' r \<Longrightarrow> find_route (ar_routes setup_v1_routers) r =
    Some (auth_route ''/v1/auth/register'' ''register_endpoint'', [])"
  "calls ''POST'' ''/v1/auth/register/confirm'' r \<Longrightarrow> find_route (ar_routes setup_v1_routers) r =
    Some (auth_route ''/v1/auth/register/confirm'' ''confirm_register_endpoint'', [])"
  "calls ''POST'' ''/v1/auth/login'' r \<Longrightarrow> find_route (ar_routes setup_v1_routers) r =
    Some (auth_route ''/v1/auth/login'' ''login_endpoint'', [])"
  "calls ''GET'' ''/v1/users/me'' r \<Longrightarrow> find_route (ar_routes setup_v1_routers) r =
    Some (get_me_route, [])"
proof -
  let ?c = "\<lambda>m p. example_request\<lparr>hr_method := m, hr_path := p\<rparr>"
  have c: "calls m p r \<Longrightarrow> find_route rts r = find_route rts (?c m p)" for m p r rts
    by (rule find_route_cong) (simp_all add: calls_def)
  have "find_route (ar_routes setup_v1_routers) (?c ''POST'' ''/v1/auth/register'') =
      Some (auth_route ''/v1/auth/register'' ''register_endpoint'', [])"
    "find_route (ar_routes setup_v1_routers) (?c ''POST'' ''/v1/auth/register/confirm'') =
      Some (auth_route ''/v1/auth/register/confirm'' ''confirm_register_endpoint'', [])"
    "find_route (ar_routes setup_v1_routers) (?c ''POST'' ''/v1/auth/login'') =
      Some (auth_route ''/v1/auth/login'' ''login_endpoint'', [])"
    "find_route (ar_routes setup_v1_routers) (?c ''GET'' ''/v1/users/me'') = Some (get_me_route, [])"
    by code_simp+
  then show "calls ''POST'' ''/v1/auth/register'' r \<Longrightarrow> find_route (ar_routes setup_v1_routers) r =
      Some (auth_route ''/v1/auth/register'' ''register_endpoint'', [])"
    "calls ''POST'' ''/v1/auth/register/confirm'' r \<Longrightarrow> find_route (ar_routes setup_v1_routers) r =
      Some (auth_route ''/v1/auth/register/confirm'' ''confirm_register_endpoint'', [])"
    "calls ''POST'' ''/v1/auth/login'' r \<Longrightarrow> find_route (ar_routes setup_v1_routers) r =
      Some (auth_route ''/v1/auth/login'' ''login_endpoint'', [])"
    "calls ''GET'' ''/v1/users/me'' r \<Longrightarrow> find_route (ar_routes setup_v1_routers) r = Some (get_me_route, [])"
    by (simp_all only: c)
qed

text \<open>An endpoint that returns is what the client gets.\<close>

lemma application_returns:
  assumes "rid \<noteq> []" and "find_route (ar_routes setup_v1_routers) r = Some (rt, params)"
    and "run_route F W E rt params (with_request_id rid r) (wb_world w) = (Inr x, s)"
  shows "\<exists>a. fst (application F W E rid fresh r w) = Inr a \<and> hp_status a = hp_status x \<and>
    hp_content a = hp_content x \<and> wb_world (snd (application F W E rid fresh r w)) = s"
  using application_routed [OF assms(1,2), where F = F and W = W and E = E and w = w and fresh = fresh] assms(3) by auto

text \<open>Texts in a body are read as they are.\<close>

definition reads_texts :: "framework \<Rightarrow> bool" where
  "reads_texts F \<longleftrightarrow> (\<forall>x. fw_str F (PStr x) = Some x)"

definition sends :: "framework \<Rightarrow> pydict \<Rightarrow> http_request \<Rightarrow> bool" where
  "sends F d r \<longleftrightarrow> (\<forall>rid. fw_body F (with_request_id rid r) = Inr (Some (PDict d)))"

lemma required_text:
  "reads_texts F \<Longrightarrow> dict_get d name = Some (PStr x) \<Longrightarrow> required_field F (fw_str F) d name = Inr x"
  "reads_texts F \<Longrightarrow> dict_get d name = Some (PStr x) \<Longrightarrow> ok x \<Longrightarrow>
    required_field F (limited (fw_str F) ok) d name = Inr x"
  by (simp_all add: reads_texts_def required_field_def read_value_def limited_def)

definition login_body :: "string \<Rightarrow> string \<Rightarrow> string \<Rightarrow> pydict" where
  "login_body fp l p = [(''fingerprint'', PStr fp), (''login'', PStr l), (''password'', PStr p)]"

lemma login_body_read:
  "reads_texts F \<Longrightarrow> valid_login l \<Longrightarrow> valid_password p \<Longrightarrow>
    login_contract_of F (Some (PDict (login_body fp l p))) =
      Inr \<lparr>lc_fingerprint = fp, lc_login = l, lc_password = p\<rparr>"
  by (simp add: login_contract_of_def body_object_def login_body_def required_text parsed_map_def)

section \<open>The four requests\<close>

lemma register_route:
  assumes "reads_texts F" "sends F (login_body fp l p) r" "valid_login l" "valid_password p"
    and "fst (register (si_app W) (en_code E) \<lparr>rg_login = l, rg_password = p, rg_fingerprint = fp\<rparr> s) = Inr res"
  shows "run_route F W E (auth_route x ''register_endpoint'') [] (with_request_id rid r) s =
    (Inr (ok_response (status_contract (st_status res))),
     snd (register (si_app W) (en_code E) \<lparr>rg_login = l, rg_password = p, rg_fingerprint = fp\<rparr> s))"
  using assms
  by (simp add: run_route_eq route_body_def auth_route_def has_body_def sends_def api_call_of_def
      login_body_read parsed_map_def register_endpoint_def make_register_request_def io_bind_def io_apply)

lemma confirm_route:
  assumes "reads_texts F" "sends F [(''code'', PStr code)] r"
    and "fst (confirm (si_app W) (en_clock E) code s) = Inr res"
  shows "run_route F W E (auth_route x ''confirm_register_endpoint'') [] (with_request_id rid r) s =
    (Inr (tokens_response W res), snd (confirm (si_app W) (en_clock E) code s))"
  using assms
  by (simp add: run_route_eq route_body_def auth_route_def has_body_def sends_def api_call_of_def
      verification_code_of_def body_object_def required_text parsed_map_def confirm_register_endpoint_def
      io_bind_def io_apply)

lemma login_route_returns:
  assumes "reads_texts F" "sends F (login_body fp l p) r" "valid_login l" "valid_password p"
    and "fst (login_user (si_app W) (en_clock E) \<lparr>lg_login = l, lg_password = p, lg_fingerprint = fp\<rparr> s) = Inr res"
  shows "run_route F W E (auth_route x ''login_endpoint'') [] (with_request_id rid r) s =
    (Inr (tokens_response W res),
     snd (login_user (si_app W) (en_clock E) \<lparr>lg_login = l, lg_password = p, lg_fingerprint = fp\<rparr> s))"
  using assms
  by (simp add: run_route_eq route_body_def auth_route_def has_body_def sends_def api_call_of_def
      login_body_read parsed_map_def login_endpoint_def make_login_request_def io_bind_def io_apply)

text \<open>The answer to \<open>GET /v1/users/me\<close>, when both guards let the same user in.\<close>

lemma get_me_route_returns:
  assumes laws: "app_laws (si_app W) strs lsts life tables committed ilike"
    and "extract_bearer (si_scheme_param W) r = Inr token"
    and ok: "\<And>t s'. t \<in> {en_guard E 0, en_guard E 1} \<Longrightarrow> committed (cx_db s') = committed (cx_db s) \<Longrightarrow>
      fst (permission (si_app W) t \<lparr>pm_permissions = [], pm_access_token = token\<rparr> s') = Inr view"
    and find: "find (\<lambda>u. u_uuid u = ur_uuid view) (db_users (committed (cx_db s))) = Some user"
  shows "fst (run_route F W E get_me_route [] (with_request_id rid r) s) =
    Inr (ok_response (user_contract
      (user_view (with_loads [''role''] (db_roles (committed (cx_db s))) user))))"
proof -
  let ?q = "with_request_id rid r"
  let ?a = "\<lambda>t. authorization W t [] ?q"
  have a: "fst (?a t s') = Inr view" if "t \<in> {en_guard E 0, en_guard E 1}"
    "committed (cx_db s') = committed (cx_db s)" for t s'
    using ok [OF that] assms(2) by (simp add: authorization_def io_bind_def io_apply)
  note frame = authorization_frame(2) [OF laws]
  have "run_route F W E get_me_route [] ?q s = get_me_endpoint W (en_guard E 0) (en_guard E 1) ?q s"
    by (simp add: run_route_eq route_body_def get_me_route_def has_body_def api_call_of_def)
  moreover have "fst (?a (en_guard E 1) (snd (?a (en_guard E 0) s))) = Inr view"
    by (rule a) (simp_all add: frame)
  ultimately show ?thesis
    using a [of "en_guard E 0" s] app_laws.select_user_by_uuid [OF laws, of "[''role'']" "ur_uuid view"] find
    by (simp add: get_me_endpoint_def user_guard_def io_bind_def io_apply frame)
qed

section \<open>Properties\<close>

text \<open>
  C1: an account over HTTP.  A client that registers a free login with a valid password, sends the code
  it was given, and logs in, is answered three times with 200; the database then has exactly one user
  more, active, with the role \<open>User\<close> and the hash of the password; and with the token of the last
  answer as its bearer token, \<open>GET /v1/users/me\<close> is answered with 200 and the view of that user, until
  the token expires.
\<close>

theorem account_over_http:
  fixes w :: "('c, 'd) ctx web" and rid fresh :: "nat \<Rightarrow> string"
  assumes laws: "app_laws (si_app W) strs lsts life tables committed ilike"
    and F: "reads_texts F" and rid: "\<forall>i. rid i \<noteq> []"
    and q1: "calls ''POST'' ''/v1/auth/register'' q1" "sends F (login_body fp l p) q1"
    and q2: "calls ''POST'' ''/v1/auth/register/confirm'' q2" "sends F [(''code'', PStr (en_code E1))] q2"
    and q3: "calls ''POST'' ''/v1/auth/login'' q3" "sends F (login_body fp' l p) q3"
    and valid: "valid_login l" "valid_password p" "l \<noteq> []"
    and code: "plain_key (code_key (en_code E1))" "lsts (cx_cache (wb_world w)) (code_key (en_code E1)) = []"
    and free: "\<forall>u. known_uuid (ap_auth (si_app W)) u \<longrightarrow>
      strs (cx_cache (wb_world w)) (uuid_str u) = None \<and> uuid_str u \<noteq> code_key (en_code E1)"
    and new: "l \<notin> u_login ` set (db_users (committed (cx_db (wb_world w))))"
    and role: "\<exists>role \<in> set (db_roles (committed (cx_db (wb_world w)))). r_name role = USER"
    and time: "0 \<le> en_clock E2 0" "0 \<le> en_clock E2 1" "0 \<le> en_clock E3 0" "0 \<le> en_clock E3 1"
    and guard: "\<forall>i \<in> {0, 1}. en_clock E3 0 \<le> en_guard E4 i \<and>
      en_guard E4 i < (en_clock E3 0 + life Access) div 1000000 * 1000000"
  defines "w1 \<equiv> snd (application F W E1 (rid 1) (fresh 1) q1 w)"
  defines "w2 \<equiv> snd (application F W E2 (rid 2) (fresh 2) q2 w1)"
  defines "w3 \<equiv> snd (application F W E3 (rid 3) (fresh 3) q3 w2)"
  shows "\<exists>a1 a2 a3 token.
    fst (application F W E1 (rid 1) (fresh 1) q1 w) = Inr a1 \<and> hp_status a1 = 200 \<and>
    fst (application F W E2 (rid 2) (fresh 2) q2 w1) = Inr a2 \<and> hp_status a2 = 200 \<and>
    fst (application F W E3 (rid 3) (fresh 3) q3 w2) = Inr a3 \<and> hp_status a3 = 200 \<and>
    hp_content a3 = token_contract token \<and>
    (\<exists>role h u now. role \<in> set (db_roles (committed (cx_db (wb_world w)))) \<and> r_name role = USER \<and>
      h_hash_password (ap_hasher (si_app W)) p = Inr h \<and>
      committed (cx_db (wb_world w3)) = committed (cx_db (wb_world w))\<lparr>db_users :=
        db_users (committed (cx_db (wb_world w))) @ [new_user l h (r_uuid role) u now]\<rparr> \<and>
      (\<forall>q4. calls ''GET'' ''/v1/users/me'' q4 \<and> extract_bearer (si_scheme_param W) q4 = Inr token \<longrightarrow>
        (\<exists>a4. fst (application F W E4 (rid 4) (fresh 4) q4 w3) = Inr a4 \<and> hp_status a4 = 200 \<and>
          hp_content a4 = user_contract
            (user_view ((new_user l h (r_uuid role) u now)\<lparr>u_role := Loaded (Some role)\<rparr>)))))"
proof -
  let ?s = "wb_world w" and ?A = "si_app W"
  let ?r = "\<lparr>rg_login = l, rg_password = p, rg_fingerprint = fp\<rparr>"
  let ?login = "\<lparr>lg_login = l, lg_password = p, lg_fingerprint = fp'\<rparr>"
  define s1 where "s1 = snd (register ?A (en_code E1) ?r ?s)"
  define s2 where "s2 = snd (confirm ?A (en_clock E2) (en_code E1) s1)"
  define s3 where "s3 = snd (login_user ?A (en_clock E3) ?login s2)"
  obtain res res' role h u now user where flow:
    "fst (register ?A (en_code E1) ?r ?s) = Inr \<lparr>st_status = True\<rparr>"
    "fst (confirm ?A (en_clock E2) (en_code E1) s1) = Inr res"
    "fst (login_user ?A (en_clock E3) ?login s2) = Inr res'"
    and role': "role \<in> set (db_roles (committed (cx_db ?s)))" "r_name role = USER"
      "h_hash_password (ap_hasher ?A) p = Inr h"
    and user: "user = new_user l h (r_uuid role) u now" and known: "known_uuid (ap_auth ?A) u"
    and db: "committed (cx_db s2) =
        committed (cx_db ?s)\<lparr>db_users := db_users (committed (cx_db ?s)) @ [user]\<rparr>"
      "committed (cx_db s3) = committed (cx_db s2)"
    and logged: "fst (auth_login (ap_auth ?A) (en_clock E3) fp' u (cx_cache s2)) = Inr res'"
    and finds: "find (\<lambda>v. u_uuid v = u) (db_users (committed (cx_db s3))) = Some user"
      "find (\<lambda>x. r_uuid x = r_uuid role) (db_roles (committed (cx_db s3))) = Some role"
    using registration_flow [OF laws, where r = ?r and code = "en_code E1" and s = ?s and ts = "en_clock E2"
        and ts' = "en_clock E3" and fp = fp' and login = ?login and ?s1.0 = s1 and ?s2.0 = s2 and ?s3.0 = s3]
      valid code free new role time s1_def s2_def s3_def by simp metis
  let ?token = "tk_access (te_tokens res')"
  obtain a1 where a1: "fst (application F W E1 (rid 1) (fresh 1) q1 w) = Inr a1" "hp_status a1 = 200"
      "wb_world w1 = s1"
    using application_returns [OF _ routed(1) [OF q1(1)] register_route [OF F q1(2) valid(1,2) flow(1)],
        where rid = "rid 1" and fresh = "fresh 1"] rid
    by (auto simp: w1_def s1_def ok_response_def orjson_response_def)
  have c: "fst (confirm ?A (en_clock E2) (en_code E1) (wb_world w1)) = Inr res" by (simp add: a1(3) flow(2))
  obtain a2 where a2: "fst (application F W E2 (rid 2) (fresh 2) q2 w1) = Inr a2" "hp_status a2 = 200"
      "wb_world w2 = s2"
    using application_returns [OF _ routed(2) [OF q2(1)] confirm_route [OF F q2(2) c],
        where rid = "rid 2" and fresh = "fresh 2"] rid
    by (auto simp: w2_def s2_def a1(3) tokens_response_def ok_response_def orjson_response_def)
  have c: "fst (login_user ?A (en_clock E3) ?login (wb_world w2)) = Inr res'" by (simp add: a2(3) flow(3))
  obtain a3 where a3: "fst (application F W E3 (rid 3) (fresh 3) q3 w2) = Inr a3" "hp_status a3 = 200"
      "hp_content a3 = token_contract ?token" "wb_world w3 = s3"
    using application_returns [OF _ routed(3) [OF q3(1)] login_route_returns [OF F q3(2) valid(1,2) c],
        where rid = "rid 3" and fresh = "fresh 3"] rid
    by (auto simp: w3_def s3_def a2(3) tokens_response_def ok_response_def orjson_response_def)
  let ?view = "user_view (user\<lparr>u_role := Loaded (Some role)\<rparr>)"
  have user': "u_active user" "u_role_uuid user = r_uuid role" by (simp_all add: user new_user_def)
  have me: "\<exists>a4. fst (application F W E4 (rid 4) (fresh 4) q4 w3) = Inr a4 \<and> hp_status a4 = 200 \<and>
      hp_content a4 = user_contract ?view"
    if q4: "calls ''GET'' ''/v1/users/me'' q4" "extract_bearer (si_scheme_param W) q4 = Inr ?token" for q4
  proof -
    have ok: "fst (permission ?A t \<lparr>pm_permissions = [], pm_access_token = ?token\<rparr> s') = Inr ?view"
      if "t \<in> {en_guard E4 0, en_guard E4 1}" "committed (cx_db s') = committed (cx_db (wb_world w3))" for t s'
      using permission_after_login [OF laws logged known, of s' user role "[]" t] that guard time(3)
        finds user' by (auto simp: a3(4))
    have "find (\<lambda>v. u_uuid v = ur_uuid ?view) (db_users (committed (cx_db (wb_world w3)))) = Some user"
      using finds(1) by (simp add: a3(4) user_view_def user new_user_def)
    from get_me_route_returns [OF laws q4(2) ok this] have
      "fst (run_route F W E4 get_me_route [] (with_request_id (rid 4) q4) (wb_world w3)) =
        Inr (ok_response (user_contract ?view))"
      by (simp add: a3(4) with_loads_def user' finds(2))
    then obtain s' where "run_route F W E4 get_me_route [] (with_request_id (rid 4) q4) (wb_world w3) =
        (Inr (ok_response (user_contract ?view)), s')"
      by (cases "run_route F W E4 get_me_route [] (with_request_id (rid 4) q4) (wb_world w3)") simp
    from application_returns [OF rid [THEN spec] routed(4) [OF q4(1)] this, of "fresh 4"]
    show ?thesis by (auto simp: ok_response_def orjson_response_def)
  qed
  have db3: "committed (cx_db (wb_world w3)) = committed (cx_db ?s)\<lparr>db_users :=
      db_users (committed (cx_db ?s)) @ [new_user l h (r_uuid role) u now]\<rparr>"
    by (simp add: a3(4) db user)
  show ?thesis
    using a1(1,2) a2(1,2) a3(1-3) role' db3 me unfolding user by blast
qed

text \<open>The requests of \<open>eve\<close>, with forms as bodies.\<close>

definition eve_request :: "string \<Rightarrow> string \<Rightarrow> http_request" where
  "eve_request p b = example_request\<lparr>hr_method := ''POST'', hr_path := p, hr_body := b\<rparr>"

lemma eve_calls: "calls ''POST'' p (eve_request p b)"
  by (simp add: calls_def eve_request_def)

lemma eve_sends: "ref_body (eve_request p b) = Inr (Some (PDict d)) \<Longrightarrow> sends ref_framework d (eve_request p b)"
  by (auto simp: sends_def ref_framework_def ref_body_def with_request_id_def split: if_splits)

lemma eve_bodies:
  "ref_body (eve_request p ''fingerprint=phone&login=eve&password=secret-123'') =
    Inr (Some (PDict (login_body ''phone'' ''eve'' ''secret-123'')))"
  "ref_body (eve_request p ''code=c0de'') = Inr (Some (PDict [(''code'', PStr ''c0de'')]))"
  unfolding ref_body_def eve_request_def by code_simp+

theorem account_over_http_witness:
  "let run = \<lambda>p b. application ref_framework ref_site ref_env ''id'' ''f'' (eve_request p b);
      form = ''fingerprint=phone&login=eve&password=secret-123'';
      w1 = snd (run ''/v1/auth/register'' form \<lparr>wb_world = example_ctx, wb_log = []\<rparr>);
      w2 = snd (run ''/v1/auth/register/confirm'' ''code=c0de'' w1)
   in \<exists>a3 token. fst (run ''/v1/auth/login'' form w2) = Inr a3 \<and> hp_status a3 = 200 \<and>
     hp_content a3 = token_contract token"
proof -
  have texts: "reads_texts ref_framework" by (simp add: reads_texts_def ref_framework_def)
  have valid: "valid_login ''eve''" "valid_password ''secret-123''" using eve_simps by (simp_all add: eve_def)
  have code: "en_code ref_env = ''c0de''" by (simp add: ref_env_def)
  note flow = account_over_http [OF ref_site_app texts, where rid = "\<lambda>_. ''id''" and fresh = "\<lambda>_. ''f''"
      and ?E1.0 = ref_env and ?E2.0 = ref_env and ?E3.0 = ref_env and ?E4.0 = ref_env
      and w = "\<lparr>wb_world = example_ctx, wb_log = []\<rparr>", unfolded code, simplified,
      OF eve_calls eve_sends [OF eve_bodies(1)] eve_calls eve_sends [OF eve_bodies(2)] eve_calls
        eve_sends [OF eve_bodies(1)] valid]
  show ?thesis
    unfolding Let_def using flow example_code ref_code_free by auto
qed

end
