(* ===== verification/Reachability.thy ===== *)
theory Reachability
  imports Account_Flow
begin

text \<open>
  The life of the whole application: a site serves any requests, one after the other, and between
  them entries of the cache may expire.  The committed database then evolves by the steps of a small
  machine of accounts, and every state that can be reached is sound: passwords are stored as hashes,
  sessions are bounded, and a pending code holds a registration that was checked.
\<close>

section \<open>The machine of accounts\<close>

definition change_account ::
  "string option \<Rightarrow> uuid option \<Rightarrow> bool option \<Rightarrow> int \<Rightarrow> user_row \<Rightarrow> user_row" where
  "change_account password role active now u =
     u\<lparr>u_password := (case password of None \<Rightarrow> u_password u | Some h \<Rightarrow> h),
       u_role_uuid := (case role of None \<Rightarrow> u_role_uuid u | Some r \<Rightarrow> r),
       u_active := (case active of None \<Rightarrow> u_active u | Some b \<Rightarrow> b),
       u_updated_at := now\<rparr>"

definition hash_of_valid :: "('c, 'd) app \<Rightarrow> string \<Rightarrow> bool" where
  "hash_of_valid A h \<longleftrightarrow> (\<exists>p. valid_password p \<and> h_hash_password (ap_hasher A) p = Inr h)"

text \<open>
  A step under the users a request acts for, each with its role: nothing happens; a user with the
  role \<open>User\<close> joins; or one user is changed, in its password by itself, in any way by an
  administrator.
\<close>

inductive account_step :: "('c, 'd) app \<Rightarrow> (uuid \<times> role_type) set \<Rightarrow> db \<Rightarrow> db \<Rightarrow> bool"
  for A :: "('c, 'd) app" and actors :: "(uuid \<times> role_type) set" and D :: db where
  unchanged: "account_step A actors D D"
| joined: "role \<in> set (db_roles D) \<Longrightarrow> r_name role = USER \<Longrightarrow> valid_login login \<Longrightarrow>
    hash_of_valid A h \<Longrightarrow> known_uuid (ap_auth A) u \<Longrightarrow> u \<notin> u_uuid ` set (db_users D) \<Longrightarrow>
    login \<notin> u_login ` set (db_users D) \<Longrightarrow>
    account_step A actors D (D\<lparr>db_users := db_users D @ [new_user login h (r_uuid role) u now]\<rparr>)"
| changed: "\<forall>h. password = Some h \<longrightarrow> hash_of_valid A h \<Longrightarrow>
    \<forall>r. new_role = Some r \<longrightarrow> r \<in> r_uuid ` set (db_roles D) \<Longrightarrow>
    (\<exists>u. (u, ADMIN) \<in> actors) \<or> target \<in> fst ` actors \<and> new_role = None \<and> active = None \<Longrightarrow>
    account_step A actors D (D\<lparr>db_users := map (\<lambda>v. if u_uuid v = target
      then change_account password new_role active now v else v) (db_users D)\<rparr>)"

inductive_cases account_stepE: "account_step A actors D D'"

lemma account_step_mono:
  "account_step A actors D D' \<Longrightarrow> actors \<subseteq> actors' \<Longrightarrow> account_step A actors' D D'"
proof (induction rule: account_step.induct)
  case (changed password new_role target active now)
  then show ?case by (intro account_step.changed) blast+
qed (blast intro: account_step.intros)+

section \<open>Sound states\<close>

definition codes_sound ::
  "('c, 'd) app \<Rightarrow> ('c \<Rightarrow> string \<Rightarrow> string option) \<Rightarrow> ('c \<Rightarrow> string \<Rightarrow> string list) \<Rightarrow> 'c \<Rightarrow> bool" where
  "codes_sound A strs lsts c \<longleftrightarrow>
     (\<forall>code. lsts c (code_key code) = [] \<and>
       (\<forall>txt. strs c (code_key code) = Some txt \<longrightarrow> plain_key (code_key code) \<and>
         (\<exists>r. txt = ap_dump A r \<and> valid_login (rg_login r) \<and> valid_password (rg_password r))))"

definition accounts_sound :: "('c, 'd) app \<Rightarrow> db \<Rightarrow> bool" where
  "accounts_sound A D \<longleftrightarrow>
     (\<forall>u \<in> set (db_users D). known_uuid (ap_auth A) (u_uuid u) \<and> valid_login (u_login u) \<and>
       hash_of_valid A (u_password u))"

definition site_sound ::
  "('c, 'd) app \<Rightarrow> ('c \<Rightarrow> string \<Rightarrow> string option) \<Rightarrow> ('c \<Rightarrow> string \<Rightarrow> string list) \<Rightarrow> ('d \<Rightarrow> db) \<Rightarrow>
    ('c, 'd) ctx \<Rightarrow> bool" where
  "site_sound A strs lsts committed s \<longleftrightarrow>
     codes_sound A strs lsts (cx_cache s) \<and> sessions_bounded (ap_auth A) strs lsts (cx_cache s) \<and>
     accounts_sound A (committed (cx_db s))"

text \<open>The text of an identifier is none of the keys of the codes.\<close>

definition keys_apart :: "('c, 'd) app \<Rightarrow> bool" where
  "keys_apart A \<longleftrightarrow> (\<forall>u code. known_uuid (ap_auth A) u \<longrightarrow> uuid_str u \<noteq> code_key code)"

lemma accounts_sound_step:
  "account_step A actors D D' \<Longrightarrow> accounts_sound A D \<Longrightarrow> accounts_sound A D'"
  by (induction rule: account_step.induct)
    (auto simp: accounts_sound_def new_user_def change_account_def split: option.split)

lemma set_columns_change:
  "set_columns (set_field ''password'' PStr (map_option Some pw) @
      set_field ''role_uuid'' PUuid (map_option Some ro) @
      set_field ''active'' PBool (map_option Some ac)) u =
    u\<lparr>u_password := (case pw of None \<Rightarrow> u_password u | Some h \<Rightarrow> h),
      u_role_uuid := (case ro of None \<Rightarrow> u_role_uuid u | Some r \<Rightarrow> r),
      u_active := (case ac of None \<Rightarrow> u_active u | Some b \<Rightarrow> b)\<rparr>"
  by (cases pw; cases ro; cases ac) (simp_all add: set_field_def set_columns_def)

context app_laws
begin

abbreviation cache_sound :: "'c \<Rightarrow> bool" where
  "cache_sound c \<equiv> codes_sound A strs lists c \<and> sessions_bounded (ap_auth A) strs lists c"

text \<open>A change of the sessions of one user, within the bound, keeps the cache sound.\<close>

lemma cache_sound_sessions:
  assumes "keys_apart A" and "cache_sound c" and "known_uuid (ap_auth A) u"
    and "strs d = strs c" and "lists d = (lists c)(uuid_str u := es)"
    and "length es \<le> DEFAULT_TOKENS_COUNT + 1"
  shows "cache_sound d"
proof -
  have "code_key code \<noteq> uuid_str u" for code
    using assms(1,3) by (metis keys_apart_def)
  with assms(2,4-6) show ?thesis by (auto simp: codes_sound_def sessions_bounded_def)
qed

lemma cache_sound_facts:
  "cache_sound c \<Longrightarrow> known_uuid (ap_auth A) u \<Longrightarrow> strs c (uuid_str u) = None"
  "cache_sound c \<Longrightarrow> known_uuid (ap_auth A) u \<Longrightarrow> length (lists c (uuid_str u)) \<le> DEFAULT_TOKENS_COUNT + 1"
  "cache_sound c \<Longrightarrow> lists c (code_key code) = []"
  "cache_sound c \<Longrightarrow> strs c (code_key code) = Some txt \<Longrightarrow> plain_key (code_key code) \<and>
    (\<exists>r. txt = ap_dump A r \<and> valid_login (rg_login r) \<and> valid_password (rg_password r))"
  by (auto simp: codes_sound_def sessions_bounded_def)

lemma cache_sound_login:
  assumes "keys_apart A" and "cache_sound c" and "known_uuid (ap_auth A) u" and "0 \<le> ts 0" and "0 \<le> ts 1"
  shows "cache_sound (snd (auth_login (ap_auth A) ts fp u c))"
proof -
  obtain res :: tokens_expire where "strs (snd (auth_login (ap_auth A) ts fp u c)) = strs c"
    "lists (snd (auth_login (ap_auth A) ts fp u c)) = (lists c)(uuid_str u :=
      sessions_after_login (lists c (uuid_str u)) (session_entry fp (tk_refresh (te_tokens res))))"
    using auth.login_spec [OF assms(4,5,3) cache_sound_facts(1) [OF assms(2,3)], of fp] by blast
  from cache_sound_sessions [OF assms(1-3) this sessions_after_login_length] show ?thesis .
qed

lemma cache_sound_refresh:
  assumes "keys_apart A" and "cache_sound c" and "0 \<le> ts 1" and "0 \<le> ts 2"
  shows "cache_sound (snd (auth_verify_refresh (ap_auth A) ts fp tok c))"
proof (cases "fst (auth_verify_token (ap_auth A) (ts 0) tok Refresh c)")
  case (Inl e)
  from auth.refresh_token_refused [where ts = ts, OF this] assms(2) show ?thesis by simp
next
  case (Inr u)
  have v: "auth_verify_token (ap_auth A) (ts 0) tok Refresh c = (Inr u, c)"
    by (rule auth.verify_token_any_state [OF Inr])
  have known: "known_uuid (ap_auth A) u" by (rule auth.verify_token_known [OF Inr])
  note facts = cache_sound_facts(1,2) [OF assms(2) known]
  show ?thesis
  proof (cases "\<exists>e. find_pair fp tok (lists c (uuid_str u)) = Verified e")
    case True
    then obtain e where e: "find_pair fp tok (lists c (uuid_str u)) = Verified e" ..
    then have "e \<in> set (lists c (uuid_str u))" using find_pair_verified by blast
    then have len: "length (sessions_after_refresh (lists c (uuid_str u)) e x) \<le> DEFAULT_TOKENS_COUNT + 1" for x
      using sessions_after_refresh_length facts(2) by (meson le_trans)
    obtain res :: tokens_expire where "strs (snd (auth_verify_refresh (ap_auth A) ts fp tok c)) = strs c"
      "lists (snd (auth_verify_refresh (ap_auth A) ts fp tok c)) = (lists c)(uuid_str u :=
        sessions_after_refresh (lists c (uuid_str u)) e (session_entry fp (tk_refresh (te_tokens res))))"
      using auth.refresh_verified [where ts = ts, OF v facts(1) e assms(3,4)] by blast
    from cache_sound_sessions [OF assms(1,2) known this len] show ?thesis .
  next
    case False
    then have "\<forall>e. find_pair fp tok (lists c (uuid_str u)) \<noteq> Verified e" by blast
    from auth.refresh_rejected(2,3) [where ts = ts, OF v known facts(1) this]
    show ?thesis by (rule cache_sound_sessions [OF assms(1,2) known]) simp
  qed
qed

lemma cache_sound_logout:
  assumes "keys_apart A" and "cache_sound c" and "known_uuid (ap_auth A) u"
  shows "cache_sound (snd (auth_invalidate_refresh (ap_auth A) ts tok u c))"
proof (cases "fst (auth_verify_token (ap_auth A) (ts 0) tok Refresh c)")
  case (Inl e)
  from auth.logout_token_refused [where ts = ts, OF this] assms(2) show ?thesis by simp
next
  case (Inr u')
  note facts = cache_sound_facts(1,2) [OF assms(2,3)]
  have len: "length (filter P (lists c (uuid_str u))) \<le> DEFAULT_TOKENS_COUNT + 1" for P
    using length_filter_le facts(2) by (rule le_trans)
  from auth.logout_spec(2,3) [where ts = ts, OF auth.verify_token_any_state [OF Inr] assms(3) facts(1)]
  show ?thesis
    by (rule cache_sound_sessions [OF assms]) (use len facts(2) in \<open>auto split: scan.split\<close>)
qed

lemma cache_sound_register:
  assumes "cache_sound (cx_cache s)" and "keys_apart A" and "plain_key (code_key code)"
    and "valid_login (rg_login r)" and "valid_password (rg_password r)"
  shows "cache_sound (cx_cache (snd (register A code r s)))"
    and "committed (cx_db (snd (register A code r s))) = committed (cx_db s)"
proof -
  note spec = register_spec [OF cache_sound_facts(3) [OF assms(1)], of code r]
  have "uuid_str u \<noteq> code_key code" if "known_uuid (ap_auth A) u" for u
    using assms(2) that by (simp add: keys_apart_def)
  then show "cache_sound (cx_cache (snd (register A code r s)))"
    using assms(1,3-5) spec(3,4) by (auto simp: codes_sound_def sessions_bounded_def)
  show "committed (cx_db (snd (register A code r s))) = committed (cx_db s)" by (rule spec(1))
qed

text \<open>The database block of a confirmation, as a step of the machine.\<close>

lemma confirm_user_step:
  assumes "valid_login (rg_login r)" and "valid_password (rg_password r)"
  shows "account_step A actors (committed d) (committed (snd (in_database (ap_session A) (confirm_user A r) d)))"
    and "fst (in_database (ap_session A) (confirm_user A r) d) = Inr v \<Longrightarrow> known_uuid (ap_auth A) (u_uuid v)"
proof -
  note spec = confirm_user_spec [of d r]
  have h: "hash_of_valid A h" if "h_hash_password (ap_hasher A) (rg_password r) = Inr h" for h
    using that assms(2) by (auto simp: hash_of_valid_def)
  show "account_step A actors (committed d) (committed (snd (in_database (ap_session A) (confirm_user A r) d)))"
    using spec assms(1) by (elim disjE exE conjE) (auto intro: account_step.intros h)
  show "fst (in_database (ap_session A) (confirm_user A r) d) = Inr v \<Longrightarrow> known_uuid (ap_auth A) (u_uuid v)"
    using spec by (auto simp: new_user_def)
qed

lemma confirm_step:
  assumes "cache_sound (cx_cache s)" and "keys_apart A" and "0 \<le> ts 0" and "0 \<le> ts 1"
  shows "cache_sound (cx_cache (snd (confirm A ts code s))) \<and>
    account_step A actors (committed (cx_db s)) (committed (cx_db (snd (confirm A ts code s))))"
proof (cases "truthy_str (strs (cx_cache s) (code_key code))")
  case False
  from confirm_no_code [OF cache_sound_facts(3) [OF assms(1)] this] assms(1)
  show ?thesis by (simp add: account_step.unchanged)
next
  case True
  then obtain t where t: "strs (cx_cache s) (code_key code) = Some t" "t \<noteq> []"
    by (cases "strs (cx_cache s) (code_key code)") auto
  obtain r where r: "plain_key (code_key code)" "t = ap_dump A r" "valid_login (rg_login r)"
    "valid_password (rg_password r)"
    using cache_sound_facts(4) [OF assms(1) t(1)] by blast
  note none = cache_sound_facts(3) [OF assms(1), of code]
  let ?c = "code_deleted code (cx_cache s)"
  have "uuid_str u \<noteq> code_key code" if "known_uuid (ap_auth A) u" for u
    using assms(2) that by (simp add: keys_apart_def)
  then have c: "cache_sound ?c"
    using assms(1) code_deleted_views [OF r(1) none]
    by (auto simp: codes_sound_def sessions_bounded_def)
  note db = confirm_user_step [OF r(3,4), where d = "cx_db s"]
  note login = cache_sound_login [OF assms(2) c _ assms(3,4)]
  show ?thesis
    using c db login json [OF r(3,4)]
    by (auto simp: confirm_code [OF r(1) none t] r(2) Let_def io_focus_def split: sum.split)
qed

lemma login_step:
  assumes "cache_sound (cx_cache s)" and "keys_apart A" and "accounts_sound A (committed (cx_db s))"
    and "0 \<le> ts 0" and "0 \<le> ts 1"
  shows "cache_sound (cx_cache (snd (login_user A ts r s)))"
    and "committed (cx_db (snd (login_user A ts r s))) = committed (cx_db s)"
proof -
  have "known_uuid (ap_auth A) (u_uuid u)" if "find P (db_users (committed (cx_db s))) = Some u" for u P
    using that assms(3) by (auto simp: accounts_sound_def dest: find_SomeD)
  then show "cache_sound (cx_cache (snd (login_user A ts r s)))"
    using login_user_cases(2) [of r ts s] login_user_empty(1) [of r ts s] assms(1)
      cache_sound_login [OF assms(2,1) _ assms(4,5)]
    by (cases "lg_login r = []") (auto split: option.split)
  show "committed (cx_db (snd (login_user A ts r s))) = committed (cx_db s)"
    using login_user_cases(3) login_user_empty(2) by blast
qed

lemma select_frames:
  "cx_cache (snd (select_user A q s)) = cx_cache s"
  "committed (cx_db (snd (select_user A q s))) = committed (cx_db s)"
  "cx_cache (snd (select_many_user A m s)) = cx_cache s"
  "committed (cx_db (snd (select_many_user A m s))) = committed (cx_db s)"
proof -
  have fr: "session_frame (ap_session A) committed (io_map (\<lambda>user. io_lift (user_result_from user)) users)"
    for users :: "user_row list"
    by (induction users) (auto intro!: frames)
  have "session_frame (ap_session A) committed
      (io_bind (io_bind (user_select (ss_user (ap_session A)) loads i l) result_of)
        (\<lambda>user. io_lift (user_result_from user)))" for loads i l
    by (intro frames)
  note one = db.in_session_spec(2) [OF this]
  have "session_frame (ap_session A) committed
      (io_bind (io_bind (user_select_many (ss_user (ap_session A)) ls lg ru ob os lm) result_of)
        (\<lambda>(total, users). io_bind (io_map (\<lambda>user. io_lift (user_result_from user)) users) (\<lambda>results.
          io_return \<lparr>or_data = results, or_offset = os, or_limit = lm, or_total = total\<rparr>)))"
    for ls lg ru ob os lm
    by (intro frames) (auto simp: split_beta intro!: frames fr)
  note many = db.in_session_spec(2) [OF this]
  show "cx_cache (snd (select_user A q s)) = cx_cache s"
    "committed (cx_db (snd (select_user A q s))) = committed (cx_db s)"
    "cx_cache (snd (select_many_user A m s)) = cx_cache s"
    "committed (cx_db (snd (select_many_user A m s))) = committed (cx_db s)"
    by (simp_all add: select_user_def select_many_user_def Let_def io_focus_def one many)
qed

text \<open>The fields of an update without a \<open>null\<close>.\<close>

lemma given_fields:
  assumes "vals = (case up_password r of
        Some (Some plain) \<Rightarrow> [(''password'', PStr (projr (h_hash_password (ap_hasher A) plain)))]
      | Some None \<Rightarrow> [(''password'', PNone)] | None \<Rightarrow> []) @
      set_field ''role_uuid'' PUuid (up_role_uuid r) @ set_field ''active'' PBool (up_active r)"
    and "PNone \<notin> snd ` set vals"
  shows "\<exists>pw ro ac. up_password r = map_option Some pw \<and> up_role_uuid r = map_option Some ro \<and>
    up_active r = map_option Some ac \<and>
    vals = set_field ''password'' PStr
        (map_option Some (map_option (\<lambda>p. projr (h_hash_password (ap_hasher A) p)) pw)) @
      set_field ''role_uuid'' PUuid (map_option Some ro) @ set_field ''active'' PBool (map_option Some ac)"
proof -
  have "x \<noteq> Some None \<Longrightarrow> \<exists>y. x = map_option Some y" for x :: "'z option option"
    by (cases x) (auto intro: exI [of _ None] exI [of _ "Some _"])
  moreover have "up_password r \<noteq> Some None" "up_role_uuid r \<noteq> Some None" "up_active r \<noteq> Some None"
    using assms by (auto simp: set_field_def)
  ultimately obtain pw ro ac where f: "up_password r = map_option Some pw"
    "up_role_uuid r = map_option Some ro" "up_active r = map_option Some ac"
    by metis
  then show ?thesis
    using assms(1) by (intro exI [of _ pw] exI [of _ ro] exI [of _ ac]) (cases pw, simp_all add: set_field_def)
qed

text \<open>An update, as a step of the machine.\<close>

lemma update_user_step:
  assumes "\<forall>p. up_password r = Some (Some p) \<longrightarrow> valid_password p"
    and "(\<exists>u. (u, ADMIN) \<in> actors) \<or>
      up_user_uuid r \<in> fst ` actors \<and> up_role_uuid r = None \<and> up_active r = None"
  shows "account_step A actors (committed (cx_db s)) (committed (cx_db (snd (update_user A r s))))"
    and "cx_cache (snd (update_user A r s)) = cx_cache s"
proof -
  let ?D = "committed (cx_db s)" and ?d = "db.begun (cx_db s)"
  let ?upd = "\<lambda>vals. user_update (ss_user (ap_session A)) (up_user_uuid r) vals ?d"
  have t: "tables ?d = ?D" by (rule db.begun_views(1))
  show "cx_cache (snd (update_user A r s)) = cx_cache s" by (simp add: update_user_def io_focus_def)
  obtain vals where vals: "hash_field (ap_hasher A) (dump_update r) = Inr vals"
    "vals = (case up_password r of
        Some (Some plain) \<Rightarrow> [(''password'', PStr (projr (h_hash_password (ap_hasher A) plain)))]
      | Some None \<Rightarrow> [(''password'', PNone)] | None \<Rightarrow> []) @
      set_field ''role_uuid'' PUuid (up_role_uuid r) @ set_field ''active'' PBool (up_active r)"
    using hash_field_ok by blast
  note run = update_user_run [OF vals(1), of s]
  have same: "account_step A actors ?D (committed (cx_db (snd (update_user A r s))))"
    if "fst (?upd vals) = Inr (Result EUpdate None) \<or> (\<exists>e. fst (?upd vals) = Inl e)"
    using that run by (auto intro: account_step.unchanged)
  show "account_step A actors ?D (committed (cx_db (snd (update_user A r s))))"
  proof (cases "up_user_uuid r \<in> u_uuid ` set (db_users ?D)")
    case False
    then show ?thesis
      using db.user_update_missing [of "up_user_uuid r" ?d vals] t by (intro same) simp
  next
    case target: True
    then obtain u where u: "u \<in> set (db_users ?D)" "u_uuid u = up_user_uuid r" by auto
    show ?thesis
    proof (cases "PNone \<in> snd ` set vals")
      case True
      then show ?thesis
        using db.user_update_null [of "up_user_uuid r" ?d vals] target t by (intro same) auto
    next
      case no_null: False
      obtain pw ro ac where f: "up_password r = map_option Some pw" "up_role_uuid r = map_option Some ro"
        "up_active r = map_option Some ac"
        and v: "vals = set_field ''password'' PStr
            (map_option Some (map_option (\<lambda>p. projr (h_hash_password (ap_hasher A) p)) pw)) @
          set_field ''role_uuid'' PUuid (map_option Some ro) @ set_field ''active'' PBool (map_option Some ac)"
        using given_fields [OF vals(2) no_null] by blast
      let ?pw = "map_option (\<lambda>p. projr (h_hash_password (ap_hasher A) p)) pw"
      show ?thesis
      proof (cases "\<exists>x. ro = Some x \<and> x \<notin> r_uuid ` set (db_roles ?D)")
        case True
        then obtain x where "ro = Some x" "x \<notin> r_uuid ` set (db_roles ?D)" by blast
        then show ?thesis
          using db.user_update_foreign [of "up_user_uuid r" ?d vals x] target no_null v t
          by (intro same) (simp add: set_field_def)
      next
        case role: False
        have sub: "set vals \<subseteq> ({''password''} \<times> range PStr) \<union> ({''active''} \<times> range PBool) \<union>
            ({''role_uuid''} \<times> PUuid ` r_uuid ` set (db_roles (tables ?d)))"
          using v role unfolding t by (cases pw; cases ro; cases ac) (auto simp: set_field_def)
        obtain now where
          "fst (?upd vals) = Inr (Result EUpdate (Some ((set_columns vals u)\<lparr>u_updated_at := now\<rparr>)))"
          "tables (snd (?upd vals)) = ?D\<lparr>db_users := map (\<lambda>v. if u_uuid v = up_user_uuid r
              then (set_columns vals v)\<lparr>u_updated_at := now\<rparr> else v) (db_users ?D)\<rparr>"
          using db.user_update_ok [OF _ u(2) sub] u(1) unfolding t by blast
        then have "committed (cx_db (snd (update_user A r s))) =
            ?D\<lparr>db_users := map (\<lambda>v. if u_uuid v = up_user_uuid r
              then change_account ?pw ro ac now v else v) (db_users ?D)\<rparr>"
          using run by (simp add: v set_columns_change change_account_def)
        moreover have "hash_of_valid A (projr (h_hash_password (ap_hasher A) p))" if "pw = Some p" for p
          using that f(1) assms(1) hasher.hash [of p] by (auto simp: hash_of_valid_def intro!: exI [of _ p])
        ultimately show ?thesis
          using role f assms(2) by (auto intro!: account_step.changed)
      qed
    qed
  qed
qed

end

section \<open>Requests as steps\<close>

text \<open>The users a request acts for, at the times its guards run.\<close>

definition actors ::
  "('c, 'd) site \<Rightarrow> ('d \<Rightarrow> db) \<Rightarrow> request_env \<Rightarrow> http_request \<Rightarrow> ('c, 'd) ctx \<Rightarrow> (uuid \<times> role_type) set" where
  "actors W committed E r s =
     {(u_uuid u, r_name role) |u role t. t \<in> {en_guard E 0, en_guard E 1} \<and> acts_as W committed t r s u role}"

text \<open>What a request does to a sound site: one step of the machine, and the cache stays sound.\<close>

definition steps_soundly ::
  "('c, 'd) site \<Rightarrow> ('c \<Rightarrow> string \<Rightarrow> string option) \<Rightarrow> ('c \<Rightarrow> string \<Rightarrow> string list) \<Rightarrow> ('d \<Rightarrow> db) \<Rightarrow>
    request_env \<Rightarrow> http_request \<Rightarrow> ('c, 'd) ctx \<Rightarrow> ('c, 'd) ctx \<Rightarrow> bool" where
  "steps_soundly W strs lsts committed E r s s' \<longleftrightarrow>
     codes_sound (si_app W) strs lsts (cx_cache s') \<and> sessions_bounded (ap_auth (si_app W)) strs lsts (cx_cache s') \<and>
     account_step (si_app W) (actors W committed E r s) (committed (cx_db s)) (committed (cx_db s'))"

definition sane_env :: "request_env \<Rightarrow> bool" where
  "sane_env E \<longleftrightarrow> (\<forall>i. 0 \<le> en_clock E i) \<and> plain_key (code_key (en_code E))"

lemma steps_soundly_same:
  "site_sound (si_app W) strs lsts committed s \<Longrightarrow> cx_cache s' = cx_cache s \<Longrightarrow>
    committed (cx_db s') = committed (cx_db s) \<Longrightarrow> steps_soundly W strs lsts committed E r s s'"
  by (simp add: steps_soundly_def site_sound_def account_step.unchanged)

text \<open>A guard in front of a computation: what it sees is what the guard saw.\<close>

lemma guarded_step:
  assumes "site_sound (si_app W) strs lsts committed s"
    and "cx_cache (snd (g s)) = cx_cache s" and "committed (cx_db (snd (g s))) = committed (cx_db s)"
    and "\<And>x. fst (g s) = Inr x \<Longrightarrow> steps_soundly W strs lsts committed E r s (snd (f x (snd (g s))))"
  shows "steps_soundly W strs lsts committed E r s (snd (io_bind g f s))"
  using assms steps_soundly_same [OF assms(1-3), of E r]
  by (auto simp: io_bind_def split: sum.split)

lemma answered_step:
  "steps_soundly W strs lsts committed E r s (snd (m s')) \<Longrightarrow>
    steps_soundly W strs lsts committed E r s (snd (io_bind m (\<lambda>x. io_return (k x)) s'))"
  by (simp add: io_bind_def io_apply split: sum.split)

lemma lifted_step:
  "(\<And>x. v = Inr x \<Longrightarrow> steps_soundly W strs lsts committed E r s (snd (f x s))) \<Longrightarrow>
    site_sound (si_app W) strs lsts committed s \<Longrightarrow>
    steps_soundly W strs lsts committed E r s (snd (io_bind (io_lift v) f s))"
  by (cases v) (simp_all add: io_bind_def io_lift_def steps_soundly_same)

text \<open>A site: an application whose identifiers are none of the keys of its codes.\<close>

locale site_laws = app_laws "si_app W" strs lists life tables committed ilike
  for W :: "('c, 'd) site" and strs and lists and life and tables and committed :: "'d \<Rightarrow> db" and ilike +
  assumes apart: "keys_apart (si_app W)"
begin

abbreviation sound :: "('c, 'd) ctx \<Rightarrow> bool" where
  "sound \<equiv> site_sound (si_app W) strs lists committed"

abbreviation goes :: "request_env \<Rightarrow> http_request \<Rightarrow> ('c, 'd) ctx \<Rightarrow> ('c, 'd) ctx \<Rightarrow> bool" where
  "goes \<equiv> steps_soundly W strs lists committed"

lemma site_is: "app_laws (si_app W) strs lists life tables committed ilike"
  by unfold_locales

lemma sound_parts:
  assumes "sound s"
  shows "cache_sound (cx_cache s)" "accounts_sound (si_app W) (committed (cx_db s))"
  using assms by (auto simp: site_sound_def)

lemma public_calls:
  assumes "sound s" and "sane_env E" and "valid_call c"
    and c: "c \<in> {HealthCall, SignOutCall, GetMeCall} \<union> range RegisterCall \<union> range ConfirmCall \<union>
      range SignInCall \<union> range RenewCall" "c \<noteq> SignOutCall" "c \<noteq> GetMeCall"
  shows "goes E r s (snd (run_call W E r c s))"
proof -
  have ts: "0 \<le> en_clock E i" for i using assms(2) by (simp add: sane_env_def)
  note parts = sound_parts [OF assms(1)]
  note same = steps_soundly_same [OF assms(1)]
  have ok: "goes E r s s'" if "cache_sound (cx_cache s')" "committed (cx_db s') = committed (cx_db s)" for s'
    using that by (simp add: steps_soundly_def account_step.unchanged)
  consider "c = HealthCall" | b where "c = RegisterCall b" | code where "c = ConfirmCall code"
    | b where "c = SignInCall b" | fp where "c = RenewCall fp"
    using c by blast
  then show ?thesis
  proof cases
    case 1
    then show ?thesis by (simp add: healthcheck_endpoint_def io_apply same)
  next
    case (2 b)
    have "goes E r s (snd (register (si_app W) (en_code E) q s))"
      if "make_register_request (lc_login b) (lc_password b) (lc_fingerprint b) = Inr q" for q
      using that assms(2) by (intro ok cache_sound_register [OF parts(1) apart])
        (auto simp: make_register_request_def sane_env_def split: if_splits)
    then show ?thesis
      by (simp add: 2 register_endpoint_def lifted_step [OF _ assms(1)] answered_step)
  next
    case (3 code)
    from confirm_step [OF parts(1) apart ts ts, where code = code]
    have "goes E r s (snd (confirm (si_app W) (en_clock E) code s))" by (simp add: steps_soundly_def)
    then show ?thesis by (simp add: 3 confirm_register_endpoint_def answered_step)
  next
    case (4 b)
    have "goes E r s (snd (login_user (si_app W) (en_clock E) q s))" for q
      by (intro ok login_step [OF parts(1) apart parts(2) ts ts])
    then show ?thesis by (simp add: 4 login_endpoint_def lifted_step [OF _ assms(1)] answered_step)
  next
    case (5 fp)
    have "goes E r s (snd (refresh_token (si_app W) (en_clock E) q s))" for q
      using parts(1) by (intro ok)
        (auto simp: refresh_token_def io_focus_def io_apply intro!: cache_sound_refresh [OF apart _ ts ts])
    then show ?thesis by (simp add: 5 refresh_endpoint_def answered_step)
  qed
qed

lemma user_calls:
  assumes "sound s" and "valid_call c" and "c \<in> {SignOutCall, GetMeCall} \<union> range UpdateSelfCall"
  shows "goes E r s (snd (run_call W E r c s))"
proof -
  note parts = sound_parts [OF assms(1)] and same = steps_soundly_same [OF assms(1)]
  let ?g = "user_guard W (en_guard E 0) (en_guard E 1) r"
  note frame = user_guard_frame [OF site_is, of "en_guard E 0" "en_guard E 1" r s]
  let ?s = "snd (?g s)"
  have guard: "goes E r s (snd (io_bind ?g f s))"
    if "\<And>view. fst (?g s) = Inr view \<Longrightarrow> known_uuid (ap_auth (si_app W)) (ur_uuid view) \<Longrightarrow>
      ur_uuid view \<in> fst ` actors W committed E r s \<Longrightarrow> goes E r s (snd (f view ?s))"
    for f :: "user_result \<Rightarrow> (('c, 'd) ctx, http_response) io"
  proof (rule guarded_step [where g = ?g, OF assms(1) frame])
    fix view assume v: "fst (?g s) = Inr view"
    from user_guard_grants [OF site_is this] obtain u role where
      u: "acts_as W committed (en_guard E 1) r s u role" "ur_uuid view = u_uuid u" by blast
    show "goes E r s (snd (f view ?s))"
      by (rule that [OF v])
        (use u parts(2) in \<open>force simp: accounts_sound_def acts_as_def actors_def\<close>)+
  qed
  have ok: "goes E r s s'" if "cache_sound (cx_cache s')" "committed (cx_db s') = committed (cx_db s)" for s'
    using that by (simp add: steps_soundly_def account_step.unchanged)
  consider "c = SignOutCall" | "c = GetMeCall" | p where "c = UpdateSelfCall p" using assms(3) by blast
  then show ?thesis
  proof cases
    case 1
    have "goes E r s (snd (logout (si_app W) (en_clock E) q ?s))"
      if "known_uuid (ap_auth (si_app W)) (lo_user_uuid q)" for q
      using parts(1) frame that by (intro ok)
        (auto simp: logout_def io_focus_def io_apply io_bind_def split: sum.split intro!: cache_sound_logout [OF apart])
    then show ?thesis
      unfolding 1 run_call.simps logout_endpoint_def by (intro guard answered_step) simp
  next
    case 2
    show ?thesis
      unfolding 2 run_call.simps get_me_endpoint_def
      by (intro guard answered_step same) (simp_all only: select_frames frame)
  next
    case (3 p)
    have "goes E r s (snd (update_user (si_app W) q ?s))"
      if "\<forall>p. up_password q = Some (Some p) \<longrightarrow> valid_password p"
        "up_user_uuid q \<in> fst ` actors W committed E r s" "up_role_uuid q = None" "up_active q = None" for q
      using update_user_step [of q "actors W committed E r s" ?s] that frame parts(1)
      by (simp add: steps_soundly_def)
    then show ?thesis
      using assms(2) unfolding 3 run_call.simps update_self_endpoint_def
      by (intro guard answered_step) (simp_all split: option.splits)
  qed
qed

lemma admin_calls:
  assumes "sound s" and "valid_call c"
    and "c = SelectUsersCall l i p ls \<or> c = SelectUserCall u ls \<or> c = UpdateUserCall u b"
  shows "goes E r s (snd (run_call W E r c s))"
proof -
  note parts = sound_parts [OF assms(1)] and same = steps_soundly_same [OF assms(1)]
  let ?g = "admin_guard W (en_guard E 0) r"
  have frame: "cx_cache (snd (?g s)) = cx_cache s" "committed (cx_db (snd (?g s))) = committed (cx_db s)"
    by (simp_all add: admin_guard_def authorization_frame [OF site_is])
  let ?s = "snd (?g s)"
  have guard: "goes E r s (snd (io_bind ?g f s))"
    if "\<And>view x. fst (?g s) = Inr view \<Longrightarrow> (x, ADMIN) \<in> actors W committed E r s \<Longrightarrow>
      goes E r s (snd (f view ?s))"
    for f :: "user_result \<Rightarrow> (('c, 'd) ctx, http_response) io"
  proof (rule guarded_step [where g = ?g, OF assms(1) frame])
    fix view assume v: "fst (?g s) = Inr view"
    from authorization_grants [OF site_is v [unfolded admin_guard_def]] obtain w role where
      w: "acts_as W committed (en_guard E 0) r s w role" "role_type_value (r_name role) = ''Admin''" by auto
    then have "r_name role = ADMIN" by (cases "r_name role") auto
    with w(1) have "(u_uuid w, ADMIN) \<in> actors W committed E r s" by (force simp: actors_def)
    then show "goes E r s (snd (f view ?s))" by (rule that [OF v])
  qed
  have "goes E r s (snd (update_user (si_app W) q ?s))"
    if "(x, ADMIN) \<in> actors W committed E r s"
      "\<forall>p. up_password q = Some (Some p) \<longrightarrow> valid_password p" for q x
    using update_user_step [OF that(2) disjI1 [OF exI [where P = "\<lambda>u. (u, ADMIN) \<in> actors W committed E r s",
          OF that(1)]], of ?s] frame parts(1)
    by (simp add: steps_soundly_def)
  then show ?thesis
    using assms(2,3)
    by (auto simp: select_users_endpoint_def select_user_endpoint_def update_user_endpoint_def
        valid_update_def frame same select_frames intro!: guard answered_step)
qed

lemma call_goes:
  assumes "sound s" and "sane_env E" and "valid_call c"
  shows "goes E r s (snd (run_call W E r c s))"
proof (cases c)
  case (SelectUsersCall l i p ls)
  then show ?thesis using admin_calls [OF assms(1,3)] by blast
next
  case (SelectUserCall u ls)
  then show ?thesis using admin_calls [OF assms(1,3)] by blast
next
  case (UpdateUserCall u b)
  then show ?thesis using admin_calls [OF assms(1,3)] by blast
next
  case SignOutCall
  then show ?thesis using user_calls [OF assms(1,3)] by blast
next
  case GetMeCall
  then show ?thesis using user_calls [OF assms(1,3)] by blast
next
  case (UpdateSelfCall p)
  then show ?thesis using user_calls [OF assms(1,3)] by blast
qed (use public_calls [OF assms] in \<open>simp_all del: run_call.simps\<close>)

lemma route_goes:
  assumes "sound s" and "sane_env E"
  shows "goes E r s (snd (run_route F W E rt params r s))"
proof -
  note same = steps_soundly_same [OF assms(1)]
  show ?thesis
    using run_guards_frame [OF site_is] call_goes [OF assms call_is_valid]
    by (auto simp: run_route_eq Let_def same split: sum.split)
qed

lemma actors_request_id: "actors W committed E (with_request_id rid r) s = actors W committed E r s"
  by (simp add: actors_def)

lemma application_goes:
  assumes "sound (wb_world w)" and "sane_env E" and "rid \<noteq> []"
  shows "goes E r (wb_world w) (wb_world (snd (application F W E rid fresh r w)))"
proof -
  let ?q = "with_request_id rid r"
  have "goes E ?q (wb_world w) (snd (dispatch F W E ?q (wb_world w)))"
    using route_goes [OF assms(1,2)] steps_soundly_same [OF assms(1)]
    by (auto simp: dispatch_def io_apply split: option.split)
  then show ?thesis
    using application_answer [OF assms(3), of r F W E fresh w] steps_soundly_same [OF assms(1)]
    by (cases "is_preflight r") (auto simp: steps_soundly_def actors_request_id application_preflight)
qed

end

end
