(* ===== verification/Reachability_Properties.thy ===== *)
theory Reachability_Properties
  imports Reachability
begin

text \<open>
  The properties of the application over its whole life: every request is a step of the machine of
  accounts, every reachable state is sound, no account is lost, and administrators come from
  administrators only.
\<close>

section \<open>The reference site\<close>

lemma ref_keys_apart: "keys_apart ref_app"
  by (auto simp: keys_apart_def known_uuid_def ref_app_def ref_auth_def ref_parse_uuid_def code_key_eq
      uuid_char_def is_digit_def split: if_splits)

interpretation refsite: site_laws ref_site server_strs server_lists "token_life ref_ciphers"
  rel_tables rel_committed ref_ilike
proof -
  have "site_laws_axioms ref_site" by unfold_locales (simp add: ref_keys_apart)
  with ref_site_app show "site_laws ref_site server_strs server_lists (token_life ref_ciphers)
      rel_tables rel_committed ref_ilike"
    by (rule site_laws.intro)
qed

lemmas ref_site_ok = refsite.site_laws_axioms

section \<open>Reachable states\<close>

text \<open>
  The states a site comes to from \<open>w\<close>, with the users each served request acted for.  Between
  requests a string of the cache may expire (the sessions are stored without an expiry).
\<close>

inductive reaches ::
  "framework \<Rightarrow> ('c, 'd) site \<Rightarrow> ('c \<Rightarrow> string \<Rightarrow> string option) \<Rightarrow> ('c \<Rightarrow> string \<Rightarrow> string list) \<Rightarrow>
    ('d \<Rightarrow> db) \<Rightarrow> ('c, 'd) ctx web \<Rightarrow> (uuid \<times> role_type) set list \<Rightarrow> ('c, 'd) ctx web \<Rightarrow> bool"
  for F W strs lsts committed w where
  start: "reaches F W strs lsts committed w [] w"
| served: "reaches F W strs lsts committed w acts v \<Longrightarrow> sane_env E \<Longrightarrow> rid \<noteq> [] \<Longrightarrow>
    reaches F W strs lsts committed w (acts @ [actors W committed E r (wb_world v)])
      (snd (application F W E rid fresh r v))"
| expired: "reaches F W strs lsts committed w acts v \<Longrightarrow> lsts c = lsts (cx_cache (wb_world v)) \<Longrightarrow>
    \<forall>k. strs c k = strs (cx_cache (wb_world v)) k \<or> strs c k = None \<Longrightarrow>
    reaches F W strs lsts committed w acts (v\<lparr>wb_world := (wb_world v)\<lparr>cx_cache := c\<rparr>\<rparr>)"

definition is_admin :: "db \<Rightarrow> user_row \<Rightarrow> bool" where
  "is_admin D u \<longleftrightarrow> (\<exists>role \<in> set (db_roles D). r_uuid role = u_role_uuid u \<and> r_name role = ADMIN)"

text \<open>The same account: its identifier, its login and when it was created.\<close>

definition same_account :: "user_row \<Rightarrow> user_row \<Rightarrow> bool" where
  "same_account u v \<longleftrightarrow>
     u_uuid v = u_uuid u \<and> u_login v = u_login u \<and> u_created_at v = u_created_at u"

lemma same_account_trans: "same_account u v \<Longrightarrow> same_account v x \<Longrightarrow> same_account u x"
  by (simp add: same_account_def)

lemma account_step_roles: "account_step A acts D D' \<Longrightarrow> db_roles D' = db_roles D"
  by (induction rule: account_step.induct) simp_all

lemma account_step_keeps:
  "account_step A acts D D' \<Longrightarrow> u \<in> set (db_users D) \<Longrightarrow> \<exists>v \<in> set (db_users D'). same_account u v"
proof (induction rule: account_step.induct)
  case (changed password new_role target active now)
  then show ?case
    by (intro bexI [of _ "if u_uuid u = target then change_account password new_role active now u else u"])
      (auto simp: same_account_def change_account_def)
qed (auto simp: same_account_def)

text \<open>A step for no administrator: every user has the rights it had, or is new and a \<open>User\<close>.\<close>

lemma account_step_rights:
  assumes "account_step A acts D D'" and "\<forall>x. (x, ADMIN) \<notin> acts" and "v \<in> set (db_users D')"
  shows "(\<exists>u \<in> set (db_users D). same_account u v \<and> u_role_uuid v = u_role_uuid u \<and> u_active v = u_active u \<and>
      (u_uuid u \<notin> fst ` acts \<longrightarrow> u_password v = u_password u)) \<or>
    (u_uuid v \<notin> u_uuid ` set (db_users D) \<and> u_active v \<and>
      (\<exists>role \<in> set (db_roles D). r_uuid role = u_role_uuid v \<and> r_name role = USER))"
  using assms(1)
proof (cases rule: account_step.cases)
  case unchanged
  with assms(3) show ?thesis by (auto simp: same_account_def)
next
  case (joined role login h u now)
  with assms(3) show ?thesis by (auto simp: same_account_def new_user_def)
next
  case (changed password new_role target active now)
  from changed(1) assms(3) obtain u where u: "u \<in> set (db_users D)"
    "v = (if u_uuid u = target then change_account password new_role active now u else u)" by auto
  show ?thesis
  proof (rule disjI1, rule bexI [of _ u])
    show "same_account u v \<and> u_role_uuid v = u_role_uuid u \<and> u_active v = u_active u \<and>
      (u_uuid u \<notin> fst ` acts \<longrightarrow> u_password v = u_password u)"
      using changed(4) assms(2) u(2) by (auto simp: same_account_def change_account_def)
  qed (rule u(1))
qed

lemma account_step_no_admin:
  assumes "account_step A acts D D'" and "\<forall>x. (x, ADMIN) \<notin> acts" and "valid_db D"
    and "\<forall>u \<in> set (db_users D). \<not> is_admin D u"
  shows "\<forall>v \<in> set (db_users D'). \<not> is_admin D' v"
proof
  fix v assume "v \<in> set (db_users D')"
  have role: "r_name x = r_name y" if "x \<in> set (db_roles D)" "y \<in> set (db_roles D)" "r_uuid x = r_uuid y" for x y
    using that assms(3) by (metis valid_db_def distinct_map_eq)
  from account_step_rights [OF assms(1,2) \<open>v \<in> set (db_users D')\<close>] show "\<not> is_admin D' v"
  proof
    assume "\<exists>u \<in> set (db_users D). same_account u v \<and> u_role_uuid v = u_role_uuid u \<and> u_active v = u_active u \<and>
      (u_uuid u \<notin> fst ` acts \<longrightarrow> u_password v = u_password u)"
    then show ?thesis
      using assms(4) by (auto simp: is_admin_def account_step_roles [OF assms(1)])
  next
    assume "u_uuid v \<notin> u_uuid ` set (db_users D) \<and> u_active v \<and>
      (\<exists>role \<in> set (db_roles D). r_uuid role = u_role_uuid v \<and> r_name role = USER)"
    then obtain y where y: "y \<in> set (db_roles D)" "r_uuid y = u_role_uuid v" "r_name y = USER" by blast
    have "r_name z \<noteq> ADMIN" if "z \<in> set (db_roles D)" "r_uuid z = u_role_uuid v" for z
      using role [OF that(1) y(1)] that(2) y(2,3) by simp
    then show ?thesis unfolding is_admin_def account_step_roles [OF assms(1)] by blast
  qed
qed

lemma admin_actor_is_admin:
  assumes "(x, ADMIN) \<in> actors W committed E r s"
  shows "\<exists>u \<in> set (db_users (committed (cx_db s))). is_admin (committed (cx_db s)) u"
proof -
  obtain u role t where "acts_as W committed t r s u role" "r_name role = ADMIN"
    using assms by (fastforce simp: actors_def)
  then show ?thesis unfolding acts_as_def is_admin_def by blast
qed

context site_laws
begin

abbreviation data :: "('c, 'd) ctx web \<Rightarrow> db" where
  "data w \<equiv> committed (cx_db (wb_world w))"

text \<open>Induction over the life of a site that starts in a sound state.\<close>

lemma reaches_sound:
  assumes "reaches F W strs lists committed w acts v" and "sound (wb_world w)"
  shows "sound (wb_world v)"
  using assms
proof (induction rule: reaches.induct)
  case (served acts v E rid r fresh)
  from application_goes [OF served.IH [OF served.prems] served.hyps(2,3)] served.IH [OF served.prems]
  show ?case by (auto simp: steps_soundly_def site_sound_def intro: accounts_sound_step)
next
  case (expired acts v c)
  then have "sound (wb_world v)" by blast
  then show ?case
    using expired.hyps(2,3) unfolding site_sound_def codes_sound_def sessions_bounded_def
    by (auto; metis option.distinct(1))
qed simp

lemma reaches_induct [consumes 2, case_names start step]:
  assumes "reaches F W strs lists committed w acts v" and "sound (wb_world w)"
    and "P [] (data w)"
    and "\<And>as D D' a. P as D \<Longrightarrow> valid_db D \<Longrightarrow> account_step (si_app W) a D D' \<Longrightarrow>
      (\<And>x. (x, ADMIN) \<in> a \<Longrightarrow> \<exists>u \<in> set (db_users D). is_admin D u) \<Longrightarrow> P (as @ [a]) D'"
  shows "P acts (data v)"
  using assms(1)
proof (induction rule: reaches.induct)
  case (served acts v E rid r fresh)
  have "goes E r (wb_world v) (wb_world (snd (application F W E rid fresh r v)))"
    using application_goes [OF reaches_sound [OF served.hyps(1) assms(2)] served.hyps(2,3)] .
  then have "account_step (si_app W) (actors W committed E r (wb_world v)) (data v)
      (data (snd (application F W E rid fresh r v)))"
    by (simp add: steps_soundly_def)
  then show ?case
    by (rule assms(4) [OF served.IH db.valid_committed]) (rule admin_actor_is_admin)
qed (simp_all add: assms(3))

lemma reaches_keeps:
  assumes "reaches F W strs lists committed w acts v" and "sound (wb_world w)"
    and "u \<in> set (db_users (data w))"
  shows "\<exists>x \<in> set (db_users (data v)). same_account u x"
  using assms(1,2)
proof (induction rule: reaches_induct)
  case start
  show ?case using assms(3) by (auto simp: same_account_def)
next
  case (step acts D D' a)
  then show ?case using account_step_keeps same_account_trans by metis
qed

lemma reaches_no_admin:
  assumes "reaches F W strs lists committed w acts v" and "sound (wb_world w)"
    and "\<forall>u \<in> set (db_users (data w)). \<not> is_admin (data w) u"
  shows "(\<forall>u \<in> set (db_users (data v)). \<not> is_admin (data v) u) \<and> (\<forall>a \<in> set acts. \<forall>x. (x, ADMIN) \<notin> a)"
  using assms(1,2)
proof (induction rule: reaches_induct)
  case (step acts D D' a)
  then have "\<forall>x. (x, ADMIN) \<notin> a" by blast
  with account_step_no_admin [OF step(3) this step(2)] step(1) show ?case by simp
qed (simp add: assms(3))

end

section \<open>Properties\<close>

text \<open>
  C2: every request is a step of the machine of accounts.  Whatever a client sends to a site in a
  sound state, the committed database changes by one step of the abstract machine at most: nothing; a
  checked registration joins as a \<open>User\<close>; or one account is changed, by itself in its password only,
  or by an administrator the bearer token of the request stands for.
\<close>

theorem requests_refine_accounts:
  assumes "site_laws W strs lsts life tables committed ilike"
    and "site_sound (si_app W) strs lsts committed (wb_world w)" and "sane_env E" and "rid \<noteq> []"
  shows "account_step (si_app W) (actors W committed E r (wb_world w)) (committed (cx_db (wb_world w)))
    (committed (cx_db (wb_world (snd (application F W E rid fresh r w)))))"
  using site_laws.application_goes [OF assms] by (simp add: steps_soundly_def)

text \<open>The example database stores its password as argon2 would.\<close>

lemma example_site_sound:
  "site_sound ref_app server_strs server_lists rel_committed example_ctx"
proof -
  have "hash_of_valid ref_app (u_password bob)"
    unfolding hash_of_valid_def
    by (rule exI [of _ "''pass-word''"])
      (simp add: ref_app_def argon2_of_def argon2_hash_password_def ref_argon2_def valid_password_def
        length_limits)
  moreover have "known_uuid (ap_auth ref_app) ref_user" using ref_user_known by (simp add: ref_app_def)
  ultimately show ?thesis
    by (simp add: site_sound_def codes_sound_def sessions_bounded_def accounts_sound_def
        server_lists_def server_strs_def valid_login_def length_limits)
qed

definition example_web :: "(server, rel) ctx web" where
  "example_web = \<lparr>wb_world = example_ctx, wb_log = []\<rparr>"

lemma example_web_simps [simp]: "wb_world example_web = example_ctx"
  by (simp add: example_web_def)

lemma ref_env_sane: "sane_env ref_env"
  using example_code by (simp add: sane_env_def ref_env_def)

theorem requests_refine_accounts_witness:
  "account_step ref_app (actors ref_site rel_committed ref_env bob_request example_ctx) example_db
    (rel_committed (cx_db (wb_world
      (snd (application ref_framework ref_site ref_env ''id'' ''f'' bob_request example_web)))))"
  using requests_refine_accounts [OF ref_site_ok, of example_web ref_env "''id''"] example_site_sound
    ref_env_sane by simp

text \<open>
  C3: every reachable state is sound.  A site that starts in a sound state and serves any requests,
  with cache entries expiring in between, is always in a sound state: every stored password is the hash
  of a password that kept the limits, every user has at most six sessions and no string under its
  identifier, every pending code holds a registration that was checked, and the constraints of the
  schema hold.
\<close>

theorem reachable_sites_are_sound:
  assumes "site_laws W strs lsts life tables committed ilike"
    and "reaches F W strs lsts committed w acts v" and "site_sound (si_app W) strs lsts committed (wb_world w)"
  shows "site_sound (si_app W) strs lsts committed (wb_world v) \<and> valid_db (committed (cx_db (wb_world v)))"
  using site_laws.reaches_sound [OF assms]
    session_laws.valid_committed [OF app_laws.axioms(2) [OF site_laws.axioms(1) [OF assms(1)]]]
  by blast

text \<open>A run in which \<open>bob\<close> asks for himself.\<close>

lemma example_run:
  "reaches ref_framework ref_site server_strs server_lists rel_committed example_web
    [actors ref_site rel_committed ref_env bob_request example_ctx]
    (snd (application ref_framework ref_site ref_env ''id'' ''f'' bob_request example_web))"
  using reaches.served [OF reaches.start ref_env_sane, of "''id''" ref_framework ref_site server_strs
      server_lists rel_committed example_web bob_request "''f''"] by simp

theorem reachable_sites_are_sound_witness:
  "site_sound ref_app server_strs server_lists rel_committed
    (wb_world (snd (application ref_framework ref_site ref_env ''id'' ''f'' bob_request example_web)))"
  using reachable_sites_are_sound [OF ref_site_ok example_run] example_site_sound by simp

text \<open>
  No account is lost or renamed.  Whatever requests a site serves, every account it had is still
  there, with its identifier, its login and its time of creation.
\<close>

theorem accounts_persist:
  assumes "site_laws W strs lsts life tables committed ilike"
    and "reaches F W strs lsts committed w acts v" and "site_sound (si_app W) strs lsts committed (wb_world w)"
    and "u \<in> set (db_users (committed (cx_db (wb_world w))))"
  shows "\<exists>x \<in> set (db_users (committed (cx_db (wb_world v)))).
    u_uuid x = u_uuid u \<and> u_login x = u_login u \<and> u_created_at x = u_created_at u"
  using site_laws.reaches_keeps [OF assms] by (simp add: same_account_def)

theorem accounts_persist_witness:
  "\<exists>x \<in> set (db_users (rel_committed (cx_db (wb_world
      (snd (application ref_framework ref_site ref_env ''id'' ''f'' bob_request example_web)))))).
    u_login x = ''bob''"
  using accounts_persist [OF ref_site_ok example_run, of bob] example_site_sound by auto

text \<open>
  Administrators come from administrators.  When some user of a reachable state has the role
  \<open>Admin\<close>, or some request was let through as one of an administrator, then a user already had that
  role at the start: no sequence of registrations, logins, refreshes and updates leads to it.
\<close>

theorem administrators_come_from_administrators:
  assumes "site_laws W strs lsts life tables committed ilike"
    and "reaches F W strs lsts committed w acts v" and "site_sound (si_app W) strs lsts committed (wb_world w)"
    and "(\<exists>u \<in> set (db_users (committed (cx_db (wb_world v)))). is_admin (committed (cx_db (wb_world v))) u) \<or>
      (\<exists>a \<in> set acts. \<exists>x. (x, ADMIN) \<in> a)"
  shows "\<exists>u \<in> set (db_users (committed (cx_db (wb_world w)))). is_admin (committed (cx_db (wb_world w))) u"
  using site_laws.reaches_no_admin [OF assms(1-3)] assms(4) by blast

text \<open>The same run, with \<open>bob\<close> as an administrator.\<close>

lemma bob_acts_as_admin: "(ref_user, ADMIN) \<in> actors ref_site rel_committed ref_env bob_request admin_ctx"
proof -
  have v: "fst (auth_verify_token (ap_auth ref_app) 0 (ref_token 0 Access (uuid_str ref_user)) Access []) = Inr ref_user"
    using ref_access [of "[]"] by (simp add: ref_app_def)
  have "acts_as ref_site rel_committed 0 bob_request admin_ctx (bob\<lparr>u_role_uuid := UUID ''r1''\<rparr>) admin_role"
    using v by (simp add: acts_as_def bob_bearer example_db_def)
  then show ?thesis
    unfolding actors_def by (force simp: admin_role_def)
qed

theorem administrators_come_from_administrators_witness:
  "\<exists>u \<in> set (db_users (rel_committed (cx_db admin_ctx))). is_admin (rel_committed (cx_db admin_ctx)) u"
proof -
  let ?w = "example_web\<lparr>wb_world := admin_ctx\<rparr>"
  have "hash_of_valid ref_app (u_password bob)" "known_uuid (ap_auth ref_app) ref_user"
    using example_site_sound by (simp_all add: site_sound_def accounts_sound_def example_db_def)
  then have "site_sound ref_app server_strs server_lists rel_committed admin_ctx"
    using example_site_sound by (simp add: site_sound_def accounts_sound_def example_db_def)
  moreover have "reaches ref_framework ref_site server_strs server_lists rel_committed ?w
      [actors ref_site rel_committed ref_env bob_request admin_ctx]
      (snd (application ref_framework ref_site ref_env ''id'' ''f'' bob_request ?w))"
    using reaches.served [OF reaches.start ref_env_sane, of "''id''" ref_framework ref_site server_strs
      server_lists rel_committed ?w bob_request "''f''"] by simp
  ultimately show ?thesis
    using administrators_come_from_administrators [OF ref_site_ok, of ref_framework ?w] bob_acts_as_admin by fastforce
qed

end
