(* ===== verification/Concurrency.thy ===== *)
theory Concurrency
  imports Errors
begin

text \<open>
  Requests are served concurrently: between two operations on the cache or the database the server
  runs other requests.  A process is a computation cut into its atomic actions; a program of several
  processes makes a step when one of them does its next action on the shared state.
\<close>

section \<open>Processes\<close>

text \<open>
  An action changes the state; how the process goes on depends on the state it found.  The results
  are those of a computation: a value or an exception.
\<close>

datatype ('s, 'a) proc =
    Done "exn + 'a"
  | Act "'s \<Rightarrow> 's" "'s \<Rightarrow> ('s, 'a) proc"

definition atomic :: "('s, 'a) io \<Rightarrow> ('s, 'a) proc" where
  "atomic m = Act (\<lambda>s. snd (m s)) (\<lambda>s. Done (fst (m s)))"

primrec proc_bind :: "('s, 'a) proc \<Rightarrow> ('a \<Rightarrow> ('s, 'b) proc) \<Rightarrow> ('s, 'b) proc" where
  "proc_bind (Done r) f = (case r of Inl e \<Rightarrow> Done (Inl e) | Inr x \<Rightarrow> f x)"
| "proc_bind (Act g k) f = Act g (\<lambda>s. proc_bind (k s) f)"

definition proc_return :: "'a \<Rightarrow> ('s, 'a) proc" where
  "proc_return x = Done (Inr x)"

definition proc_raise :: "exn \<Rightarrow> ('s, 'a) proc" where
  "proc_raise e = Done (Inl e)"

text \<open>A process that runs alone.\<close>

primrec run_proc :: "('s, 'a) proc \<Rightarrow> ('s, 'a) io" where
  "run_proc (Done r) = (\<lambda>s. (r, s))"
| "run_proc (Act g k) = (\<lambda>s. run_proc (k s) (g s))"

named_theorems proc_run

lemma run_atomic [proc_run]: "run_proc (atomic m) = m"
  by (simp add: atomic_def fun_eq_iff)

lemma run_bind [proc_run]: "run_proc (proc_bind p f) = io_bind (run_proc p) (\<lambda>x. run_proc (f x))"
  by (induction p) (auto simp: fun_eq_iff io_bind_def split: sum.splits)

lemma run_return [proc_run]: "run_proc (proc_return x) = io_return x"
  by (simp add: proc_return_def fun_eq_iff io_apply)

lemma run_raise [proc_run]: "run_proc (proc_raise e) = io_raise e"
  by (simp add: proc_raise_def fun_eq_iff io_apply)

section \<open>Interleaving\<close>

type_synonym ('s, 'a) system = "('s, 'a) proc list \<times> 's"

text \<open>The process number \<open>i\<close> does its next action; one that is done, or is not there, does nothing.\<close>

definition sched_step :: "nat \<Rightarrow> ('s, 'a) system \<Rightarrow> ('s, 'a) system" where
  "sched_step i c =
     (if i < length (fst c)
      then (case fst c ! i of Done r \<Rightarrow> c | Act g k \<Rightarrow> ((fst c)[i := k (snd c)], g (snd c)))
      else c)"

fun run_schedule :: "nat list \<Rightarrow> ('s, 'a) system \<Rightarrow> ('s, 'a) system" where
  "run_schedule [] c = c"
| "run_schedule (i # is) c = run_schedule is (sched_step i c)"

lemma run_schedule_append: "run_schedule (is @ js) c = run_schedule js (run_schedule is c)"
  by (induction "is" arbitrary: c) auto

text \<open>Two processes, step by step.\<close>

lemma pair_step:
  "sched_step 0 ([proc_bind (atomic m) f, q], s) =
     ([case fst (m s) of Inl e \<Rightarrow> Done (Inl e) | Inr x \<Rightarrow> f x, q], snd (m s))"
  "sched_step (Suc 0) ([p, proc_bind (atomic m) f], s) =
     ([p, case fst (m s) of Inl e \<Rightarrow> Done (Inl e) | Inr x \<Rightarrow> f x], snd (m s))"
  by (simp_all add: sched_step_def atomic_def)

inductive par_step :: "('s, 'a) system \<Rightarrow> ('s, 'a) system \<Rightarrow> bool" where
  act: "i < length ps \<Longrightarrow> ps ! i = Act g k \<Longrightarrow> par_step (ps, s) (ps[i := k s], g s)"

inductive_cases par_stepE: "par_step c d"

text \<open>The number of steps of a run.\<close>

inductive par_run :: "nat \<Rightarrow> ('s, 'a) system \<Rightarrow> ('s, 'a) system \<Rightarrow> bool" where
  stop: "par_run 0 c c"
| more: "par_step c d \<Longrightarrow> par_run n d e \<Longrightarrow> par_run (Suc n) c e"

inductive_cases par_run_0E: "par_run 0 c e"
inductive_cases par_run_SucE: "par_run (Suc n) c e"

lemma sched_step_par:
  "sched_step i c = c \<or> par_step c (sched_step i c)"
proof -
  obtain ps s where "c = (ps, s)" by (cases c)
  then show ?thesis
    by (auto simp: sched_step_def intro: par_step.act split: proc.splits)
qed

lemma run_schedule_par: "\<exists>n. par_run n c (run_schedule is c)"
proof (induction "is" arbitrary: c)
  case Nil
  then show ?case by (cases c) (auto intro: par_run.stop)
next
  case (Cons i "is")
  obtain n where "par_run n (sched_step i c) (run_schedule is (sched_step i c))"
    using Cons.IH by blast
  with sched_step_par [of i c] show ?case
    by (metis run_schedule.simps(2) par_run.more)
qed

section \<open>Invariants\<close>

text \<open>
  A process keeps an invariant when each of its actions does, in whatever state with the invariant it
  is done.
\<close>

primrec keeps :: "('s, 'a) proc \<Rightarrow> ('s \<Rightarrow> bool) \<Rightarrow> bool" where
  "keeps (Done r) = (\<lambda>I. True)"
| "keeps (Act g k) = (\<lambda>I. \<forall>s. I s \<longrightarrow> I (g s) \<and> keeps (k s) I)"

named_theorems keeps_intros

lemma keeps_bind [keeps_intros]: "keeps p I \<Longrightarrow> (\<And>x. keeps (f x) I) \<Longrightarrow> keeps (proc_bind p f) I"
  by (induction p) (auto split: sum.splits)

lemma keeps_return [keeps_intros]: "keeps (proc_return x) I"
  by (simp add: proc_return_def)

lemma keeps_raise [keeps_intros]: "keeps (proc_raise e) I"
  by (simp add: proc_raise_def)

lemma keeps_atomic: "(\<And>s. I s \<Longrightarrow> I (snd (m s))) \<Longrightarrow> keeps (atomic m) I"
  by (simp add: atomic_def)

lemma keeps_bind_atomic:
  "(\<And>s. I s \<Longrightarrow> I (snd (m s))) \<Longrightarrow> (\<And>s x. I s \<Longrightarrow> fst (m s) = Inr x \<Longrightarrow> keeps (f x) I) \<Longrightarrow>
    keeps (proc_bind (atomic m) f) I"
  by (auto simp: atomic_def split: sum.split)

lemma par_run_keeps:
  "par_run n c d \<Longrightarrow> \<forall>p \<in> set (fst c). keeps p I \<Longrightarrow> I (snd c) \<Longrightarrow>
    I (snd d) \<and> (\<forall>p \<in> set (fst d). keeps p I)"
proof (induction rule: par_run.induct)
  case (more c d n e)
  from more.hyps(1) obtain i ps s g k where c: "c = (ps, s)" "d = (ps[i := k s], g s)"
    "i < length ps" "ps ! i = Act g k"
    by (auto elim: par_stepE)
  with more.prems have "keeps (Act g k) I" "I s"
    by (metis fst_conv nth_mem, simp)
  then have "I (snd d)" "keeps (k s) I" by (auto simp: c(2))
  moreover have "\<forall>p \<in> set (fst d). keeps p I"
    using more.prems(1) \<open>keeps (k s) I\<close> set_update_subset_insert [of ps i "k s"] by (auto simp: c)
  ultimately show ?case using more.IH by blast
qed simp

section \<open>A part of the state\<close>

primrec proc_focus :: "('s \<Rightarrow> 't) \<Rightarrow> ('t \<Rightarrow> 's \<Rightarrow> 's) \<Rightarrow> ('t, 'a) proc \<Rightarrow> ('s, 'a) proc" where
  "proc_focus get put (Done r) = Done r"
| "proc_focus get put (Act g k) =
     Act (\<lambda>s. put (g (get s)) s) (\<lambda>s. proc_focus get put (k (get s)))"

lemma run_focus:
  assumes "\<And>t s. get (put t s) = t" and "\<And>t u s. put t (put u s) = put t s" and "\<And>s. put (get s) s = s"
  shows "run_proc (proc_focus get put p) = io_focus get put (run_proc p)"
proof (induction p)
  case (Done r)
  then show ?case by (simp add: io_focus_def assms(3) fun_eq_iff)
next
  case (Act g k)
  then show ?case by (simp add: io_focus_def assms fun_eq_iff)
qed

section \<open>Rounds\<close>

text \<open>A round: every process of the list makes one step, in their order.\<close>

fun round :: "('s, 'a) proc list \<Rightarrow> 's \<Rightarrow> ('s, 'a) proc list \<times> 's" where
  "round [] s = ([], s)"
| "round (Done r # ps) s = (let (qs, t) = round ps s in (Done r # qs, t))"
| "round (Act g k # ps) s = (let (qs, t) = round ps (g s) in (k s # qs, t))"

lemma round_schedule:
  "run_schedule [length qs..<length qs + length ps] (qs @ ps, s) =
     (qs @ fst (round ps s), snd (round ps s))"
proof (induction ps arbitrary: qs s)
  case (Cons p ps)
  have upt: "[length qs..<length qs + length (p # ps)] =
      length qs # [length (qs @ [x])..<length (qs @ [x]) + length ps]" for x :: "('a, 'b) proc"
    by (simp add: upt_conv_Cons del: upt_Suc)
  show ?case
  proof (cases p)
    case (Done r)
    have "sched_step (length qs) (qs @ p # ps, s) = ((qs @ [p]) @ ps, s)"
      by (simp add: sched_step_def Done)
    then show ?thesis
      unfolding upt [of p] using Cons.IH [of "qs @ [p]" s] by (simp add: Done split: prod.split)
  next
    case (Act g k)
    have "sched_step (length qs) (qs @ p # ps, s) = ((qs @ [k s]) @ ps, g s)"
      by (simp add: sched_step_def Act)
    then show ?thesis
      unfolding upt [of "k s"] using Cons.IH [of "qs @ [k s]" "g s"] by (simp add: Act split: prod.split)
  qed
qed simp

lemma round_all: "run_schedule [0..<length ps] (ps, s) = round ps s"
  using round_schedule [of "[]" ps s] by simp

lemma length_round: "length (fst (round ps s)) = length ps"
  by (induction ps s rule: round.induct) (auto split: prod.splits)

text \<open>A round in which every process reads, and one in which every process writes.\<close>

lemma round_reads:
  "(\<And>x. x \<in> set xs \<Longrightarrow> g x s = s) \<Longrightarrow>
    round (map (\<lambda>x. Act (g x) (k x)) xs) s = (map (\<lambda>x. k x s) xs, s)"
  by (induction xs) simp_all

lemma round_writes:
  "I s \<Longrightarrow> (\<And>x t. x \<in> set xs \<Longrightarrow> I t \<Longrightarrow> I (g x t) \<and> k x t = p x) \<Longrightarrow>
    round (map (\<lambda>x. Act (g x) (k x)) xs) s = (map p xs, fold g xs s)"
  by (induction xs arbitrary: s) simp_all

section \<open>Exclusion\<close>

text \<open>
  A process that wins only by taking something that is then taken: \<open>T\<close> says it is taken, \<open>w\<close> that
  this process was the one who took it.  Each action keeps the invariant \<open>I\<close> and gives nothing back.
\<close>

primrec wins_by :: "('s, 'a) proc \<Rightarrow> ('s \<Rightarrow> bool) \<Rightarrow> ('s \<Rightarrow> bool) \<Rightarrow> bool \<Rightarrow> bool" where
  "wins_by (Done r) = (\<lambda>T I w. w \<or> (\<exists>e. r = Inl e))"
| "wins_by (Act g k) = (\<lambda>T I w. \<forall>s. I s \<longrightarrow> I (g s) \<and> (T s \<longrightarrow> T (g s)) \<and>
     wins_by (k s) T I (w \<or> \<not> T s \<and> T (g s)))"

lemma wins_by_atomic:
  assumes "\<And>s. I s \<Longrightarrow> I (snd (m s))" and "\<And>s. I s \<Longrightarrow> T s \<Longrightarrow> T (snd (m s))"
    and "\<And>s x. I s \<Longrightarrow> fst (m s) = Inr x \<Longrightarrow> wins_by (f x) T I (w \<or> \<not> T s \<and> T (snd (m s)))"
  shows "wins_by (proc_bind (atomic m) f) T I w"
  using assms by (auto simp: atomic_def split: sum.split)

lemma wins_by_raise: "wins_by (proc_raise e) T I w"
  by (simp add: proc_raise_def)

text \<open>After the win, work on another part of the state.\<close>

lemma wins_by_focus:
  assumes "\<And>t s. get (put t s) = t" and "\<And>t s. T (put t s) = T s"
  shows "keeps p J \<Longrightarrow> wins_by (proc_focus get put p) T (\<lambda>s. J (get s)) True"
  by (induction p) (auto simp: assms)

definition wins :: "('s, 'a) proc \<Rightarrow> bool" where
  "wins p \<longleftrightarrow> (case p of Done (Inr x) \<Rightarrow> True | _ \<Rightarrow> False)"

abbreviation winners :: "bool list \<Rightarrow> nat" where
  "winners ws \<equiv> sum_list (map of_bool ws)"

lemma par_step_wins:
  assumes "par_step (ps, s) (qs, t)" and "I s" and "list_all2 (\<lambda>p w. wins_by p T I w) ps ws"
    and "winners ws \<le> of_bool (T s)"
  shows "I t \<and> (\<exists>vs. list_all2 (\<lambda>p w. wins_by p T I w) qs vs \<and> winners vs \<le> of_bool (T t))"
  using assms(1)
proof cases
  case (act i g k)
  have i: "i < length ws" using act(3) assms(3) by (auto dest: list_all2_lengthD)
  have "wins_by (Act g k) T I (ws ! i)"
    using act(3,4) assms(3) by (auto simp: list_all2_conv_all_nth)
  then have p: "I (g s)" "T s \<Longrightarrow> T (g s)" "wins_by (k s) T I (ws ! i \<or> \<not> T s \<and> T (g s))"
    using assms(2) by auto
  let ?vs = "ws[i := ws ! i \<or> \<not> T s \<and> T (g s)]"
  have "list_all2 (\<lambda>p w. wins_by p T I w) qs ?vs"
    unfolding act(1) using assms(3) p(3) by (rule list_all2_update_cong)
  moreover have "winners ?vs \<le> of_bool (T t)"
  proof (cases "\<not> T s \<and> T (g s)")
    case True
    then have "winners ws = 0" using assms(4) by simp
    then have "\<not> ws ! i" using i by (auto simp: in_set_conv_nth)
    with True i \<open>winners ws = 0\<close> show ?thesis
      by (simp add: act(2) map_update sum_list_update)
  next
    case False
    then have "(ws ! i \<or> \<not> T s \<and> T (g s)) = ws ! i" by blast
    then have "?vs = ws" by (simp only: list_update_id)
    then show ?thesis using False assms(4) p(2) by (cases "T s") (simp_all add: act(2))
  qed
  ultimately show ?thesis using p(1) act(2) by blast
qed

lemma par_run_wins:
  "par_run n (ps, s) (qs, t) \<Longrightarrow> I s \<Longrightarrow> list_all2 (\<lambda>p w. wins_by p T I w) ps ws \<Longrightarrow>
    winners ws \<le> of_bool (T s) \<Longrightarrow>
    I t \<and> (\<exists>vs. list_all2 (\<lambda>p w. wins_by p T I w) qs vs \<and> winners vs \<le> of_bool (T t))"
proof (induction n arbitrary: ps s ws)
  case 0
  from 0(1) have "qs = ps" "t = s" by (auto elim: par_run_0E)
  with 0 show ?case by blast
next
  case (Suc n)
  from Suc.prems(1) obtain rs u where step: "par_step (ps, s) (rs, u)" and run: "par_run n (rs, u) (qs, t)"
    by (auto elim: par_run_SucE)
  obtain us where "I u" "list_all2 (\<lambda>p w. wins_by p T I w) rs us" "winners us \<le> of_bool (T u)"
    using par_step_wins [OF step Suc.prems(2-4)] by blast
  with Suc.IH [OF run] show ?case by blast
qed

lemma wins_winners:
  "list_all2 (\<lambda>p w. wins_by p T I w) ps ws \<Longrightarrow> length (filter wins ps) \<le> winners ws"
  by (induction rule: list_all2_induct) (auto simp: wins_def split: proc.splits sum.splits)

lemma at_most_one_wins:
  assumes "par_run n (ps, s) (qs, t)" and "I s" and "\<forall>p \<in> set ps. wins_by p T I False"
  shows "length (filter wins qs) \<le> 1"
proof -
  have "list_all2 (\<lambda>p w. wins_by p T I w) ps (replicate (length ps) False)"
    using assms(3) by (simp add: list_all2_conv_all_nth)
  moreover have "winners (replicate (length ps) False) \<le> of_bool (T s)"
    by (simp add: sum_list_replicate)
  ultimately obtain vs where vs: "list_all2 (\<lambda>p w. wins_by p T I w) qs vs" "winners vs \<le> of_bool (T t)"
    using par_run_wins [where I = I and T = T, OF assms(1,2)] by blast
  have "of_bool (T t) \<le> (1 :: nat)" by simp
  with wins_winners [OF vs(1)] vs(2) show ?thesis by linarith
qed

end
