(* ===== verification/Session_Races.thy ===== *)
theory Session_Races
  imports Concurrency Auth_Properties
begin

text \<open>
  The authentication service under concurrent requests.  Its methods are processes whose actions are
  the calls of the cache (each method of the cache is taken as one action) and the reading or making
  of tokens, which leaves the cache alone.  Alone, a process is the method of \<open>Auth_Service\<close>.
\<close>

section \<open>The methods as processes\<close>

definition login_process ::
  "'c auth \<Rightarrow> (nat \<Rightarrow> int) \<Rightarrow> string \<Rightarrow> uuid \<Rightarrow> ('c, tokens_expire) proc" where
  "login_process A ts fingerprint user_uuid =
     proc_bind (atomic (issue_tokens A (ts 0) (ts 1) user_uuid)) (\<lambda>res.
     proc_bind (atomic (sc_get_list (as_cache A) (uuid_str user_uuid))) (\<lambda>tokens.
     proc_bind (if DEFAULT_TOKENS_COUNT < length tokens
                then atomic (sc_delete (as_cache A) [uuid_str user_uuid]) else proc_return ()) (\<lambda>_.
     proc_bind (atomic (sc_set_list (as_cache A) (uuid_str user_uuid)
                [session_entry fingerprint (tk_refresh (te_tokens res))] None)) (\<lambda>_.
     proc_return res))))"

definition refresh_process ::
  "'c auth \<Rightarrow> (nat \<Rightarrow> int) \<Rightarrow> string \<Rightarrow> string \<Rightarrow> ('c, tokens_expire) proc" where
  "refresh_process A ts fingerprint refresh_token =
     proc_bind (atomic (auth_verify_token A (ts 0) refresh_token Refresh)) (\<lambda>user_uuid.
     proc_bind (atomic (sc_get_list (as_cache A) (uuid_str user_uuid))) (\<lambda>token_pairs.
     case find_pair fingerprint refresh_token token_pairs of
       Broken \<Rightarrow>
         proc_bind (atomic (sc_delete (as_cache A) [uuid_str user_uuid])) (\<lambda>_.
         proc_raise (App (simple_error ForbiddenError
           ''Broken separator, try to login again. Token is not valid anymore'')))
     | NotVerified \<Rightarrow>
         proc_bind (atomic (sc_delete (as_cache A) [uuid_str user_uuid])) (\<lambda>_.
         proc_raise (App (simple_error ForbiddenError ''Token is not valid anymore'')))
     | Verified verified \<Rightarrow>
         proc_bind (atomic (sc_discard (as_cache A) (uuid_str user_uuid) verified)) (\<lambda>_.
         proc_bind (atomic (issue_tokens A (ts 1) (ts 2) user_uuid)) (\<lambda>res.
         proc_bind (atomic (sc_set_list (as_cache A) (uuid_str user_uuid)
                    [session_entry fingerprint (tk_refresh (te_tokens res))] None)) (\<lambda>_.
         proc_return res)))))"

definition logout_process ::
  "'c auth \<Rightarrow> (nat \<Rightarrow> int) \<Rightarrow> string \<Rightarrow> uuid \<Rightarrow> ('c, bool) proc" where
  "logout_process A ts refresh_token user_uuid =
     proc_bind (atomic (auth_verify_token A (ts 0) refresh_token Refresh)) (\<lambda>_.
     proc_bind (atomic (sc_get_list (as_cache A) (uuid_str user_uuid))) (\<lambda>token_pairs.
     proc_bind (case find_token refresh_token token_pairs of
         Broken \<Rightarrow> atomic (sc_delete (as_cache A) [uuid_str user_uuid])
       | Verified pair \<Rightarrow> atomic (sc_discard (as_cache A) (uuid_str user_uuid) pair)
       | NotVerified \<Rightarrow> proc_return ()) (\<lambda>_.
     proc_return True)))"

text \<open>The requests that reach the service, with what is common of their results.\<close>

datatype session_request =
    LoginCall "nat \<Rightarrow> int" string uuid
  | RefreshCall "nat \<Rightarrow> int" string string
  | LogoutCall "nat \<Rightarrow> int" string uuid

fun session_process :: "'c auth \<Rightarrow> session_request \<Rightarrow> ('c, tokens_expire option) proc" where
  "session_process A (LoginCall ts fp u) =
     proc_bind (login_process A ts fp u) (\<lambda>res. proc_return (Some res))"
| "session_process A (RefreshCall ts fp tok) =
     proc_bind (refresh_process A ts fp tok) (\<lambda>res. proc_return (Some res))"
| "session_process A (LogoutCall ts tok u) =
     proc_bind (logout_process A ts tok u) (\<lambda>_. proc_return None)"

lemma run_if [proc_run]: "run_proc (if b then p else q) = (if b then run_proc p else run_proc q)"
  by simp

lemma run_scan [proc_run]:
  "run_proc (case x of Broken \<Rightarrow> p | Verified e \<Rightarrow> q e | NotVerified \<Rightarrow> r) =
     (case x of Broken \<Rightarrow> run_proc p | Verified e \<Rightarrow> run_proc (q e) | NotVerified \<Rightarrow> run_proc r)"
  by (simp split: scan.split)

text \<open>
  A process that is not disturbed is the method of the service: the cut into actions loses and
  adds nothing.
\<close>

lemma session_processes_refine:
  "run_proc (login_process A ts fp u) = auth_login A ts fp u \<and>
   run_proc (refresh_process A ts fp tok) = auth_verify_refresh A ts fp tok \<and>
   run_proc (logout_process A ts tok u) = auth_invalidate_refresh A ts tok u"
  unfolding login_process_def refresh_process_def logout_process_def proc_run auth_login_def
    auth_verify_refresh_def auth_invalidate_refresh_def
  by (intro conjI) (rule refl)+

section \<open>What every interleaving keeps\<close>

definition sessions_sound ::
  "'c auth \<Rightarrow> ('c \<Rightarrow> string \<Rightarrow> string option) \<Rightarrow> ('c \<Rightarrow> string \<Rightarrow> string list) \<Rightarrow> 'c \<Rightarrow> bool" where
  "sessions_sound A strs lsts c \<longleftrightarrow>
     (\<forall>u. known_uuid A u \<longrightarrow> strs c (uuid_str u) = None \<and>
       (\<forall>e \<in> set (lsts c (uuid_str u)). separated e))"

fun sane_request :: "'c auth \<Rightarrow> session_request \<Rightarrow> bool" where
  "sane_request A (LoginCall ts fp u) = known_uuid A u"
| "sane_request A (RefreshCall ts fp tok) = True"
| "sane_request A (LogoutCall ts tok u) = known_uuid A u"

lemma find_pair_not_broken: "\<forall>e \<in> set es. separated e \<Longrightarrow> find_pair fp tok es \<noteq> Broken"
  by (simp add: find_pair_separated split: option.split)

lemma find_token_not_broken: "\<forall>e \<in> set es. separated e \<Longrightarrow> find_token tok es \<noteq> Broken"
  by (simp add: find_token_separated split: option.split)

lemma sessions_sound_not_broken:
  "sessions_sound A strs lsts c \<Longrightarrow> known_uuid A u \<Longrightarrow> find_pair fp tok (lsts c (uuid_str u)) \<noteq> Broken"
  by (rule find_pair_not_broken) (simp add: sessions_sound_def)

lemma sessions_sound_not_broken':
  "sessions_sound A strs lsts c \<Longrightarrow> known_uuid A u \<Longrightarrow> find_token tok (lsts c (uuid_str u)) \<noteq> Broken"
  by (rule find_token_not_broken) (simp add: sessions_sound_def)

lemma sessions_sound_update:
  "sessions_sound A strs lsts c \<Longrightarrow> strs d = strs c \<Longrightarrow> lsts d = (lsts c)(uuid_str u := es) \<Longrightarrow>
    \<forall>e \<in> set es. separated e \<Longrightarrow> sessions_sound A strs lsts d"
  by (auto simp: sessions_sound_def)

lemma issue_tokens_state: "snd (issue_tokens A t1 t2 u c) = c"
  by (auto simp: issue_tokens_def io_simps split: sum.splits)

lemma issue_tokens_refresh:
  "fst (issue_tokens A t1 t2 u c) = Inr res \<Longrightarrow>
    \<exists>e. j_create (as_jwt A) t2 Refresh (uuid_str u) None [] = Inr (e, tk_refresh (te_tokens res))"
  by (auto simp: issue_tokens_def io_simps split: sum.splits)

context auth_service
begin

abbreviation sound :: "'c \<Rightarrow> bool" where
  "sound \<equiv> sessions_sound A strs lists"

lemma sound_facts:
  "sound c \<Longrightarrow> known_uuid A u \<Longrightarrow> strs c (uuid_str u) = None"
  "sound c \<Longrightarrow> known_uuid A u \<Longrightarrow> e \<in> set (lists c (uuid_str u)) \<Longrightarrow> separated e"
  by (auto simp: sessions_sound_def)

lemma sound_get_list: "sound c \<Longrightarrow> known_uuid A u \<Longrightarrow> sound (snd (sc_get_list (as_cache A) (uuid_str u) c))"
  by (simp add: sound_facts cache.get_list)

lemma sound_delete:
  assumes "sound c" and "known_uuid A u"
  shows "sound (snd (sc_delete (as_cache A) [uuid_str u] c))"
proof -
  have "(strs c)(uuid_str u := None) = strs c"
    using sound_facts(1) [OF assms] by (simp add: fun_upd_idem)
  then show ?thesis
    using known_plain [OF assms(2)]
    by (intro sessions_sound_update [OF assms(1)]) (auto simp: cache.delete_strs cache.delete_lists)
qed

lemma sound_discard:
  assumes "sound c" and "known_uuid A u"
  shows "sound (snd (sc_discard (as_cache A) (uuid_str u) e c))"
  using sound_facts [OF assms]
  by (intro sessions_sound_update [OF assms(1)]) (auto simp: cache.discard_strs cache.discard_lists)

lemma sound_set_list:
  assumes "sound c" and "known_uuid A u" and "separated e"
  shows "sound (snd (sc_set_list (as_cache A) (uuid_str u) [e] None c))"
  using sound_facts [OF assms(1,2)] assms(3)
  by (intro sessions_sound_update [OF assms(1)]) (auto simp: cache.set_list_strs cache.set_list_lists)

lemma keeps_sound_issue:
  assumes "\<And>res. separated (session_entry fp (tk_refresh (te_tokens res))) \<Longrightarrow> keeps (f res) sound"
  shows "keeps (proc_bind (atomic (issue_tokens A t1 t2 u)) f) sound"
  by (rule keeps_bind_atomic) (auto simp: issue_tokens_state intro: assms separated_entry)

lemma session_process_sound: "sane_request A q \<Longrightarrow> keeps (session_process A q) sound"
proof (cases q)
  case (LoginCall ts fp u)
  assume "sane_request A q"
  with LoginCall show ?thesis
    by (auto simp: login_process_def intro!: keeps_intros keeps_sound_issue keeps_atomic
        sound_get_list sound_delete sound_set_list)
next
  case (RefreshCall ts fp tok)
  assume "sane_request A q"
  with RefreshCall show ?thesis
    by (auto simp: refresh_process_def verify_token_state split: scan.split
        intro!: keeps_intros keeps_bind_atomic [of sound "auth_verify_token A t tok Refresh" for t]
          keeps_sound_issue keeps_atomic sound_get_list sound_delete sound_discard sound_set_list
        dest!: verify_token_known)
next
  case (LogoutCall ts tok u)
  assume "sane_request A q"
  with LogoutCall show ?thesis
    by (auto simp: logout_process_def verify_token_state split: scan.split
        intro!: keeps_intros keeps_atomic sound_get_list sound_delete sound_discard)
qed

lemma sound_run:
  assumes "sound c" and "list_all (sane_request A) qs"
    and "par_run n (map (session_process A) qs, c) d"
  shows "sound (snd d)"
proof -
  have "\<forall>p \<in> set (map (session_process A) qs). keeps p sound"
    using assms(2) by (auto simp: list_all_iff intro: session_process_sound)
  then show ?thesis
    using par_run_keeps [OF assms(3)] assms(1) by (metis fst_conv snd_conv)
qed

text \<open>Two refreshes with one token, action by action.\<close>

lemma refresh_race:
  assumes "fst (auth_verify_token A (ts 0) tok Refresh c) = Inr u"
    and "fst (auth_verify_token A (ts' 0) tok Refresh c) = Inr u"
    and "strs c (uuid_str u) = None" and "find_pair fp tok (lists c (uuid_str u)) = Verified e"
    and "\<forall>i. 0 \<le> ts i" and "\<forall>i. 0 \<le> ts' i"
  shows "\<exists>res res' d. run_schedule [0, 1, 0, 1, 0, 1, 0, 1, 0, 1]
      ([refresh_process A ts fp tok, refresh_process A ts' fp tok], c) =
        ([Done (Inr res), Done (Inr res')], d) \<and>
    lists d (uuid_str u) = session_entry fp (tk_refresh (te_tokens res')) #
      session_entry fp (tk_refresh (te_tokens res)) # filter (\<lambda>x. x \<noteq> e) (lists c (uuid_str u))"
proof -
  have ts: "0 \<le> ts 1" "0 \<le> ts 2" "0 \<le> ts' 1" "0 \<le> ts' 2" using assms(5,6) by blast+
  have v: "auth_verify_token A (ts 0) tok Refresh d = (Inr u, d)"
    "auth_verify_token A (ts' 0) tok Refresh d = (Inr u, d)" for d
    using assms(1,2) by (auto intro: verify_token_any_state)
  obtain res where res: "\<And>d. issue_tokens A (ts 1) (ts 2) u d = (Inr res, d)"
    using issue_tokens_spec [OF ts(1,2), of u] by blast
  obtain res' where res': "\<And>d. issue_tokens A (ts' 1) (ts' 2) u d = (Inr res', d)"
    using issue_tokens_spec [OF ts(3,4), of u] by blast
  show ?thesis
    using assms(3,4)
    by (simp add: refresh_process_def pair_step v res [unfolded One_nat_def]
        res' [unfolded One_nat_def] cache.cache_laws proc_return_def)
qed

end

section \<open>Properties\<close>

lemma one_session_sound: "sessions_sound ref_auth server_strs server_lists one_session"
proof -
  have "server_lists one_session k \<noteq> [] \<Longrightarrow> k = uuid_str ref_user" for k
    by (simp add: one_session_def server_lists_def split: if_splits)
  moreover have "server_strs one_session k = None" for k
    by (simp add: one_session_def server_strs_def)
  ultimately show ?thesis
    using separated_entry [of "''phone''"] unfolding sessions_sound_def
    by (metis empty_iff empty_set one_session_views(2) set_ConsD list.set_cases list.set(1))
qed

text \<open>
  C18: Any number of logins, refreshes and logouts may run at the same time, from devices with any
  fingerprints: however their actions are interleaved, every entry of a user has a separator and no string
  is written under an identifier, so that neither a refresh nor a logout ever takes the branch of the
  broken separator.
\<close>

theorem concurrent_sessions_sound:
  assumes "auth_service A strs lsts life" and "sessions_sound A strs lsts c"
    and "list_all (sane_request A) qs" and "par_run n (map (session_process A) qs, c) d"
  shows "sessions_sound A strs lsts (snd d) \<and>
    (known_uuid A u \<longrightarrow> find_pair fp tok (lsts (snd d) (uuid_str u)) \<noteq> Broken \<and>
      find_token tok (lsts (snd d) (uuid_str u)) \<noteq> Broken)"
  using auth_service.sound_run [OF assms] by (simp add: sessions_sound_not_broken sessions_sound_not_broken')

theorem concurrent_sessions_sound_witness:
  "let d = run_schedule [0, 1, 1, 0, 1, 0, 1, 0, 0, 1] (map (session_process ref_auth)
      [LoginCall (\<lambda>_. 0) ''phone'' ref_user, LoginCall (\<lambda>_. 0) ''my::phone'' ref_user], [])
   in sessions_sound ref_auth server_strs server_lists (snd d)"
proof -
  let ?qs = "[LoginCall (\<lambda>_. 0) ''phone'' ref_user, LoginCall (\<lambda>_. 0) ''my::phone'' ref_user]"
  obtain n where "par_run n (map (session_process ref_auth) ?qs, [])
      (run_schedule [0, 1, 1, 0, 1, 0, 1, 0, 0, 1] (map (session_process ref_auth) ?qs, []))"
    using run_schedule_par by blast
  moreover have "sessions_sound ref_auth server_strs server_lists []"
    by (simp add: sessions_sound_def)
  moreover have "list_all (sane_request ref_auth) ?qs"
    by (simp add: ref_user_known)
  ultimately show ?thesis
    unfolding Let_def using concurrent_sessions_sound [OF ref_auth_ok] by blast
qed

text \<open>
  Two refreshes that come in at the same time with the same token are both answered with new
  tokens, although a refresh token is meant to work once: both read the sessions before either
  takes its entry out, the second removal removes nothing, and the user has one session more than
  before.
\<close>

theorem concurrent_refreshes_both_succeed:
  assumes "auth_service A strs lsts life"
    and "fst (auth_verify_token A (ts 0) tok Refresh c) = Inr u"
    and "fst (auth_verify_token A (ts' 0) tok Refresh c) = Inr u"
    and "strs c (uuid_str u) = None" and "find_pair fp tok (lsts c (uuid_str u)) = Verified e"
    and "\<forall>i. 0 \<le> ts i" and "\<forall>i. 0 \<le> ts' i"
  shows "\<exists>res res' d. run_schedule [0, 1, 0, 1, 0, 1, 0, 1, 0, 1]
      ([refresh_process A ts fp tok, refresh_process A ts' fp tok], c) =
        ([Done (Inr res), Done (Inr res')], d) \<and>
    lsts d (uuid_str u) = session_entry fp (tk_refresh (te_tokens res')) #
      session_entry fp (tk_refresh (te_tokens res)) # filter (\<lambda>x. x \<noteq> e) (lsts c (uuid_str u))"
  by (rule auth_service.refresh_race [where ts = ts and ts' = ts', OF assms])

theorem concurrent_refreshes_both_succeed_witness:
  "let tok = ref_token 0 Refresh (uuid_str ref_user);
       p = refresh_process ref_auth (\<lambda>_. 5000000) ''phone'' tok
   in \<exists>d. length (server_lists d (uuid_str ref_user)) = 2 \<and>
     snd (run_schedule [0, 1, 0, 1, 0, 1, 0, 1, 0, 1] ([p, p], one_session)) = d"
proof -
  let ?tok = "ref_token 0 Refresh (uuid_str ref_user)"
  have v: "fst (auth_verify_token ref_auth 5000000 ?tok Refresh one_session) = Inr ref_user"
    by (simp add: ref_verify)
  have f: "find_pair ''phone'' ?tok (server_lists one_session (uuid_str ref_user)) =
      Verified (session_entry ''phone'' ?tok)"
    using find_pair_well_formed [OF one_session_well_formed clean_phone
        ref_token_no_separator [of 0 Refresh "uuid_str ref_user"]]
    by (simp add: one_session_views)
  obtain res res' d where "run_schedule [0, 1, 0, 1, 0, 1, 0, 1, 0, 1]
      ([refresh_process ref_auth (\<lambda>_. 5000000) ''phone'' ?tok,
        refresh_process ref_auth (\<lambda>_. 5000000) ''phone'' ?tok], one_session) =
      ([Done (Inr res), Done (Inr res')], d)"
    and "server_lists d (uuid_str ref_user) =
      session_entry ''phone'' (tk_refresh (te_tokens res')) #
        session_entry ''phone'' (tk_refresh (te_tokens res)) #
        filter (\<lambda>x. x \<noteq> session_entry ''phone'' ?tok) (server_lists one_session (uuid_str ref_user))"
    using concurrent_refreshes_both_succeed [where ts = "\<lambda>_. 5000000" and ts' = "\<lambda>_. 5000000",
      OF ref_auth_ok v v one_session_views(1) f] by auto
  then show ?thesis
    unfolding Let_def by (intro exI [of _ d]) (simp add: one_session_views del: run_schedule.simps)
qed

end
