(* ===== verification/Rate_Limit.thy ===== *)
theory Rate_Limit
  imports Http
begin

text \<open>
  The rate limit of \<open>presentation/http/common/guards/rate_limit.py\<close>: a window per client and scope,
  kept as JSON in the cache.  The guard is modelled over the cache protocol; \<open>decide\<close> is what it
  does to one entry, and \<open>rl_run\<close> is the life of an entry: requests at times that do not go back,
  and the expiry of the entry in the cache.
\<close>

section \<open>The guard\<close>

datatype duration_unit = Second | Minute | Hour | Day

fun DURATION_VALUES :: "duration_unit \<Rightarrow> int" where
  "DURATION_VALUES Second = 1"
| "DURATION_VALUES Minute = 60"
| "DURATION_VALUES Hour = 3600"
| "DURATION_VALUES Day = 86400"

lemma duration_pos: "0 < DURATION_VALUES u"
  by (cases u) simp_all

record rate_limit =
  rl_duration :: int
  rl_limit :: int
  rl_scope :: "string option"
  rl_header_policy :: string
  rl_header_limit :: string
  rl_header_remaining :: string
  rl_header_reset :: string

definition make_rate_limit :: "duration_unit \<Rightarrow> int \<Rightarrow> string option \<Rightarrow> rate_limit" where
  "make_rate_limit unit limit scope =
     \<lparr>rl_duration = DURATION_VALUES unit, rl_limit = limit, rl_scope = scope,
      rl_header_policy = ''RateLimit-Policy'', rl_header_limit = ''RateLimit-Limit'',
      rl_header_remaining = ''RateLimit-Remaining'', rl_header_reset = ''RateLimit-Reset''\<rparr>"

definition get_client_ip :: "http_request \<Rightarrow> string" where
  "get_client_ip r =
     (if truthy_str (header_get r ''X-Forwarded-For'')
      then py_strip (hd (py_split '','' (the (header_get r ''X-Forwarded-For''))))
      else if truthy_str (header_get r ''X-Real-IP'') then the (header_get r ''X-Real-IP'')
      else case hr_client r of Some host \<Rightarrow> host | None \<Rightarrow> ''anonymous'')"

definition rate_limit_key :: "rate_limit \<Rightarrow> http_request \<Rightarrow> string" where
  "rate_limit_key L r =
     ''ratelimit::'' @ get_client_ip r @ ''::'' @
     (if truthy_str (rl_scope L) then the (rl_scope L) else hr_method r @ '':'' @ hr_path r)"

definition build_headers :: "rate_limit \<Rightarrow> int \<Rightarrow> int option \<Rightarrow> pydict" where
  "build_headers L remaining retry_after =
     (let headers = [(rl_header_policy L, PStr (int_str (rl_limit L) @ ''; w='' @ int_str (rl_duration L))),
        (rl_header_limit L, PStr (int_str (rl_limit L))),
        (rl_header_remaining L, PStr (int_str remaining))]
      in case retry_after of
           None \<Rightarrow> headers
         | Some n \<Rightarrow> dict_set (rl_header_reset L) (PStr (int_str n)) headers)"

text \<open>
  \<open>orjson\<close> is a library: \<open>dumps\<close> and \<open>loads\<close> are parameters.  A stored text that is no JSON raises,
  and so does one that is no object of the shape the guard stores.
\<close>

record json =
  js_dumps :: "pyval \<Rightarrow> string"
  js_loads :: "string \<Rightarrow> pyval option"

fun int_list :: "pyval list \<Rightarrow> int list option" where
  "int_list [] = Some []"
| "int_list (PInt n # vs) = map_option ((#) n) (int_list vs)"
| "int_list (_ # vs) = None"

lemma int_list_ints [simp]: "int_list (map PInt ns) = Some ns"
  by (induction ns) simp_all

definition get_history ::
  "json \<Rightarrow> 'c str_cache \<Rightarrow> string \<Rightarrow> int \<Rightarrow> int \<Rightarrow> ('c, int list \<times> int) io" where
  "get_history J store key now window =
     io_bind (sc_get store key) (\<lambda>raw.
     if \<not> truthy_str raw then io_return ([], now + window)
     else case js_loads J (the raw) of
         Some (PDict data) \<Rightarrow>
           (case (case dict_get data ''history'' of None \<Rightarrow> PList [] | Some v \<Rightarrow> v,
                  case dict_get data ''reset'' of None \<Rightarrow> PInt (now + window) | Some v \<Rightarrow> v) of
              (PList vs, PInt reset_ts) \<Rightarrow>
                (case int_list vs of
                   Some history \<Rightarrow>
                     if now \<ge> reset_ts then io_return ([], now + window)
                     else io_return (history, reset_ts)
                 | None \<Rightarrow> io_raise (PyTypeError ''history''))
            | _ \<Rightarrow> io_raise (PyTypeError ''reset''))
       | Some _ \<Rightarrow> io_raise (PyAttributeError ''get'')
       | None \<Rightarrow> io_raise (PyValueError ''JSONDecodeError''))"

definition prune_history :: "int list \<Rightarrow> int \<Rightarrow> int \<Rightarrow> int list" where
  "prune_history history now window = filter (\<lambda>t. t > now - window) history"

definition history_payload :: "int list \<Rightarrow> int \<Rightarrow> pyval" where
  "history_payload history reset_ts =
     PDict [(''history'', PList (map PInt history)), (''reset'', PInt reset_ts)]"

definition save_history ::
  "json \<Rightarrow> 'c str_cache \<Rightarrow> rate_limit \<Rightarrow> string \<Rightarrow> int list \<Rightarrow> int \<Rightarrow> ('c, unit) io" where
  "save_history J store L key history reset_ts =
     sc_set store key (js_dumps J (history_payload history reset_ts)) (Some (ETimedelta (rl_duration L)))"

text \<open>The guard returns the headers it puts into \<open>request.state\<close>.\<close>

definition rate_limit_call ::
  "json \<Rightarrow> 'c str_cache \<Rightarrow> rate_limit \<Rightarrow> int \<Rightarrow> http_request \<Rightarrow> ('c, pydict) io" where
  "rate_limit_call J store L now r =
     (let key = rate_limit_key L r; window = rl_duration L in
      io_bind (get_history J store key now window) (\<lambda>(history0, reset_ts).
      let history = prune_history history0 now window in
      if int (length history) \<ge> rl_limit L
      then io_raise (App (detailed_error TooManyRequestsError ''Too Many Requests''
             (Some (build_headers L 0 (Some (reset_ts - now)))) []))
      else
        io_bind (save_history J store L key (now # history) reset_ts) (\<lambda>_.
        io_return (build_headers L (rl_limit L - int (length (now # history))) (Some (reset_ts - now))))))"

section \<open>One entry\<close>

type_synonym rl_entry = "(int list \<times> int) option"

datatype decision = Accepted int int | Refused int

definition current :: "int \<Rightarrow> int \<Rightarrow> rl_entry \<Rightarrow> int list \<times> int" where
  "current window now entry =
     (case entry of
        Some (history, reset) \<Rightarrow> if now \<ge> reset then ([], now + window) else (history, reset)
      | None \<Rightarrow> ([], now + window))"

definition decide :: "int \<Rightarrow> int \<Rightarrow> int \<Rightarrow> rl_entry \<Rightarrow> decision \<times> rl_entry" where
  "decide limit window now entry =
     (let (history0, reset) = current window now entry;
          history = prune_history history0 now window
      in if int (length history) \<ge> limit then (Refused (reset - now), entry)
         else (Accepted (limit - int (length (now # history))) (reset - now),
               Some (now # history, reset)))"

text \<open>The entry a cache holds under a key.\<close>

definition entry_in :: "json \<Rightarrow> string option \<Rightarrow> rl_entry \<Rightarrow> bool" where
  "entry_in J raw entry \<longleftrightarrow>
     (case entry of
        None \<Rightarrow> raw = None
      | Some (history, reset) \<Rightarrow> raw = Some (js_dumps J (history_payload history reset)))"

locale rate_limit_laws = str_cache_laws C strs lists
  for C :: "'c str_cache" and strs :: "'c \<Rightarrow> string \<Rightarrow> string option"
    and lists :: "'c \<Rightarrow> string \<Rightarrow> string list" +
  fixes J :: json
  assumes dumps: "js_dumps J v \<noteq> []"
    and loads: "js_loads J (js_dumps J (history_payload h r)) = Some (history_payload h r)"
begin

lemma get_history_entry:
  assumes "lists c key = []" and "entry_in J (strs c key) entry"
  shows "get_history J C key now window c = (Inr (current window now entry), c)"
  using assms(2) get [OF assms(1)] dumps loads
  by (auto simp: get_history_def entry_in_def current_def io_simps history_payload_def
      split: option.split)

text \<open>The guard does to the stored entry what \<open>decide\<close> does, and tells the client so.\<close>

lemma call_refines_decide:
  fixes L :: rate_limit and r :: http_request and c :: 'c
  defines "key \<equiv> rate_limit_key L r"
  assumes "lists c key = []" and "entry_in J (strs c key) entry"
  shows "fst (rate_limit_call J C L now r c) =
      (case fst (decide (rl_limit L) (rl_duration L) now entry) of
         Refused n \<Rightarrow> Inl (App (detailed_error TooManyRequestsError ''Too Many Requests''
           (Some (build_headers L 0 (Some n))) []))
       | Accepted m n \<Rightarrow> Inr (build_headers L m (Some n)))"
    and "entry_in J (strs (snd (rate_limit_call J C L now r c)) key)
      (snd (decide (rl_limit L) (rl_duration L) now entry))"
    and "lists (snd (rate_limit_call J C L now r c)) = lists c"
    and "k \<noteq> key \<Longrightarrow> strs (snd (rate_limit_call J C L now r c)) k = strs c k"
proof -
  note call = rate_limit_call_def Let_def io_bind_def io_apply save_history_def decide_def
    get_history_entry [OF assms(2,3) [unfolded key_def]] set_ok [OF assms(2) [unfolded key_def]]
    set_strs [OF assms(2) [unfolded key_def]] set_lists [OF assms(2) [unfolded key_def]]
  show "fst (rate_limit_call J C L now r c) =
      (case fst (decide (rl_limit L) (rl_duration L) now entry) of
         Refused n \<Rightarrow> Inl (App (detailed_error TooManyRequestsError ''Too Many Requests''
           (Some (build_headers L 0 (Some n))) []))
       | Accepted m n \<Rightarrow> Inr (build_headers L m (Some n)))"
    by (cases "current (rl_duration L) now entry") (simp add: call)
  show "entry_in J (strs (snd (rate_limit_call J C L now r c)) key)
      (snd (decide (rl_limit L) (rl_duration L) now entry))"
    using assms(3)
    by (cases "current (rl_duration L) now entry")
      (auto simp: call key_def entry_in_def split: option.splits)
  show "lists (snd (rate_limit_call J C L now r c)) = lists c"
    by (cases "current (rl_duration L) now entry") (simp add: call)
  show "strs (snd (rate_limit_call J C L now r c)) k = strs c k" if "k \<noteq> key"
    using that by (cases "current (rl_duration L) now entry") (simp add: call key_def)
qed

end

section \<open>The life of an entry\<close>

text \<open>
  The times at which requests were accepted, the latest first; the entry; the present time; and the
  time from which the cache may drop the entry, the last write and the duration.
\<close>

inductive rl_run :: "int \<Rightarrow> int \<Rightarrow> int list \<Rightarrow> rl_entry \<Rightarrow> int \<Rightarrow> int \<Rightarrow> bool" for limit window :: int where
  rl_start: "rl_run limit window [] None now now"
| rl_accept: "rl_run limit window acc entry clock deadline \<Longrightarrow> clock \<le> now \<Longrightarrow>
    decide limit window now entry = (Accepted m n, entry') \<Longrightarrow>
    rl_run limit window (now # acc) entry' now (now + window)"
| rl_refuse: "rl_run limit window acc entry clock deadline \<Longrightarrow> clock \<le> now \<Longrightarrow>
    decide limit window now entry = (Refused n, entry') \<Longrightarrow>
    rl_run limit window acc entry' now deadline"
| rl_expire: "rl_run limit window acc entry clock deadline \<Longrightarrow> clock \<le> now \<Longrightarrow> deadline \<le> now \<Longrightarrow>
    rl_run limit window acc None now deadline"

text \<open>
  The accepted times fall into blocks, one per window: at most \<open>limit\<close> of them, from the start of
  the window and before its end; a window starts at the end of the one before or later.
\<close>

definition block :: "int \<Rightarrow> int \<Rightarrow> int list \<Rightarrow> bool" where
  "block limit window b \<longleftrightarrow>
     b \<noteq> [] \<and> int (length b) \<le> limit \<and> (\<forall>t \<in> set b. last b \<le> t \<and> t < last b + window)"

fun blocks :: "int \<Rightarrow> int \<Rightarrow> int list list \<Rightarrow> bool" where
  "blocks limit window [] = True"
| "blocks limit window [b] = block limit window b"
| "blocks limit window (b # c # bs) \<longleftrightarrow>
     block limit window b \<and> last c + window \<le> last b \<and> blocks limit window (c # bs)"

text \<open>
  The invariant: an entry holds the block of its window, the reset is the end of that window, and
  while the window lasts the cache does not drop the entry.
\<close>

definition rl_inv :: "int \<Rightarrow> int \<Rightarrow> int list \<Rightarrow> rl_entry \<Rightarrow> int \<Rightarrow> int \<Rightarrow> bool" where
  "rl_inv limit window acc entry clock deadline \<longleftrightarrow>
     (\<exists>bs. acc = concat bs \<and> blocks limit window bs \<and> (\<forall>t \<in> set acc. t \<le> clock) \<and>
       (bs \<noteq> [] \<longrightarrow> last (hd bs) + window \<le> deadline) \<and>
       (case entry of
          None \<Rightarrow> bs = [] \<or> last (hd bs) + window \<le> clock
        | Some (history, reset) \<Rightarrow> bs \<noteq> [] \<and> history = hd bs \<and> reset = last (hd bs) + window))"

lemma blocks_Cons:
  "block limit window b \<Longrightarrow> blocks limit window bs \<Longrightarrow>
    (bs \<noteq> [] \<Longrightarrow> last (hd bs) + window \<le> last b) \<Longrightarrow> blocks limit window (b # bs)"
  by (cases bs) simp_all

lemma blocks_hd: "blocks limit window (b # bs) \<Longrightarrow> block limit window b"
  by (cases bs) simp_all

lemma blocks_replace:
  "blocks limit window (b # bs) \<Longrightarrow> block limit window b' \<Longrightarrow> last b' = last b \<Longrightarrow>
    blocks limit window (b' # bs)"
  by (cases bs) simp_all


lemma prune_block:
  "\<forall>t \<in> set h. r - window \<le> t \<Longrightarrow> now < r \<Longrightarrow> prune_history h now window = h"
  by (auto simp: prune_history_def intro!: filter_True)

text \<open>Pruning never removes anything: what a decision works on is the block of the window, or none.\<close>

lemma decide_in_window:
  assumes "rl_inv limit window acc entry clock deadline" and "clock \<le> now" and "0 < window"
  shows "current window now entry = (if \<exists>h r. entry = Some (h, r) \<and> now < r then the entry
      else ([], now + window))"
    and "prune_history (fst (current window now entry)) now window = fst (current window now entry)"
proof -
  show c: "current window now entry = (if \<exists>h r. entry = Some (h, r) \<and> now < r then the entry
      else ([], now + window))"
    by (auto simp: current_def split: option.split)
  show "prune_history (fst (current window now entry)) now window = fst (current window now entry)"
  proof (cases "\<exists>h r. entry = Some (h, r) \<and> now < r")
    case True
    then obtain h r where e: "entry = Some (h, r)" "now < r" by blast
    obtain bs where bs: "blocks limit window bs" "bs \<noteq> []" "h = hd bs" "r = last (hd bs) + window"
      using assms(1) e by (auto simp: rl_inv_def)
    then have "block limit window h" by (cases bs) (auto dest: blocks_hd)
    with bs e have "prune_history h now window = h"
      by (intro prune_block [of h r]) (auto simp: block_def)
    with e show ?thesis by (simp add: current_def)
  next
    case False
    then have "current window now entry = ([], now + window)" unfolding c by (rule if_not_P)
    then show ?thesis by (simp add: prune_history_def)
  qed
qed

lemma rl_inv_accept:
  assumes inv: "rl_inv limit window acc entry clock deadline" and "clock \<le> now" and "0 < window"
    and dec: "decide limit window now entry = (Accepted m n, entry')"
  shows "rl_inv limit window (now # acc) entry' now (now + window)"
proof -
  obtain bs where bs: "acc = concat bs" "blocks limit window bs" "\<forall>t \<in> set acc. t \<le> clock"
    "case entry of None \<Rightarrow> bs = [] \<or> last (hd bs) + window \<le> clock
     | Some (history, reset) \<Rightarrow> bs \<noteq> [] \<and> history = hd bs \<and> reset = last (hd bs) + window"
    using inv unfolding rl_inv_def by blast
  note w = decide_in_window [OF assms(1-3)]
  have old: "\<forall>t \<in> set (now # acc). t \<le> now"
    using bs(3) assms(2) by fastforce
  show ?thesis
  proof (cases "\<exists>h r. entry = Some (h, r) \<and> now < r")
    case True
    then obtain h r where e: "entry = Some (h, r)" "now < r" by blast
    then obtain cs where cs: "bs = h # cs" "r = last h + window"
      using bs(4) by (cases bs) auto
    have h: "block limit window h" using bs(2) cs(1) blocks_hd by blast
    have d: "entry' = Some (now # h, r)" "int (length h) < limit"
      using dec w e by (auto simp: decide_def Let_def current_def split: if_splits)
    have "last h \<le> clock"
      using bs(1,3) cs(1) h by (auto simp: block_def)
    then have "block limit window (now # h)"
      using h d(2) e(2) cs(2) assms(2) by (auto simp: block_def)
    then have "blocks limit window ((now # h) # cs)"
      using bs(2) cs(1) h by (auto intro: blocks_replace simp: block_def)
    then show ?thesis
      unfolding rl_inv_def
      using d(1) cs bs(1) old e(2) \<open>last h \<le> clock\<close> assms(2) h
      by (intro exI [of _ "(now # h) # cs"]) (auto simp: block_def)
  next
    case False
    have d: "entry' = Some ([now], now + window)" "0 < limit"
      using dec False by (auto simp: decide_def Let_def current_def prune_history_def
          split: if_splits option.splits)
    have "bs \<noteq> [] \<Longrightarrow> last (hd bs) + window \<le> now"
      using bs(4) False assms(2) by (auto split: option.splits)
    then have "blocks limit window ([now] # bs)"
      using bs(2) d(2) assms(3) by (intro blocks_Cons) (auto simp: block_def)
    then show ?thesis
      unfolding rl_inv_def
      using d(1) bs(1) old by (intro exI [of _ "[now] # bs"]) simp
  qed
qed

lemma rl_inv_later:
  assumes "rl_inv limit window acc entry clock deadline" and "clock \<le> now"
  shows "rl_inv limit window acc entry now deadline"
proof -
  obtain bs where bs: "acc = concat bs" "blocks limit window bs" "\<forall>t \<in> set acc. t \<le> clock"
    "bs \<noteq> [] \<longrightarrow> last (hd bs) + window \<le> deadline"
    "case entry of None \<Rightarrow> bs = [] \<or> last (hd bs) + window \<le> clock
     | Some (history, reset) \<Rightarrow> bs \<noteq> [] \<and> history = hd bs \<and> reset = last (hd bs) + window"
    using assms(1) unfolding rl_inv_def by blast
  have "\<forall>t \<in> set acc. t \<le> now" using bs(3) assms(2) by fastforce
  moreover have "case entry of None \<Rightarrow> bs = [] \<or> last (hd bs) + window \<le> now
     | Some (history, reset) \<Rightarrow> bs \<noteq> [] \<and> history = hd bs \<and> reset = last (hd bs) + window"
    using bs(5) assms(2) by (cases entry) auto
  ultimately show ?thesis
    using bs(1,2,4) unfolding rl_inv_def by blast
qed

lemma rl_inv_run:
  "rl_run limit window acc entry clock deadline \<Longrightarrow> 0 < window \<Longrightarrow>
    rl_inv limit window acc entry clock deadline"
proof (induction rule: rl_run.induct)
  case (rl_start now)
  show ?case unfolding rl_inv_def by (rule exI [of _ "[]"]) simp
next
  case (rl_accept acc entry clock deadline now m n entry')
  then show ?case by (blast intro: rl_inv_accept)
next
  case (rl_refuse acc entry clock deadline now n entry')
  then have "entry' = entry" by (auto simp: decide_def Let_def split: prod.splits if_splits)
  with rl_refuse show ?case by (blast intro: rl_inv_later)
next
  case (rl_expire acc entry clock deadline now)
  then have "rl_inv limit window acc entry clock deadline" by simp
  then obtain bs where "acc = concat bs" "blocks limit window bs" "\<forall>t \<in> set acc. t \<le> clock"
    "bs \<noteq> [] \<longrightarrow> last (hd bs) + window \<le> deadline"
    unfolding rl_inv_def by blast
  moreover from this(3) rl_expire(2) have "\<forall>t \<in> set acc. t \<le> now" by fastforce
  moreover from calculation(4) rl_expire(3) have "bs = [] \<or> last (hd bs) + window \<le> now" by linarith
  ultimately show ?case
    unfolding rl_inv_def option.case by blast
qed

text \<open>Counting: an interval no longer than a window meets two blocks, one of them only in part.\<close>

lemma blocks_bound:
  assumes "blocks limit window bs"
  shows "bs \<noteq> [] \<Longrightarrow> \<forall>x \<in> set (concat (tl bs)). x < last (hd bs)"
  using assms
proof (induction bs)
  case (Cons b bs)
  show ?case
  proof (cases bs)
    case (Cons c cs)
    have "\<forall>x \<in> set c. x < last c + window" "last c + window \<le> last b" "blocks limit window bs"
      using Cons.prems(2) Cons by (auto simp: block_def dest: blocks_hd)
    moreover have "0 < window"
      using Cons.prems(2) Cons by (cases c) (auto simp: block_def dest!: blocks_hd)
    ultimately show ?thesis
      using Cons.IH Cons by fastforce
  qed simp
qed simp

lemma count_in_block: "block limit window b \<Longrightarrow> int (length (filter P b)) \<le> limit"
  using length_filter_le [of P b] unfolding block_def by linarith

lemma count_in_blocks:
  assumes "blocks limit window bs"
  shows "int (length (filter (\<lambda>x. t \<le> x \<and> x < t + window) (concat bs))) \<le> (if bs = [] then 0 else
    if t \<le> last (hd bs) then 2 * limit - 1 else limit)"
  using assms
proof (induction bs)
  case (Cons b bs)
  let ?P = "\<lambda>x. t \<le> x \<and> x < t + window"
  have b: "block limit window b" using Cons.prems by (rule blocks_hd)
  then have pos: "1 \<le> limit" by (cases b) (auto simp: block_def)
  have cb: "int (length (filter ?P b)) \<le> limit" by (rule count_in_block [OF b])
  have rest: "\<forall>x \<in> set (concat bs). x < last b"
    using blocks_bound [OF Cons.prems] by simp
  show ?case
  proof (cases "t \<le> last b")
    case False
    then have "filter ?P (concat bs) = []"
      using rest by (fastforce simp: filter_empty_conv)
    then show ?thesis using False cb by simp
  next
    case True
    show ?thesis
    proof (cases bs)
      case Nil
      then show ?thesis using True cb pos by simp
    next
      case (Cons c cs)
      have step: "last c + window \<le> last b" and bl: "blocks limit window bs"
        using Cons.prems Cons by auto
      have IH: "int (length (filter ?P (concat bs))) \<le>
          (if t \<le> last c then 2 * limit - 1 else limit)"
        using Cons.IH [OF bl] Cons by simp
      show ?thesis
      proof (cases "t \<le> last c")
        case True
        then have "filter ?P b = []"
          using step b by (fastforce simp: filter_empty_conv block_def)
        then show ?thesis using IH True \<open>t \<le> last b\<close> by simp
      next
        case False
        have cc: "block limit window c" using bl Cons blocks_hd by blast
        have old: "filter ?P (concat cs) = []"
          using blocks_bound [OF bl] False Cons by (fastforce simp: filter_empty_conv)
        have "length (filter ?P c) < length c"
          using cc False by (intro length_filter_less [of "last c"]) (auto simp: block_def)
        then have "int (length (filter ?P c)) \<le> limit - 1"
          using cc by (simp add: block_def)
        then show ?thesis using cb old True Cons by simp
      qed
    qed
  qed
qed simp

end
