(* ===== verification/Rate_Limit_Properties.thy ===== *)
theory Rate_Limit_Properties
  imports Rate_Limit Cache_Instances
begin

text \<open>
  The properties of the rate limit: what the guard answers, the bound on accepted requests, and
  whose requests are counted together.  The examples run on the reference Redis with a small JSON
  writer.
\<close>

section \<open>The reference\<close>

definition ref_dumps :: "pyval \<Rightarrow> string" where
  "ref_dumps v =
     (case v of
        PDict [(_, PList vs), (_, PInt r)] \<Rightarrow>
          py_join '','' (int_str r # map (\<lambda>v. case v of PInt i \<Rightarrow> int_str i | _ \<Rightarrow> []) vs)
      | _ \<Rightarrow> ''null'')"

definition ref_loads :: "string \<Rightarrow> pyval option" where
  "ref_loads s =
     (case map (\<lambda>x. the (parse_int x)) (py_split '','' s) of
        r # h \<Rightarrow> Some (history_payload h r) | [] \<Rightarrow> None)"

definition ref_json :: json where
  "ref_json = \<lparr>js_dumps = ref_dumps, js_loads = ref_loads\<rparr>"

lemma int_str_no_comma: "\<not> sublist '','' (int_str i @ butlast '','')"
  by (auto simp: sublist_single is_digit_def dest: int_str_chars)

lemma int_str_nonempty: "int_str i \<noteq> []"
  by (simp add: int_str_def)

lemma ref_loads_dumps: "ref_loads (ref_dumps (history_payload h r)) = Some (history_payload h r)"
proof -
  have "ref_dumps (history_payload h r) = py_join '','' (map int_str (r # h))"
    by (simp add: ref_dumps_def history_payload_def comp_def)
  moreover have "py_split '','' (py_join '','' (map int_str (r # h))) = map int_str (r # h)"
    by (rule py_split_join) (use int_str_no_comma in auto)
  ultimately show ?thesis by (simp add: ref_loads_def comp_def)
qed

interpretation reflimit: rate_limit_laws "redis_cache ref_redis" server_strs server_lists ref_json
proof -
  have "rate_limit_laws_axioms ref_json"
  proof
    fix v
    have "py_join '','' (int_str r # xs) \<noteq> []" for r xs
      by (cases xs) (simp_all add: int_str_nonempty)
    then show "js_dumps ref_json v \<noteq> []"
      by (auto simp: ref_json_def ref_dumps_def split: pyval.split list.split)
  next
    fix h r
    show "js_loads ref_json (js_dumps ref_json (history_payload h r)) = Some (history_payload h r)"
      by (simp add: ref_json_def ref_loads_dumps)
  qed
  with ref_cache_ok show "rate_limit_laws (redis_cache ref_redis) server_strs server_lists ref_json"
    by (rule rate_limit_laws.intro)
qed

lemmas ref_limit_ok = reflimit.rate_limit_laws_axioms

definition two_per_minute :: rate_limit where
  "two_per_minute = make_rate_limit Minute 2 None"

definition ping :: http_request where
  "ping =
     \<lparr>hr_method = ''GET'', hr_path = ''/ping'', hr_headers = [], hr_client = Some ''10.0.0.1'',
      hr_query = [], hr_body = [], hr_cookies = [], hr_request_id = None\<rparr>"

lemma two_per_minute_simps [simp]: "rl_limit two_per_minute = 2" "rl_duration two_per_minute = 60"
  by (simp_all add: two_per_minute_def make_rate_limit_def)

section \<open>Properties\<close>



text \<open>
  The calls of one guard for the requests of one key, at times that do not go back: the times of the
  accepted requests, the latest first, the cache, the present, and the time from which the cache may
  drop the entry, the last write and its expiry.  In between anything else may happen to the cache
  that leaves the key alone.
\<close>

inductive limit_run ::
  "json \<Rightarrow> 'c str_cache \<Rightarrow> ('c \<Rightarrow> string \<Rightarrow> string option) \<Rightarrow> ('c \<Rightarrow> string \<Rightarrow> string list) \<Rightarrow> rate_limit \<Rightarrow>
    string \<Rightarrow> int list \<Rightarrow> 'c \<Rightarrow> int \<Rightarrow> int \<Rightarrow> bool"
  for J C strs lsts L key where
  free: "strs c key = None \<Longrightarrow> lsts c key = [] \<Longrightarrow> limit_run J C strs lsts L key [] c now now"
| accepted: "limit_run J C strs lsts L key acc c clock deadline \<Longrightarrow> clock \<le> now \<Longrightarrow>
    rate_limit_key L r = key \<Longrightarrow> rate_limit_call J C L now r c = (Inr headers, d) \<Longrightarrow>
    limit_run J C strs lsts L key (now # acc) d now (now + rl_duration L)"
| refused: "limit_run J C strs lsts L key acc c clock deadline \<Longrightarrow> clock \<le> now \<Longrightarrow>
    rate_limit_key L r = key \<Longrightarrow> rate_limit_call J C L now r c = (Inl e, d) \<Longrightarrow>
    limit_run J C strs lsts L key acc d now deadline"
| dropped: "limit_run J C strs lsts L key acc c clock deadline \<Longrightarrow> clock \<le> now \<Longrightarrow> deadline \<le> now \<Longrightarrow>
    strs d key = None \<Longrightarrow> lsts d key = [] \<Longrightarrow> limit_run J C strs lsts L key acc d now deadline"
| others: "limit_run J C strs lsts L key acc c clock deadline \<Longrightarrow>
    strs d key = strs c key \<Longrightarrow> lsts d key = lsts c key \<Longrightarrow> limit_run J C strs lsts L key acc d clock deadline"

lemma limit_run_entry:
  assumes laws: "rate_limit_laws C strs lsts J"
    and "limit_run J C strs lsts L key acc c clock deadline"
  shows "\<exists>entry. lsts c key = [] \<and> entry_in J (strs c key) entry \<and>
    rl_run (rl_limit L) (rl_duration L) acc entry clock deadline"
  using assms(2)
proof (induction rule: limit_run.induct)
  case (free c now)
  then show ?case by (intro exI [of _ None]) (simp add: entry_in_def rl_start)
next
  case (accepted acc c clock deadline now r headers d)
  then obtain entry where e: "lsts c key = []" "entry_in J (strs c key) entry"
    "rl_run (rl_limit L) (rl_duration L) acc entry clock deadline" by blast
  note call = rate_limit_laws.call_refines_decide
    [where r = r and L = L and now = now, unfolded accepted.hyps(3), OF laws e(1,2)]
  obtain m n entry' where "decide (rl_limit L) (rl_duration L) now entry = (Accepted m n, entry')"
    using call(1) accepted.hyps(4)
    by (cases "decide (rl_limit L) (rl_duration L) now entry") (auto split: decision.splits)
  then show ?case
    using rl_accept [OF e(3) accepted.hyps(2)] call(2,3) accepted.hyps(4) e(1) by auto
next
  case (refused acc c clock deadline now r x d)
  then obtain entry where e: "lsts c key = []" "entry_in J (strs c key) entry"
    "rl_run (rl_limit L) (rl_duration L) acc entry clock deadline" by blast
  note call = rate_limit_laws.call_refines_decide
    [where r = r and L = L and now = now, unfolded refused.hyps(3), OF laws e(1,2)]
  obtain n entry' where "decide (rl_limit L) (rl_duration L) now entry = (Refused n, entry')"
    using call(1) refused.hyps(4)
    by (cases "decide (rl_limit L) (rl_duration L) now entry") (auto split: decision.splits)
  then show ?case
    using rl_refuse [OF e(3) refused.hyps(2)] call(2,3) refused.hyps(4) e(1) by auto
next
  case (dropped acc c clock deadline now d)
  then show ?case by (intro exI [of _ None]) (auto simp: entry_in_def intro: rl_expire)
qed auto

lemma rl_run_bound:
  assumes "0 < window" and "rl_run limit window acc entry clock deadline"
  shows "int (length (filter (\<lambda>x. t \<le> x \<and> x < t + window) acc)) \<le> max 0 (2 * limit - 1)"
proof -
  obtain bs where bs: "acc = concat bs" "blocks limit window bs"
    using rl_inv_run [OF assms(2,1)] unfolding rl_inv_def by blast
  show ?thesis
  proof (cases bs)
    case Nil
    then show ?thesis using bs(1) by simp
  next
    case (Cons b cs)
    then have "1 \<le> limit" using bs(2) by (cases b) (auto dest!: blocks_hd simp: block_def)
    then show ?thesis
      using count_in_blocks [OF bs(2), of t] Cons bs(1) by (auto split: if_splits)
  qed
qed

text \<open>
  C30: the bound.  Of the requests of one key that the guard is asked about, at whatever times, with
  the entry dropped by the cache at its expiry or kept, and whatever else happens in the cache, at
  most twice the limit minus one are accepted within the length of a window, wherever it is put, and
  none at all with a limit of zero.
\<close>

theorem rate_limit_bound:
  assumes "rate_limit_laws C strs lsts J" and "0 < rl_duration L"
    and "limit_run J C strs lsts L key acc c clock deadline"
  shows "int (length (filter (\<lambda>x. t \<le> x \<and> x < t + rl_duration L) acc)) \<le> max 0 (2 * rl_limit L - 1)"
  using limit_run_entry [OF assms(1,3)] rl_run_bound [OF assms(2)] by blast

text \<open>The bound is reached: with two requests a minute, three are accepted within a minute.\<close>

lemma burst_call:
  assumes "server_strs c (rate_limit_key two_per_minute ping) = map_option (\<lambda>(h, n). ref_dumps (history_payload h n)) e"
    and "server_lists c (rate_limit_key two_per_minute ping) = []"
    and "decide 2 60 now e = (Accepted m n, Some (h, k))"
  obtains d headers where "rate_limit_call ref_json (redis_cache ref_redis) two_per_minute now ping c = (Inr headers, d)"
    "server_strs d (rate_limit_key two_per_minute ping) = Some (ref_dumps (history_payload h k))"
    "server_lists d (rate_limit_key two_per_minute ping) = []"
proof -
  have e: "entry_in ref_json (server_strs c (rate_limit_key two_per_minute ping)) e"
    using assms(1) by (auto simp: entry_in_def ref_json_def split: option.split)
  note call = reflimit.call_refines_decide [OF assms(2) e, where now = now]
  have "fst (rate_limit_call ref_json (redis_cache ref_redis) two_per_minute now ping c) =
      Inr (build_headers two_per_minute m (Some n))"
    using call(1) assms(3) by simp
  then show ?thesis
    using call(2,3) assms(2,3)
    by (intro that [of "build_headers two_per_minute m (Some n)"
      "snd (rate_limit_call ref_json (redis_cache ref_redis) two_per_minute now ping c)"])
      (auto simp: entry_in_def ref_json_def prod_eq_iff)
qed

lemma burst_run:
  "\<exists>c. limit_run ref_json (redis_cache ref_redis) server_strs server_lists two_per_minute
    (rate_limit_key two_per_minute ping) [61, 60, 59, 0] c 61 121"
proof -
  let ?k = "rate_limit_key two_per_minute ping"
  let ?run = "limit_run ref_json (redis_cache ref_redis) server_strs server_lists two_per_minute ?k"
  note step = decide_def current_def prune_history_def
  have a: "?run [] [] 0 0" by (rule free) (simp_all add: server_strs_def server_lists_def)
  obtain d h where d: "rate_limit_call ref_json (redis_cache ref_redis) two_per_minute 0 ping [] = (Inr h, d)"
    "server_strs d ?k = Some (ref_dumps (history_payload [0] 60))" "server_lists d ?k = []"
    by (rule burst_call [of "[]" None 0 1 60 "[0]" 60]) (simp_all add: server_strs_def server_lists_def step)
  have b: "?run [0] d 0 60" using accepted [OF a _ _ d(1)] by simp
  obtain d' h' where d': "rate_limit_call ref_json (redis_cache ref_redis) two_per_minute 59 ping d = (Inr h', d')"
    "server_strs d' ?k = Some (ref_dumps (history_payload [59, 0] 60))" "server_lists d' ?k = []"
    by (rule burst_call [of d "Some ([0], 60)" 59 0 1 "[59, 0]" 60]) (simp_all add: d step)
  have c: "?run [59, 0] d' 59 119" using accepted [OF b _ _ d'(1)] by simp
  obtain f g where f: "rate_limit_call ref_json (redis_cache ref_redis) two_per_minute 60 ping d' = (Inr g, f)"
    "server_strs f ?k = Some (ref_dumps (history_payload [60] 120))" "server_lists f ?k = []"
    by (rule burst_call [of d' "Some ([59, 0], 60)" 60 1 60 "[60]" 120]) (simp_all add: d' step)
  have e: "?run [60, 59, 0] f 60 120" using accepted [OF c _ _ f(1)] by simp
  obtain f' g' where f': "rate_limit_call ref_json (redis_cache ref_redis) two_per_minute 61 ping f = (Inr g', f')"
    by (rule burst_call [of f "Some ([60], 120)" 61 0 59 "[61, 60]" 120]) (simp_all add: f step)
  show ?thesis using accepted [OF e _ _ f'] by auto
qed

theorem rate_limit_bound_witness:
  "int (length (filter (\<lambda>x. 59 \<le> x \<and> x < 59 + 60) [61, 60, 59, 0 :: int])) \<le> 3 \<and>
   length (filter (\<lambda>x. 59 \<le> x \<and> x < 59 + 60) [61, 60, 59, 0 :: int]) = 3"
proof -
  obtain c where c: "limit_run ref_json (redis_cache ref_redis) server_strs server_lists two_per_minute
    (rate_limit_key two_per_minute ping) [61, 60, 59, 0] c 61 121" using burst_run by blast
  show ?thesis using rate_limit_bound [OF ref_limit_ok _ c, of 59] by simp
qed

text \<open>
  The requests that are counted together are those with the same first address in
  \<open>X-Forwarded-For\<close>, a header the client writes: whoever sends it, two requests for the same scope
  share an entry exactly when they name the same address, and the real peer plays no part.
\<close>

theorem forwarded_header_chooses_entry:
  assumes "header_get r ''X-Forwarded-For'' = Some a" and "header_get r' ''X-Forwarded-For'' = Some b"
    and "a \<noteq> []" and "b \<noteq> []" and "rl_scope L = Some scope" and "scope \<noteq> []"
    and "list_all (\<lambda>c. \<not> is_space c \<and> c \<noteq> CHR '','') a"
    and "list_all (\<lambda>c. \<not> is_space c \<and> c \<noteq> CHR '','') b"
  shows "rate_limit_key L r = rate_limit_key L r' \<longleftrightarrow> a = b"
proof -
  have "get_client_ip q = x" if "header_get q ''X-Forwarded-For'' = Some x" "x \<noteq> []"
    "list_all (\<lambda>c. \<not> is_space c \<and> c \<noteq> CHR '','') x" for q x
  proof -
    have "\<not> sublist '','' x" using that(3) by (auto simp: sublist_single list_all_iff)
    moreover have "py_strip x = x" using that(3) by (intro py_strip_id) (auto simp: list_all_iff)
    ultimately show ?thesis using that(1,2) by (simp add: get_client_ip_def py_split_no_sep)
  qed
  then show ?thesis using assms by (simp add: rate_limit_key_def)
qed

theorem forwarded_header_chooses_entry_witness:
  "rate_limit_key (two_per_minute\<lparr>rl_scope := Some ''s''\<rparr>) (ping\<lparr>hr_headers := [(''x-forwarded-for'', ''1'')]\<rparr>) \<noteq>
   rate_limit_key (two_per_minute\<lparr>rl_scope := Some ''s''\<rparr>) (ping\<lparr>hr_headers := [(''x-forwarded-for'', ''2'')]\<rparr>)"
proof -
  let ?r = "\<lambda>v. ping\<lparr>hr_headers := [(''x-forwarded-for'', v)]\<rparr>"
  have "header_get (?r v) ''X-Forwarded-For'' = Some v" for v
    by (simp add: header_get_def to_lower_def is_upper_def char_of_def bit_0)
  then show ?thesis
    using forwarded_header_chooses_entry [of "?r ''1''" "''1''" "?r ''2''" "''2''"
        "two_per_minute\<lparr>rl_scope := Some ''s''\<rparr>" "''s''"]
    by (simp add: is_space_def)
qed

end
