(* ===== verification/Request_Races.thy ===== *)
theory Request_Races
  imports Session_Races Use_Case_Properties Rate_Limit_Properties
begin

text \<open>
  The confirmation of a registration and the rate limit under concurrent requests.  Their actions are
  the calls of the cache, the transaction on the database and the actions of the authentication
  service.  Confirmations exclude each other by the transaction; the rate limit does not exclude.
\<close>

section \<open>Confirmation\<close>

abbreviation cache_proc :: "('c, 'a) proc \<Rightarrow> (('c, 'd) ctx, 'a) proc" where
  "cache_proc \<equiv> proc_focus cx_cache (\<lambda>c. cx_cache_update (\<lambda>_. c))"

definition confirm_process ::
  "('c, 'd) app \<Rightarrow> (nat \<Rightarrow> int) \<Rightarrow> string \<Rightarrow> (('c, 'd) ctx, tokens_expire) proc" where
  "confirm_process A ts code =
     proc_bind (atomic (on_cache (sc_get (ap_cache A) (code_key code)))) (\<lambda>cached_data.
     if \<not> truthy_str cached_data
     then proc_raise (App (simple_error NotFoundError ''Code has expire or invalid''))
     else
       proc_bind (atomic (on_cache (sc_delete (ap_cache A) [code_key code]))) (\<lambda>_.
       case ap_parse A (the cached_data) of
         None \<Rightarrow> proc_raise PydanticValidationError
       | Some cached_user \<Rightarrow>
           proc_bind (atomic (on_db (in_database (ap_session A) (confirm_user A cached_user)))) (\<lambda>user.
           cache_proc (login_process (ap_auth A) ts (rg_fingerprint cached_user) (u_uuid user)))))"

lemma run_option [proc_run]:
  "run_proc (case x of None \<Rightarrow> p | Some y \<Rightarrow> q y) =
     (case x of None \<Rightarrow> run_proc p | Some y \<Rightarrow> run_proc (q y))"
  by (simp split: option.split)

lemma run_cache [proc_run]: "run_proc (cache_proc p) = on_cache (run_proc p)"
  by (rule run_focus) simp_all

lemma confirm_process_refines: "run_proc (confirm_process A ts code) = confirm A ts code"
  unfolding confirm_process_def confirm_def proc_run
    conjunct1 [OF session_processes_refine] ..

text \<open>What the confirmations of one code keep: the code is there as it was, or gone.\<close>

definition code_state ::
  "'c auth \<Rightarrow> ('c \<Rightarrow> string \<Rightarrow> string option) \<Rightarrow> ('c \<Rightarrow> string \<Rightarrow> string list) \<Rightarrow>
    string \<Rightarrow> string \<Rightarrow> 'c \<Rightarrow> bool" where
  "code_state A strs lsts key txt c \<longleftrightarrow>
     lsts c key = [] \<and> (strs c key = None \<or> strs c key = Some txt) \<and>
     (\<forall>u. known_uuid A u \<longrightarrow> strs c (uuid_str u) = None)"

lemma code_state_update:
  "code_state A strs lsts key txt c \<Longrightarrow> strs d = strs c \<Longrightarrow> lsts d key = lsts c key \<Longrightarrow>
    code_state A strs lsts key txt d"
  by (simp add: code_state_def)

context auth_service
begin

lemma login_keeps_code:
  assumes "known_uuid A u" and "uuid_str u \<noteq> key"
  shows "keeps (login_process A ts fp u) (code_state A strs lists key txt)"
proof -
  have free: "strs c (uuid_str u) = None" if "code_state A strs lists key txt c" for c
    using that assms(1) by (simp add: code_state_def)
  have upd: "(strs c)(uuid_str u := None) = strs c" if "code_state A strs lists key txt c" for c
    using free [OF that] by (simp add: fun_upd_idem)
  have "code_state A strs lists key txt (snd (sc_get_list (as_cache A) (uuid_str u) c))"
    "code_state A strs lists key txt (snd (sc_delete (as_cache A) [uuid_str u] c))"
    "code_state A strs lists key txt (snd (sc_set_list (as_cache A) (uuid_str u) [e] None c))"
    if c: "code_state A strs lists key txt c" for c e
    using free [OF c] upd [OF c] known_plain [OF assms(1)] assms(2) c
    by (auto simp: cache.cache_laws intro!: code_state_update [OF c])
  then show ?thesis
    by (auto simp: login_process_def issue_tokens_state intro!: keeps_intros keeps_atomic)
qed

end

context app_laws
begin

abbreviation code_known :: "string \<Rightarrow> string \<Rightarrow> ('c, 'd) ctx \<Rightarrow> bool" where
  "code_known key txt s \<equiv> code_state (ap_auth A) strs lists key txt (cx_cache s)"

abbreviation login_taken :: "string \<Rightarrow> ('c, 'd) ctx \<Rightarrow> bool" where
  "login_taken l s \<equiv> l \<in> u_login ` set (db_users (committed (cx_db s)))"

lemma confirm_database:
  fixes s :: "('c, 'd) ctx"
  shows "login_taken (rg_login r) s \<Longrightarrow>
      \<exists>e. fst (in_database (ap_session A) (confirm_user A r) (cx_db s)) = Inl e"
    and "fst (in_database (ap_session A) (confirm_user A r) (cx_db s)) = Inr v \<Longrightarrow>
      known_uuid (ap_auth A) (u_uuid v) \<and>
      rg_login r \<in> u_login ` set (db_users (committed (snd (in_database (ap_session A) (confirm_user A r) (cx_db s)))))"
    and "login_taken l s \<Longrightarrow>
      l \<in> u_login ` set (db_users (committed (snd (in_database (ap_session A) (confirm_user A r) (cx_db s)))))"
  using confirm_user_spec [of "cx_db s" r] by (auto simp: new_user_def)

lemma confirm_tail_wins:
  assumes apart: "\<And>u. known_uuid (ap_auth A) u \<Longrightarrow> uuid_str u \<noteq> key"
  shows "wins_by (proc_bind (atomic (on_db (in_database (ap_session A) (confirm_user A r)))) (\<lambda>user.
      cache_proc (login_process (ap_auth A) ts (rg_fingerprint r) (u_uuid user))))
    (login_taken (rg_login r)) (code_known key txt) False"
proof (rule wins_by_atomic)
  fix s :: "('c, 'd) ctx" and user
  let ?m = "on_db (in_database (ap_session A) (confirm_user A r))"
  assume s: "code_known key txt s"
  then show "code_known key txt (snd (?m s))" by (simp add: io_focus_def)
  show "login_taken (rg_login r) s \<Longrightarrow> login_taken (rg_login r) (snd (?m s))"
    using confirm_database(3) [of "rg_login r" s r] by (simp add: io_focus_def)
  assume user: "fst (?m s) = Inr user"
  then have u: "fst (in_database (ap_session A) (confirm_user A r) (cx_db s)) = Inr user"
    by (simp add: io_focus_def)
  have "\<not> login_taken (rg_login r) s \<and> login_taken (rg_login r) (snd (?m s))"
    using confirm_database(1) [of r s] confirm_database(2) [OF u] u by (auto simp: io_focus_def)
  moreover have "keeps (login_process (ap_auth A) ts (rg_fingerprint r) (u_uuid user))
      (code_state (ap_auth A) strs lists key txt)"
    using confirm_database(2) [OF u] apart by (intro auth.login_keeps_code) blast+
  ultimately show "wins_by (cache_proc (login_process (ap_auth A) ts (rg_fingerprint r) (u_uuid user)))
      (login_taken (rg_login r)) (code_known key txt)
      (False \<or> \<not> login_taken (rg_login r) s \<and> login_taken (rg_login r) (snd (?m s)))"
    by (simp add: wins_by_focus)
qed

lemma confirm_wins_by:
  assumes code: "plain_key (code_key code)"
    and apart: "\<And>u. known_uuid (ap_auth A) u \<Longrightarrow> uuid_str u \<noteq> code_key code"
    and parse: "ap_parse A txt = Some r"
  shows "wins_by (confirm_process A ts code) (login_taken (rg_login r))
    (code_known (code_key code) txt) False"
  unfolding confirm_process_def
proof (rule wins_by_atomic)
  fix s :: "('c, 'd) ctx" and cached
  let ?key = "code_key code"
  let ?del = "on_cache (sc_delete (ap_cache A) [?key])"
  assume s: "code_known ?key txt s"
  then have get: "sc_get (ap_cache A) ?key (cx_cache s) = (Inr (strs (cx_cache s) ?key), cx_cache s)"
    by (simp add: code_state_def auth.cache.get)
  show "code_known ?key txt (snd (on_cache (sc_get (ap_cache A) ?key) s))"
    using s by (simp add: io_focus_def get)
  show "login_taken (rg_login r) s \<Longrightarrow> login_taken (rg_login r) (snd (on_cache (sc_get (ap_cache A) ?key) s))"
    by (simp add: io_focus_def)
  assume "fst (on_cache (sc_get (ap_cache A) ?key) s) = Inr cached"
  then have cached: "cached = None \<or> cached = Some txt"
    using s by (auto simp: io_focus_def get code_state_def)
  have "wins_by (proc_bind (atomic ?del) (\<lambda>_. proc_bind (atomic (on_db (in_database (ap_session A)
      (confirm_user A r)))) (\<lambda>user. cache_proc (login_process (ap_auth A) ts (rg_fingerprint r) (u_uuid user)))))
    (login_taken (rg_login r)) (code_known ?key txt) False"
  proof (rule wins_by_atomic)
    fix s :: "('c, 'd) ctx"
    assume s: "code_known ?key txt s"
    then show "code_known ?key txt (snd (?del s))"
      using code apart by (auto simp: io_focus_def code_state_def auth.cache.cache_laws)
    have "(False \<or> \<not> login_taken (rg_login r) s \<and> login_taken (rg_login r) (snd (?del s))) = False"
      by (simp add: io_focus_def)
    then show "wins_by (proc_bind (atomic (on_db (in_database (ap_session A) (confirm_user A r))))
        (\<lambda>user. cache_proc (login_process (ap_auth A) ts (rg_fingerprint r) (u_uuid user))))
        (login_taken (rg_login r)) (code_known ?key txt)
        (False \<or> \<not> login_taken (rg_login r) s \<and> login_taken (rg_login r) (snd (?del s)))"
      using confirm_tail_wins [OF apart] by (simp only:)
  qed (simp add: io_focus_def)
  with cached show "wins_by (if \<not> truthy_str cached
      then proc_raise (App (simple_error NotFoundError ''Code has expire or invalid''))
      else proc_bind (atomic ?del) (\<lambda>_. case ap_parse A (the cached) of
          None \<Rightarrow> proc_raise PydanticValidationError
        | Some cached_user \<Rightarrow>
            proc_bind (atomic (on_db (in_database (ap_session A) (confirm_user A cached_user)))) (\<lambda>user.
            cache_proc (login_process (ap_auth A) ts (rg_fingerprint cached_user) (u_uuid user)))))
      (login_taken (rg_login r)) (code_known ?key txt)
      (False \<or> \<not> login_taken (rg_login r) s \<and>
        login_taken (rg_login r) (snd (on_cache (sc_get (ap_cache A) ?key) s)))"
    by (auto simp: parse wins_by_raise io_focus_def)
qed

end

section \<open>The rate limit\<close>

text \<open>The guard reads the entry with one call of the cache and writes it with another.\<close>

definition rate_limit_process ::
  "json \<Rightarrow> 'c str_cache \<Rightarrow> rate_limit \<Rightarrow> int \<Rightarrow> http_request \<Rightarrow> ('c, pydict) proc" where
  "rate_limit_process J store L now r =
     (let key = rate_limit_key L r; window = rl_duration L in
      proc_bind (atomic (get_history J store key now window)) (\<lambda>(history0, reset_ts).
      let history = prune_history history0 now window in
      if int (length history) \<ge> rl_limit L
      then proc_raise (App (detailed_error TooManyRequestsError ''Too Many Requests''
             (Some (build_headers L 0 (Some (reset_ts - now)))) []))
      else
        proc_bind (atomic (save_history J store L key (now # history) reset_ts)) (\<lambda>_.
        proc_return (build_headers L (rl_limit L - int (length (now # history))) (Some (reset_ts - now))))))"

lemma run_pair [proc_run]:
  "run_proc (case x of (a, b) \<Rightarrow> p a b) = (case x of (a, b) \<Rightarrow> run_proc (p a b))"
  by (simp split: prod.split)

lemma rate_limit_process_refines:
  "run_proc (rate_limit_process J store L now r) = rate_limit_call J store L now r"
  unfolding rate_limit_process_def rate_limit_call_def Let_def proc_run ..

context rate_limit_laws
begin

lemma save_views:
  assumes "lists c key = []"
  shows "fst (save_history J C L key h r c) = Inr ()" "lists (snd (save_history J C L key h r c)) = lists c"
    "strs (snd (save_history J C L key h r c)) = (strs c)(key \<mapsto> js_dumps J (history_payload h r))"
  using assms by (simp_all add: save_history_def set_ok set_strs set_lists)

lemma saves_last:
  "lists c key = [] \<Longrightarrow> qs \<noteq> [] \<Longrightarrow>
    strs (fold (\<lambda>q c. snd (save_history J C L key (h q) (r q) c)) qs c) key =
      Some (js_dumps J (history_payload (h (last qs)) (r (last qs))))"
proof (induction qs arbitrary: c)
  case (Cons q qs)
  then show ?case by (cases "qs = []") (simp_all add: save_views)
qed simp

text \<open>What a request that is let through reads and writes.\<close>

lemma accepted_call:
  fixes L :: rate_limit and r :: http_request and now :: int and entry :: rl_entry
  defines "h \<equiv> prune_history (fst (current (rl_duration L) now entry)) now (rl_duration L)"
    and "reset \<equiv> snd (current (rl_duration L) now entry)"
  assumes "lists c (rate_limit_key L r) = []" and "entry_in J (strs c (rate_limit_key L r)) entry"
    and "fst (rate_limit_call J C L now r c) = Inr x"
  shows "get_history J C (rate_limit_key L r) now (rl_duration L) c = (Inr (current (rl_duration L) now entry), c)"
    and "int (length h) < rl_limit L"
    and "x = build_headers L (rl_limit L - int (length (now # h))) (Some (reset - now))"
    and "snd (rate_limit_call J C L now r c) = snd (save_history J C L (rate_limit_key L r) (now # h) reset c)"
proof -
  show get: "get_history J C (rate_limit_key L r) now (rl_duration L) c =
      (Inr (current (rl_duration L) now entry), c)"
    by (rule get_history_entry [OF assms(3,4)])
  note call = rate_limit_call_def Let_def io_bind_def io_apply get h_def reset_def save_views [OF assms(3)]
  show "int (length h) < rl_limit L"
    using assms(5) by (cases "current (rl_duration L) now entry") (simp add: call split: if_splits)
  then show "x = build_headers L (rl_limit L - int (length (now # h))) (Some (reset - now))"
    and "snd (rate_limit_call J C L now r c) = snd (save_history J C L (rate_limit_key L r) (now # h) reset c)"
    using assms(5) by (cases "current (rl_duration L) now entry"; simp add: call)+
qed

lemma rate_limit_race:
  fixes L :: rate_limit and c :: 'c and qs :: "(int \<times> http_request) list"
  assumes none: "lists c key = []" and entry: "entry_in J (strs c key) entry"
    and fits: "list_all (\<lambda>(now, r). rate_limit_key L r = key \<and> (\<exists>x. fst (rate_limit_call J C L now r c) = Inr x)) qs"
  shows "\<exists>d. run_schedule ([0..<length qs] @ [0..<length qs])
      (map (\<lambda>(now, r). rate_limit_process J C L now r) qs, c) =
      (map (\<lambda>(now, r). Done (fst (rate_limit_call J C L now r c))) qs, d) \<and>
    (qs \<noteq> [] \<longrightarrow> strs d key = strs (snd (rate_limit_call J C L (fst (last qs)) (snd (last qs)) c)) key)"
proof -
  let ?w = "rl_duration L"
  let ?h = "\<lambda>q. fst q # prune_history (fst (current ?w (fst q) entry)) (fst q) ?w"
  let ?r = "\<lambda>q. snd (current ?w (fst q) entry)"
  let ?save = "\<lambda>q. save_history J C L key (?h q) (?r q)"
  let ?x = "\<lambda>q. build_headers L (rl_limit L - int (length (?h q))) (Some (?r q - fst q))"
  let ?ps = "map (\<lambda>(now, r). rate_limit_process J C L now r) qs"
  let ?qs = "map (\<lambda>q. proc_bind (atomic (?save q)) (\<lambda>_. proc_return (?x q))) qs"
  have q: "rate_limit_key L (snd q) = key"
    "get_history J C key (fst q) ?w c = (Inr (current ?w (fst q) entry), c)"
    "int (length (tl (?h q))) < rl_limit L" "fst (rate_limit_call J C L (fst q) (snd q) c) = Inr (?x q)"
    "snd (rate_limit_call J C L (fst q) (snd q) c) = snd (?save q c)" if member: "q \<in> set qs" for q
  proof -
    obtain x where key: "rate_limit_key L (snd q) = key"
      and x: "fst (rate_limit_call J C L (fst q) (snd q) c) = Inr x"
      using fits member by (auto simp: list_all_iff split_beta)
    note a = accepted_call [where r = "snd q" and L = L and now = "fst q", unfolded key, OF none entry x]
    show "rate_limit_key L (snd q) = key"
      "get_history J C key (fst q) ?w c = (Inr (current ?w (fst q) entry), c)"
      "int (length (tl (?h q))) < rl_limit L" "fst (rate_limit_call J C L (fst q) (snd q) c) = Inr (?x q)"
      "snd (rate_limit_call J C L (fst q) (snd q) c) = snd (?save q c)"
      using key a x by simp_all
  qed
  define g where "g q = (\<lambda>c. snd (get_history J C (rate_limit_key L (snd q)) (fst q) ?w c))" for q
  define k where "k q = (\<lambda>c. case rate_limit_process J C L (fst q) (snd q) of Act g k \<Rightarrow> k c)" for q
  have ps: "?ps = map (\<lambda>q. Act (g q) (k q)) qs"
    by (auto simp: g_def k_def rate_limit_process_def Let_def atomic_def split_beta)
  have reads: "k q c = proc_bind (atomic (?save q)) (\<lambda>_. proc_return (?x q))" "g q c = c" if "q \<in> set qs" for q
    using q(1-3) [OF that]
    by (cases "current ?w (fst q) entry";
      simp add: g_def k_def rate_limit_process_def Let_def atomic_def [of "get_history _ _ _ _ _"])+
  then have first: "round ?ps c = (?qs, c)"
    unfolding ps by (subst round_reads) simp_all
  have second: "round ?qs c = (map (\<lambda>q. Done (Inr (?x q))) qs, fold (\<lambda>q c. snd (?save q c)) qs c)"
    unfolding atomic_def proc_bind.simps
    by (rule round_writes [where I = "\<lambda>c. lists c key = []"]) (auto simp: none save_views proc_return_def)
  have "run_schedule [0..<length qs] (?ps, c) = (?qs, c)"
    using round_all [of ?ps c] unfolding first length_map .
  moreover have "run_schedule [0..<length qs] (?qs, c) =
      (map (\<lambda>q. Done (Inr (?x q))) qs, fold (\<lambda>q c. snd (?save q c)) qs c)"
    using round_all [of ?qs c] unfolding second length_map .
  ultimately have run: "run_schedule ([0..<length qs] @ [0..<length qs]) (?ps, c) =
      (map (\<lambda>q. Done (Inr (?x q))) qs, fold (\<lambda>q c. snd (?save q c)) qs c)"
    by (simp only: run_schedule_append)
  have same: "map (\<lambda>q. Done (Inr (?x q))) qs =
      (map (\<lambda>(now, r). Done (fst (rate_limit_call J C L now r c))) qs :: ('c, pydict) proc list)"
    using q(4) by (simp add: split_beta)
  have "strs (fold (\<lambda>q c. snd (?save q c)) qs c) key =
      strs (snd (rate_limit_call J C L (fst (last qs)) (snd (last qs)) c)) key" if "qs \<noteq> []"
    using saves_last [OF none that, of L ?h ?r] unfolding q(5) [OF last_in_set [OF that]]
    by (simp add: save_views [OF none])
  then show ?thesis using run unfolding same by blast
qed

end

section \<open>Properties\<close>

text \<open>
  C16: A confirmation code makes one account, also when it is sent many times at once.  However the
  actions of any number of confirmations of one code are interleaved, at most one of them is
  answered with tokens: of those that read the code before it was removed, the transaction lets one
  through.
\<close>

theorem concurrent_confirmations:
  assumes "app_laws A strs lsts life tables committed ilike"
    and "plain_key (code_key code)" and "\<forall>u. known_uuid (ap_auth A) u \<longrightarrow> uuid_str u \<noteq> code_key code"
    and "ap_parse A txt = Some r" and "code_state (ap_auth A) strs lsts (code_key code) txt (cx_cache s)"
    and "par_run n (map (\<lambda>ts. confirm_process A ts code) tss, s) (qs, t)"
  shows "length (filter wins qs) \<le> 1"
proof (rule at_most_one_wins [OF assms(6)])
  show "code_state (ap_auth A) strs lsts (code_key code) txt (cx_cache s)" by (rule assms(5))
  show "\<forall>p \<in> set (map (\<lambda>ts. confirm_process A ts code) tss). wins_by p
      (\<lambda>s. rg_login r \<in> u_login ` set (db_users (committed (cx_db s))))
      (\<lambda>s. code_state (ap_auth A) strs lsts (code_key code) txt (cx_cache s)) False"
    using app_laws.confirm_wins_by [OF assms(1,2) _ assms(4)] assms(3) by auto
qed

definition coded_ctx :: "(server, rel) ctx" where
  "coded_ctx = \<lparr>cx_cache = [(code_key ''c0de'', EStr (ref_dump eve))], cx_db = example_rel\<rparr>"

lemma coded_state:
  "code_state (ap_auth ref_app) server_strs server_lists (code_key ''c0de'') (ref_dump eve) (cx_cache coded_ctx)"
  using ref_code_free by (auto simp: code_state_def coded_ctx_def server_strs_def server_lists_def)

theorem concurrent_confirmations_witness:
  "let p = confirm_process ref_app (\<lambda>_. 0) ''c0de''
   in length (filter wins (fst (run_schedule [0, 1, 0, 1, 1, 0, 1, 0, 1, 0, 1, 0, 1, 0] ([p, p], coded_ctx)))) \<le> 1"
proof -
  let ?c = "([confirm_process ref_app (\<lambda>_. 0) ''c0de'', confirm_process ref_app (\<lambda>_. 0) ''c0de''], coded_ctx)"
  let ?d = "run_schedule [0, 1, 0, 1, 1, 0, 1, 0, 1, 0, 1, 0, 1, 0] ?c"
  obtain n where n: "par_run n ?c ?d" using run_schedule_par by blast
  have "ap_parse ref_app (ref_dump eve) = Some eve" by (simp add: ref_app_def ref_parse_dump)
  note run = concurrent_confirmations [OF ref_app_ok example_code _ this coded_state,
      where tss = "[\<lambda>_. 0, \<lambda>_. 0]" and n = n and qs = "fst ?d" and t = "snd ?d"]
  have "par_run n (map (\<lambda>ts. confirm_process ref_app ts ''c0de'') [\<lambda>_. 0, \<lambda>_. 0], coded_ctx)
      (fst ?d, snd ?d)"
    using n unfolding list.map prod.collapse .
  from run [OF _ this] show ?thesis
    unfolding Let_def using ref_code_free by blast
qed


lemma ping_accepted: "\<exists>x. fst (rate_limit_call ref_json (redis_cache ref_redis) two_per_minute 0 ping []) = Inr x"
  using reflimit.call_refines_decide(1) [of "[]" two_per_minute ping None 0]
  by (simp add: server_strs_def server_lists_def entry_in_def decide_def current_def prune_history_def)


text \<open>
  No one is shut out for good by the rate limit: whoever is refused is told a wait, and the
  first request after that wait is accepted.
\<close>

theorem refused_client_gets_through:
  assumes "rate_limit_laws C strs lsts J" and "lsts c (rate_limit_key L r) = []"
    and "entry_in J (strs c (rate_limit_key L r)) entry" and "1 \<le> rl_limit L"
    and "fst (decide (rl_limit L) (rl_duration L) now entry) = Refused wait" and "now + wait \<le> later"
  shows "fst (rate_limit_call J C L now r c) =
      Inl (App (detailed_error TooManyRequestsError ''Too Many Requests''
        (Some (build_headers L 0 (Some wait))) [])) \<and>
    fst (rate_limit_call J C L later r (snd (rate_limit_call J C L now r c))) =
      Inr (build_headers L (rl_limit L - 1) (Some (rl_duration L)))"
proof -
  note call = rate_limit_laws.call_refines_decide [OF assms(1)]
  let ?c = "snd (rate_limit_call J C L now r c)"
  obtain h reset where cur: "current (rl_duration L) now entry = (h, reset)"
    by (cases "current (rl_duration L) now entry")
  then have dec: "snd (decide (rl_limit L) (rl_duration L) now entry) = entry" "wait = reset - now"
    and full: "rl_limit L \<le> int (length (prune_history h now (rl_duration L)))"
    using assms(5) by (auto simp: decide_def Let_def split: if_splits)
  from full assms(4) have "h \<noteq> []" by (auto simp: prune_history_def)
  then have "entry = Some (h, reset)"
    using cur by (auto simp: current_def split: option.splits if_splits)
  then have "current (rl_duration L) later entry = ([], later + rl_duration L)"
    using dec(2) assms(6) by (simp add: current_def)
  then have acc: "fst (decide (rl_limit L) (rl_duration L) later entry) =
      Accepted (rl_limit L - 1) (rl_duration L)"
    using assms(4) by (simp add: decide_def prune_history_def)
  have "lsts ?c (rate_limit_key L r) = []"
    using call(3) [OF assms(2,3)] assms(2) by simp
  moreover have "entry_in J (strs ?c (rate_limit_key L r)) entry"
    using call(2) [OF assms(2,3), of now] by (simp add: dec(1))
  ultimately show ?thesis
    using call(1) [OF assms(2,3), where now = now]
      call(1) [where c = ?c and r = r and entry = entry and now = later] acc assms(5) by simp
qed

theorem refused_client_gets_through_witness:
  "let c = [(rate_limit_key two_per_minute ping, EStr (ref_dumps (history_payload [5, 3] 63)))]
   in fst (rate_limit_call ref_json (redis_cache ref_redis) two_per_minute 63 ping
        (snd (rate_limit_call ref_json (redis_cache ref_redis) two_per_minute 10 ping c))) =
      Inr (build_headers two_per_minute 1 (Some 60))"
proof -
  let ?c = "[(rate_limit_key two_per_minute ping, EStr (ref_dumps (history_payload [5, 3] 63)))]"
  have "entry_in ref_json (server_strs ?c (rate_limit_key two_per_minute ping)) (Some ([5, 3], 63))"
    by (simp add: entry_in_def server_strs_def ref_json_def)
  from refused_client_gets_through [OF ref_limit_ok _ this, of 10 53 63] show ?thesis
    by (simp add: server_lists_def decide_def current_def prune_history_def)
qed



end
