(* ===== verification/Site_Races.thy ===== *)
theory Site_Races
  imports Reachability_Properties Request_Races
begin

text \<open>
  The whole site under concurrent requests.  Every request, from its route over the guards and the
  endpoint to the use case, is a process whose actions are the calls of the cache, the reading of
  tokens, and single sessions or transactions on the database.  Other requests run between the
  check of a permission and what it permits, and entries of the cache may expire at any moment.
\<close>

section \<open>The use cases as processes\<close>

definition register_process ::
  "('c, 'd) app \<Rightarrow> string \<Rightarrow> register_request \<Rightarrow> (('c, 'd) ctx, status_result) proc" where
  "register_process A code request =
     proc_bind (atomic (on_db (in_session (ap_session A)
       (io_bind (user_exists (ss_user (ap_session A)) (rg_login request)) result_of)))) (\<lambda>user.
     if user then proc_raise (App (simple_error ConflictError ''User already exists''))
     else
       proc_bind (atomic (on_cache (sc_set (ap_cache A) (code_key code) (ap_dump A request)
           (Some (ETimedelta (10 * 60)))))) (\<lambda>_.
       proc_return \<lparr>st_status = True\<rparr>))"

definition login_user_process ::
  "('c, 'd) app \<Rightarrow> (nat \<Rightarrow> int) \<Rightarrow> login_request \<Rightarrow> (('c, 'd) ctx, tokens_expire) proc" where
  "login_user_process A ts request =
     proc_bind (atomic (on_db (in_session (ap_session A)
       (io_bind (user_select (ss_user (ap_session A)) [] None (Some (lg_login request))) result_of))))
     (\<lambda>user.
     if \<not> u_active user then proc_raise (App (simple_error ForbiddenError ''You have been blocked''))
     else
       proc_bind (atomic (io_lift (h_verify_password (ap_hasher A) (u_password user) (lg_password request))))
       (\<lambda>verified.
       if \<not> verified then proc_raise (App (simple_error UnAuthorizedError ''Incorrect password or login''))
       else cache_proc (login_process (ap_auth A) ts (lg_fingerprint request) (u_uuid user))))"

definition sign_out_process ::
  "('c, 'd) app \<Rightarrow> (nat \<Rightarrow> int) \<Rightarrow> logout_request \<Rightarrow> (('c, 'd) ctx, status_result) proc" where
  "sign_out_process A ts request =
     (if lo_refresh_token request = [] then proc_raise (App (simple_error UnAuthorizedError ''Not allowed''))
      else
        proc_bind (cache_proc (logout_process (ap_auth A) ts (lo_refresh_token request)
            (lo_user_uuid request))) (\<lambda>result.
        proc_return \<lparr>st_status = result\<rparr>))"

definition renew_process ::
  "('c, 'd) app \<Rightarrow> (nat \<Rightarrow> int) \<Rightarrow> refresh_token_request \<Rightarrow> (('c, 'd) ctx, tokens_expire) proc" where
  "renew_process A ts request =
     (if rf_refresh_token request = [] then proc_raise (App (simple_error UnAuthorizedError ''Not allowed''))
      else cache_proc (refresh_process (ap_auth A) ts (rf_fingerprint request) (rf_refresh_token request)))"

definition permission_process ::
  "('c, 'd) app \<Rightarrow> int \<Rightarrow> permission_request \<Rightarrow> (('c, 'd) ctx, user_result) proc" where
  "permission_process A t request =
     proc_bind (atomic (on_cache (auth_verify_token (ap_auth A) t (pm_access_token request) Access))) (\<lambda>user_uuid.
     atomic (on_db (in_session (ap_session A)
       (io_bind (io_bind (user_select (ss_user (ap_session A)) [''role''] (Some user_uuid) None) result_of)
         (check_permission (pm_permissions request))))))"

lemma use_case_processes_refine [proc_run]:
  "run_proc (register_process A code q) = register A code q"
  "run_proc (login_user_process A ts l) = login_user A ts l"
  "run_proc (sign_out_process A ts out) = logout A ts out"
  "run_proc (renew_process A ts f) = refresh_token A ts f"
  "run_proc (permission_process A t p) = permission A t p"
  "run_proc (confirm_process A ts code) = confirm A ts code"
  unfolding register_process_def login_user_process_def sign_out_process_def renew_process_def
    permission_process_def register_def login_user_def logout_def refresh_token_def permission_def proc_run
    session_processes_refine [THEN conjunct1] session_processes_refine [THEN conjunct2, THEN conjunct1]
    session_processes_refine [THEN conjunct2, THEN conjunct2] confirm_process_refines
  by (rule refl)+

section \<open>Guards, endpoints, routes\<close>

definition authorization_process ::
  "('c, 'd) site \<Rightarrow> int \<Rightarrow> string list \<Rightarrow> http_request \<Rightarrow> (('c, 'd) ctx, user_result) proc" where
  "authorization_process W t roles r =
     proc_bind (atomic (io_lift (extract_bearer (si_scheme_param W) r))) (\<lambda>token.
     permission_process (si_app W) t \<lparr>pm_permissions = map Some roles, pm_access_token = token\<rparr>)"

definition user_guard_process ::
  "('c, 'd) site \<Rightarrow> int \<Rightarrow> int \<Rightarrow> http_request \<Rightarrow> (('c, 'd) ctx, user_result) proc" where
  "user_guard_process W t t' r =
     proc_bind (authorization_process W t [] r) (\<lambda>_. authorization_process W t' [] r)"

definition admin_guard_process ::
  "('c, 'd) site \<Rightarrow> int \<Rightarrow> http_request \<Rightarrow> (('c, 'd) ctx, user_result) proc" where
  "admin_guard_process W t r = authorization_process W t [''Admin''] r"

text \<open>
  The endpoints.  Making a request of the application cannot fail for the arguments an endpoint gets,
  but is an action that could; a use case that is a single session or transaction is one action.
\<close>

fun call_process ::
  "('c, 'd) site \<Rightarrow> request_env \<Rightarrow> http_request \<Rightarrow> api_call \<Rightarrow> (('c, 'd) ctx, http_response) proc" where
  "call_process W E r HealthCall = atomic healthcheck_endpoint"
| "call_process W E r (RegisterCall c) =
     proc_bind (atomic (io_lift (make_register_request (lc_login c) (lc_password c) (lc_fingerprint c)))) (\<lambda>request.
     proc_bind (register_process (si_app W) (en_code E) request) (\<lambda>result.
     proc_return (ok_response (status_contract (st_status result)))))"
| "call_process W E r (ConfirmCall code) =
     proc_bind (confirm_process (si_app W) (en_clock E) code) (\<lambda>result. proc_return (tokens_response W result))"
| "call_process W E r (SignInCall c) =
     proc_bind (atomic (io_lift (make_login_request (lc_login c) (lc_password c) (lc_fingerprint c)))) (\<lambda>request.
     proc_bind (login_user_process (si_app W) (en_clock E) request) (\<lambda>result.
     proc_return (tokens_response W result)))"
| "call_process W E r (RenewCall fp) =
     proc_bind (renew_process (si_app W) (en_clock E)
       \<lparr>rf_fingerprint = fp, rf_refresh_token = cookie_get r ''refresh_token'' []\<rparr>) (\<lambda>result.
     proc_return (tokens_response W result))"
| "call_process W E r SignOutCall =
     proc_bind (user_guard_process W (en_guard E 0) (en_guard E 1) r) (\<lambda>user.
     proc_bind (sign_out_process (si_app W) (en_clock E)
       \<lparr>lo_user_uuid = ur_uuid user, lo_refresh_token = cookie_get r ''refresh_token'' []\<rparr>) (\<lambda>result.
     proc_return ((ok_response (status_contract (st_status result)))\<lparr>hp_cookies :=
        [\<lparr>ck_name = ''refresh_token'', ck_value = [], ck_expires = Some 0, ck_httponly = False,
          ck_secure = False, ck_samesite = ''lax''\<rparr>]\<rparr>)))"
| "call_process W E r GetMeCall =
     proc_bind (user_guard_process W (en_guard E 0) (en_guard E 1) r) (\<lambda>user.
     proc_bind (atomic (select_user (si_app W)
       \<lparr>su_loads = [''role''], su_user_uuid = Some (ur_uuid user), su_login = None\<rparr>)) (\<lambda>result.
     proc_return (ok_response (user_contract result))))"
| "call_process W E r (UpdateSelfCall p) =
     proc_bind (user_guard_process W (en_guard E 0) (en_guard E 1) r) (\<lambda>user.
     proc_bind (atomic (update_user (si_app W) \<lparr>up_user_uuid = ur_uuid user, up_password = p,
       up_role_uuid = None, up_active = None\<rparr>)) (\<lambda>result.
     proc_return (ok_response (user_contract result))))"
| "call_process W E r (SelectUsersCall l u p ls) =
     proc_bind (admin_guard_process W (en_guard E 0) r) (\<lambda>_.
     proc_bind (atomic (select_many_user (si_app W)
       \<lparr>sm_loads = ls, sm_login = l, sm_role_uuid = u,
        sm_pagination = \<lparr>pg_order_by = pc_order_by p, pg_offset = pc_offset p, pg_limit = Some (pc_limit p)\<rparr>\<rparr>))
       (\<lambda>result.
     proc_return (ok_response (offset_contract (offset_result_map user_contract result)))))"
| "call_process W E r (SelectUserCall u ls) =
     proc_bind (admin_guard_process W (en_guard E 0) r) (\<lambda>_.
     proc_bind (atomic (select_user (si_app W)
       \<lparr>su_loads = ls, su_user_uuid = Some u, su_login = None\<rparr>)) (\<lambda>result.
     proc_return (ok_response (user_contract result))))"
| "call_process W E r (UpdateUserCall u body) =
     proc_bind (admin_guard_process W (en_guard E 0) r) (\<lambda>_.
     proc_bind (atomic (update_user (si_app W) \<lparr>up_user_uuid = u, up_password = uc_password body,
       up_role_uuid = uc_role_uuid body, up_active = uc_active body\<rparr>)) (\<lambda>result.
     proc_return (ok_response (user_contract result))))"

fun guards_process ::
  "('c, 'd) site \<Rightarrow> (nat \<Rightarrow> int) \<Rightarrow> nat \<Rightarrow> string list list \<Rightarrow> http_request \<Rightarrow> (('c, 'd) ctx, unit) proc" where
  "guards_process W ts k [] r = proc_return ()"
| "guards_process W ts k (g # gs) r =
     proc_bind (authorization_process W (ts k) g r) (\<lambda>_. guards_process W ts (Suc k) gs r)"

definition route_process ::
  "framework \<Rightarrow> ('c, 'd) site \<Rightarrow> request_env \<Rightarrow> route \<Rightarrow> (string \<times> string) list \<Rightarrow> http_request \<Rightarrow>
    (('c, 'd) ctx, http_response) proc" where
  "route_process F W E rt params r =
     proc_bind (if has_body (rt_endpoint rt)
                then (case fw_body F r of Inl es \<Rightarrow> proc_raise (RequestValidationError es) | Inr b \<Rightarrow> proc_return b)
                else proc_return None) (\<lambda>b.
     case api_call_of F (rt_endpoint rt) params r b of
       Inl es \<Rightarrow>
         proc_bind (guards_process W (en_guard E) 0 (rt_guards rt) r) (\<lambda>_.
         proc_raise (RequestValidationError es))
     | Inr c \<Rightarrow> call_process W E r c)"

definition dispatch_process ::
  "framework \<Rightarrow> ('c, 'd) site \<Rightarrow> request_env \<Rightarrow> http_request \<Rightarrow> (('c, 'd) ctx, http_response) proc" where
  "dispatch_process F W E r =
     (case find_route (ar_routes setup_v1_routers) r of
        None \<Rightarrow> proc_return (fw_unmatched F r)
      | Some (rt, params) \<Rightarrow> route_process F W E rt params r)"

text \<open>Alone, the processes are the guards, the calls and the dispatch.\<close>

lemma authorization_refines [proc_run]: "run_proc (authorization_process W t roles r) = authorization W t roles r"
  unfolding authorization_process_def authorization_def proc_run ..

lemma guard_processes_refine [proc_run]:
  "run_proc (user_guard_process W t t' r) = user_guard W t t' r"
  "run_proc (admin_guard_process W t r) = admin_guard W t r"
  unfolding user_guard_process_def user_guard_def admin_guard_process_def admin_guard_def proc_run
  by (rule refl)+

lemma call_process_refines [proc_run]: "run_proc (call_process W E r c) = run_call W E r c"
  by (cases c) (simp_all only: call_process.simps run_call.simps proc_run register_endpoint_def
      confirm_register_endpoint_def login_endpoint_def refresh_endpoint_def logout_endpoint_def
      get_me_endpoint_def update_self_endpoint_def select_users_endpoint_def select_user_endpoint_def
      update_user_endpoint_def)

lemma guards_process_refines [proc_run]: "run_proc (guards_process W ts k gs r) = run_guards W ts k gs r"
  by (induction gs arbitrary: k) (simp_all add: proc_run)

lemma run_sum [proc_run]:
  "run_proc (case x of Inl a \<Rightarrow> p a | Inr b \<Rightarrow> q b) = (case x of Inl a \<Rightarrow> run_proc (p a) | Inr b \<Rightarrow> run_proc (q b))"
  by (simp split: sum.split)

lemma dispatch_process_refines: "run_proc (dispatch_process F W E r) = dispatch F W E r"
  unfolding dispatch_process_def dispatch_def route_process_def run_route_def proc_run ..

section \<open>What every interleaving keeps\<close>

text \<open>
  What holds of the cache: pending codes hold checked registrations, and no string is under a user's
  identifier.  (The bound on the sessions of a user does not survive concurrent requests.)
\<close>

definition cache_quiet ::
  "('c, 'd) app \<Rightarrow> ('c \<Rightarrow> string \<Rightarrow> string option) \<Rightarrow> ('c \<Rightarrow> string \<Rightarrow> string list) \<Rightarrow> 'c \<Rightarrow> bool" where
  "cache_quiet A strs lsts c \<longleftrightarrow>
     codes_sound A strs lsts c \<and> (\<forall>u. known_uuid (ap_auth A) u \<longrightarrow> strs c (uuid_str u) = None)"

text \<open>
  A predicate on the committed database that every step of the machine of accounts keeps: all steps,
  or those without the rights of an administrator if it implies that there is none.
\<close>

definition stable_data :: "('c, 'd) app \<Rightarrow> bool \<Rightarrow> (db \<Rightarrow> bool) \<Rightarrow> bool" where
  "stable_data A admins P \<longleftrightarrow>
     (\<forall>D D' acts. valid_db D \<longrightarrow> P D \<longrightarrow> account_step A acts D D' \<longrightarrow>
       ((\<exists>x. (x, ADMIN) \<in> acts) \<longrightarrow> admins) \<longrightarrow> P D') \<and>
     (\<not> admins \<longrightarrow> (\<forall>D u. P D \<longrightarrow> u \<in> set (db_users D) \<longrightarrow> \<not> is_admin D u))"

definition site_quiet ::
  "('c, 'd) app \<Rightarrow> ('c \<Rightarrow> string \<Rightarrow> string option) \<Rightarrow> ('c \<Rightarrow> string \<Rightarrow> string list) \<Rightarrow> ('d \<Rightarrow> db) \<Rightarrow>
    (db \<Rightarrow> bool) \<Rightarrow> ('c, 'd) ctx \<Rightarrow> bool" where
  "site_quiet A strs lsts committed P s \<longleftrightarrow>
     cache_quiet A strs lsts (cx_cache s) \<and> accounts_sound A (committed (cx_db s)) \<and> P (committed (cx_db s))"

lemma proc_bind_assoc: "proc_bind (proc_bind p f) g = proc_bind p (\<lambda>x. proc_bind (f x) g)"
  by (induction p) (auto split: sum.split)

lemma keeps_focus:
  assumes "\<And>s. I s \<Longrightarrow> J (get s)" and "\<And>s c. I s \<Longrightarrow> J c \<Longrightarrow> I (put c s)"
  shows "keeps p J \<Longrightarrow> keeps (proc_focus get put p) I"
  by (induction p) (use assms in auto)

context site_laws
begin

abbreviation quiet :: "'c \<Rightarrow> bool" where
  "quiet \<equiv> cache_quiet (si_app W) strs lists"

abbreviation fine :: "(db \<Rightarrow> bool) \<Rightarrow> ('c, 'd) ctx \<Rightarrow> bool" where
  "fine \<equiv> site_quiet (si_app W) strs lists committed"

lemma quiet_free: "quiet c \<Longrightarrow> known_uuid (ap_auth (si_app W)) u \<Longrightarrow> strs c (uuid_str u) = None"
  by (simp add: cache_quiet_def)

lemma quiet_update:
  assumes "quiet c" and "known_uuid (ap_auth (si_app W)) u" and "strs d = strs c"
    and "lists d = (lists c)(uuid_str u := es)"
  shows "quiet d"
proof -
  have "code_key code \<noteq> uuid_str u" for code
    using apart assms(2) by (metis keys_apart_def)
  with assms(1,3,4) show ?thesis by (auto simp: cache_quiet_def codes_sound_def)
qed

lemma quiet_calls:
  assumes "quiet c" and "known_uuid (ap_auth (si_app W)) u"
  shows "quiet (snd (sc_get_list (ap_cache (si_app W)) (uuid_str u) c))"
    and "quiet (snd (sc_delete (ap_cache (si_app W)) [uuid_str u] c))"
    and "quiet (snd (sc_discard (ap_cache (si_app W)) (uuid_str u) e c))"
    and "quiet (snd (sc_set_list (ap_cache (si_app W)) (uuid_str u) [e] None c))"
proof -
  note free = quiet_free [OF assms] and upd = quiet_update [OF assms]
  have "(strs c)(uuid_str u := None) = strs c" using free by (simp add: fun_upd_idem)
  then show "quiet (snd (sc_delete (ap_cache (si_app W)) [uuid_str u] c))"
    using auth.known_plain [OF assms(2)] by (intro upd) (simp_all add: auth.cache.cache_laws)
  show "quiet (snd (sc_get_list (ap_cache (si_app W)) (uuid_str u) c))"
    using assms(1) by (simp add: auth.cache.cache_laws free)
  show "quiet (snd (sc_discard (ap_cache (si_app W)) (uuid_str u) e c))"
    "quiet (snd (sc_set_list (ap_cache (si_app W)) (uuid_str u) [e] None c))"
    using free by (auto simp: auth.cache.cache_laws intro: upd)
qed

lemma quiet_login: "known_uuid (ap_auth (si_app W)) u \<Longrightarrow> keeps (login_process (ap_auth (si_app W)) ts fp u) quiet"
  by (auto simp: login_process_def issue_tokens_state intro!: keeps_intros keeps_atomic quiet_calls)

lemma quiet_refresh: "keeps (refresh_process (ap_auth (si_app W)) ts fp tok) quiet"
  by (auto simp: refresh_process_def auth.verify_token_state issue_tokens_state split: scan.split
      intro!: keeps_intros keeps_bind_atomic [of quiet "auth_verify_token (ap_auth (si_app W)) t tok Refresh" for t]
        keeps_atomic quiet_calls
      dest!: auth.verify_token_known)

lemma quiet_logout: "known_uuid (ap_auth (si_app W)) u \<Longrightarrow> keeps (logout_process (ap_auth (si_app W)) ts tok u) quiet"
  by (auto simp: logout_process_def auth.verify_token_state split: scan.split
      intro!: keeps_intros keeps_atomic quiet_calls)

text \<open>Steps of the whole state.\<close>

lemma fine_same:
  "fine P s \<Longrightarrow> cx_cache s' = cx_cache s \<Longrightarrow> committed (cx_db s') = committed (cx_db s) \<Longrightarrow> fine P s'"
  by (simp add: site_quiet_def)

lemma fine_step:
  assumes "stable_data (si_app W) admins P" and "fine P s" and "cx_cache s' = cx_cache s"
    and "account_step (si_app W) acts (committed (cx_db s)) (committed (cx_db s'))"
    and "(\<exists>x. (x, ADMIN) \<in> acts) \<longrightarrow> admins"
  shows "fine P s'"
  using assms accounts_sound_step [OF assms(4)] db.valid_committed [of "cx_db s"]
  unfolding site_quiet_def stable_data_def by metis

lemma fine_cache: "keeps p quiet \<Longrightarrow> keeps (cache_proc p) (fine P)"
  by (rule keeps_focus [of _ quiet]) (auto simp: site_quiet_def)

lemma fine_pure: "(\<And>s x. fine P s \<Longrightarrow> r = Inr x \<Longrightarrow> keeps (f x) (fine P)) \<Longrightarrow>
    keeps (proc_bind (atomic (io_lift r)) f) (fine P)"
  by (rule keeps_bind_atomic) (auto simp: io_apply)

lemma fine_read:
  assumes "session_frame (ap_session (si_app W)) committed m"
    and "\<And>s x. fine P s \<Longrightarrow> fst (m (ss_new (ap_session (si_app W)) (cx_db s))) = Inr x \<Longrightarrow> keeps (f x) (fine P)"
  shows "keeps (proc_bind (atomic (on_db (in_session (ap_session (si_app W)) m))) f) (fine P)"
  using db.in_session_spec [OF assms(1)] assms(2)
  by (intro keeps_bind_atomic) (auto simp: io_focus_def intro: fine_same)

text \<open>The use cases.\<close>

lemma quiet_set:
  assumes "quiet c" and "plain_key (code_key code)" and "valid_login (rg_login q)" and "valid_password (rg_password q)"
  shows "quiet (snd (sc_set (ap_cache (si_app W)) (code_key code) (ap_dump (si_app W) q) e c))"
proof -
  have l: "lists c (code_key code) = []" using assms(1) by (simp add: cache_quiet_def codes_sound_def)
  have "uuid_str u \<noteq> code_key code" if "known_uuid (ap_auth (si_app W)) u" for u
    using apart that by (simp add: keys_apart_def)
  with assms l show ?thesis by (auto simp: cache_quiet_def codes_sound_def auth.cache.cache_laws)
qed

lemma fine_register:
  assumes "plain_key (code_key code)" and "valid_login (rg_login q)" and "valid_password (rg_password q)"
  shows "keeps (register_process (si_app W) code q) (fine P)"
proof -
  have "keeps (atomic (on_cache (sc_set (ap_cache (si_app W)) (code_key code) (ap_dump (si_app W) q) e))) (fine P)" for e
    using quiet_set [OF _ assms] by (intro keeps_atomic) (auto simp: site_quiet_def io_focus_def)
  then show ?thesis
    unfolding register_process_def by (intro fine_read) (auto intro!: frames keeps_intros)
qed

lemma fine_login_user: "keeps (login_user_process (si_app W) ts q) (fine P)"
  unfolding login_user_process_def
proof (rule fine_read)
  let ?m = "io_bind (user_select (ss_user (ap_session (si_app W))) [] None (Some (lg_login q))) result_of"
  show "session_frame (ap_session (si_app W)) committed ?m" by (intro frames)
  fix s u assume s: "fine P s" and "fst (?m (ss_new (ap_session (si_app W)) (cx_db s))) = Inr u"
  moreover from this(2) have "lg_login q \<noteq> []"
    by (auto simp: user_select_def no_identifier_def io_simps)
  ultimately have "u \<in> set (db_users (committed (cx_db s)))"
    by (auto simp: select_by_login split: option.splits dest: find_SomeD)
  then have "known_uuid (ap_auth (si_app W)) (u_uuid u)"
    using s by (simp add: site_quiet_def accounts_sound_def)
  from quiet_login [OF this]
  show "keeps (if \<not> u_active u then proc_raise (App (simple_error ForbiddenError ''You have been blocked''))
      else proc_bind (atomic (io_lift (h_verify_password (ap_hasher (si_app W)) (u_password u) (lg_password q))))
        (\<lambda>verified. if \<not> verified then proc_raise (App (simple_error UnAuthorizedError ''Incorrect password or login''))
          else cache_proc (login_process (ap_auth (si_app W)) ts (lg_fingerprint q) (u_uuid u)))) (fine P)"
    by (auto intro!: keeps_intros fine_pure fine_cache)
qed

lemma fine_renew: "keeps (renew_process (si_app W) ts q) (fine P)"
  by (simp add: renew_process_def keeps_raise fine_cache quiet_refresh)

lemma fine_sign_out: "known_uuid (ap_auth (si_app W)) (lo_user_uuid q) \<Longrightarrow> keeps (sign_out_process (si_app W) ts q) (fine P)"
  by (auto simp: sign_out_process_def intro!: keeps_intros fine_cache quiet_logout)

lemma fine_account:
  assumes "stable_data (si_app W) admins P" and "valid_login (rg_login r)" and "valid_password (rg_password r)"
  shows "keeps (proc_bind (atomic (on_db (in_database (ap_session (si_app W)) (confirm_user (si_app W) r)))) (\<lambda>user.
    cache_proc (login_process (ap_auth (si_app W)) ts fp (u_uuid user)))) (fine P)"
proof (rule keeps_bind_atomic)
  fix s :: "('c, 'd) ctx" and user
  let ?m = "on_db (in_database (ap_session (si_app W)) (confirm_user (si_app W) r))"
  assume s: "fine P s"
  show "fine P (snd (?m s))"
    using confirm_user_step(1) [OF assms(2,3), where d = "cx_db s"]
    by (intro fine_step [OF assms(1) s, of _ "{}"]) (simp_all add: io_focus_def)
  assume "fst (?m s) = Inr user"
  then have "known_uuid (ap_auth (si_app W)) (u_uuid user)"
    using confirm_user_step(2) [OF assms(2,3)] by (simp add: io_focus_def)
  then show "keeps (cache_proc (login_process (ap_auth (si_app W)) ts fp (u_uuid user))) (fine P)"
    by (intro fine_cache quiet_login)
qed

lemma fine_confirm:
  assumes "stable_data (si_app W) admins P"
  shows "keeps (confirm_process (si_app W) ts code) (fine P)"
  unfolding confirm_process_def
proof (rule keeps_bind_atomic)
  fix s :: "('c, 'd) ctx" and cached
  let ?get = "on_cache (sc_get (ap_cache (si_app W)) (code_key code))"
  let ?del = "on_cache (sc_delete (ap_cache (si_app W)) [code_key code])"
  assume s: "fine P s"
  then have q: "quiet (cx_cache s)" by (simp add: site_quiet_def)
  then have get: "?get s = (Inr (strs (cx_cache s) (code_key code)), s)"
    by (simp add: cache_quiet_def codes_sound_def io_focus_def auth.cache.get)
  then show "fine P (snd (?get s))" using s by simp
  assume "fst (?get s) = Inr cached"
  then have cached: "strs (cx_cache s) (code_key code) = cached" using get by simp
  show "keeps (if \<not> truthy_str cached
      then proc_raise (App (simple_error NotFoundError ''Code has expire or invalid''))
      else proc_bind (atomic ?del) (\<lambda>_. case ap_parse (si_app W) (the cached) of
          None \<Rightarrow> proc_raise PydanticValidationError
        | Some cached_user \<Rightarrow> proc_bind (atomic (on_db (in_database (ap_session (si_app W)) (confirm_user (si_app W) cached_user))))
            (\<lambda>user. cache_proc (login_process (ap_auth (si_app W)) ts (rg_fingerprint cached_user) (u_uuid user))))) (fine P)"
  proof (cases cached)
    case (Some d)
    then obtain r where key: "plain_key (code_key code)" and r: "d = ap_dump (si_app W) r"
      "valid_login (rg_login r)" "valid_password (rg_password r)"
      using q cached by (auto simp: cache_quiet_def codes_sound_def)
    have "quiet (snd (sc_delete (ap_cache (si_app W)) [code_key code] c))" if "quiet c" for c
      using that key by (auto simp: cache_quiet_def codes_sound_def auth.cache.cache_laws)
    then have del: "keeps (atomic ?del) (fine P)"
      by (intro keeps_atomic) (auto simp: site_quiet_def io_focus_def)
    then show ?thesis
      using fine_account [OF assms r(2,3)] json [OF r(2,3)]
      by (auto simp: Some r(1) intro!: keeps_bind [OF del])
  qed (simp add: keeps_raise)
qed

lemma fine_update:
  assumes "stable_data (si_app W) admins P" and "\<forall>p. up_password q = Some (Some p) \<longrightarrow> valid_password p"
    and "admins \<or> up_role_uuid q = None \<and> up_active q = None"
  shows "keeps (atomic (update_user (si_app W) q)) (fine P)"
proof (rule keeps_atomic)
  fix s :: "('c, 'd) ctx" assume s: "fine P s"
  let ?acts = "{(up_user_uuid q, if admins then ADMIN else USER)}"
  have "(\<exists>u. (u, ADMIN) \<in> ?acts) \<or> up_user_uuid q \<in> fst ` ?acts \<and> up_role_uuid q = None \<and> up_active q = None"
    using assms(3) by auto
  from update_user_step [OF assms(2) this, of s] show "fine P (snd (update_user (si_app W) q s))"
    by (intro fine_step [OF assms(1) s, of _ ?acts]) (auto split: if_splits)
qed

text \<open>
  The guards.  What follows a guard may rely on the guard having been passed in some state of the run,
  though not in the one it goes on in.
\<close>

lemma fine_authorization:
  assumes "\<And>s view. fine P s \<Longrightarrow> fst (authorization W t roles r s) = Inr view \<Longrightarrow> keeps (f view) (fine P)"
  shows "keeps (proc_bind (authorization_process W t roles r) f) (fine P)"
  unfolding authorization_process_def permission_process_def proc_bind_assoc
proof (rule fine_pure, rule keeps_bind_atomic)
  fix token and s :: "('c, 'd) ctx" and u
  let ?q = "\<lparr>pm_permissions = map Some roles, pm_access_token = token\<rparr>"
  let ?v = "on_cache (auth_verify_token (ap_auth (si_app W)) t (pm_access_token ?q) Access)"
  let ?m = "\<lambda>u. io_bind (io_bind (user_select (ss_user (ap_session (si_app W))) [''role''] (Some u) None) result_of)
    (check_permission (pm_permissions ?q))"
  assume token: "extract_bearer (si_scheme_param W) r = Inr token"
  show "fine P s \<Longrightarrow> fine P (snd (?v s))"
    by (simp add: io_focus_def auth.verify_token_state)
  assume "fst (?v s) = Inr u"
  then have u: "auth_verify_token (ap_auth (si_app W)) t token Access c = (Inr u, c)" for c
    by (auto simp: io_focus_def intro: auth.verify_token_any_state)
  show "keeps (proc_bind (atomic (on_db (in_session (ap_session (si_app W)) (?m u)))) f) (fine P)"
  proof (rule fine_read)
    show frame: "session_frame (ap_session (si_app W)) committed (?m u)" by (intro frames frame_check)
    fix s x assume "fine P s" and "fst (?m u (ss_new (ap_session (si_app W)) (cx_db s))) = Inr x"
    then show "keeps (f x) (fine P)"
      using db.in_session_spec(1) [OF frame]
      by (intro assms [of s]) (simp_all add: authorization_def permission_def io_bind_def [of "io_lift _"]
        io_bind_def [of "on_cache _"] io_focus_def io_apply token u)
  qed
qed

lemma fine_user_guard:
  assumes "\<And>view. known_uuid (ap_auth (si_app W)) (ur_uuid view) \<Longrightarrow> keeps (f view) (fine P)"
  shows "keeps (proc_bind (user_guard_process W t t' r) f) (fine P)"
  unfolding user_guard_process_def proc_bind_assoc
proof (intro fine_authorization)
  fix s view assume "fine P s" and "fst (authorization W t' [] r s) = Inr view"
  from this(1) authorization_grants [OF site_is this(2)] show "keeps (f view) (fine P)"
    by (auto simp: acts_as_def site_quiet_def accounts_sound_def intro!: assms)
qed

lemma fine_admin_guard:
  assumes "stable_data (si_app W) admins P" and "\<And>view. admins \<Longrightarrow> keeps (f view) (fine P)"
  shows "keeps (proc_bind (admin_guard_process W t r) f) (fine P)"
  unfolding admin_guard_process_def
proof (rule fine_authorization)
  fix s view assume s: "fine P s" and "fst (authorization W t [''Admin''] r s) = Inr view"
  from authorization_grants [OF site_is this(2)] obtain u role where
    u: "acts_as W committed t r s u role" "role_type_value (r_name role) = ''Admin''" by auto
  then have "r_name role = ADMIN" by (cases "r_name role") auto
  with u(1) have "u \<in> set (db_users (committed (cx_db s)))" "is_admin (committed (cx_db s)) u"
    by (auto simp: acts_as_def is_admin_def)
  then have admins using s assms(1) by (auto simp: stable_data_def site_quiet_def)
  then show "keeps (f view) (fine P)" by (rule assms(2))
qed

lemma fine_guards: "keeps (guards_process W ts k gs r) (fine P)"
  by (induction gs arbitrary: k) (auto intro: keeps_return fine_authorization)

lemma fine_selects:
  "keeps (atomic (select_user (si_app W) q)) (fine P)" "keeps (atomic (select_many_user (si_app W) m)) (fine P)"
  by (rule keeps_atomic, erule fine_same, simp_all add: select_frames)+

lemma fine_call:
  assumes st: "stable_data (si_app W) admins P" and "sane_env E" and "valid_call c"
  shows "keeps (call_process W E r c) (fine P)"
proof (cases c)
  case HealthCall
  then show ?thesis by (simp add: healthcheck_endpoint_def io_apply keeps_atomic)
next
  case (RegisterCall b)
  have "keeps (register_process (si_app W) (en_code E) q) (fine P)"
    if "make_register_request (lc_login b) (lc_password b) (lc_fingerprint b) = Inr q" for q
    using that assms(2) by (intro fine_register)
      (auto simp: make_register_request_def sane_env_def split: if_splits)
  then show ?thesis unfolding RegisterCall call_process.simps by (intro fine_pure keeps_intros)
next
  case (ConfirmCall code)
  then show ?thesis by (simp only: call_process.simps) (intro keeps_intros fine_confirm [OF st])
next
  case (SignInCall b)
  then show ?thesis by (simp only: call_process.simps) (intro fine_pure keeps_intros fine_login_user)
next
  case (RenewCall fp)
  then show ?thesis by (simp only: call_process.simps) (intro keeps_intros fine_renew)
next
  case SignOutCall
  then show ?thesis
    by (simp only: call_process.simps) (intro fine_user_guard keeps_bind keeps_return fine_sign_out, simp)
next
  case GetMeCall
  then show ?thesis
    by (simp only: call_process.simps) (intro fine_user_guard keeps_bind keeps_return fine_selects)
next
  case (UpdateSelfCall p)
  then show ?thesis
    using assms(3) unfolding UpdateSelfCall call_process.simps
    by (intro fine_user_guard keeps_bind keeps_return fine_update [OF st]) (simp_all split: option.splits)
next
  case (SelectUsersCall l u p ls)
  then show ?thesis
    by (simp only: call_process.simps) (intro fine_admin_guard [OF st] keeps_bind keeps_return fine_selects)
next
  case (SelectUserCall u ls)
  then show ?thesis
    by (simp only: call_process.simps) (intro fine_admin_guard [OF st] keeps_bind keeps_return fine_selects)
next
  case (UpdateUserCall u b)
  then show ?thesis
    using assms(3) unfolding UpdateUserCall call_process.simps
    by (intro fine_admin_guard [OF st] keeps_bind keeps_return fine_update [OF st]) (simp_all add: valid_update_def)
qed

lemma fine_dispatch:
  assumes "stable_data (si_app W) admins P" and "sane_env E"
  shows "keeps (dispatch_process F W E r) (fine P)"
proof -
  have "keeps (route_process F W E rt params r) (fine P)" for rt params
    unfolding route_process_def
    by (auto intro!: keeps_intros fine_guards fine_call [OF assms call_is_valid] split: sum.split)
  then show ?thesis by (auto simp: dispatch_process_def keeps_return split: option.split)
qed

end

end
