(* ===== verification/Site_Races_Properties.thy ===== *)
theory Site_Races_Properties
  imports Site_Races
begin

text \<open>
  The properties of a site that serves any number of requests at the same time, with entries of the
  cache expiring at any moment: what holds in every state, and that rights come from administrators only.
\<close>

section \<open>Events\<close>

text \<open>A request that is served, or strings of the cache that expire.\<close>

datatype 'c site_event = Served request_env http_request | Expired "'c \<Rightarrow> 'c"

fun event_process ::
  "framework \<Rightarrow> ('c, 'd) site \<Rightarrow> 'c site_event \<Rightarrow> (('c, 'd) ctx, http_response option) proc" where
  "event_process F W (Served E r) = proc_bind (dispatch_process F W E r) (\<lambda>x. proc_return (Some x))"
| "event_process F W (Expired e) =
     proc_bind (atomic (on_cache (\<lambda>c. (Inr (), e c)))) (\<lambda>_. proc_return None)"

fun sane_event ::
  "('c \<Rightarrow> string \<Rightarrow> string option) \<Rightarrow> ('c \<Rightarrow> string \<Rightarrow> string list) \<Rightarrow> 'c site_event \<Rightarrow> bool" where
  "sane_event strs lsts (Served E r) = sane_env E"
| "sane_event strs lsts (Expired e) =
     (\<forall>c. lsts (e c) = lsts c \<and> (\<forall>k. strs (e c) k = strs c k \<or> strs (e c) k = None))"

context site_laws
begin

lemma quiet_expired:
  assumes "quiet c" and "lists d = lists c" and "\<forall>k. strs d k = strs c k \<or> strs d k = None"
  shows "quiet d"
  using assms unfolding cache_quiet_def codes_sound_def by (metis option.distinct(1))

lemma fine_event:
  assumes "stable_data (si_app W) admins P" and "sane_event strs lists ev"
  shows "keeps (event_process F W ev) (fine P)"
proof (cases ev)
  case (Served E r)
  then show ?thesis using fine_dispatch [OF assms(1)] assms(2) by (auto intro!: keeps_intros)
next
  case (Expired e)
  have "fine P s \<Longrightarrow> fine P (s\<lparr>cx_cache := e (cx_cache s)\<rparr>)" for s
    using assms(2) quiet_expired [of "cx_cache s" "e (cx_cache s)"] by (simp add: Expired site_quiet_def)
  then show ?thesis
    by (auto simp: Expired io_focus_def intro!: keeps_intros keeps_atomic)
qed

lemma fine_run:
  assumes "stable_data (si_app W) admins P" and "list_all (sane_event strs lists) evs" and "fine P s"
    and "par_run n (map (event_process F W) evs, s) (ps, t)"
  shows "fine P t"
proof -
  have "\<forall>p \<in> set (map (event_process F W) evs). keeps p (fine P)"
    using assms(1,2) by (auto simp: list_all_iff intro: fine_event)
  then show ?thesis using par_run_keeps [OF assms(4)] assms(3) by (metis fst_conv snd_conv)
qed

end

section \<open>Predicates that the machine of accounts keeps\<close>

definition has_accounts :: "db \<Rightarrow> db \<Rightarrow> bool" where
  "has_accounts D0 D \<longleftrightarrow> (\<forall>u \<in> set (db_users D0). \<exists>v \<in> set (db_users D). same_account u v)"

lemma has_accounts_stable: "stable_data A True (has_accounts D0)"
  unfolding stable_data_def has_accounts_def
  by (metis account_step_keeps same_account_trans)

text \<open>No administrator, and every account of \<open>D0\<close> with the rights it had.\<close>

definition rights_kept :: "db \<Rightarrow> db \<Rightarrow> bool" where
  "rights_kept D0 D \<longleftrightarrow>
     (\<forall>v \<in> set (db_users D). \<not> is_admin D v) \<and> u_uuid ` set (db_users D0) \<subseteq> u_uuid ` set (db_users D) \<and>
     (\<forall>v \<in> set (db_users D). \<forall>u \<in> set (db_users D0). u_uuid u = u_uuid v \<longrightarrow>
       u_role_uuid v = u_role_uuid u \<and> u_active v = u_active u)"

lemma rights_kept_step:
  assumes "valid_db D" and "rights_kept D0 D" and "account_step A acts D D'" and "\<forall>x. (x, ADMIN) \<notin> acts"
  shows "rights_kept D0 D'"
proof -
  have "u_uuid ` set (db_users D) \<subseteq> u_uuid ` set (db_users D')"
  proof (rule image_subsetI)
    fix u assume "u \<in> set (db_users D)"
    then obtain v where "v \<in> set (db_users D')" "same_account u v"
      using account_step_keeps [OF assms(3)] by blast
    then show "u_uuid u \<in> u_uuid ` set (db_users D')"
      unfolding same_account_def by (metis image_eqI)
  qed
  moreover have "u_role_uuid v = u_role_uuid u \<and> u_active v = u_active u"
    if "v \<in> set (db_users D')" "u \<in> set (db_users D0)" "u_uuid u = u_uuid v" for u v
    using account_step_rights [OF assms(3,4) that(1)] assms(2) that(2,3)
    unfolding rights_kept_def same_account_def by (metis (no_types, lifting) image_eqI subsetD)
  ultimately show ?thesis
    using account_step_no_admin [OF assms(3,4,1)] assms(2) unfolding rights_kept_def by blast
qed

lemma rights_kept_stable: "stable_data A False (rights_kept D0)"
  unfolding stable_data_def using rights_kept_step by (metis rights_kept_def)

section \<open>Properties\<close>

text \<open>
  C26: a site is sound whatever it serves at the same time.  A request alone is the dispatch of the
  application; and however the actions of any number of requests are interleaved, cut off in the
  middle or not, with entries of the cache expiring in between, every stored password is the hash of one
  that kept the limits, pending codes hold checked registrations, no string is under a user's
  identifier, the constraints of the schema hold, and no account is lost or renamed.
\<close>

theorem concurrent_sites_are_sound:
  assumes "site_laws W strs lsts life tables committed ilike" and "list_all (sane_event strs lsts) evs"
    and "cache_quiet (si_app W) strs lsts (cx_cache s)" and "accounts_sound (si_app W) (committed (cx_db s))"
    and "par_run n (map (event_process F W) evs, s) (ps, t)"
  shows "(\<forall>E r. run_proc (dispatch_process F W E r) = dispatch F W E r) \<and>
    cache_quiet (si_app W) strs lsts (cx_cache t) \<and> accounts_sound (si_app W) (committed (cx_db t)) \<and>
    valid_db (committed (cx_db t)) \<and>
    (\<forall>u \<in> set (db_users (committed (cx_db s))). \<exists>v \<in> set (db_users (committed (cx_db t))).
      u_uuid v = u_uuid u \<and> u_login v = u_login u \<and> u_created_at v = u_created_at u)"
proof -
  have "site_quiet (si_app W) strs lsts committed (has_accounts (committed (cx_db s))) s"
    using assms(3,4) by (auto simp: site_quiet_def has_accounts_def same_account_def)
  from site_laws.fine_run [OF assms(1) has_accounts_stable assms(2) this assms(5)] show ?thesis
    using dispatch_process_refines
      session_laws.valid_committed [OF app_laws.axioms(2) [OF site_laws.axioms(1) [OF assms(1)]]]
    unfolding site_quiet_def has_accounts_def same_account_def by blast
qed

text \<open>The request of \<open>bob\<close> twice at once, while the cache forgets its strings.\<close>

definition example_events :: "server site_event list" where
  "example_events = [Served ref_env bob_request, Served ref_env bob_request, Expired id]"

definition example_race ::
  "((server, rel) ctx, http_response option) system" where
  "example_race = run_schedule [0, 1, 0, 1, 2, 1, 0, 0, 1, 0, 1, 1, 0]
     (map (event_process ref_framework ref_site) example_events, example_ctx)"

lemma example_race_run:
  "\<exists>n. par_run n (map (event_process ref_framework ref_site) example_events, example_ctx)
    (fst example_race, snd example_race)"
  using run_schedule_par unfolding example_race_def prod.collapse .

lemma example_events_sane: "list_all (sane_event server_strs server_lists) example_events"
  by (simp add: example_events_def ref_env_sane)

lemma example_quiet:
  "cache_quiet ref_app server_strs server_lists (cx_cache example_ctx)"
  "accounts_sound ref_app (rel_committed (cx_db example_ctx))"
  using example_site_sound by (auto simp: site_sound_def cache_quiet_def sessions_bounded_def)

theorem concurrent_sites_are_sound_witness:
  "accounts_sound ref_app (rel_committed (cx_db (snd example_race))) \<and>
    (\<exists>v \<in> set (db_users (rel_committed (cx_db (snd example_race)))). u_login v = ''bob'')"
proof -
  obtain n where "par_run n (map (event_process ref_framework ref_site) example_events, example_ctx)
      (fst example_race, snd example_race)"
    using example_race_run ..
  from concurrent_sites_are_sound [OF ref_site_ok example_events_sane _ _ this] example_quiet
  show ?thesis by (auto simp: example_db_def)
qed

text \<open>
  C4: rights come from administrators.  If no user has the role \<open>Admin\<close>, then no requests, however
  many are served at the same time and however their checks and changes are interleaved, lead to a
  user who has it, and every account keeps its role and stays active or blocked as it was.
\<close>

theorem rights_come_from_administrators:
  assumes "site_laws W strs lsts life tables committed ilike" and "list_all (sane_event strs lsts) evs"
    and "cache_quiet (si_app W) strs lsts (cx_cache s)" and "accounts_sound (si_app W) (committed (cx_db s))"
    and "\<forall>u \<in> set (db_users (committed (cx_db s))). \<not> is_admin (committed (cx_db s)) u"
    and "par_run n (map (event_process F W) evs, s) (ps, t)"
    and "v \<in> set (db_users (committed (cx_db t)))"
  shows "\<not> is_admin (committed (cx_db t)) v \<and>
    (\<forall>u \<in> set (db_users (committed (cx_db s))). u_uuid u = u_uuid v \<longrightarrow>
      u_role_uuid v = u_role_uuid u \<and> u_active v = u_active u)"
proof -
  have "valid_db (committed (cx_db s))"
    using session_laws.valid_committed [OF app_laws.axioms(2) [OF site_laws.axioms(1) [OF assms(1)]]] .
  then have "u = u'" if "u \<in> set (db_users (committed (cx_db s)))" "u' \<in> set (db_users (committed (cx_db s)))"
    "u_uuid u = u_uuid u'" for u u'
    using that by (metis valid_db_def distinct_map_eq)
  then have "site_quiet (si_app W) strs lsts committed (rights_kept (committed (cx_db s))) s"
    using assms(3-5) unfolding site_quiet_def rights_kept_def by blast
  from site_laws.fine_run [OF assms(1) rights_kept_stable assms(2) this assms(6)] show ?thesis
    using assms(7) unfolding site_quiet_def rights_kept_def by blast
qed

theorem rights_come_from_administrators_witness:
  "filter (is_admin (rel_committed (cx_db (snd example_race))))
    (db_users (rel_committed (cx_db (snd example_race)))) = []"
proof -
  obtain n where run: "par_run n (map (event_process ref_framework ref_site) example_events, example_ctx)
      (fst example_race, snd example_race)"
    using example_race_run ..
  have "\<forall>u \<in> set (db_users (rel_committed (cx_db example_ctx))). \<not> is_admin (rel_committed (cx_db example_ctx)) u"
    by (simp add: is_admin_def example_db_def)
  then have "\<not> is_admin (rel_committed (cx_db (snd example_race))) v"
    if "v \<in> set (db_users (rel_committed (cx_db (snd example_race))))" for v
    using rights_come_from_administrators [OF ref_site_ok example_events_sane _ _ _ run that] example_quiet
    by simp
  then show ?thesis by (simp add: filter_empty_conv)
qed

end
