(* ===== verification/Command_Races.thy ===== *)
theory Command_Races
  imports Request_Races
begin

text \<open>
  Requests at the grain of Redis commands.  \<open>RedisCache.delete\<close> sends a scan and then a deletion, and
  \<open>set_list\<close> a push and then an expiry; other requests may run in between.  The theory cuts the methods
  at the commands and shows that nothing new can happen: every interleaving of the commands gives the
  answers and the stored data of an interleaving of the calls, in which each call takes effect at
  one moment between its start and its end.
\<close>

section \<open>Simulation of processes\<close>

text \<open>
  \<open>p\<close> is simulated by \<open>q\<close> under the relation \<open>V\<close> of their states: whatever action \<open>p\<close> does next, \<open>q\<close>
  does nothing or one action, and when \<open>p\<close> has a result then \<open>q\<close> has this result.
\<close>

primrec proc_sim :: "('s, 'a) proc \<Rightarrow> ('s \<Rightarrow> 's \<Rightarrow> bool) \<Rightarrow> ('s, 'a) proc \<Rightarrow> bool" where
  "proc_sim (Done r) = (\<lambda>V q. q = Done r)"
| "proc_sim (Act g k) = (\<lambda>V q. \<forall>s t. V s t \<longrightarrow> V (g s) t \<and> proc_sim (k s) V q \<or>
     (\<exists>h l. q = Act h l \<and> V (g s) (h t) \<and> proc_sim (k s) V (l t)))"

lemma sim_actE:
  assumes "proc_sim (Act g k) V q" and "V s t"
  obtains (stay) "V (g s) t" "proc_sim (k s) V q"
  | (move) h l where "q = Act h l" "V (g s) (h t)" "proc_sim (k s) V (l t)"
proof -
  from assms have "V (g s) t \<and> proc_sim (k s) V q \<or>
      (\<exists>h l. q = Act h l \<and> V (g s) (h t) \<and> proc_sim (k s) V (l t))" by simp
  then show thesis using that by blast
qed

named_theorems sim_intros

lemma sim_done [sim_intros]: "proc_sim (proc_return x) V (proc_return x)" "proc_sim (proc_raise e) V (proc_raise e)"
  by (simp_all add: proc_return_def proc_raise_def)

lemma sim_bind [sim_intros]:
  "proc_sim p V q \<Longrightarrow> (\<And>x. proc_sim (f x) V (g x)) \<Longrightarrow> proc_sim (proc_bind p f) V (proc_bind q g)"
proof (induction p arbitrary: q)
  case (Done r)
  then show ?case by (cases r) auto
next
  case (Act h k)
  show ?case
    unfolding proc_bind.simps proc_sim.simps
  proof (intro allI impI)
    fix s t assume "V s t"
    with Act.prems(1) show "V (h s) t \<and> proc_sim (proc_bind (k s) f) V (proc_bind q g) \<or>
        (\<exists>h' l. proc_bind q g = Act h' l \<and> V (h s) (h' t) \<and> proc_sim (proc_bind (k s) f) V (l t))"
      using Act.IH [OF rangeI] Act.prems(2) by (cases rule: sim_actE) auto
  qed
qed

lemma sim_atomic:
  "(\<And>s t. V s t \<Longrightarrow> fst (m s) = fst (m' t) \<and> V (snd (m s)) (snd (m' t))) \<Longrightarrow>
    proc_sim (atomic m) V (atomic m')"
  by (simp add: atomic_def)

lemma sim_atomic_bind:
  "(\<And>s t. V s t \<Longrightarrow> fst (m s) = fst (m' t) \<and> V (snd (m s)) (snd (m' t))) \<Longrightarrow>
    (\<And>s t x. V s t \<Longrightarrow> fst (m s) = Inr x \<Longrightarrow> proc_sim (f x) V (g x)) \<Longrightarrow>
    proc_sim (proc_bind (atomic m) f) V (proc_bind (atomic m') g)"
  by (auto simp: atomic_def split: sum.split)

lemma sim_focus:
  assumes "\<And>s t. V s t \<Longrightarrow> W (get s) (get t)"
    and "\<And>s t c d. V s t \<Longrightarrow> W c d \<Longrightarrow> V (put c s) (put d t)" and "\<And>s. put (get s) s = s"
  shows "proc_sim p W q \<Longrightarrow> proc_sim (proc_focus get put p) V (proc_focus get put q)"
proof (induction p arbitrary: q)
  case (Act g k)
  show ?case
    unfolding proc_focus.simps proc_sim.simps
  proof (intro allI impI)
    fix s t assume V: "V s t"
    from Act.prems assms(1) [OF V] show "V (put (g (get s)) s) t \<and> proc_sim (proc_focus get put (k (get s))) V (proc_focus get put q) \<or>
        (\<exists>h l. proc_focus get put q = Act h l \<and> V (put (g (get s)) s) (h t) \<and>
          proc_sim (proc_focus get put (k (get s))) V (l t))"
    proof (cases rule: sim_actE)
      case stay
      then show ?thesis using Act.IH [OF rangeI] assms(2) [OF V stay(1)] assms(3) [of t] by metis
    next
      case (move h l)
      then show ?thesis using Act.IH [OF rangeI] assms(2) [OF V] by auto
    qed
  qed
qed simp

text \<open>Systems of processes: the simulating system makes at most as many steps.\<close>

lemma par_step_sim:
  assumes "par_step (ps, s) (ps', s')" and "list_all2 (\<lambda>p q. proc_sim p V q) ps qs" and "V s t"
  shows "\<exists>m qs' t'. m \<le> 1 \<and> par_run m (qs, t) (qs', t') \<and>
    list_all2 (\<lambda>p q. proc_sim p V q) ps' qs' \<and> V s' t'"
  using assms(1)
proof cases
  case (act i g k)
  have i: "i < length qs" using act(3) assms(2) by (auto dest: list_all2_lengthD)
  have sim: "proc_sim (Act g k) V (qs ! i)"
    using list_all2_nthD [OF assms(2) act(3)] by (simp only: act(4))
  from sim assms(3) show ?thesis
  proof (cases rule: sim_actE)
    case stay
    have "list_all2 (\<lambda>p q. proc_sim p V q) ps' (qs[i := qs ! i])"
      unfolding act(1) using assms(2) stay(2) by (rule list_all2_update_cong)
    then show ?thesis using stay(1) act(2) par_run.stop [of "(qs, t)"] by (auto intro: exI [of _ 0])
  next
    case (move h l)
    have "list_all2 (\<lambda>p q. proc_sim p V q) ps' (qs[i := l t])"
      unfolding act(1) using assms(2) move(3) by (rule list_all2_update_cong)
    moreover have "par_run 1 (qs, t) (qs[i := l t], h t)"
      using par_run.more [OF par_step.act [OF i move(1)] par_run.stop] by simp
    ultimately show ?thesis using move(2) act(2) by blast
  qed
qed

lemma par_run_append: "par_run m c d \<Longrightarrow> par_run n d e \<Longrightarrow> par_run (m + n) c e"
  by (induction rule: par_run.induct) (auto intro: par_run.more)

lemma par_run_sim:
  "par_run n (ps, s) (ps', s') \<Longrightarrow> list_all2 (\<lambda>p q. proc_sim p V q) ps qs \<Longrightarrow> V s t \<Longrightarrow>
    \<exists>m qs' t'. m \<le> n \<and> par_run m (qs, t) (qs', t') \<and>
      list_all2 (\<lambda>p q. proc_sim p V q) ps' qs' \<and> V s' t'"
proof (induction n arbitrary: ps s qs t)
  case 0
  from 0(1) have "ps' = ps" "s' = s" by (auto elim: par_run_0E)
  with 0 show ?case using par_run.stop [of "(qs, t)"] by blast
next
  case (Suc n)
  from Suc.prems(1) obtain rs u where step: "par_step (ps, s) (rs, u)" and run: "par_run n (rs, u) (ps', s')"
    by (auto elim: par_run_SucE)
  obtain m ws w where m: "m \<le> 1" "par_run m (qs, t) (ws, w)" and sim: "list_all2 (\<lambda>p q. proc_sim p V q) rs ws" "V u w"
    using par_step_sim [OF step Suc.prems(2,3)] by blast
  obtain m' qs' t' where m': "m' \<le> n" "par_run m' (ws, w) (qs', t')"
    "list_all2 (\<lambda>p q. proc_sim p V q) ps' qs'" "V s' t'"
    using Suc.IH [OF run sim] by blast
  have "m + m' \<le> Suc n" using m(1) m'(1) by simp
  then show ?case using par_run_append [OF m(2) m'(2)] m'(3,4) by blast
qed

text \<open>What the simulation says of answers.\<close>

definition answers_of :: "('s, 'a) proc list \<Rightarrow> ('s, 'a) proc list \<Rightarrow> bool" where
  "answers_of ps qs \<longleftrightarrow> list_all2 (\<lambda>p q. \<forall>r. p = Done r \<longrightarrow> q = Done r) ps qs"

lemma sim_answers: "list_all2 (\<lambda>p q. proc_sim p V q) ps qs \<Longrightarrow> answers_of ps qs"
  unfolding answers_of_def by (erule list_all2_mono) auto

lemma answers_wins: "answers_of ps qs \<Longrightarrow> length (filter wins ps) \<le> length (filter wins qs)"
  unfolding answers_of_def
  by (induction rule: list_all2_induct) (auto simp: wins_def split: proc.splits sum.splits)

section \<open>RedisCache, command by command\<close>

fun scan_process :: "'r redis \<Rightarrow> string list \<Rightarrow> ('r, string list) proc" where
  "scan_process R [] = proc_return []"
| "scan_process R (key # keys) =
     proc_bind (atomic (r_scan_iter R key)) (\<lambda>found.
     proc_bind (scan_process R keys) (\<lambda>rest. proc_return (found @ rest)))"

definition redis_delete_process :: "'r redis \<Rightarrow> string list \<Rightarrow> ('r, unit) proc" where
  "redis_delete_process R keys =
     proc_bind (scan_process R keys) (\<lambda>found_keys.
     if found_keys \<noteq> []
     then proc_bind (atomic (r_delete R found_keys)) (\<lambda>_. proc_return ())
     else proc_return ())"

definition redis_set_list_process ::
  "'r redis \<Rightarrow> string \<Rightarrow> string list \<Rightarrow> expiry option \<Rightarrow> ('r, unit) proc" where
  "redis_set_list_process R key values expire =
     proc_bind (atomic (r_lpush R key values)) (\<lambda>_.
     case expire of
       None \<Rightarrow> proc_return ()
     | Some e \<Rightarrow>
         if expiry_seconds e = 0 then proc_return ()
         else proc_bind (atomic (r_expire R key (ETimedelta (expiry_seconds e)))) (\<lambda>_. proc_return ()))"

text \<open>The other calls of the service send one command.\<close>

definition redis_get_list_process :: "'r redis \<Rightarrow> string \<Rightarrow> ('r, string list) proc" where
  "redis_get_list_process R key = atomic (r_lrange R key 0 (-1))"

definition redis_discard_process :: "'r redis \<Rightarrow> string \<Rightarrow> string \<Rightarrow> ('r, unit) proc" where
  "redis_discard_process R key value =
     proc_bind (atomic (r_lrem R key 0 value)) (\<lambda>_. proc_return ())"

lemma run_scan_process: "run_proc (scan_process R keys) = scan_keys R keys"
  by (induction keys) (simp_all add: proc_run)

lemma redis_processes_refine [proc_run]:
  "run_proc (redis_delete_process R keys) = redis_cache_delete R keys"
  "run_proc (redis_set_list_process R k vs e) = redis_cache_set_list R k vs e"
  "run_proc (redis_get_list_process R k) = redis_cache_get_list R k None None"
  "run_proc (redis_discard_process R k v) = redis_cache_discard R k v None"
  unfolding redis_delete_process_def redis_set_list_process_def redis_get_list_process_def
    redis_discard_process_def redis_cache_delete_def redis_cache_set_list_def redis_cache_get_list_def
    redis_cache_discard_def proc_run run_scan_process
  by simp_all

lemma redis_cache_fields:
  "sc_get (redis_cache R) = redis_cache_get R" "sc_delete (redis_cache R) = redis_cache_delete R"
  "sc_get_list (redis_cache R) k = redis_cache_get_list R k None None"
  "sc_set_list (redis_cache R) = redis_cache_set_list R"
  "sc_discard (redis_cache R) k v = redis_cache_discard R k v None"
  by (simp_all add: redis_cache_def)

section \<open>The methods of the service, command by command\<close>

definition login_commands ::
  "'r redis \<Rightarrow> 'r auth \<Rightarrow> (nat \<Rightarrow> int) \<Rightarrow> string \<Rightarrow> uuid \<Rightarrow> ('r, tokens_expire) proc" where
  "login_commands R A ts fingerprint user_uuid =
     proc_bind (atomic (issue_tokens A (ts 0) (ts 1) user_uuid)) (\<lambda>res.
     proc_bind (redis_get_list_process R (uuid_str user_uuid)) (\<lambda>tokens.
     proc_bind (if DEFAULT_TOKENS_COUNT < length tokens
                then redis_delete_process R [uuid_str user_uuid] else proc_return ()) (\<lambda>_.
     proc_bind (redis_set_list_process R (uuid_str user_uuid)
                [session_entry fingerprint (tk_refresh (te_tokens res))] None) (\<lambda>_.
     proc_return res))))"

definition refresh_commands ::
  "'r redis \<Rightarrow> 'r auth \<Rightarrow> (nat \<Rightarrow> int) \<Rightarrow> string \<Rightarrow> string \<Rightarrow> ('r, tokens_expire) proc" where
  "refresh_commands R A ts fingerprint token =
     proc_bind (atomic (auth_verify_token A (ts 0) token Refresh)) (\<lambda>user_uuid.
     proc_bind (redis_get_list_process R (uuid_str user_uuid)) (\<lambda>token_pairs.
     case find_pair fingerprint token token_pairs of
       Broken \<Rightarrow>
         proc_bind (redis_delete_process R [uuid_str user_uuid]) (\<lambda>_.
         proc_raise (App (simple_error ForbiddenError
           ''Broken separator, try to login again. Token is not valid anymore'')))
     | NotVerified \<Rightarrow>
         proc_bind (redis_delete_process R [uuid_str user_uuid]) (\<lambda>_.
         proc_raise (App (simple_error ForbiddenError ''Token is not valid anymore'')))
     | Verified verified \<Rightarrow>
         proc_bind (redis_discard_process R (uuid_str user_uuid) verified) (\<lambda>_.
         proc_bind (atomic (issue_tokens A (ts 1) (ts 2) user_uuid)) (\<lambda>res.
         proc_bind (redis_set_list_process R (uuid_str user_uuid)
                    [session_entry fingerprint (tk_refresh (te_tokens res))] None) (\<lambda>_.
         proc_return res)))))"

definition logout_commands ::
  "'r redis \<Rightarrow> 'r auth \<Rightarrow> (nat \<Rightarrow> int) \<Rightarrow> string \<Rightarrow> uuid \<Rightarrow> ('r, bool) proc" where
  "logout_commands R A ts token user_uuid =
     proc_bind (atomic (auth_verify_token A (ts 0) token Refresh)) (\<lambda>_.
     proc_bind (redis_get_list_process R (uuid_str user_uuid)) (\<lambda>token_pairs.
     proc_bind (case find_token token token_pairs of
         Broken \<Rightarrow> redis_delete_process R [uuid_str user_uuid]
       | Verified pair \<Rightarrow> redis_discard_process R (uuid_str user_uuid) pair
       | NotVerified \<Rightarrow> proc_return ()) (\<lambda>_.
     proc_return True)))"

fun session_commands :: "'r redis \<Rightarrow> 'r auth \<Rightarrow> session_request \<Rightarrow> ('r, tokens_expire option) proc" where
  "session_commands R A (LoginCall ts fp u) =
     proc_bind (login_commands R A ts fp u) (\<lambda>res. proc_return (Some res))"
| "session_commands R A (RefreshCall ts fp tok) =
     proc_bind (refresh_commands R A ts fp tok) (\<lambda>res. proc_return (Some res))"
| "session_commands R A (LogoutCall ts tok u) =
     proc_bind (logout_commands R A ts tok u) (\<lambda>_. proc_return None)"

definition confirm_commands ::
  "'r redis \<Rightarrow> ('r, 'd) app \<Rightarrow> (nat \<Rightarrow> int) \<Rightarrow> string \<Rightarrow> (('r, 'd) ctx, tokens_expire) proc" where
  "confirm_commands R A ts code =
     proc_bind (cache_proc (atomic (r_get R (code_key code)))) (\<lambda>cached_data.
     if \<not> truthy_str cached_data
     then proc_raise (App (simple_error NotFoundError ''Code has expire or invalid''))
     else
       proc_bind (cache_proc (redis_delete_process R [code_key code])) (\<lambda>_.
       case ap_parse A (the cached_data) of
         None \<Rightarrow> proc_raise PydanticValidationError
       | Some cached_user \<Rightarrow>
           proc_bind (atomic (on_db (in_database (ap_session A) (confirm_user A cached_user)))) (\<lambda>user.
           cache_proc (login_commands R (ap_auth A) ts (rg_fingerprint cached_user) (u_uuid user)))))"

text \<open>Undisturbed, these too are the methods.\<close>

lemma commands_refine:
  assumes "as_cache A = redis_cache R"
  shows "run_proc (login_commands R A ts fp u) = auth_login A ts fp u"
    and "run_proc (refresh_commands R A ts fp tok) = auth_verify_refresh A ts fp tok"
    and "run_proc (logout_commands R A ts tok u) = auth_invalidate_refresh A ts tok u"
  unfolding login_commands_def refresh_commands_def logout_commands_def proc_run auth_login_def
    auth_verify_refresh_def auth_invalidate_refresh_def assms redis_cache_fields
  by (rule refl)+

lemma session_commands_refine:
  "as_cache A = redis_cache R \<Longrightarrow> run_proc (session_commands R A q) = run_proc (session_process A q)"
  by (cases q) (simp_all add: proc_run commands_refine session_processes_refine)

lemma confirm_commands_refine:
  assumes "ap_cache A = redis_cache R"
  shows "run_proc (confirm_commands R A ts code) = confirm A ts code"
  unfolding confirm_commands_def confirm_def proc_run commands_refine(1) [OF assms] assms
    redis_cache_fields redis_cache_get_def ..

section \<open>Every interleaving of commands is one of calls\<close>

text \<open>
  What a command relies on: no string under a user's identifier, and no list under the keys \<open>K\<close>.  Two
  states are the same for the methods when both views agree.
\<close>

definition calm ::
  "'c auth \<Rightarrow> ('c \<Rightarrow> string \<Rightarrow> string option) \<Rightarrow> ('c \<Rightarrow> string \<Rightarrow> string list) \<Rightarrow> string set \<Rightarrow> 'c \<Rightarrow> bool" where
  "calm A strs lsts K c \<longleftrightarrow>
     (\<forall>u. known_uuid A u \<longrightarrow> strs c (uuid_str u) = None \<and> uuid_str u \<notin> K) \<and> (\<forall>k \<in> K. lsts c k = [])"

definition same_views ::
  "'c auth \<Rightarrow> ('c \<Rightarrow> string \<Rightarrow> string option) \<Rightarrow> ('c \<Rightarrow> string \<Rightarrow> string list) \<Rightarrow> string set \<Rightarrow>
    'c \<Rightarrow> 'c \<Rightarrow> bool" where
  "same_views A strs lsts K c d \<longleftrightarrow> strs c = strs d \<and> lsts c = lsts d \<and> calm A strs lsts K c"

lemma calm_update:
  "calm A strs lsts K c \<Longrightarrow> strs d = strs c \<Longrightarrow> known_uuid A u \<Longrightarrow> lsts d = (lsts c)(uuid_str u := es) \<Longrightarrow>
    calm A strs lsts K d"
  by (auto simp: calm_def)

lemma calm_delete:
  "calm A strs lsts K c \<Longrightarrow> strs d = (strs c)(k := None) \<Longrightarrow> lsts d = (lsts c)(k := []) \<Longrightarrow>
    calm A strs lsts K d"
  by (auto simp: calm_def)

lemma redis_delete_single:
  "redis_delete_process R [k] = proc_bind (atomic (r_scan_iter R k)) (\<lambda>found.
     if found \<noteq> [] then proc_bind (atomic (r_delete R found)) (\<lambda>_. proc_return ()) else proc_return ())"
  by (simp add: redis_delete_process_def atomic_def proc_return_def fun_eq_iff split: sum.split)

locale redis_service = auth_service A strs lists life + redis_laws R strs lists glob
  for A :: "'r auth" and strs and lists and life and R :: "'r redis" and glob +
  assumes on_redis: "as_cache A = redis_cache R"
begin

lemma delete_call:
  assumes "plain_key k"
  shows "fst (sc_delete (as_cache A) [k] c) = Inr ()"
    and "strs (snd (sc_delete (as_cache A) [k] c)) = (strs c)(k := None)"
    and "lists (snd (sc_delete (as_cache A) [k] c)) = (lists c)(k := [])"
  using assms by (simp_all add: cache.cache_laws)

lemma delete_call_same:
  assumes "plain_key k" and "same_views A strs lists K s t"
    and "strs s' = (strs s)(k := None)" and "lists s' = (lists s)(k := [])"
  shows "same_views A strs lists K s' (snd (sc_delete (as_cache A) [k] t))"
  using assms calm_delete [of A strs lists K s s' k] by (simp add: same_views_def delete_call)

lemma sim_delete_command:
  assumes k: "plain_key k" and ks: "set ks = {k}"
  shows "proc_sim (proc_bind (atomic (r_delete R ks)) (\<lambda>_. proc_return ())) (same_views A strs lists K)
    (atomic (sc_delete (as_cache A) [k]))"
  unfolding atomic_def proc_bind.simps proc_sim.simps
proof (intro allI impI disjI2 exI conjI)
  fix s t assume V: "same_views A strs lists K s t"
  show "same_views A strs lists K (snd (r_delete R ks s)) (snd (sc_delete (as_cache A) [k] t))"
    by (rule delete_call_same [OF k V]) (auto simp: r_delete_strs r_delete_lists ks)
  obtain n where "fst (r_delete R ks s) = Inr n" using r_delete_ok by blast
  then show "proc_sim (case fst (r_delete R ks s) of Inl e \<Rightarrow> Done (Inl e) | Inr x \<Rightarrow> proc_return ())
      (same_views A strs lists K) (Done (fst (sc_delete (as_cache A) [k] t)))"
    by (simp add: delete_call [OF k] proc_return_def)
qed (rule refl)

lemma sim_delete:
  assumes k: "plain_key k"
  shows "proc_sim (redis_delete_process R [k]) (same_views A strs lists K) (atomic (sc_delete (as_cache A) [k]))"
    (is "proc_sim _ ?V ?d")
proof -
  let ?rest = "\<lambda>found :: string list. if found \<noteq> []
    then proc_bind (atomic (r_delete R found)) (\<lambda>_. proc_return ()) else proc_return ()"
  have scan: "?V (snd (r_scan_iter R k s)) t \<and> proc_sim (?rest ks) ?V ?d \<or>
      (\<exists>h l. ?d = Act h l \<and> ?V (snd (r_scan_iter R k s)) (h t) \<and> proc_sim (?rest ks) ?V (l t))"
    if ks: "fst (r_scan_iter R k s) = Inr ks" and V: "?V s t" for s t ks
  proof -
    have found: "set ks = {k'. (strs s k' \<noteq> None \<or> lists s k' \<noteq> []) \<and> k' = k}"
      using r_scan [of k s] ks glob_plain [OF k] by auto
    show ?thesis
    proof (cases "ks = []")
      case True
      then have "k \<notin> set ks" by simp
      then have "strs s k = None" "lists s k = []" unfolding found by simp_all
      then have "?V s (snd (sc_delete (as_cache A) [k] t))"
        by (intro delete_call_same [OF k V]) (simp_all add: fun_upd_idem)
      then show ?thesis
        using True by (simp add: r_scan_state atomic_def delete_call [OF k] proc_return_def)
    next
      case False
      moreover have "set ks \<subseteq> {k}" unfolding found by auto
      ultimately have "set ks = {k}" using subset_singletonD [of "set ks" k] False by simp
      then show ?thesis using False V sim_delete_command [OF k] by (simp add: r_scan_state)
    qed
  qed
  show ?thesis
    unfolding redis_delete_single atomic_def [of "r_scan_iter R k"] proc_bind.simps proc_sim.simps
  proof (intro allI impI)
    fix s t assume V: "?V s t"
    obtain ks where ks: "fst (r_scan_iter R k s) = Inr ks" using r_scan by blast
    from scan [OF this V] show "?V (snd (r_scan_iter R k s)) t \<and>
          proc_sim (case fst (r_scan_iter R k s) of Inl e \<Rightarrow> Done (Inl e) | Inr x \<Rightarrow> ?rest x) ?V ?d \<or>
        (\<exists>h l. ?d = Act h l \<and> ?V (snd (r_scan_iter R k s)) (h t) \<and>
          proc_sim (case fst (r_scan_iter R k s) of Inl e \<Rightarrow> Done (Inl e) | Inr x \<Rightarrow> ?rest x) ?V (l t))"
      by (simp only: ks sum.case)
  qed
qed

lemma sim_unit:
  assumes "\<And>s t. V s t \<Longrightarrow>
    (\<exists>n. fst (m s) = Inr n) \<and> fst (m' t) = Inr () \<and> V (snd (m s)) (snd (m' t))"
  shows "proc_sim (proc_bind (atomic m) (\<lambda>_. proc_return ())) V (atomic m')"
proof -
  have "V (snd (m s)) (snd (m' t)) \<and>
      proc_sim (case fst (m s) of Inl e \<Rightarrow> Done (Inl e) | Inr x \<Rightarrow> proc_return ()) V (Done (fst (m' t)))"
    if "V s t" for s t
    using assms [OF that] by (auto simp: proc_return_def)
  then show ?thesis by (auto simp: atomic_def)
qed

lemma same_views_free: "same_views A strs lists K s t \<Longrightarrow> known_uuid A u \<Longrightarrow>
    strs s (uuid_str u) = None \<and> strs t (uuid_str u) = None \<and> lists t (uuid_str u) = lists s (uuid_str u)"
  by (auto simp: same_views_def calm_def)

lemma same_views_update:
  "same_views A strs lists K s t \<Longrightarrow> known_uuid A u \<Longrightarrow> strs s' = strs s \<Longrightarrow> strs t' = strs t \<Longrightarrow>
    lists s' = (lists s)(uuid_str u := es) \<Longrightarrow> lists t' = (lists t)(uuid_str u := es) \<Longrightarrow>
    same_views A strs lists K s' t'"
  using calm_update [of A strs lists K s s' u es] by (auto simp: same_views_def)

lemma sim_get_list:
  "known_uuid A u \<Longrightarrow> proc_sim (redis_get_list_process R (uuid_str u)) (same_views A strs lists K)
    (atomic (sc_get_list (as_cache A) (uuid_str u)))"
  unfolding redis_get_list_process_def
  by (rule sim_atomic) (simp add: same_views_free cache.get_list r_lrange)

lemma sim_discard:
  "known_uuid A u \<Longrightarrow> proc_sim (redis_discard_process R (uuid_str u) e) (same_views A strs lists K)
    (atomic (sc_discard (as_cache A) (uuid_str u) e))"
  unfolding redis_discard_process_def
  by (rule sim_unit)
    (auto simp: same_views_free cache.cache_laws r_lrem_ok r_lrem_strs r_lrem_lists
      intro: same_views_update)

lemma sim_set_list:
  "known_uuid A u \<Longrightarrow> proc_sim (redis_set_list_process R (uuid_str u) [e] None) (same_views A strs lists K)
    (atomic (sc_set_list (as_cache A) (uuid_str u) [e] None))"
  unfolding redis_set_list_process_def option.case
  by (rule sim_unit)
    (auto simp: same_views_free cache.cache_laws r_lpush_ok r_lpush_strs r_lpush_lists
      intro: same_views_update)

lemma sim_issue:
  "proc_sim (atomic (issue_tokens A t1 t2 u)) (same_views A strs lists K) (atomic (issue_tokens A t1 t2 u))"
proof (rule sim_atomic)
  fix s t assume "same_views A strs lists K s t"
  moreover have "fst (issue_tokens A t1 t2 u s) = fst (issue_tokens A t1 t2 u t)"
    by (simp add: issue_tokens_def io_simps split: sum.split)
  ultimately show "fst (issue_tokens A t1 t2 u s) = fst (issue_tokens A t1 t2 u t) \<and>
      same_views A strs lists K (snd (issue_tokens A t1 t2 u s)) (snd (issue_tokens A t1 t2 u t))"
    by (simp add: issue_tokens_state)
qed

lemma sim_verify:
  assumes "\<And>u. known_uuid A u \<Longrightarrow> proc_sim (f u) (same_views A strs lists K) (g u)"
  shows "proc_sim (proc_bind (atomic (auth_verify_token A now tok ty)) f) (same_views A strs lists K)
    (proc_bind (atomic (auth_verify_token A now tok ty)) g)"
  by (rule sim_atomic_bind)
    (auto simp: verify_token_state verify_token_fst intro: assms dest: verify_token_known)

lemmas session_sims = sim_get_list sim_discard sim_set_list sim_issue sim_delete known_plain

lemma sim_login:
  "known_uuid A u \<Longrightarrow>
    proc_sim (login_commands R A ts fp u) (same_views A strs lists K) (login_process A ts fp u)"
  unfolding login_commands_def login_process_def
  by (intro sim_intros session_sims) (auto intro!: session_sims sim_intros)

lemma sim_refresh:
  "proc_sim (refresh_commands R A ts fp tok) (same_views A strs lists K) (refresh_process A ts fp tok)"
  unfolding refresh_commands_def refresh_process_def
  by (intro sim_verify sim_bind sim_get_list)
    (auto intro!: session_sims sim_intros split: scan.split)

lemma sim_logout:
  "known_uuid A u \<Longrightarrow>
    proc_sim (logout_commands R A ts tok u) (same_views A strs lists K) (logout_process A ts tok u)"
  unfolding logout_commands_def logout_process_def
  by (intro sim_verify sim_bind sim_get_list)
    (auto intro!: session_sims sim_intros split: scan.split)

end

section \<open>Requests on cache and database\<close>

text \<open>
  A request of the authentication service or a confirmation, as a process of calls and as a process of
  commands.  A transaction on the database is one action in both.
\<close>

datatype cached_request =
    SessionRequest session_request
  | ConfirmRequest "nat \<Rightarrow> int" string

fun request_process :: "('c, 'd) app \<Rightarrow> cached_request \<Rightarrow> (('c, 'd) ctx, tokens_expire option) proc" where
  "request_process A (SessionRequest q) = cache_proc (session_process (ap_auth A) q)"
| "request_process A (ConfirmRequest ts code) =
     proc_bind (confirm_process A ts code) (\<lambda>res. proc_return (Some res))"

fun request_commands ::
  "'r redis \<Rightarrow> ('r, 'd) app \<Rightarrow> cached_request \<Rightarrow> (('r, 'd) ctx, tokens_expire option) proc" where
  "request_commands R A (SessionRequest q) = cache_proc (session_commands R (ap_auth A) q)"
| "request_commands R A (ConfirmRequest ts code) =
     proc_bind (confirm_commands R A ts code) (\<lambda>res. proc_return (Some res))"

text \<open>Logins and logouts are of users the program made; codes are without the characters of patterns.\<close>

fun addressed :: "('c, 'd) app \<Rightarrow> cached_request \<Rightarrow> bool" where
  "addressed A (SessionRequest (LoginCall ts fp u)) = known_uuid (ap_auth A) u"
| "addressed A (SessionRequest (RefreshCall ts fp tok)) = True"
| "addressed A (SessionRequest (LogoutCall ts tok u)) = known_uuid (ap_auth A) u"
| "addressed A (ConfirmRequest ts code) = plain_key (code_key code)"

fun request_keys :: "cached_request \<Rightarrow> string set" where
  "request_keys (SessionRequest q) = {}"
| "request_keys (ConfirmRequest ts code) = {code_key code}"

lemma request_commands_refine:
  "ap_cache A = redis_cache R \<Longrightarrow> run_proc (request_commands R A q) = run_proc (request_process A q)"
  by (cases q) (simp_all add: proc_run session_commands_refine confirm_commands_refine confirm_process_refines)

definition same_ctx ::
  "('c, 'd) app \<Rightarrow> ('c \<Rightarrow> string \<Rightarrow> string option) \<Rightarrow> ('c \<Rightarrow> string \<Rightarrow> string list) \<Rightarrow> string set \<Rightarrow>
    ('c, 'd) ctx \<Rightarrow> ('c, 'd) ctx \<Rightarrow> bool" where
  "same_ctx A strs lsts K s t \<longleftrightarrow>
     same_views (ap_auth A) strs lsts K (cx_cache s) (cx_cache t) \<and> cx_db s = cx_db t"

lemma focus_atomic: "proc_focus get put (atomic m) = atomic (io_focus get put m)"
  by (simp add: atomic_def io_focus_def fun_eq_iff)

lemma sim_cache: "proc_sim p (same_views (ap_auth A) strs lsts K) q \<Longrightarrow>
    proc_sim (cache_proc p) (same_ctx A strs lsts K) (cache_proc q)"
  by (rule sim_focus) (auto simp: same_ctx_def)

locale redis_app = app_laws A strs lists life tables committed ilike + redis_laws R strs lists glob
  for A :: "('r, 'd) app" and strs and lists and life and tables and committed and ilike
    and R :: "'r redis" and glob +
  assumes on_redis: "ap_cache A = redis_cache R"

sublocale redis_app \<subseteq> redis: redis_service "ap_auth A" strs lists life R glob
  by (intro redis_service.intro auth.auth_service_axioms redis_laws_axioms)
    (unfold_locales, rule on_redis)

context redis_app
begin

lemma sim_session: "addressed A (SessionRequest q) \<Longrightarrow>
    proc_sim (session_commands R (ap_auth A) q) (same_views (ap_auth A) strs lists K)
      (session_process (ap_auth A) q)"
  by (cases q) (auto intro!: sim_intros redis.sim_login redis.sim_refresh redis.sim_logout)

lemma sim_get_code:
  "code_key code \<in> K \<Longrightarrow> proc_sim (atomic (r_get R (code_key code))) (same_views (ap_auth A) strs lists K)
    (atomic (sc_get (ap_cache A) (code_key code)))"
  by (rule sim_atomic) (auto simp: auth.cache.get r_get same_views_def calm_def)

lemma sim_account:
  assumes "\<And>u. known_uuid (ap_auth A) (u_uuid u) \<Longrightarrow> proc_sim (f u) (same_ctx A strs lists K) (g u)"
  shows "proc_sim (proc_bind (atomic (on_db (in_database (ap_session A) (confirm_user A r)))) f)
    (same_ctx A strs lists K) (proc_bind (atomic (on_db (in_database (ap_session A) (confirm_user A r)))) g)"
proof (rule sim_atomic_bind)
  fix s t :: "('r, 'd) ctx" and u
  let ?m = "on_db (in_database (ap_session A) (confirm_user A r))"
  assume "same_ctx A strs lists K s t"
  then show "fst (?m s) = fst (?m t) \<and> same_ctx A strs lists K (snd (?m s)) (snd (?m t))"
    by (simp add: io_focus_def same_ctx_def)
  assume "fst (?m s) = Inr u"
  then have "known_uuid (ap_auth A) (u_uuid u)"
    using confirm_database(2) [of r s u] by (simp add: io_focus_def)
  then show "proc_sim (f u) (same_ctx A strs lists K) (g u)" by (rule assms)
qed

lemma sim_confirm:
  assumes code: "plain_key (code_key code)" "code_key code \<in> K"
  shows "proc_sim (confirm_commands R A ts code) (same_ctx A strs lists K) (confirm_process A ts code)"
  unfolding confirm_commands_def confirm_process_def focus_atomic [of cx_cache, symmetric]
  using redis.sim_delete [OF code(1)] sim_get_code [OF code(2)]
  by (auto intro!: sim_intros sim_cache sim_account redis.sim_login split: option.split)

lemma sim_request:
  "addressed A q \<Longrightarrow> request_keys q \<subseteq> K \<Longrightarrow>
    proc_sim (request_commands R A q) (same_ctx A strs lists K) (request_process A q)"
  by (cases q) (auto intro!: sim_intros sim_cache sim_confirm sim_session)

lemma commands_simulated:
  assumes "par_run n (map (request_commands R A) qs, s) (ps, s')" and "list_all (addressed A) qs"
    and "calm (ap_auth A) strs lists (\<Union> (set (map request_keys qs))) (cx_cache s)"
  shows "\<exists>m qs' t'. m \<le> n \<and> par_run m (map (request_process A) qs, s) (qs', t') \<and> answers_of ps qs' \<and>
    same_ctx A strs lists (\<Union> (set (map request_keys qs))) s' t'"
proof -
  let ?V = "same_ctx A strs lists (\<Union> (set (map request_keys qs)))"
  have "proc_sim (request_commands R A q) ?V (request_process A q)" if "q \<in> set qs" for q
    using that assms(2) by (intro sim_request) (auto simp: list_all_iff)
  then have "list_all2 (\<lambda>p q. proc_sim p ?V q) (map (request_commands R A) qs) (map (request_process A) qs)"
    by (simp add: list_all2_conv_all_nth)
  moreover have "?V s s" using assms(3) by (simp add: same_ctx_def same_views_def)
  ultimately show ?thesis using par_run_sim [OF assms(1)] sim_answers by blast
qed

end

interpretation refcommands: redis_app ref_app server_strs server_lists "token_life ref_ciphers"
  rel_tables rel_committed ref_ilike ref_redis glob_match
proof (intro redis_app.intro ref_app_ok ref.redis_laws_axioms, unfold_locales)
  show "ap_cache ref_app = redis_cache ref_redis" by (simp add: ref_app_def ref_auth_def)
qed

section \<open>Properties\<close>

text \<open>
  C17: nothing happens between the commands of Redis that could not happen between the calls of the
  cache.  Alone, a request is the same cut at the commands and cut at the calls.  However the commands of logins, refreshes, logouts and confirmations are interleaved, cut off in
  the middle or not, there is an interleaving of the calls, with no more actions, that gives every
  request which is answered the same answer, and leaves the same database, strings and lists.
\<close>

theorem commands_refine_calls:
  assumes "app_laws A strs lsts life tables committed ilike" and "redis_laws R strs lsts glob"
    and "ap_cache A = redis_cache R" and "list_all (addressed A) qs"
    and "calm (ap_auth A) strs lsts (\<Union> (set (map request_keys qs))) (cx_cache s)"
    and "par_run n (map (request_commands R A) qs, s) (ps, s')"
  shows "(\<forall>q. run_proc (request_commands R A q) = run_proc (request_process A q)) \<and>
    (\<exists>m qs' t'. m \<le> n \<and> par_run m (map (request_process A) qs, s) (qs', t') \<and> answers_of ps qs' \<and>
    cx_db t' = cx_db s' \<and> strs (cx_cache t') = strs (cx_cache s') \<and> lsts (cx_cache t') = lsts (cx_cache s'))"
proof -
  have "redis_app A strs lsts life tables committed ilike R glob"
    by (intro redis_app.intro redis_app_axioms.intro assms(1-3))
  from redis_app.commands_simulated [OF this assms(6,4,5)] show ?thesis
    using request_commands_refine [OF assms(3)] unfolding same_ctx_def same_views_def by metis
qed

text \<open>
  Two confirmations of one code and a login, where the second confirmation reads the code while the
  first is between the scan and the deletion.
\<close>

theorem commands_refine_calls_witness:
  "let qs = [ConfirmRequest (\<lambda>_. 0) ''c0de'', ConfirmRequest (\<lambda>_. 0) ''c0de'',
         SessionRequest (LoginCall (\<lambda>_. 0) ''phone'' ref_user)];
       d = run_schedule [0, 0, 1, 0, 2, 1, 1, 2, 0, 0, 2, 0, 0] (map (request_commands ref_redis ref_app) qs, coded_ctx)
   in \<exists>m qs' t'. par_run m (map (request_process ref_app) qs, coded_ctx) (qs', t') \<and>
     answers_of (fst d) qs' \<and> server_lists (cx_cache t') = server_lists (cx_cache (snd d))"
proof -
  let ?qs = "[ConfirmRequest (\<lambda>_. 0) ''c0de'', ConfirmRequest (\<lambda>_. 0) ''c0de'',
    SessionRequest (LoginCall (\<lambda>_. 0) ''phone'' ref_user)]"
  let ?c = "(map (request_commands ref_redis ref_app) ?qs, coded_ctx)"
  let ?d = "run_schedule [0, 0, 1, 0, 2, 1, 1, 2, 0, 0, 2, 0, 0] ?c"
  obtain n where "par_run n ?c ?d" using run_schedule_par by blast
  then have run: "par_run n ?c (fst ?d, snd ?d)" unfolding prod.collapse .
  have "ap_cache ref_app = redis_cache ref_redis" by (simp add: ref_app_def ref_auth_def)
  note refine = commands_refine_calls [OF ref_app_ok ref.redis_laws_axioms this _ _ run]
  have "list_all (addressed ref_app) ?qs" using example_code ref_user_known by (simp add: ref_app_def)
  moreover have "calm (ap_auth ref_app) server_strs server_lists (\<Union> (set (map request_keys ?qs))) (cx_cache coded_ctx)"
    using coded_state ref_code_free by (auto simp: calm_def code_state_def)
  ultimately show ?thesis unfolding Let_def using refine by blast
qed

end
