(* ===== verification/Session_Spec.thy ===== *)
theory Session_Spec
  imports Session_Races
begin

text \<open>
  What the authentication service promises, without a cache: a register of the sessions of each user,
  each under a device and a token.  The service implements it: the abstraction reads the entries of
  the cache as sessions, and every run of logins, refreshes and logouts on the cache is, answer by
  answer, the run of the register.
\<close>

section \<open>The register of sessions\<close>

type_synonym session = "string \<times> string \<times> string list"
type_synonym sessions = "uuid \<Rightarrow> session list"

datatype session_answer = Issued string | SignedOut | Denied

text \<open>
  The register is told whom a refresh token stands for at a time, and which token is made for a user
  at a time.
\<close>

record token_book =
  to_owner :: "int \<Rightarrow> string \<Rightarrow> uuid option"
  to_fresh :: "int \<Rightarrow> uuid \<Rightarrow> string"

text \<open>
  A session is registered under a device and a token; of a fingerprint with a separator the device is
  what stands before it and the token what follows, as far as the next one.
\<close>

definition opened :: "string \<Rightarrow> string \<Rightarrow> session" where
  "opened device token =
     (case py_split ''::'' (device @ ''::'' @ token) of d # t # rest \<Rightarrow> (d, t, rest) | _ \<Rightarrow> ([], device @ ''::'' @ token, []))"

definition spec_login :: "string \<Rightarrow> string \<Rightarrow> uuid \<Rightarrow> sessions \<Rightarrow> sessions" where
  "spec_login device token u S =
     S(u := opened device token # (if DEFAULT_TOKENS_COUNT < length (S u) then [] else S u))"

definition spec_refresh ::
  "string \<Rightarrow> string \<Rightarrow> string \<Rightarrow> uuid \<Rightarrow> sessions \<Rightarrow> session_answer \<times> sessions" where
  "spec_refresh device used token u S =
     (case find (\<lambda>(d, t, _). d = device \<and> t = used) (S u) of
        Some session \<Rightarrow> (Issued token, S(u := opened device token # removeAll session (S u)))
      | None \<Rightarrow> (Denied, S(u := [])))"

definition spec_logout :: "string \<Rightarrow> uuid \<Rightarrow> sessions \<Rightarrow> sessions" where
  "spec_logout used u S =
     (case find (\<lambda>(_, t, _). t = used) (S u) of
        None \<Rightarrow> S | Some session \<Rightarrow> S(u := removeAll session (S u)))"

fun spec_call :: "token_book \<Rightarrow> session_request \<Rightarrow> sessions \<Rightarrow> session_answer \<times> sessions" where
  "spec_call T (LoginCall ts device u) S =
     (let token = to_fresh T (ts 1) u in (Issued token, spec_login device token u S))"
| "spec_call T (RefreshCall ts device used) S =
     (case to_owner T (ts 0) used of
        None \<Rightarrow> (Denied, S) | Some u \<Rightarrow> spec_refresh device used (to_fresh T (ts 2) u) u S)"
| "spec_call T (LogoutCall ts used u) S =
     (case to_owner T (ts 0) used of None \<Rightarrow> (Denied, S) | Some _ \<Rightarrow> (SignedOut, spec_logout used u S))"

fun spec_run :: "token_book \<Rightarrow> session_request list \<Rightarrow> sessions \<Rightarrow> session_answer list \<times> sessions" where
  "spec_run T [] S = ([], S)"
| "spec_run T (q # qs) S =
     (let (a, S') = spec_call T q S; (as, S'') = spec_run T qs S' in (a # as, S''))"

section \<open>The service\<close>

text \<open>The methods of the service, with what is common of their results.\<close>

fun service_call :: "'c auth \<Rightarrow> session_request \<Rightarrow> ('c, tokens_expire option) io" where
  "service_call A (LoginCall ts fp u) = io_bind (auth_login A ts fp u) (\<lambda>res. io_return (Some res))"
| "service_call A (RefreshCall ts fp tok) =
     io_bind (auth_verify_refresh A ts fp tok) (\<lambda>res. io_return (Some res))"
| "service_call A (LogoutCall ts tok u) =
     io_bind (auth_invalidate_refresh A ts tok u) (\<lambda>_. io_return None)"

lemma service_call_process: "run_proc (session_process A q) = service_call A q"
  by (cases q) (simp_all add: session_processes_refine proc_run)

definition answer_of :: "exn + tokens_expire option \<Rightarrow> session_answer" where
  "answer_of x =
     (case x of Inl _ \<Rightarrow> Denied | Inr None \<Rightarrow> SignedOut | Inr (Some res) \<Rightarrow> Issued (tk_refresh (te_tokens res)))"

fun service_run :: "'c auth \<Rightarrow> session_request list \<Rightarrow> 'c \<Rightarrow> session_answer list \<times> 'c" where
  "service_run A [] c = ([], c)"
| "service_run A (q # qs) c =
     (let (x, d) = service_call A q c; (as, e) = service_run A qs d in (answer_of x # as, e))"

section \<open>The abstraction\<close>

definition register_of :: "'c auth \<Rightarrow> ('c \<Rightarrow> string \<Rightarrow> string list) \<Rightarrow> 'c \<Rightarrow> sessions" where
  "register_of A lsts c u = (if known_uuid A u then map entry_session (lsts c (uuid_str u)) else [])"

text \<open>The tokens of the service: whom they stand for, and how they are made.\<close>

definition service_tokens :: "'c auth \<Rightarrow> 'c \<Rightarrow> token_book" where
  "service_tokens A c =
     \<lparr>to_owner = (\<lambda>t tok. case fst (auth_verify_token A t tok Refresh c) of Inl _ \<Rightarrow> None | Inr u \<Rightarrow> Some u),
      to_fresh = (\<lambda>t u. case j_create (as_jwt A) t Refresh (uuid_str u) None [] of
         Inl _ \<Rightarrow> [] | Inr (_, tok) \<Rightarrow> tok)\<rparr>"

lemma opened_entry: "opened fp tok = entry_session (session_entry fp tok)"
  unfolding opened_def entry_session_def session_entry_def by (rule refl)

lemma map_remove_entry:
  assumes "\<forall>e \<in> set es. separated e" and "separated x"
  shows "map entry_session (filter (\<lambda>e. e \<noteq> x) es) = removeAll (entry_session x) (map entry_session es)"
  using assms
proof (induction es)
  case (Cons e es)
  moreover have "entry_session x = entry_session e \<longleftrightarrow> x = e"
    using Cons.prems entry_session_inj by (auto dest: inj_onD)
  ultimately show ?case by auto
qed simp

lemma find_map_entry: "find P (map entry_session es) = map_option entry_session (find (P \<circ> entry_session) es)"
  by (induction es) simp_all

text \<open>The scans of the service are searches of the register.\<close>

lemma find_pair_session:
  assumes "\<forall>e \<in> set es. separated e"
  shows "map_option entry_session (case find_pair fp tok es of Verified e \<Rightarrow> Some e | _ \<Rightarrow> None) =
    find (\<lambda>(d, t, _). d = fp \<and> t = tok) (map entry_session es)"
proof -
  have "(\<lambda>(d, t, _). d = fp \<and> t = tok) \<circ> entry_session = (\<lambda>e. \<exists>rest. entry_session e = (fp, tok, rest))"
    by (auto simp: fun_eq_iff split: prod.split)
  then show ?thesis by (simp add: find_pair_separated [OF assms] find_map_entry split: option.split)
qed

lemma find_token_session:
  assumes "\<forall>e \<in> set es. separated e"
  shows "map_option entry_session (case find_token tok es of Verified e \<Rightarrow> Some e | _ \<Rightarrow> None) =
    find (\<lambda>(_, t, _). t = tok) (map entry_session es)"
proof -
  have "(\<lambda>(_, t, _). t = tok) \<circ> entry_session = (\<lambda>e. fst (snd (entry_session e)) = tok)"
    by (auto simp: fun_eq_iff split: prod.split)
  then show ?thesis by (simp add: find_token_separated [OF assms] find_map_entry split: option.split)
qed

lemma register_of_update:
  assumes "known_uuid A u" and "lsts d = (lsts c)(uuid_str u := es)"
  shows "register_of A lsts d = (register_of A lsts c)(u := map entry_session es)"
proof
  fix v
  have "uuid_str v = uuid_str u \<longleftrightarrow> v = u" by (auto intro: uuid.expand)
  then show "register_of A lsts d v = ((register_of A lsts c)(u := map entry_session es)) v"
    using assms by (auto simp: register_of_def)
qed

text \<open>The clock is not negative.\<close>

fun timed_request :: "session_request \<Rightarrow> bool" where
  "timed_request (LoginCall ts fp u) = (\<forall>i. 0 \<le> ts i)"
| "timed_request (RefreshCall ts fp tok) = (\<forall>i. 0 \<le> ts i)"
| "timed_request (LogoutCall ts tok u) = (\<forall>i. 0 \<le> ts i)"

lemma book_fresh:
  "j_create (as_jwt A) t Refresh (uuid_str u) None [] = Inr (e, tok) \<Longrightarrow>
    to_fresh (service_tokens A c) t u = tok"
  by (simp add: service_tokens_def)

context auth_service
begin

abbreviation register :: "'c \<Rightarrow> sessions" where
  "register \<equiv> register_of A lists"

abbreviation maker :: "'c \<Rightarrow> token_book" where
  "maker \<equiv> service_tokens A"

text \<open>The tokens do not depend on the cache.\<close>

lemma maker_any: "maker c = maker d"
  unfolding service_tokens_def verify_token_fst [of _ _ _ c d] ..

lemma simulates:
  assumes "sound c" and "known_uuid A u" and "strs d = strs c" and "lists d = (lists c)(uuid_str u := es)"
    and "\<forall>e \<in> set es. separated e" and "S = (register c)(u := map entry_session es)"
  shows "register d = S \<and> sound d"
  using assms register_of_update [OF assms(2,4)] sessions_sound_update [OF assms(1,3-5)] by simp

lemma login_simulates:
  assumes "sound c" and "sane_request A (LoginCall ts fp u)" and "timed_request (LoginCall ts fp u)"
  shows "let (x, d) = service_call A (LoginCall ts fp u) c
    in spec_call (maker c) (LoginCall ts fp u) (register c) = (answer_of x, register d) \<and> sound d"
proof -
  have u: "known_uuid A u" and ts: "0 \<le> ts i" for i using assms(2,3) by simp_all
  obtain res :: tokens_expire where res: "fst (auth_login A ts fp u c) = Inr res"
    "j_create (as_jwt A) (ts 1) Refresh (uuid_str u) None [] =
      Inr (te_refresh_expire res, tk_refresh (te_tokens res))"
    "strs (snd (auth_login A ts fp u c)) = strs c"
    "lists (snd (auth_login A ts fp u c)) = (lists c)(uuid_str u :=
      sessions_after_login (lists c (uuid_str u)) (session_entry fp (tk_refresh (te_tokens res))))"
    using login_spec [where ts = ts and fp = fp, OF ts ts u sound_facts(1) [OF assms(1) u]] by blast
  let ?tok = "tk_refresh (te_tokens res)"
  have "register (snd (auth_login A ts fp u c)) = spec_login fp ?tok u (register c) \<and>
      sound (snd (auth_login A ts fp u c))"
    by (rule simulates [OF assms(1) u res(3,4)])
      (use sound_facts(2) [OF assms(1) u] u in \<open>auto simp: sessions_after_login_def spec_login_def
        register_of_def opened_entry separated_entry split: if_splits\<close>)
  then show ?thesis
    using res(1) book_fresh [OF res(2)]
    by (simp add: io_bind_def io_apply answer_of_def Let_def split: sum.split)
qed

lemma refresh_simulates:
  assumes "sound c" and "sane_request A (RefreshCall ts fp tok)" and "timed_request (RefreshCall ts fp tok)"
  shows "let (x, d) = service_call A (RefreshCall ts fp tok) c
    in spec_call (maker c) (RefreshCall ts fp tok) (register c) = (answer_of x, register d) \<and> sound d"
proof (cases "fst (auth_verify_token A (ts 0) tok Refresh c)")
  case (Inl e)
  with refresh_token_refused [where ts = ts, OF this] assms(1) show ?thesis
    by (simp add: service_tokens_def io_bind_def answer_of_def)
next
  case (Inr u)
  have v: "auth_verify_token A (ts 0) tok Refresh c = (Inr u, c)" by (rule verify_token_any_state [OF Inr])
  have u: "known_uuid A u" and ts: "0 \<le> ts i" for i
    using verify_token_known [OF Inr] assms(3) by simp_all
  have owner: "to_owner (maker c) (ts 0) tok = Some u" using Inr by (simp add: service_tokens_def)
  note facts = sound_facts [OF assms(1) u]
  let ?es = "lists c (uuid_str u)"
  have reg: "register c u = map entry_session ?es" using u by (simp add: register_of_def)
  have wf: "\<forall>e \<in> set ?es. separated e" using facts(2) by blast
  note find = find_pair_session [OF wf, of fp tok, folded reg]
  show ?thesis
  proof (cases "find_pair fp tok ?es")
    case (Verified e)
    then have e: "e \<in> set ?es" "find (\<lambda>(d, t, _). d = fp \<and> t = tok) (register c u) = Some (entry_session e)"
      using find find_pair_verified by auto
    obtain res :: tokens_expire where res: "fst (auth_verify_refresh A ts fp tok c) = Inr res"
      "j_create (as_jwt A) (ts 2) Refresh (uuid_str u) None [] =
        Inr (te_refresh_expire res, tk_refresh (te_tokens res))"
      "strs (snd (auth_verify_refresh A ts fp tok c)) = strs c"
      "lists (snd (auth_verify_refresh A ts fp tok c)) = (lists c)(uuid_str u :=
        sessions_after_refresh ?es e (session_entry fp (tk_refresh (te_tokens res))))"
      using refresh_verified [where ts = ts, OF v facts(1) Verified ts ts] by blast
    have "register (snd (auth_verify_refresh A ts fp tok c)) =
        snd (spec_refresh fp tok (tk_refresh (te_tokens res)) u (register c)) \<and>
        sound (snd (auth_verify_refresh A ts fp tok c))"
      by (rule simulates [OF assms(1) u res(3,4)])
        (use wf e map_remove_entry [OF wf, of e] in
          \<open>auto simp: sessions_after_refresh_def spec_refresh_def reg opened_entry separated_entry\<close>)
    then show ?thesis
      using res(1) book_fresh [OF res(2)] owner e(2)
      by (simp add: io_bind_def io_apply answer_of_def Let_def spec_refresh_def split: sum.split)
  next
    case Broken
    then show ?thesis using find_pair_not_broken [OF wf] by simp
  next
    case NotVerified
    then have none: "\<forall>e. find_pair fp tok ?es \<noteq> Verified e"
      "find (\<lambda>(d, t, _). d = fp \<and> t = tok) (register c u) = None"
      using find by simp_all
    note rej = refresh_rejected [where ts = ts, OF v u facts(1) none(1)]
    have "register (snd (auth_verify_refresh A ts fp tok c)) = (register c)(u := []) \<and>
        sound (snd (auth_verify_refresh A ts fp tok c))"
      by (rule simulates [OF assms(1) u rej(2,3)]) simp_all
    then show ?thesis
      using rej(1) owner none(2) by (auto simp: io_bind_def answer_of_def spec_refresh_def)
  qed
qed

lemma logout_simulates:
  assumes "sound c" and "sane_request A (LogoutCall ts tok u)"
  shows "let (x, d) = service_call A (LogoutCall ts tok u) c
    in spec_call (maker c) (LogoutCall ts tok u) (register c) = (answer_of x, register d) \<and> sound d"
proof (cases "fst (auth_verify_token A (ts 0) tok Refresh c)")
  case (Inl e)
  with logout_token_refused [where ts = ts, OF this] assms(1) show ?thesis
    by (simp add: service_tokens_def io_bind_def answer_of_def)
next
  case (Inr u')
  have u: "known_uuid A u" using assms(2) by simp
  note facts = sound_facts [OF assms(1) u]
  let ?es = "lists c (uuid_str u)"
  have reg: "register c u = map entry_session ?es" using u by (simp add: register_of_def)
  have wf: "\<forall>e \<in> set ?es. separated e" using facts(2) by blast
  note out = logout_spec [where ts = ts, OF verify_token_any_state [OF Inr] u facts(1)]
  note find = find_token_session [OF wf, of tok, folded reg] and broken = find_token_not_broken [OF wf, of tok]
  have "register (snd (auth_invalidate_refresh A ts tok u c)) = spec_logout tok u (register c) \<and>
      sound (snd (auth_invalidate_refresh A ts tok u c))"
  proof (rule simulates [OF assms(1) u out(2,3)])
    show "\<forall>e \<in> set (case find_token tok ?es of Broken \<Rightarrow> [] | Verified e \<Rightarrow> filter (\<lambda>x. x \<noteq> e) ?es
        | NotVerified \<Rightarrow> ?es). separated e"
      using wf by (simp split: scan.split)
    show "spec_logout tok u (register c) = (register c)(u := map entry_session
        (case find_token tok ?es of Broken \<Rightarrow> [] | Verified e \<Rightarrow> filter (\<lambda>x. x \<noteq> e) ?es | NotVerified \<Rightarrow> ?es))"
    proof (cases "find_token tok ?es")
      case (Verified e)
      then have "e \<in> set ?es" using find_token_verified by blast
      moreover have "find (\<lambda>(_, t, _). t = tok) (register c u) = Some (entry_session e)"
        using find Verified by simp
      ultimately show ?thesis
        using Verified map_remove_entry [OF wf, of e] wf by (simp add: spec_logout_def reg)
    qed (use find broken reg in \<open>simp_all add: spec_logout_def fun_upd_idem\<close>)
  qed
  then show ?thesis
    using out(1) Inr by (simp add: io_bind_def io_apply answer_of_def service_tokens_def)
qed

lemma call_simulates:
  assumes "sound c" and "sane_request A q" and "timed_request q" and "service_call A q c = (x, d)"
  shows "spec_call (maker c) q (register c) = (answer_of x, register d) \<and> sound d"
proof (cases q)
  case (LoginCall ts fp u)
  with login_simulates [of c ts fp u] assms show ?thesis by (simp only: Let_def prod.case)
next
  case (RefreshCall ts fp tok)
  with refresh_simulates [of c ts fp tok] assms show ?thesis by (simp only: Let_def prod.case)
next
  case (LogoutCall ts tok u)
  with logout_simulates [of c ts tok u] assms show ?thesis by (simp only: Let_def prod.case)
qed

lemma run_simulates:
  assumes "sound c" and "list_all (sane_request A) qs" and "list_all timed_request qs"
  shows "spec_run (maker c) qs (register c) = (fst (service_run A qs c), register (snd (service_run A qs c)))"
  using assms
proof (induction qs arbitrary: c)
  case (Cons q qs)
  obtain x d where c: "service_call A q c = (x, d)" by fastforce
  then have "spec_call (maker c) q (register c) = (answer_of x, register d)" "sound d"
    using call_simulates [OF Cons.prems(1) _ _ c] Cons.prems(2,3) by simp_all
  with c Cons maker_any [of c d] show ?case by (simp add: split_def Let_def)
qed simp

end

section \<open>What the register shows\<close>

text \<open>A token that is nowhere in the register comes back only by being issued, or in a fingerprint.\<close>

definition token_dead :: "string \<Rightarrow> sessions \<Rightarrow> bool" where
  "token_dead tok S \<longleftrightarrow> (\<forall>u. \<forall>(d, t, _) \<in> set (S u). t \<noteq> tok)"

text \<open>A fingerprint can smuggle a text in that then passes for a token, but only one with a separator.\<close>

definition smuggles :: "string \<Rightarrow> string \<Rightarrow> bool" where
  "smuggles tok fp \<longleftrightarrow> (\<exists>x. \<not> sublist ''::'' x \<and> x \<noteq> tok \<and> fst (snd (opened fp x)) = tok)"

fun smuggling :: "string \<Rightarrow> session_request \<Rightarrow> bool" where
  "smuggling tok (LoginCall ts fp u) = smuggles tok fp"
| "smuggling tok (RefreshCall ts fp used) = smuggles tok fp"
| "smuggling tok (LogoutCall ts used u) = False"

lemma clean_smuggles_nothing: "clean fp \<Longrightarrow> \<not> smuggles tok fp"
  using entry_session_entry [of fp] by (auto simp: smuggles_def opened_entry)

definition no_separators :: "token_book \<Rightarrow> bool" where
  "no_separators T \<longleftrightarrow> (\<forall>t u. \<not> sublist ''::'' (to_fresh T t u))"

lemma spec_call_dead:
  assumes "token_dead tok S" and "fst (spec_call T q S) \<noteq> Issued tok" and "\<not> smuggling tok q" and "no_separators T"
  shows "token_dead tok (snd (spec_call T q S))"
proof -
  have fresh: "fst (snd (opened fp x)) \<noteq> tok" if "\<not> smuggles tok fp" "x = to_fresh T t u" "x \<noteq> tok" for fp x t u
    using that assms(4) unfolding smuggles_def no_separators_def by blast
  show ?thesis
  proof (cases q)
    case (LoginCall ts fp u)
    then show ?thesis
      using assms(1-3) fresh [of fp _ "ts 1" u] by (fastforce simp: token_dead_def spec_login_def Let_def)
  next
    case (RefreshCall ts fp used)
    then show ?thesis
      using assms(1-3) fresh [of fp _ "ts 2"]
      by (fastforce simp: token_dead_def spec_refresh_def split: option.splits)
  next
    case (LogoutCall ts used u)
    then show ?thesis
      using assms(1) by (auto simp: token_dead_def spec_logout_def split: option.splits)
  qed
qed

lemma spec_call_dead_denied:
  "token_dead tok S \<Longrightarrow> fst (spec_call T (RefreshCall ts fp tok) S) = Denied"
  by (fastforce simp: token_dead_def spec_refresh_def find_None_iff find_Some_iff split: option.split dest: nth_mem)

lemma spec_run_dead:
  assumes "token_dead tok S" and "Issued tok \<notin> set (fst (spec_run T qs S))"
    and "i < length qs" and "qs ! i = RefreshCall ts fp tok"
    and "list_all (\<lambda>q. \<not> smuggling tok q) qs" and "no_separators T"
  shows "fst (spec_run T qs S) ! i = Denied"
  using assms
proof (induction qs arbitrary: S i)
  case (Cons q qs)
  show ?case
  proof (cases i)
    case 0
    with Cons.prems spec_call_dead_denied [of tok S T ts fp] show ?thesis by (simp add: split_def Let_def del: spec_call.simps)
  next
    case (Suc j)
    have "token_dead tok (snd (spec_call T q S))"
      using Cons.prems(1,2,5,6) by (intro spec_call_dead) (auto simp: split_def Let_def)
    from Cons.IH [OF this, of j] Cons.prems(2-6) Suc show ?thesis by (simp add: split_def Let_def)
  qed
qed simp

context auth_service
begin

lemma maker_separators: "no_separators (maker c)"
  using tokens.no_separator by (auto simp: no_separators_def service_tokens_def split: sum.split prod.split)

end

section \<open>Properties\<close>

text \<open>
  C8: the service implements the register.  On every sound cache, any run of logins, refreshes and
  logouts, one after the other, from devices with any fingerprints, gives answer by answer what the
  register of sessions gives: the same tokens are issued, the same requests denied, and the entries of
  the cache are the sessions of the register afterwards.
\<close>

theorem sessions_refine_register:
  assumes "auth_service A strs lsts life" and "sessions_sound A strs lsts c"
    and "list_all (sane_request A) qs" and "list_all timed_request qs"
  shows "spec_run (service_tokens A c) qs (register_of A lsts c) =
    (fst (service_run A qs c), register_of A lsts (snd (service_run A qs c)))"
  by (rule auth_service.run_simulates [OF assms])

definition example_calls :: "session_request list" where
  "example_calls = [LoginCall (\<lambda>_. 0) ''my::phone'' ref_user, LoginCall (\<lambda>_. 0) ''phone'' ref_user,
     RefreshCall (\<lambda>_. 5000000) ''phone'' (ref_token 0 Refresh (uuid_str ref_user)),
     RefreshCall (\<lambda>_. 5000000) ''phone'' (ref_token 0 Refresh (uuid_str ref_user))]"

lemma example_calls_ok: "list_all (sane_request ref_auth) example_calls" "list_all timed_request example_calls"
  by (simp_all add: example_calls_def ref_user_known)

lemma empty_sound: "sessions_sound ref_auth server_strs server_lists []"
  by (simp add: sessions_sound_def)

theorem sessions_refine_register_witness:
  "fst (spec_run (service_tokens ref_auth []) example_calls (register_of ref_auth server_lists [])) =
    fst (service_run ref_auth example_calls [])"
  using sessions_refine_register [OF ref_auth_ok empty_sound example_calls_ok] by simp

text \<open>
  C9: a dead token stays dead.  Once a refresh token is in no session (it was used, logged out, or
  went with the sessions a login threw away), every refresh with it is denied, whatever calls come in
  between, unless the very token is issued again or one of their fingerprints smuggles it in behind a
  separator.
\<close>

theorem dead_tokens_stay_dead:
  assumes "auth_service A strs lsts life" and "sessions_sound A strs lsts c"
    and "list_all (sane_request A) qs" and "list_all timed_request qs"
    and "token_dead tok (register_of A lsts c)" and "Issued tok \<notin> set (fst (service_run A qs c))"
    and "i < length qs" and "qs ! i = RefreshCall ts fp tok" and "list_all (\<lambda>q. \<not> smuggling tok q) qs"
  shows "fst (service_run A qs c) ! i = Denied"
  using spec_run_dead [OF assms(5) _ assms(7-9) auth_service.maker_separators [OF assms(1)], of c] assms(6)
  by (simp add: auth_service.run_simulates [OF assms(1-4)])

theorem dead_tokens_stay_dead_witness:
  "fst (service_run ref_auth [RefreshCall (\<lambda>_. 5000000) ''phone'' (ref_token 0 Refresh (uuid_str ref_user))] []) ! 0 =
    Denied"
proof -
  let ?tok = "ref_token 0 Refresh (uuid_str ref_user)" and ?q = "\<lambda>tok. RefreshCall (\<lambda>_. 5000000) ''phone'' tok"
  have dead: "token_dead ?tok (register_of ref_auth server_lists [])"
    by (simp add: token_dead_def register_of_def server_lists_def)
  have ok: "list_all (sane_request ref_auth) [?q ?tok]" "list_all timed_request [?q ?tok]"
    by simp_all
  have "fst (service_run ref_auth [?q ?tok] []) = [Denied]"
    using spec_call_dead_denied [OF dead, of "service_tokens ref_auth []" "\<lambda>_. 5000000" "''phone''"]
      refauth.run_simulates [OF empty_sound ok]
    by (simp add: split_def Let_def del: spec_call.simps)
  then have "Issued ?tok \<notin> set (fst (service_run ref_auth [?q ?tok] []))" by simp
  from dead_tokens_stay_dead [OF ref_auth_ok empty_sound ok dead this, of 0] show ?thesis
    by (simp add: clean_smuggles_nothing [OF clean_phone])
qed

end
