(* ===== verification/Fakes.thy ===== *)
theory Fakes
  imports Session_Spec
begin

text \<open>
  The doubles of the unit tests (\<open>tests/fakes.py\<close>), besides \<open>FakeStrCache\<close> of \<open>Cache_Instances\<close>: the
  hasher and the JWT.  The theory shows how far a test on the doubles speaks for the program: the cache
  is exchangeable for \<open>RedisCache\<close>, the hasher keeps its contract, and the JWT does not.
\<close>

section \<open>The doubles\<close>

definition fake_close :: "(fake_cache, unit) io" where
  "fake_close = fake_clear"

definition fake_hasher :: hasher where
  "fake_hasher =
     \<lparr>h_hash_password = (\<lambda>plain. Inr (''fake-hash:'' @ plain)),
      h_verify_password = (\<lambda>hashed plain. Inr (hashed = ''fake-hash:'' @ plain))\<rparr>"

interpretation fakehash: hasher_laws fake_hasher
  by unfold_locales (auto simp: fake_hasher_def)

definition FAKE_JWT_PREFIX :: string where
  "FAKE_JWT_PREFIX = ''fake-jwt:''"

text \<open>\<open>expires_delta or timedelta(hours=1)\<close>: a lifetime of zero counts as none.\<close>

definition fake_jwt_create ::
  "int \<Rightarrow> token_type \<Rightarrow> string \<Rightarrow> int option \<Rightarrow> pydict \<Rightarrow> exn + (int \<times> string)" where
  "fake_jwt_create now typ sub expires_delta kw =
     (let delta = (case expires_delta of None \<Rightarrow> 3600 * 1000000
                   | Some d \<Rightarrow> if d = 0 then 3600 * 1000000 else d)
      in Inr (now + delta, FAKE_JWT_PREFIX @ token_type_str typ @ '':'' @ sub))"

text \<open>\<open>str.split(sep, n)\<close>: at most \<open>n\<close> cuts, the last piece keeps the separators that are left.\<close>

fun py_split_max :: "string \<Rightarrow> nat \<Rightarrow> string \<Rightarrow> string list" where
  "py_split_max sep 0 s = [s]"
| "py_split_max sep (Suc n) s =
     (case py_split sep s of
        w # v # ws \<Rightarrow> w # py_split_max sep n (py_join sep (v # ws))
      | _ \<Rightarrow> [s])"

definition fake_jwt_verify_token :: "int \<Rightarrow> string \<Rightarrow> exn + pydict" where
  "fake_jwt_verify_token now token =
     (if \<not> prefix FAKE_JWT_PREFIX token then Inl (PyValueError ''Not a fake JWT token'')
      else (case py_split_max '':'' 2 token of
          [_, typ, sub] \<Rightarrow> Inr [(''type'', PStr typ), (''sub'', PStr sub), (''iat'', PDate now)]
        | _ \<Rightarrow> Inl (PyValueError ''not enough values to unpack (expected 3, got 2)'')))"

definition fake_jwt :: jwt where
  "fake_jwt = \<lparr>j_create = fake_jwt_create, j_verify_token = fake_jwt_verify_token\<rparr>"

section \<open>The cache\<close>

text \<open>
  The operations of the protocol, with their answers, and a client as the list of its operations.
  Left out are \<open>keys\<close>, whose order is the store's own, and \<open>clear\<close>.
\<close>

datatype cache_op =
    OpGet string
  | OpExists string
  | OpSet string string "expiry option"
  | OpSetNx string string "expiry option"
  | OpDelete "string list"
  | OpGetList string
  | OpSetList string "string list"
  | OpDiscard string string

datatype cache_answer = Nothing | Flag bool | Text "string option" | Texts "string list"

fun cache_call :: "'c str_cache \<Rightarrow> cache_op \<Rightarrow> ('c, cache_answer) io" where
  "cache_call C (OpGet k) = io_bind (sc_get C k) (\<lambda>x. io_return (Text x))"
| "cache_call C (OpExists k) = io_bind (sc_exists C k) (\<lambda>b. io_return (Flag b))"
| "cache_call C (OpSet k v e) = io_bind (sc_set C k v e) (\<lambda>_. io_return Nothing)"
| "cache_call C (OpSetNx k v e) = io_bind (sc_setnx C k v e) (\<lambda>b. io_return (Flag b))"
| "cache_call C (OpDelete ks) = io_bind (sc_delete C ks) (\<lambda>_. io_return Nothing)"
| "cache_call C (OpGetList k) = io_bind (sc_get_list C k) (\<lambda>x. io_return (Texts x))"
| "cache_call C (OpSetList k vs) = io_bind (sc_set_list C k vs None) (\<lambda>_. io_return Nothing)"
| "cache_call C (OpDiscard k v) = io_bind (sc_discard C k v) (\<lambda>_. io_return Nothing)"

fun cache_calls :: "'c str_cache \<Rightarrow> cache_op list \<Rightarrow> 'c \<Rightarrow> (exn + cache_answer) list \<times> 'c" where
  "cache_calls C [] c = ([], c)"
| "cache_calls C (x # xs) c =
     (let (a, d) = cache_call C x c; (as, e) = cache_calls C xs d in (a # as, e))"

text \<open>
  A client that uses each key as a text or as a list throughout, asks for the existence of texts only,
  asks and deletes with plain keys only, and never puts no values at all into a list (Redis refuses
  that).
\<close>

fun well_kinded :: "(string \<Rightarrow> bool) \<Rightarrow> cache_op \<Rightarrow> bool" where
  "well_kinded is_text (OpGet k) = is_text k"
| "well_kinded is_text (OpExists k) = (is_text k \<and> plain_key k)"
| "well_kinded is_text (OpSet k v e) = is_text k"
| "well_kinded is_text (OpSetNx k v e) = is_text k"
| "well_kinded is_text (OpDelete ks) = list_all plain_key ks"
| "well_kinded is_text (OpGetList k) = (\<not> is_text k)"
| "well_kinded is_text (OpSetList k vs) = (\<not> is_text k \<and> vs \<noteq> [])"
| "well_kinded is_text (OpDiscard k v) = (\<not> is_text k)"

definition kinds_kept ::
  "(string \<Rightarrow> bool) \<Rightarrow> (string \<Rightarrow> string option) \<Rightarrow> (string \<Rightarrow> string list) \<Rightarrow> bool" where
  "kinds_kept is_text ss ls \<longleftrightarrow> (\<forall>k. (ss k \<noteq> None \<longrightarrow> is_text k) \<and> (ls k \<noteq> [] \<longrightarrow> \<not> is_text k))"

text \<open>What an operation does.\<close>

fun op_effect ::
  "cache_op \<Rightarrow> (string \<Rightarrow> string option) \<times> (string \<Rightarrow> string list) \<Rightarrow>
    cache_answer \<times> (string \<Rightarrow> string option) \<times> (string \<Rightarrow> string list)" where
  "op_effect (OpGet k) (ss, ls) = (Text (ss k), ss, ls)"
| "op_effect (OpExists k) (ss, ls) = (Flag (ss k \<noteq> None), ss, ls)"
| "op_effect (OpSet k v e) (ss, ls) = (Nothing, ss(k \<mapsto> v), ls)"
| "op_effect (OpSetNx k v e) (ss, ls) =
     (if ss k = None then (Flag True, ss(k \<mapsto> v), ls) else (Flag False, ss, ls))"
| "op_effect (OpDelete ks) (ss, ls) =
     (Nothing, \<lambda>k. if k \<in> set ks then None else ss k, \<lambda>k. if k \<in> set ks then [] else ls k)"
| "op_effect (OpGetList k) (ss, ls) = (Texts (ls k), ss, ls)"
| "op_effect (OpSetList k vs) (ss, ls) = (Nothing, ss, ls(k := rev vs @ ls k))"
| "op_effect (OpDiscard k v) (ss, ls) = (Nothing, ss, ls(k := filter (\<lambda>x. x \<noteq> v) (ls k)))"

lemma op_effect_kinds:
  "well_kinded is_text x \<Longrightarrow> kinds_kept is_text ss ls \<Longrightarrow> op_effect x (ss, ls) = (a, ss', ls') \<Longrightarrow>
    kinds_kept is_text ss' ls'"
  by (cases x) (auto simp: kinds_kept_def split: if_splits)

context redis_laws
begin

lemma redis_keeps_contract: "str_cache_laws (redis_cache R) strs lists"
  by (rule rc.str_cache_laws_axioms)

lemma exists_text:
  assumes "plain_key k" and "lists r k = []"
  shows "redis_cache_exists R k r = (Inr (strs r k \<noteq> None), r)"
proof -
  obtain ks where ks: "fst (r_keys R k r) = Inr ks"
    "set ks = {k'. (strs r k' \<noteq> None \<or> lists r k' \<noteq> []) \<and> glob k k'}"
    using r_keys by blast
  have "ks \<noteq> [] \<longleftrightarrow> strs r k \<noteq> None"
    using ks(2) assms by (cases ks) (auto simp: glob_plain)
  then show ?thesis
    using ks(1) r_keys_state [of k r] by (simp add: redis_cache_exists_def io_bind_def io_apply)
qed

lemma delete_plain:
  assumes "list_all plain_key ks"
  shows "fst (redis_cache_delete R ks r) = Inr ()"
    and "strs (snd (redis_cache_delete R ks r)) = (\<lambda>k. if k \<in> set ks then None else strs r k)"
    and "lists (snd (redis_cache_delete R ks r)) = (\<lambda>k. if k \<in> set ks then [] else lists r k)"
proof -
  have "(\<exists>p \<in> set ks. glob p k) \<longleftrightarrow> k \<in> set ks" for k
    using assms by (auto simp: list_all_iff glob_plain)
  then show "fst (redis_cache_delete R ks r) = Inr ()"
    and "strs (snd (redis_cache_delete R ks r)) = (\<lambda>k. if k \<in> set ks then None else strs r k)"
    and "lists (snd (redis_cache_delete R ks r)) = (\<lambda>k. if k \<in> set ks then [] else lists r k)"
    by (simp_all add: delete_views)
qed

lemma redis_call_effect:
  assumes "well_kinded is_text x" and "kinds_kept is_text (strs r) (lists r)"
    and "op_effect x (strs r, lists r) = (a, ss, ls)"
  shows "fst (cache_call (redis_cache R) x r) = Inr a \<and> strs (snd (cache_call (redis_cache R) x r)) = ss \<and>
    lists (snd (cache_call (redis_cache R) x r)) = ls"
proof -
  have kinds: "is_text k \<Longrightarrow> lists r k = []" "\<not> is_text k \<Longrightarrow> strs r k = None" for k
    using assms(2) by (auto simp: kinds_kept_def)
  show ?thesis
  proof (cases x)
    case (OpSetNx k v e)
    then show ?thesis
      using assms(1,3) kinds(1) [of k]
      by (auto simp: cache_defs io_bind_def io_apply r_setnx r_set_strs r_set_lists split: if_splits)
  next
    case (OpSetList k vs)
    then have k: "strs r k = None" "vs \<noteq> []" using assms(1) kinds(2) by auto
    obtain n where "fst (r_lpush R k vs r) = Inr n" using r_lpush_ok [OF k] by blast
    then show ?thesis
      using assms(3) OpSetList by (auto simp: cache_defs io_bind_def io_apply r_lpush_strs [OF k] r_lpush_lists [OF k])
  next
    case (OpExists k)
    then show ?thesis
      using assms(1,3) kinds(1) exists_text [of k r] by (auto simp: redis_cache_def io_bind_def io_apply)
  next
    case (OpDelete ks)
    then show ?thesis
      using assms(1,3) delete_plain [of ks r] by (auto simp: redis_cache_def io_bind_def io_apply)
  next
    case (OpDiscard k v)
    then show ?thesis
      using assms(1,3) kinds(2) [of k] by (auto simp: io_bind_def io_apply rc.discard_ok rc.discard_strs rc.discard_lists)
  qed (use assms(1,3) kinds in \<open>auto simp: io_bind_def io_apply rc.get rc.set_ok rc.set_strs rc.set_lists rc.get_list\<close>)
qed

end

text \<open>The fake holds the two views, and no list under the key of a text.\<close>

definition fake_holds ::
  "(string \<Rightarrow> bool) \<Rightarrow> (string \<Rightarrow> string option) \<Rightarrow> (string \<Rightarrow> string list) \<Rightarrow> fake_cache \<Rightarrow> bool" where
  "fake_holds is_text ss ls c \<longleftrightarrow> map_of (fk_store c) = ss \<and> fake_bucket c = ls \<and>
     list_all (\<lambda>(k, vs). \<not> is_text k) (fk_lists c)"

lemma fake_delete_views:
  "fst (fake_delete ks c) = Inr () \<and>
    map_of (fk_store (snd (fake_delete ks c))) = (\<lambda>k. if k \<in> set ks then None else map_of (fk_store c) k) \<and>
    fake_bucket (snd (fake_delete ks c)) = (\<lambda>k. if k \<in> set ks then [] else fake_bucket c k) \<and>
    set (fk_lists (snd (fake_delete ks c))) \<subseteq> set (fk_lists c)"
proof (induction ks arbitrary: c)
  case (Cons k ks)
  have "set (AList.delete k (fk_lists c)) \<subseteq> set (fk_lists c)" by (auto simp: AList.delete_eq)
  with Cons.IH [of "c\<lparr>fk_store := AList.delete k (fk_store c), fk_lists := AList.delete k (fk_lists c)\<rparr>"]
  show ?case
    by (auto simp: fake_bucket_def delete_conv' restrict_map_def fun_eq_iff split: option.splits)
qed auto

lemma set_update: "set (AList.update k v xs) \<subseteq> insert (k, v) (set xs)"
  by (induction xs) auto

lemma fold_cons: "fold (#) vs xs = rev vs @ xs"
  by (induction vs arbitrary: xs) auto

lemma fake_call_effect:
  assumes "well_kinded is_text x" and "fake_holds is_text ss ls c" and "op_effect x (ss, ls) = (a, ss', ls')"
  shows "fst (cache_call fake_str_cache x c) = Inr a \<and> fake_holds is_text ss' ls' (snd (cache_call fake_str_cache x c))"
proof -
  have free: "map_of (fk_lists c) k = None" if "is_text k" for k
    using assms(2) that by (auto simp: fake_holds_def list_all_iff map_of_eq_None_iff)
  have bucket: "fake_bucket (c\<lparr>fk_lists := AList.update k vs (fk_lists c)\<rparr>) = (fake_bucket c)(k := vs)" for k vs
    by (auto simp: fake_bucket_def update_conv' fun_eq_iff)
  have store: "fake_bucket (c\<lparr>fk_store := s\<rparr>) = fake_bucket c" for s
    by (simp add: fake_bucket_def fun_eq_iff)
  note defs = fake_str_cache_def fake_get_def fake_exists_def fake_set_def fake_setnx_def fake_get_list_def
    fake_set_list_def fake_discard_def io_bind_def io_apply fake_holds_def update_conv' bucket store fold_cons
  show ?thesis
  proof (cases x)
    case (OpDelete ks)
    then show ?thesis
      using assms fake_delete_views [of ks c]
      by (auto simp: defs list_all_iff)
  next
    case (OpExists k)
    then show ?thesis using assms free by (auto simp: defs)
  next
    case (OpSetList k vs)
    then show ?thesis
      using assms set_update [of k "rev vs @ fake_bucket c k" "fk_lists c"] by (auto simp: defs list_all_iff)
  next
    case (OpDiscard k v)
    then show ?thesis
      using assms set_update [of k "filter (\<lambda>item. item \<noteq> v) (fake_bucket c k)" "fk_lists c"]
      by (auto simp: defs list_all_iff)
  qed (use assms in \<open>auto simp: defs split: if_splits\<close>)
qed

section \<open>The tokens\<close>

lemma token_type_no_colon: "CHR '':'' \<notin> set (token_type_str ty)"
  by (cases ty) simp_all

lemma split_at_colon:
  assumes "CHR '':'' \<notin> set a"
  shows "py_split '':'' (a @ CHR '':'' # b) = a # py_split '':'' b"
proof -
  have "\<not> sublist '':'' (a @ butlast '':'')"
    using assms by (auto dest: set_mono_sublist)
  then show ?thesis using py_split_append [of "'':''" a b] by simp
qed

lemma split_max_at_colon:
  assumes "CHR '':'' \<notin> set a"
  shows "py_split_max '':'' (Suc n) (a @ CHR '':'' # b) = a # py_split_max '':'' n b"
proof -
  obtain w ws where "py_split '':'' b = w # ws" by (cases "py_split '':'' b") auto
  moreover have "py_join '':'' (py_split '':'' b) = b" by (rule py_join_split) simp
  ultimately show ?thesis by (simp add: split_at_colon [OF assms])
qed

lemma fake_token_split:
  "py_split_max '':'' 2 (FAKE_JWT_PREFIX @ token_type_str ty @ CHR '':'' # sub) =
    [''fake-jwt'', token_type_str ty, sub]"
proof -
  let ?rest = "token_type_str ty @ CHR '':'' # sub"
  have "FAKE_JWT_PREFIX @ ?rest = ''fake-jwt'' @ CHR '':'' # ?rest" by (simp add: FAKE_JWT_PREFIX_def)
  moreover have "CHR '':'' \<notin> set ''fake-jwt''" by simp
  ultimately show ?thesis
    by (simp only: numeral_2_eq_2 split_max_at_colon token_type_no_colon not_False_eq_True py_split_max.simps(1))
qed

lemma fake_verify_created:
  "fake_jwt_create now typ sub delta kw = Inr (e, tok) \<Longrightarrow>
    fake_jwt_verify_token t tok = Inr [(''type'', PStr (token_type_str typ)), (''sub'', PStr sub), (''iat'', PDate t)]"
  by (auto simp: fake_jwt_create_def fake_jwt_verify_token_def fake_token_split Let_def)

section \<open>Properties\<close>


text \<open>A registration code, a lock and a session, in a cache of either kind.\<close>

definition example_ops :: "cache_op list" where
  "example_ops = [OpSet ''code:1'' ''eve'' (Some (ESeconds 600)), OpSetNx ''code:1'' ''bob'' None,
     OpSetList ''u'' [''phone::t'', ''tab::t''], OpGetList ''u'', OpExists ''code:1'',
     OpDelete [''code:1'', ''u''], OpGet ''code:1'']"


text \<open>
  The difference that is left out: when the last value of a list is discarded Redis drops the key,
  while \<open>FakeStrCache\<close> keeps an empty list, so \<open>exists\<close> answers differently.
\<close>

theorem discarded_list_exists_on_fake:
  assumes "redis_laws R strs lsts glob" and "plain_key k" and "strs r k = None" and "lsts r k = []"
  shows "fst (sc_exists fake_str_cache k (snd (sc_discard fake_str_cache k v
      (snd (sc_set_list fake_str_cache k [v] None fake_empty))))) = Inr True \<and>
    fst (sc_exists (redis_cache R) k (snd (sc_discard (redis_cache R) k v
      (snd (sc_set_list (redis_cache R) k [v] None r))))) = Inr False"
proof -
  let ?r = "snd (sc_discard (redis_cache R) k v (snd (sc_set_list (redis_cache R) k [v] None r)))"
  note laws = redis_laws.redis_keeps_contract [OF assms(1)]
  note set_list = str_cache_laws.set_list_strs [OF laws assms(3)] str_cache_laws.set_list_lists [OF laws assms(3)]
  have "strs ?r k = None" "lsts ?r k = []"
    using str_cache_laws.discard_strs [OF laws] str_cache_laws.discard_lists [OF laws] assms(3,4)
    by (simp_all add: set_list)
  then show ?thesis
    using redis_laws.exists_text [OF assms(1,2), of ?r]
    by (simp add: redis_cache_def [of R] fake_str_cache_def fake_set_list_def fake_discard_def fake_exists_def
        fake_bucket_def fake_empty_def)
qed

theorem discarded_list_exists_on_fake_witness:
  "fst (sc_exists (redis_cache ref_redis) ''u'' (snd (sc_discard (redis_cache ref_redis) ''u'' ''a''
      (snd (sc_set_list (redis_cache ref_redis) ''u'' [''a''] None []))))) = Inr False"
  using discarded_list_exists_on_fake [OF ref_redis_ok, of "''u''" "[]" "''a''"]
  by (simp add: plain_key_def server_strs_def server_lists_def)

text \<open>
  The authentication service cannot tell the caches apart either: whatever tokens it is given, a run
  of logins, refreshes and logouts has the same answers and leaves the same sessions.
\<close>

theorem service_on_fake_cache:
  assumes "auth_service A strs lsts life" and "auth_service B strs' lsts' life'"
    and "as_jwt B = as_jwt A" and "as_parse_uuid B = as_parse_uuid A"
    and "sessions_sound A strs lsts c" and "sessions_sound B strs' lsts' d"
    and "register_of B lsts' d = register_of A lsts c"
    and "list_all (sane_request A) qs" and "list_all timed_request qs"
  shows "fst (service_run B qs d) = fst (service_run A qs c) \<and>
    register_of B lsts' (snd (service_run B qs d)) = register_of A lsts (snd (service_run A qs c))"
proof -
  have "known_uuid B = known_uuid A" using assms(4) by (simp add: known_uuid_def fun_eq_iff)
  then have "sane_request B q = sane_request A q" for q by (cases q) simp_all
  then have qs: "list_all (sane_request B) qs" using assms(8) by (simp add: list_all_iff)
  have "fst (auth_verify_token B t tok ty d) = fst (auth_verify_token A t tok ty c)" for t tok ty
    using assms(3,4)
    by (cases "j_verify_token (as_jwt A) t tok")
      (auto simp: auth_verify_token_def io_simps Let_def split: option.splits pyval.splits)
  then have "service_tokens B d = service_tokens A c" by (simp add: service_tokens_def assms(3))
  then show ?thesis
    using auth_service.run_simulates [OF assms(1,5,8,9)] auth_service.run_simulates [OF assms(2,6) qs assms(9)]
      assms(7) by simp
qed

text \<open>The service of the unit tests, with the real tokens.\<close>

definition unit_auth :: "fake_cache auth" where
  "unit_auth = with_cache ref_auth fake_str_cache"

lemma unit_auth_ok: "auth_service unit_auth (\<lambda>c. map_of (fk_store c)) fake_bucket (token_life ref_ciphers)"
  unfolding unit_auth_def by (rule auth_service_with_cache [OF ref_auth_ok fake_cache_ok])

theorem service_on_fake_cache_witness:
  "fst (service_run unit_auth example_calls fake_empty) = fst (service_run ref_auth example_calls [])"
proof -
  have "sessions_sound unit_auth (\<lambda>c. map_of (fk_store c)) fake_bucket fake_empty"
    by (simp add: sessions_sound_def fake_empty_def fake_bucket_def)
  moreover have "register_of unit_auth fake_bucket fake_empty = register_of ref_auth server_lists []"
    by (simp add: register_of_def fake_empty_def fake_bucket_def server_lists_def fun_eq_iff)
  ultimately show ?thesis
    using service_on_fake_cache [OF ref_auth_ok unit_auth_ok _ _ empty_sound _ _ example_calls_ok]
    by (simp add: unit_auth_def)
qed

text \<open>
  \<open>FakeJWT\<close> is no stand-in for \<open>JWT\<close>.  Its tokens verify whenever they are looked at, so nothing ever
  expires; two tokens of one user and type are equal whenever they are made, so a refresh hands out the
  token it was asked to replace; and a text that is no token raises \<open>ValueError\<close>, where \<open>JWT\<close>
  raises \<open>UnAuthorizedError\<close>.
\<close>

theorem fake_jwt_is_no_jwt:
  "fake_jwt_create now ty sub delta kw = Inr (e, tok) \<Longrightarrow>
    dict_get (projr (fake_jwt_verify_token t tok)) ''sub'' = Some (PStr sub) \<and>
    dict_get (projr (fake_jwt_verify_token t tok)) ''type'' = Some (PStr (token_type_str ty)) \<and>
    map_sum id snd (fake_jwt_create now' ty sub delta' kw') = Inr tok \<and>
    \<not> jwt_laws fake_jwt life \<and>
    (\<not> prefix FAKE_JWT_PREFIX x \<longrightarrow> fake_jwt_verify_token t x = Inl (PyValueError ''Not a fake JWT token''))"
proof -
  assume c: "fake_jwt_create now ty sub delta kw = Inr (e, tok)"
  have "\<not> jwt_laws fake_jwt life"
  proof
    assume "jwt_laws fake_jwt life"
    moreover have created: "j_create fake_jwt 0 Access [] None [] = Inr (3600000000, FAKE_JWT_PREFIX @ ''access:'')"
      by (simp add: fake_jwt_def fake_jwt_create_def)
    ultimately obtain a where
      "j_verify_token fake_jwt 3600000000 (FAKE_JWT_PREFIX @ ''access:'') = Inl (App a)"
      using jwt_laws.expired by (metis order_refl)
    moreover have "fake_jwt_create 0 Access [] None [] = Inr (3600000000, FAKE_JWT_PREFIX @ ''access:'')"
      using created by (simp add: fake_jwt_def)
    from fake_verify_created [OF this] have
      "j_verify_token fake_jwt 3600000000 (FAKE_JWT_PREFIX @ ''access:'') =
        Inr [(''type'', PStr ''access''), (''sub'', PStr []), (''iat'', PDate 3600000000)]"
      by (simp add: fake_jwt_def)
    ultimately show False by simp
  qed
  then show ?thesis
    using fake_verify_created [OF c] c
    by (auto simp: fake_jwt_create_def fake_jwt_verify_token_def Let_def)
qed

theorem fake_jwt_is_no_jwt_witness:
  "fake_jwt_verify_token 0 ''garbage'' = Inl (PyValueError ''Not a fake JWT token'')"
  using fake_jwt_is_no_jwt [of 0 Access "''u''" None "[]" 3600000000 "''fake-jwt:access:u''" 0 0 None "[]"
      "\<lambda>_. 0" "''garbage''"]
  by (simp add: fake_jwt_create_def FAKE_JWT_PREFIX_def)

end
