(* ===== verification/Cache_Clock.thy ===== *)
theory Cache_Clock
  imports Account_Flow
begin

text \<open>
  Time in the cache.  \<open>RedisCache\<close> hands expiries to Redis; the locale \<open>redis_clock\<close> says what the
  documentation of \<open>SET EX\<close>, \<open>EXPIRE\<close> and the passing of time promises, on top of \<open>redis_laws\<close>.  The
  theory shows what this makes of the two things the program keeps in the cache: the code of a
  registration, which lives ten minutes, and the sessions, which live for ever.
\<close>

section \<open>The clock of Redis\<close>

text \<open>
  \<open>ttl r k\<close> is the time a key has left, in whole seconds, if it has an expiry; \<open>elapse d\<close> lets \<open>d\<close>
  seconds pass.  \<open>SET\<close> replaces the expiry of a key, \<open>LPUSH\<close> and \<open>LREM\<close> keep it as long as the
  key is there, and a key that is not there has none.
\<close>

locale redis_clock = redis_laws R strs lists glob
  for R :: "'r redis" and strs and lists and glob +
  fixes ttl :: "'r \<Rightarrow> string \<Rightarrow> int option" and elapse :: "int \<Rightarrow> 'r \<Rightarrow> 'r"
  assumes absent_ttl: "strs r k = None \<Longrightarrow> lists r k = [] \<Longrightarrow> ttl r k = None"
    and set_ttl: "(\<And>x. e = Some x \<Longrightarrow> 0 < expiry_seconds x) \<Longrightarrow>
      ttl (snd (r_set R k v e False r)) = (ttl r)(k := map_option expiry_seconds e)"
    and delete_ttl: "ttl (snd (r_delete R ks r)) k = (if k \<in> set ks then None else ttl r k)"
    and lpush_ttl: "strs r k = None \<Longrightarrow> vs \<noteq> [] \<Longrightarrow> ttl (snd (r_lpush R k vs r)) = ttl r"
    and lrem_ttl: "strs r k = None \<Longrightarrow> lists (snd (r_lrem R k 0 v r)) k' \<noteq> [] \<or> k' \<noteq> k \<Longrightarrow>
      ttl (snd (r_lrem R k 0 v r)) k' = ttl r k'"
    and expire_ok: "strs r k \<noteq> None \<or> lists r k \<noteq> [] \<Longrightarrow> 0 < expiry_seconds x \<Longrightarrow>
      (\<exists>b. fst (r_expire R k x r) = Inr b) \<and> strs (snd (r_expire R k x r)) = strs r \<and>
      lists (snd (r_expire R k x r)) = lists r \<and>
      ttl (snd (r_expire R k x r)) = (ttl r)(k \<mapsto> expiry_seconds x)"
    and elapse_strs: "0 \<le> d \<Longrightarrow> strs (elapse d r) k =
      (case ttl r k of Some t \<Rightarrow> if t \<le> d then None else strs r k | None \<Rightarrow> strs r k)"
    and elapse_lists: "0 \<le> d \<Longrightarrow> lists (elapse d r) k =
      (case ttl r k of Some t \<Rightarrow> if t \<le> d then [] else lists r k | None \<Rightarrow> lists r k)"
    and elapse_ttl: "0 \<le> d \<Longrightarrow> ttl (elapse d r) k =
      (case ttl r k of Some t \<Rightarrow> if t \<le> d then None else Some (t - d) | None \<Rightarrow> None)"
begin

text \<open>What \<open>RedisCache\<close> makes of it.\<close>

lemma cache_set_ttl:
  "(\<And>x. e = Some x \<Longrightarrow> 0 < expiry_seconds x) \<Longrightarrow>
    ttl (snd (redis_cache_set R k v e r)) = (ttl r)(k := map_option expiry_seconds e)"
  by (simp add: redis_cache_set_def io_bind_def io_apply r_set_ok set_ttl)

lemma cache_set_list_ttl:
  assumes "strs r k = None" and "vs \<noteq> []"
  shows "ttl (snd (redis_cache_set_list R k vs None r)) = ttl r"
    and "0 < expiry_seconds e \<Longrightarrow>
      ttl (snd (redis_cache_set_list R k vs (Some e) r)) = (ttl r)(k \<mapsto> expiry_seconds e)"
proof -
  obtain n where n: "fst (r_lpush R k vs r) = Inr n" using r_lpush_ok [OF assms] by blast
  then show "ttl (snd (redis_cache_set_list R k vs None r)) = ttl r"
    using lpush_ttl [OF assms] by (simp add: redis_cache_set_list_def io_bind_def io_apply)
  assume e: "0 < expiry_seconds e"
  let ?r = "snd (r_lpush R k vs r)"
  have "lists ?r k \<noteq> []" using assms by (simp add: r_lpush_lists)
  then obtain b where "fst (r_expire R k (ETimedelta (expiry_seconds e)) ?r) = Inr b"
    "ttl (snd (r_expire R k (ETimedelta (expiry_seconds e)) ?r)) = (ttl ?r)(k \<mapsto> expiry_seconds e)"
    using expire_ok [of ?r k "ETimedelta (expiry_seconds e)"] e by auto
  then show "ttl (snd (redis_cache_set_list R k vs (Some e) r)) = (ttl r)(k \<mapsto> expiry_seconds e)"
    using n e lpush_ttl [OF assms] by (simp add: redis_cache_set_list_def io_bind_def io_apply)
qed

lemma cache_delete_ttl:
  assumes "plain_key k"
  shows "ttl (snd (redis_cache_delete R [k] r)) = (ttl r)(k := None)"
proof -
  obtain ks where ks: "scan_keys R [k] r = (Inr ks, r)"
    "set ks = {x. (strs r x \<noteq> None \<or> lists r x \<noteq> []) \<and> x = k}"
    using scan_keys_ok [of "[k]" r] glob_plain [OF assms] by (auto simp: prod_eq_iff)
  obtain n where n: "fst (r_delete R ks r) = Inr n" using r_delete_ok by blast
  have "ttl r k = None" if "ks = []"
    using ks(2) that by (intro absent_ttl) auto
  moreover have "set ks = {k}" if "ks \<noteq> []"
    using ks(2) that by (cases ks) auto
  ultimately show ?thesis
    using ks(1) n by (cases "ks = []")
      (auto simp: redis_cache_delete_def io_bind_def io_apply delete_ttl fun_eq_iff)
qed

lemma elapse_keeps:
  "ttl r k = None \<Longrightarrow> 0 \<le> d \<Longrightarrow> strs (elapse d r) k = strs r k \<and> lists (elapse d r) k = lists r k"
  by (simp add: elapse_strs elapse_lists)

lemma elapse_none: "strs r k = None \<Longrightarrow> 0 \<le> d \<Longrightarrow> strs (elapse d r) k = None"
  by (simp add: elapse_strs split: option.split)

end

section \<open>A Redis server with a clock\<close>

text \<open>The reference server with the time each key has left.  The passing of time drops what expired.\<close>

record timed_server =
  tm_data :: server
  tm_ttl :: "(string \<times> int) list"

definition on_data :: "(server, 'a) io \<Rightarrow> (timed_server, 'a) io" where
  "on_data = io_focus tm_data (\<lambda>x. tm_data_update (\<lambda>_. x))"

definition timed_ttl :: "timed_server \<Rightarrow> string \<Rightarrow> int option" where
  "timed_ttl r k = (if server_has (tm_data r) k then map_of (tm_ttl r) k else None)"

definition put_ttl :: "string \<Rightarrow> int option \<Rightarrow> (string \<times> int) list \<Rightarrow> (string \<times> int) list" where
  "put_ttl k t ts = (case t of None \<Rightarrow> AList.delete k ts | Some n \<Rightarrow> AList.update k n ts)"

definition timed_set :: "string \<Rightarrow> string \<Rightarrow> expiry option \<Rightarrow> bool \<Rightarrow> (timed_server, bool) io" where
  "timed_set k v e nx r =
     (if nx \<and> server_has (tm_data r) k then (Inr False, r)
      else (Inr True, \<lparr>tm_data = AList.update k (EStr v) (tm_data r),
        tm_ttl = put_ttl k (map_option expiry_seconds e) (tm_ttl r)\<rparr>))"

definition timed_lpush :: "string \<Rightarrow> string list \<Rightarrow> (timed_server, int) io" where
  "timed_lpush k vs r =
     on_data (server_lpush k vs)
       (if server_has (tm_data r) k then r else r\<lparr>tm_ttl := AList.delete k (tm_ttl r)\<rparr>)"

definition timed_expire :: "string \<Rightarrow> expiry \<Rightarrow> (timed_server, bool) io" where
  "timed_expire k e r =
     (if server_has (tm_data r) k then (Inr True, r\<lparr>tm_ttl := AList.update k (expiry_seconds e) (tm_ttl r)\<rparr>)
      else (Inr False, r))"

definition elapse :: "int \<Rightarrow> timed_server \<Rightarrow> timed_server" where
  "elapse d r =
     \<lparr>tm_data = filter (\<lambda>(k, _). case map_of (tm_ttl r) k of Some t \<Rightarrow> d < t | None \<Rightarrow> True) (tm_data r),
      tm_ttl = map (\<lambda>(k, t). (k, t - d)) (tm_ttl r)\<rparr>"

definition timed_redis :: "timed_server redis" where
  "timed_redis =
     \<lparr>r_get = (\<lambda>k. on_data (r_get ref_redis k)), r_set = timed_set,
      r_scan_iter = (\<lambda>p. on_data (server_matching p)), r_delete = (\<lambda>ks. on_data (server_delete ks)),
      r_lpush = timed_lpush, r_expire = timed_expire,
      r_lrange = (\<lambda>k i j. on_data (server_lrange k i j)), r_lrem = (\<lambda>k n v. on_data (server_lrem k n v)),
      r_flushall = (\<lambda>_ _. (Inr (), \<lparr>tm_data = [], tm_ttl = []\<rparr>)),
      r_keys = (\<lambda>p. on_data (server_matching p))\<rparr>"

lemma on_data_simps:
  "fst (on_data f r) = fst (f (tm_data r))" "tm_data (snd (on_data f r)) = snd (f (tm_data r))"
  "tm_ttl (snd (on_data f r)) = tm_ttl r"
  by (simp_all add: on_data_def io_focus_def)

lemma on_data_same: "snd (f (tm_data r)) = tm_data r \<Longrightarrow> on_data f r = (fst (f (tm_data r)), r)"
  by (simp add: on_data_def io_focus_def)

abbreviation timed_strs :: "timed_server \<Rightarrow> string \<Rightarrow> string option" where
  "timed_strs r \<equiv> server_strs (tm_data r)"

abbreviation timed_lists :: "timed_server \<Rightarrow> string \<Rightarrow> string list" where
  "timed_lists r \<equiv> server_lists (tm_data r)"

lemma server_views_filter:
  "server_strs (filter (\<lambda>(k, _). P k) r) k = (if P k then server_strs r k else None)"
  "server_lists (filter (\<lambda>(k, _). P k) r) k = (if P k then server_lists r k else [])"
proof -
  have "map_of (filter (\<lambda>(k, _). P k) r) k = (if P k then map_of r k else None)"
    by (induction r) auto
  then show "server_strs (filter (\<lambda>(k, _). P k) r) k = (if P k then server_strs r k else None)"
    "server_lists (filter (\<lambda>(k, _). P k) r) k = (if P k then server_lists r k else [])"
    by (simp_all add: server_strs_def server_lists_def)
qed

lemma put_ttl_of: "map_of (put_ttl k t ts) = (map_of ts)(k := t)"
  by (auto simp: put_ttl_def update_conv' delete_conv' fun_eq_iff restrict_map_def split: option.split)

lemma timed_views:
  "timed_strs (snd (timed_set k v e False r)) = (timed_strs r)(k \<mapsto> v)"
  "timed_lists (snd (timed_set k v e False r)) = (timed_lists r)(k := [])"
  "tm_data (snd (timed_lpush k vs r)) = snd (server_lpush k vs (tm_data r))"
  "fst (timed_lpush k vs r) = fst (server_lpush k vs (tm_data r))"
  by (simp_all add: timed_set_def timed_lpush_def on_data_simps)

interpretation timed: redis_laws timed_redis timed_strs timed_lists glob_match
proof unfold_locales
  fix p r
  show "\<exists>ks. fst (r_scan_iter timed_redis p r) = Inr ks \<and>
    set ks = {k. (timed_strs r k \<noteq> None \<or> timed_lists r k \<noteq> []) \<and> glob_match p k}"
    and "\<exists>ks. fst (r_keys timed_redis p r) = Inr ks \<and>
    set ks = {k. (timed_strs r k \<noteq> None \<or> timed_lists r k \<noteq> []) \<and> glob_match p k}"
    using server_matching_set by (simp_all add: timed_redis_def on_data_simps)
next
  fix ks r
  show "timed_strs (snd (r_delete timed_redis ks r)) = (\<lambda>k. if k \<in> set ks then None else timed_strs r k)"
    and "timed_lists (snd (r_delete timed_redis ks r)) = (\<lambda>k. if k \<in> set ks then [] else timed_lists r k)"
    using ref.r_delete_strs [of ks "tm_data r"] ref.r_delete_lists [of ks "tm_data r"]
    by (simp_all add: timed_redis_def on_data_simps ref_redis_def)
qed (auto simp: timed_redis_def timed_views on_data_simps ref_redis_def glob_match_plain server_has_def
  timed_set_def server_matching_def server_delete_def server_lpush_def server_lrange_def server_lrem_def
  Let_def simp del: glob_match.simps intro: glob_match_star on_data_same [THEN trans])

lemma server_has_views: "server_has r k \<longleftrightarrow> server_strs r k \<noteq> None \<or> server_lists r k \<noteq> []"
  by (simp add: server_has_def)

interpretation ticking: redis_clock timed_redis timed_strs timed_lists glob_match timed_ttl elapse
proof unfold_locales
  fix r :: timed_server and k k' v :: string and vs ks and e :: "expiry option" and d :: int and x
  show "timed_strs r k = None \<Longrightarrow> timed_lists r k = [] \<Longrightarrow> timed_ttl r k = None"
    by (simp add: timed_ttl_def server_has_views)
  show "timed_ttl (snd (r_set timed_redis k v e False r)) = (timed_ttl r)(k := map_option expiry_seconds e)"
    by (rule ext) (simp add: timed_redis_def timed_set_def timed_ttl_def server_has_views put_ttl_of)
  show "timed_ttl (snd (r_delete timed_redis ks r)) k = (if k \<in> set ks then None else timed_ttl r k)"
    using timed.r_delete_strs [of ks r] timed.r_delete_lists [of ks r]
    by (simp add: timed_ttl_def server_has_views fun_eq_iff) (simp add: timed_redis_def on_data_simps)
  show "timed_strs r k = None \<Longrightarrow> vs \<noteq> [] \<Longrightarrow> timed_ttl (snd (r_lpush timed_redis k vs r)) = timed_ttl r"
    by (rule ext) (auto simp: timed_redis_def timed_lpush_def timed_ttl_def server_has_views on_data_simps
      server_lpush_def Let_def delete_conv')
  show "timed_strs r k = None \<Longrightarrow> timed_lists (snd (r_lrem timed_redis k 0 v r)) k' \<noteq> [] \<or> k' \<noteq> k \<Longrightarrow>
      timed_ttl (snd (r_lrem timed_redis k 0 v r)) k' = timed_ttl r k'"
    by (auto simp: timed_redis_def timed_ttl_def server_has_views on_data_simps server_lrem_def Let_def)
  show "timed_strs r k \<noteq> None \<or> timed_lists r k \<noteq> [] \<Longrightarrow> 0 < expiry_seconds x \<Longrightarrow>
      (\<exists>b. fst (r_expire timed_redis k x r) = Inr b) \<and> timed_strs (snd (r_expire timed_redis k x r)) = timed_strs r \<and>
      timed_lists (snd (r_expire timed_redis k x r)) = timed_lists r \<and>
      timed_ttl (snd (r_expire timed_redis k x r)) = (timed_ttl r)(k \<mapsto> expiry_seconds x)"
    by (auto simp: timed_redis_def timed_expire_def timed_ttl_def server_has_views update_conv' fun_eq_iff)
  assume d: "0 \<le> d"
  show "timed_strs (elapse d r) k =
      (case timed_ttl r k of Some t \<Rightarrow> if t \<le> d then None else timed_strs r k | None \<Rightarrow> timed_strs r k)"
    by (auto simp: elapse_def server_views_filter timed_ttl_def server_has_views split: option.splits)
  show "timed_lists (elapse d r) k =
      (case timed_ttl r k of Some t \<Rightarrow> if t \<le> d then [] else timed_lists r k | None \<Rightarrow> timed_lists r k)"
    by (auto simp: elapse_def server_views_filter timed_ttl_def server_has_views split: option.splits)
  show "timed_ttl (elapse d r) k =
      (case timed_ttl r k of Some t \<Rightarrow> if t \<le> d then None else Some (t - d) | None \<Rightarrow> None)"
    by (auto simp: elapse_def server_views_filter timed_ttl_def server_has_views map_of_map split: option.splits)
qed

lemmas timed_clock_ok = ticking.redis_clock_axioms

section \<open>Codes and sessions in time\<close>

definition wait_for :: "(int \<Rightarrow> 'c \<Rightarrow> 'c) \<Rightarrow> int \<Rightarrow> ('c, 'd) ctx \<Rightarrow> ('c, 'd) ctx" where
  "wait_for elapses d s = s\<lparr>cx_cache := elapses d (cx_cache s)\<rparr>"

lemma wait_for_simps [simp]:
  "cx_cache (wait_for elapses d s) = elapses d (cx_cache s)" "cx_db (wait_for elapses d s) = cx_db s"
  by (simp_all add: wait_for_def)

text \<open>A registration stores its code with ten minutes to live.\<close>

lemma register_ttl:
  assumes laws: "app_laws A strs lsts life tables committed ilike"
    and clock: "redis_clock R strs lsts glob ttl elapses" and cache: "ap_cache A = redis_cache R"
    and "lsts (cx_cache s) (code_key code) = []"
    and new: "rg_login r \<notin> u_login ` set (db_users (committed (cx_db s)))"
  shows "ttl (cx_cache (snd (register A code r s))) (code_key code) = Some 600"
proof -
  let ?m = "io_bind (user_exists (ss_user (ap_session A)) (rg_login r)) result_of"
  have "fst (on_db (in_session (ap_session A) ?m) s) = Inr False"
    using app_laws.register_spec(2) [OF laws assms(4), of r] new
    by (auto simp: register_def io_bind_def [of "on_db _"] io_apply split: sum.splits if_splits)
  then have "cx_cache (snd (register A code r s)) =
      snd (redis_cache_set R (code_key code) (ap_dump A r) (Some (ETimedelta (10 * 60))) (cx_cache s))"
    by (simp add: register_def io_bind_def io_focus_def io_apply cache redis_cache_def split: sum.split)
  then show ?thesis
    using redis_clock.cache_set_ttl [OF clock, of "Some (ETimedelta (10 * 60))"] by simp
qed

text \<open>The reference application on the server with a clock.\<close>

definition timed_app :: "(timed_server, rel) app" where
  "timed_app =
     \<lparr>ap_auth = with_cache ref_auth (redis_cache timed_redis), ap_session = ref_session,
      ap_hasher = argon2_of ref_argon2, ap_dump = ref_dump, ap_parse = ref_parse\<rparr>"

lemma timed_app_ok: "app_laws timed_app timed_strs timed_lists (token_life ref_ciphers)
    rel_tables rel_committed ref_ilike"
proof (rule app_laws.intro)
  show "auth_service (ap_auth timed_app) timed_strs timed_lists (token_life ref_ciphers)"
    using auth_service_with_cache [OF ref_auth_ok timed.rc.str_cache_laws_axioms]
    by (simp add: timed_app_def)
  show "session_laws (ap_session timed_app) rel_tables rel_committed ref_ilike (known_uuid (ap_auth timed_app))"
    using ref_session_ok by (simp add: timed_app_def)
  show "hasher_laws (ap_hasher timed_app)" using ref_hasher_ok by (simp add: timed_app_def)
  show "app_laws_axioms timed_app"
    by unfold_locales (simp add: timed_app_def ref_parse_dump, simp add: ref_dump_def)
qed

section \<open>Properties\<close>

text \<open>
  C36: a code lives ten minutes.  After a registration of a free login, the confirmation of its code
  succeeds when less than 600 seconds have passed, and from then on the code is unknown, whatever
  Redis client and database the program runs on.
\<close>

theorem code_lives_ten_minutes:
  fixes s :: "('c, 'd) ctx"
  assumes laws: "app_laws A strs lsts life tables committed ilike"
    and clock: "redis_clock R strs lsts glob ttl elapses" and cache: "ap_cache A = redis_cache R"
    and r: "valid_login (rg_login r)" "valid_password (rg_password r)"
    and code: "plain_key (code_key code)" "lsts (cx_cache s) (code_key code) = []"
    and free: "\<forall>u. known_uuid (ap_auth A) u \<longrightarrow>
      strs (cx_cache s) (uuid_str u) = None \<and> uuid_str u \<noteq> code_key code"
    and new: "rg_login r \<notin> u_login ` set (db_users (committed (cx_db s)))"
    and role: "\<exists>role \<in> set (db_roles (committed (cx_db s))). r_name role = USER"
    and time: "0 \<le> ts 0" "0 \<le> ts 1" "0 \<le> d"
  defines "s1 \<equiv> wait_for elapses d (snd (register A code r s))"
  shows "(d < 600 \<longrightarrow> (\<exists>res. fst (confirm A ts code s1) = Inr res)) \<and>
    (600 \<le> d \<longrightarrow> confirm A ts code s1 =
      (Inl (App (simple_error NotFoundError ''Code has expire or invalid'')), s1))"
proof -
  let ?c = "cx_cache (snd (register A code r s))"
  note reg = app_laws.register_spec [OF laws code(2), of r]
  note ttl = register_ttl [OF laws clock cache code(2) new]
  note clk = redis_clock.elapse_strs [OF clock time(3)] redis_clock.elapse_lists [OF clock time(3)]
  have stored: "strs ?c (code_key code) = Some (ap_dump A r)" using reg(3) new by simp
  have "lsts ?c (code_key code) = []" using reg(4) code(2) by simp
  then have lst: "lsts (cx_cache s1) (code_key code) = []"
    by (simp add: s1_def clk ttl)
  have "fst (confirm A ts code s1) \<noteq> Inl e" if "d < 600" for e
  proof -
    have "strs (cx_cache s1) (code_key code) = Some (ap_dump A r)"
      using that by (simp add: s1_def clk ttl stored)
    moreover have "strs (cx_cache s1) (uuid_str u) = None" if "known_uuid (ap_auth A) u" for u
      using free that reg(3) redis_clock.elapse_none [OF clock _ time(3), of ?c "uuid_str u"]
      by (simp add: s1_def split: if_splits)
    ultimately show ?thesis
      using app_laws.confirm_creates_user [OF laws code(1) lst _ r _ _ _ time(1,2)] role new reg(1)
      by (auto simp: s1_def)
  qed
  then have "\<exists>res. fst (confirm A ts code s1) = Inr res" if "d < 600"
    using that by (cases "fst (confirm A ts code s1)") auto
  moreover have "confirm A ts code s1 =
      (Inl (App (simple_error NotFoundError ''Code has expire or invalid'')), s1)" if "600 \<le> d"
    by (rule app_laws.confirm_no_code [OF laws lst]) (use that in \<open>simp add: s1_def clk ttl\<close>)
  ultimately show ?thesis by blast
qed

text \<open>The registration of \<open>eve\<close>, with nine and with ten minutes in between.\<close>

theorem code_lives_ten_minutes_witness:
  "let s = \<lparr>cx_cache = \<lparr>tm_data = [], tm_ttl = []\<rparr>, cx_db = example_rel\<rparr>;
       confirmed = \<lambda>d. fst (confirm timed_app (\<lambda>_. 0) ''c0de''
         (wait_for elapse d (snd (register timed_app ''c0de'' eve s))))
   in (\<exists>res. confirmed 540 = Inr res) \<and> (\<exists>e. confirmed 600 = Inl e)"
proof -
  let ?s = "\<lparr>cx_cache = \<lparr>tm_data = [], tm_ttl = []\<rparr>, cx_db = example_rel\<rparr>"
  have cache: "ap_cache timed_app = redis_cache timed_redis" by (simp add: timed_app_def)
  have "known_uuid (ap_auth timed_app) u \<Longrightarrow> uuid_str u \<noteq> code_key ''c0de''" for u
    using ref_code_free [of u] by (simp add: timed_app_def ref_app_def)
  note lives = code_lives_ten_minutes [OF timed_app_ok timed_clock_ok cache, of eve "''c0de''" ?s "\<lambda>_. 0"]
  show ?thesis
    unfolding Let_def using lives [of 540] lives [of 600] \<open>\<And>u. _ \<Longrightarrow> uuid_str u \<noteq> code_key ''c0de''\<close> example_code
    by (auto simp: server_strs_def server_lists_def)
qed

text \<open>
  Sessions are stored without an expiry: however long one waits, the entry of a login is in the list of
  its user, long after its refresh token has expired.  Entries of expired tokens thus count for the
  limit, and a login may throw away all live sessions because of them.
\<close>

theorem sessions_never_expire:
  assumes laws: "auth_service A strs lsts life" and clock: "redis_clock R strs lsts glob ttl elapses"
    and cache: "as_cache A = redis_cache R" and u: "known_uuid A u"
    and c: "strs c (uuid_str u) = None" "ttl c (uuid_str u) = None"
    and time: "0 \<le> ts 0" "0 \<le> ts 1" "0 \<le> d"
  shows "\<exists>res. fst (auth_login A ts fp u c) = Inr res \<and>
    session_entry fp (tk_refresh (te_tokens res)) \<in>
      set (lsts (elapses d (snd (auth_login A ts fp u c))) (uuid_str u)) \<and>
    (\<forall>t e. te_refresh_expire res \<le> t \<longrightarrow>
      (\<exists>a. fst (auth_verify_token A t (tk_refresh (te_tokens res)) Refresh e) = Inl (App a)))"
proof -
  obtain res :: tokens_expire where res: "fst (auth_login A ts fp u c) = Inr res"
    "j_create (as_jwt A) (ts 1) Refresh (uuid_str u) None [] = Inr (te_refresh_expire res, tk_refresh (te_tokens res))"
    "strs (snd (auth_login A ts fp u c)) = strs c"
    "lsts (snd (auth_login A ts fp u c)) = (lsts c)(uuid_str u :=
      sessions_after_login (lsts c (uuid_str u)) (session_entry fp (tk_refresh (te_tokens res))))"
    using auth_service.login_spec [where ts = ts and fp = fp, OF laws time(1,2) u c(1)] by blast
  have plain: "plain_key (uuid_str u)" by (rule auth_service.known_plain [OF laws u])
  note store = auth_service.axioms(1) [OF laws]
  have none: "strs (snd (redis_cache_delete R [uuid_str u] c)) (uuid_str u) = None"
    "ttl (snd (redis_cache_delete R [uuid_str u] c)) (uuid_str u) = None"
    using redis_clock.cache_delete_ttl [OF clock plain, of c]
      str_cache_laws.delete_strs [OF store plain, of c] by (simp_all add: cache redis_cache_def)
  obtain x where x: "issue_tokens A (ts 0) (ts 1) u c = (Inr x, c)"
    using auth_service.issue_tokens_spec [OF laws time(1,2), of u] by blast
  have "ttl (snd (auth_login A ts fp u c)) (uuid_str u) = None"
    using c x none str_cache_laws.get_list [OF store c(1)] str_cache_laws.delete_ok [OF store plain, of c]
      redis_clock.cache_set_list_ttl(1) [OF clock]
    by (simp add: auth_login_def io_bind_def io_apply cache redis_cache_def split: sum.split)
  from redis_clock.elapse_keeps [OF clock this time(3)]
  have "session_entry fp (tk_refresh (te_tokens res)) \<in>
      set (lsts (elapses d (snd (auth_login A ts fp u c))) (uuid_str u))"
    by (simp add: res(4) sessions_after_login_def)
  moreover have "\<exists>a. fst (auth_verify_token A t (tk_refresh (te_tokens res)) Refresh e) = Inl (App a)"
    if "te_refresh_expire res \<le> t" for t e
    using jwt_laws.expired [OF auth_service.axioms(2) [OF laws] time(2) res(2) that]
    by (auto simp: auth_verify_token_def io_bind_def io_lift_def)
  ultimately show ?thesis using res(1) by blast
qed

theorem sessions_never_expire_witness:
  "\<exists>res. fst (auth_login (ap_auth timed_app) (\<lambda>_. 0) ''phone'' ref_user \<lparr>tm_data = [], tm_ttl = []\<rparr>) = Inr res \<and>
    session_entry ''phone'' (tk_refresh (te_tokens res)) \<in> set (timed_lists (elapse 100000000
      (snd (auth_login (ap_auth timed_app) (\<lambda>_. 0) ''phone'' ref_user \<lparr>tm_data = [], tm_ttl = []\<rparr>)))
      (uuid_str ref_user))"
proof -
  have laws: "auth_service (ap_auth timed_app) timed_strs timed_lists (token_life ref_ciphers)"
    by (rule app_laws.axioms(1) [OF timed_app_ok])
  have cache: "as_cache (ap_auth timed_app) = redis_cache timed_redis" "known_uuid (ap_auth timed_app) ref_user"
    using ref_user_known by (simp_all add: timed_app_def)
  have empty: "timed_strs \<lparr>tm_data = [], tm_ttl = []\<rparr> k = None" "timed_ttl \<lparr>tm_data = [], tm_ttl = []\<rparr> k = None" for k
    by (simp_all add: server_strs_def timed_ttl_def)
  have "(0::int) \<le> 100000000" by simp
  from sessions_never_expire [where ts = "\<lambda>_. 0" and fp = "''phone''", OF laws timed_clock_ok cache empty
      order_refl order_refl this]
  show ?thesis by blast
qed

end
