(* ===== verification/Response_Cache.thy ===== *)
theory Response_Cache
  imports Formatter
begin

text \<open>
  \<open>ResponseCache\<close> of \<open>presentation/http/common/wrapper/cache.py\<close>: a wrapper for the request bus that
  keeps the results of a use case in the cache, under a key made from the HTTP request.  One object
  is declared per route and serves every request of it, so it is part of the state.
\<close>

section \<open>Keys\<close>

text \<open>
  \<open>json.loads\<close> is the parameter \<open>parse\<close>: the value of a text, or the \<open>ValueError\<close> it raises.  An
  empty body counts as the empty dictionary; what is no dictionary has neither items nor keys.
\<close>

definition json_body :: "(string \<Rightarrow> exn + jvalue) \<Rightarrow> http_request \<Rightarrow> exn + jvalue" where
  "json_body parse r = (if hr_body r \<noteq> [] then parse (hr_body r) else Inr (JDict []))"

text \<open>\<open>default_cache_key_builder(body)\<close>: what is empty or false stands for no data.\<close>

fun falsy :: "jvalue \<Rightarrow> bool" where
  "falsy JNull = True"
| "falsy (JBool b) = (\<not> b)"
| "falsy (JInt i) = (i = 0)"
| "falsy (JStr s) = (s = [])"
| "falsy (JList vs) = (vs = [])"
| "falsy (JDict kvs) = (kvs = [])"

definition json_key :: "jvalue \<Rightarrow> exn + string" where
  "json_key v =
     (if falsy v then Inr (default_cache_key_builder (Some []) [])
      else case v of
          JDict kvs \<Rightarrow> Inr (default_cache_key_builder (Some (map (\<lambda>(k, w). (k, py_str w)) kvs)) [])
        | _ \<Rightarrow> Inl (PyAttributeError ''keys''))"

definition request_cache_key_builder ::
  "(string \<Rightarrow> exn + jvalue) \<Rightarrow> http_request \<Rightarrow> exn + string" where
  "request_cache_key_builder parse r =
     (let query_params = map (\<lambda>k. (k, JList (map JStr (query_getlist r k)))) (query_keys r)
      in case json_body parse r of
           Inl e \<Rightarrow> Inl e
         | Inr body \<Rightarrow>
             (case json_key (JDict query_params) of
                Inl e \<Rightarrow> Inl e
              | Inr query_key \<Rightarrow>
                  (case json_key body of
                     Inl e \<Rightarrow> Inl e
                   | Inr body_key \<Rightarrow>
                       Inr (hr_path r @ '':'' @ hr_method r @ '':'' @ query_key @ '':'' @ body_key))))"

definition extract_query_keys :: "http_request \<Rightarrow> (string \<times> jvalue) list" where
  "extract_query_keys r =
     map (\<lambda>k. let vs = query_getlist r k
       in (k, if length vs = 1 then JStr (hd vs) else JList (map JStr vs))) (query_keys r)"

definition extract_body_keys ::
  "(string \<Rightarrow> exn + jvalue) \<Rightarrow> http_request \<Rightarrow> exn + (string \<times> jvalue) list" where
  "extract_body_keys parse r =
     (case json_body parse r of
        Inl e \<Rightarrow> Inl e
      | Inr (JDict kvs) \<Rightarrow> Inr kvs
      | Inr _ \<Rightarrow> Inl (PyAttributeError ''keys''))"

text \<open>The values of the request as a look-up: the body before the query.\<close>

definition extract_request_values ::
  "(string \<Rightarrow> exn + jvalue) \<Rightarrow> http_request \<Rightarrow> exn + (string \<Rightarrow> jvalue option)" where
  "extract_request_values parse r =
     map_sum id (\<lambda>body. map_of (extract_query_keys r) ++ map_of body) (extract_body_keys parse r)"

text \<open>What the wrapper uses of Python: \<open>json.loads\<close> and the formatting of the fields that are not plain.\<close>

record python =
  py_loads :: "string \<Rightarrow> exn + jvalue"
  py_render :: "jvalue \<Rightarrow> string \<Rightarrow> char option \<Rightarrow> string \<Rightarrow> exn + string"

definition format_key :: "python \<Rightarrow> http_request \<Rightarrow> string option \<Rightarrow> exn + string option" where
  "format_key P r key =
     (case key of
        None \<Rightarrow> Inr None
      | Some text \<Rightarrow>
          (case extract_keys_formatter text of
             Inl e \<Rightarrow> Inl e
           | Inr keys \<Rightarrow>
               if keys = [] then Inr (Some text)
               else (case extract_request_values (py_loads P) r of
                   Inl e \<Rightarrow> Inl e
                 | Inr vals \<Rightarrow>
                     map_sum id Some (safe_format (py_render P) text (\<lambda>k.
                       if k \<in> set keys then Some (case vals k of Some v \<Rightarrow> v | None \<Rightarrow> JNull) else None)))))"

section \<open>The wrapper\<close>

text \<open>
  The attributes of the object that change; \<open>rc_cache\<close> is the cache it was given.  The state joins
  the object, the store behind the cache and what else the use case works on.
\<close>

record 'c response_cache =
  rc_expires_in :: int
  rc_key :: "string option"
  rc_request :: "http_request option"
  rc_cache :: "'c str_cache option"

record ('c, 'w) cached_route =
  cr_self :: "'c response_cache"
  cr_store :: 'c
  cr_world :: 'w

definition new_response_cache :: "int \<Rightarrow> string option \<Rightarrow> 'c response_cache" where
  "new_response_cache expires_in key =
     \<lparr>rc_expires_in = expires_in, rc_key = key, rc_request = None, rc_cache = None\<rparr>"

definition on_store :: "('c, 'a) io \<Rightarrow> (('c, 'w) cached_route, 'a) io" where
  "on_store = io_focus cr_store (\<lambda>c s. s\<lparr>cr_store := c\<rparr>)"

definition get_self :: "(('c, 'w) cached_route, 'c response_cache) io" where
  "get_self s = (Inr (cr_self s), s)"

text \<open>\<open>__call__\<close>, the dependency of the route: it stores the request and the cache and returns itself.\<close>

definition rc_call :: "'c str_cache \<Rightarrow> http_request \<Rightarrow> (('c, 'w) cached_route, unit) io" where
  "rc_call C r s =
     (Inr (), s\<lparr>cr_self := (cr_self s)\<lparr>rc_request := Some r, rc_cache := Some C\<rparr>\<rparr>)"

text \<open>
  \<open>execute\<close>: what it returns is the text it found or the result of the use case.  \<open>dump\<close> is
  \<open>model_dump_json(exclude_none=True)\<close> of a result that is a model of Pydantic.
\<close>

datatype 'r answer = Cached string | Result 'r

definition rc_execute ::
  "python \<Rightarrow> ('r \<Rightarrow> string option) \<Rightarrow> ('q \<Rightarrow> (('c, 'w) cached_route, 'r) io) \<Rightarrow> 'q \<Rightarrow>
    (('c, 'w) cached_route, 'r answer) io" where
  "rc_execute P dump use_case message =
     io_bind get_self (\<lambda>self.
     case (rc_request self, rc_cache self) of
       (Some r, Some C) \<Rightarrow>
         io_bind (io_lift (format_key P r (rc_key self))) (\<lambda>formatted.
         io_bind (case formatted of
             Some (c # k) \<Rightarrow> io_return (c # k)
           | _ \<Rightarrow> io_lift (request_cache_key_builder (py_loads P) r)) (\<lambda>cache_key.
         io_bind (on_store (sc_get C cache_key)) (\<lambda>cached.
         case cached of
           Some text \<Rightarrow> io_return (Cached text)
         | None \<Rightarrow>
             io_bind (use_case message) (\<lambda>result.
             io_bind (case dump result of
                 None \<Rightarrow> io_return ()
               | Some text \<Rightarrow> on_store (sc_set C cache_key text (Some (ETimedelta (rc_expires_in self)))))
               (\<lambda>_. io_return (Result result))))))
     | _ \<Rightarrow> io_raise (PyRuntimeError ''ResponseCache must be called before execute''))"

definition rc_invalidate ::
  "python \<Rightarrow> 'c str_cache \<Rightarrow> http_request \<Rightarrow> (('c, 'w) cached_route, unit) io" where
  "rc_invalidate P C r =
     io_bind get_self (\<lambda>self.
     io_bind (io_lift (format_key P r (rc_key self))) (\<lambda>formatted.
     case formatted of
       Some (c # k) \<Rightarrow> on_store (sc_delete C [c # k])
     | _ \<Rightarrow> io_return ()))"

text \<open>\<open>_get\<close>, which nothing calls: the entry under a key, once the object was called.\<close>

definition rc_get :: "string \<Rightarrow> (('c, 'w) cached_route, string option) io" where
  "rc_get cache_key =
     io_bind get_self (\<lambda>self.
     case rc_cache self of
       None \<Rightarrow> io_raise (PyRuntimeError ''ResponseCache must be called before _get'')
     | Some C \<Rightarrow> on_store (sc_get C cache_key))"

section \<open>Entries\<close>

text \<open>The key of the entry a request reads and writes.\<close>

definition entry_key :: "python \<Rightarrow> string option \<Rightarrow> http_request \<Rightarrow> exn + string" where
  "entry_key P key r =
     (case format_key P r key of
        Inl e \<Rightarrow> Inl e
      | Inr (Some (c # k)) \<Rightarrow> Inr (c # k)
      | Inr _ \<Rightarrow> request_cache_key_builder (py_loads P) r)"

definition ready :: "'c str_cache \<Rightarrow> http_request \<Rightarrow> ('c, 'w) cached_route \<Rightarrow> bool" where
  "ready C r s \<longleftrightarrow> rc_request (cr_self s) = Some r \<and> rc_cache (cr_self s) = Some C"

lemma rc_execute_ready:
  assumes "ready C r s" and "entry_key P (rc_key (cr_self s)) r = Inr k"
  shows "rc_execute P dump use_case message s =
    io_bind (on_store (sc_get C k)) (\<lambda>cached.
      case cached of
        Some text \<Rightarrow> io_return (Cached text)
      | None \<Rightarrow>
          io_bind (use_case message) (\<lambda>result.
          io_bind (case dump result of
              None \<Rightarrow> io_return ()
            | Some text \<Rightarrow> on_store (sc_set C k text (Some (ETimedelta (rc_expires_in (cr_self s))))))
            (\<lambda>_. io_return (Result result)))) s"
proof -
  let ?key = "\<lambda>formatted. case formatted of
      Some (c # k) \<Rightarrow> io_return (c # k) | _ \<Rightarrow> io_lift (request_cache_key_builder (py_loads P) r)"
  obtain formatted where f: "format_key P r (rc_key (cr_self s)) = Inr formatted"
    using assms(2) by (auto simp: entry_key_def split: sum.splits)
  with assms(2) have "?key formatted s = (Inr k, s)"
    by (auto simp: entry_key_def io_apply split: option.splits list.splits)
  with assms(1) f show ?thesis
    by (simp add: rc_execute_def get_self_def ready_def io_bind_ok io_apply)
qed

context str_cache_laws
begin

lemma execute_hit:
  assumes "ready C r s" and "entry_key P (rc_key (cr_self s)) r = Inr k"
    and "lists (cr_store s) k = []" and "strs (cr_store s) k = Some t"
  shows "rc_execute P dump use_case message s = (Inr (Cached t), s)"
  using assms
  by (simp add: rc_execute_ready [OF assms(1,2)] on_store_def io_focus_def io_bind_def io_apply get)

lemma execute_miss:
  assumes "ready C r s" and "entry_key P (rc_key (cr_self s)) r = Inr k"
    and "lists (cr_store s) k = []" and "strs (cr_store s) k = None"
    and "use_case message s = (Inr res, s')" and "dump res = Some t"
    and "lists (cr_store s') k = []"
  shows "fst (rc_execute P dump use_case message s) = Inr (Result res)"
    and "strs (cr_store (snd (rc_execute P dump use_case message s))) = (strs (cr_store s'))(k \<mapsto> t)"
    and "lists (cr_store (snd (rc_execute P dump use_case message s))) = lists (cr_store s')"
    and "cr_self (snd (rc_execute P dump use_case message s)) = cr_self s'"
    and "cr_world (snd (rc_execute P dump use_case message s)) = cr_world s'"
  using assms
  by (simp_all add: rc_execute_ready [OF assms(1,2)] on_store_def io_focus_def io_bind_def io_apply
      get set_ok set_strs set_lists)

end

lemma rc_call_state [simp]:
  "fst (rc_call C r s) = Inr ()"
  "ready C r (snd (rc_call C r s))"
  "cr_store (snd (rc_call C r s)) = cr_store s"
  "cr_world (snd (rc_call C r s)) = cr_world s"
  "rc_key (cr_self (snd (rc_call C r s))) = rc_key (cr_self s)"
  by (simp_all add: rc_call_def ready_def)

lemma query_same_values:
  assumes "hr_query r = hr_query r'"
  shows "query_keys r = query_keys r'" and "query_getlist r = query_getlist r'"
  using assms by (simp_all add: query_keys_def query_getlist_def fun_eq_iff)

lemma format_key_same_values:
  assumes "hr_query r = hr_query r'" and "hr_body r = hr_body r'"
  shows "format_key P r key = format_key P r' key"
proof -
  have "extract_query_keys r = extract_query_keys r'"
    by (simp add: extract_query_keys_def query_same_values [OF assms(1)])
  then have vals: "extract_request_values p r = extract_request_values p r'" for p
    using assms(2) by (simp add: extract_request_values_def extract_body_keys_def json_body_def)
  show ?thesis unfolding format_key_def vals ..
qed

lemma entry_key_same_values:
  assumes "hr_query r = hr_query r'" and "hr_body r = hr_body r'"
    and "hr_path r = hr_path r' \<and> hr_method r = hr_method r' \<or> (\<exists>c k. format_key P r key = Inr (Some (c # k)))"
  shows "entry_key P key r = entry_key P key r'"
proof (cases "\<exists>c k. format_key P r key = Inr (Some (c # k))")
  case True
  then show ?thesis
    using format_key_same_values [OF assms(1,2), of P key] by (auto simp: entry_key_def)
next
  case False
  with assms(3) have line: "hr_path r = hr_path r'" "hr_method r = hr_method r'"
    by blast+
  have builder: "request_cache_key_builder p r = request_cache_key_builder p r'" for p
    unfolding request_cache_key_builder_def json_body_def query_same_values [OF assms(1)] assms(2) line ..
  show ?thesis
    unfolding entry_key_def format_key_same_values [OF assms(1,2)] builder ..
qed

end
