(* ===== verification/Response_Cache_Properties.thy ===== *)
theory Response_Cache_Properties
  imports Response_Cache Cache_Instances
begin

text \<open>
  The properties of the response cache: its keys, who gets whose answer, and what invalidation does.
\<close>

section \<open>The example\<close>

text \<open>A route for one user, with a key that names the path parameter; no request has a body.\<close>

definition plain_python :: python where
  "plain_python =
     \<lparr>py_loads = (\<lambda>_. Inl (PyValueError ''Expecting value'')), py_render = (\<lambda>v _ _ _. Inr (py_str v))\<rparr>"

definition get_user :: "string \<Rightarrow> http_request" where
  "get_user path =
     \<lparr>hr_method = ''GET'', hr_path = path, hr_headers = [], hr_client = None, hr_query = [],
      hr_body = [], hr_cookies = [], hr_request_id = None\<rparr>"

definition user_template :: string where
  "user_template = ''user:{user_id}''"

definition user_route :: "(server, unit) cached_route" where
  "user_route =
     \<lparr>cr_self = new_response_cache 60 (Some user_template), cr_store = [], cr_world = ()\<rparr>"

lemma user_template_eq: "user_template = template [(''user:'', ''user_id'')] []"
  by (simp add: user_template_def template_def)

lemma user_template_plain: "plain_template [(''user:'', ''user_id'')] []"
  by (simp add: plain_template_def no_braces_def plain_name_def name_text_def is_digit_def)

lemma get_user_values:
  "extract_request_values (py_loads plain_python) (get_user path) = Inr Map.empty"
  by (simp add: extract_request_values_def extract_body_keys_def json_body_def get_user_def
      extract_query_keys_def query_keys_def)

lemma user_entry:
  "format_key plain_python (get_user path) (Some user_template) = Inr (Some ''user:None'')"
  by (simp add: format_key_def user_template_eq extract_keys_template [OF user_template_plain]
      format_template [OF user_template_plain] get_user_values safe_get_value_def)

lemma user_entry_key:
  "entry_key plain_python (Some user_template) (get_user path) = Inr ''user:None''"
  by (simp add: entry_key_def user_entry)

lemma get_user_simps [simp]: "hr_query (get_user path) = []" "hr_body (get_user path) = []"
  by (simp_all add: get_user_def)

lemma default_entry_key:
  "entry_key plain_python None (get_user path) = Inr (path @ '':GET::'')"
  by (simp add: entry_key_def format_key_def request_cache_key_builder_def json_body_def query_keys_def
      json_key_def default_cache_key_builder_def get_user_def)

lemma no_entries [simp]: "server_strs [] = Map.empty" "server_lists [] k = []"
  by (simp_all add: server_strs_def server_lists_def fun_eq_iff)

lemma user_route_simps [simp]:
  "rc_key (cr_self user_route) = Some user_template" "cr_store user_route = []"
  by (simp_all add: user_route_def new_response_cache_def)

section \<open>Properties\<close>

text \<open>The value a request gives a name: the one of its body, else the one of its query.\<close>

definition request_value :: "python \<Rightarrow> http_request \<Rightarrow> string \<Rightarrow> jvalue option" where
  "request_value P r name =
     (case extract_request_values (py_loads P) r of Inl e \<Rightarrow> None | Inr vals \<Rightarrow> vals name)"

text \<open>
  A key template names values of the query and of the body.  Each name is replaced by the text
  of its value; a name that is neither in the query nor in the body (a path parameter, say) gives
  the text None and not, as \<open>SafeFormatter\<close> is there for, the name in braces.
\<close>

theorem response_cache_key:
  assumes "plain_template ps end_text" and "ps \<noteq> []"
    and "extract_request_values (py_loads P) r = Inr vals"
  shows "format_key P r (Some (template ps end_text)) =
    Inr (Some (concat (map (\<lambda>(l, n). l @
      (case request_value P r n of Some v \<Rightarrow> py_str v | None \<Rightarrow> ''None'')) ps) @ end_text))"
proof -
  have *: "concat (map (\<lambda>(l, n). l @ py_str (safe_get_value (\<lambda>k. if k \<in> snd ` set ps
        then Some (case vals k of Some v \<Rightarrow> v | None \<Rightarrow> JNull) else None) n)) ps) =
    concat (map (\<lambda>(l, n). l @ (case vals n of Some v \<Rightarrow> py_str v | None \<Rightarrow> ''None'')) ps)"
    by (rule arg_cong [where f = concat], rule map_cong)
      (force simp: safe_get_value_def split: option.splits)+
  show ?thesis
    using assms
    by (simp add: format_key_def extract_keys_template format_template * request_value_def)
qed

theorem response_cache_key_witness:
  "format_key plain_python (get_user ''/users/1'') (Some user_template) = Inr (Some ''user:None'')"
  using response_cache_key [OF user_template_plain _ get_user_values, of "''/users/1''"]
  by (simp add: user_template_eq request_value_def get_user_values)

text \<open>
  Two requests with the same query and body share an entry, whoever sends them: nothing of the
  headers or the cookies is in the key, and with a key template nothing of the path either.  The
  first one runs the use case and gets its result; the second one gets the stored text, not a
  result, and its use case does not run.
\<close>

theorem response_cache_shared_by_users:
  fixes s :: "('c, 'w) cached_route"
  assumes laws: "str_cache_laws C strs lsts"
    and same: "hr_query r1 = hr_query r2" "hr_body r1 = hr_body r2"
      "hr_path r1 = hr_path r2 \<and> hr_method r1 = hr_method r2 \<or>
        (\<exists>c key. format_key P r1 (rc_key (cr_self s)) = Inr (Some (c # key)))"
    and key: "entry_key P (rc_key (cr_self s)) r1 = Inr k"
    and free: "lsts (cr_store s) k = []" "strs (cr_store s) k = None"
    and run: "use_case q1 (snd (rc_call C r1 s)) = (Inr res, s1)" "dump res = Some t"
      "cr_self s1 = cr_self (snd (rc_call C r1 s))" "lsts (cr_store s1) k = []"
  shows "let a = rc_execute P dump use_case q1 (snd (rc_call C r1 s));
      b = rc_execute P dump use_case q2 (snd (rc_call C r2 (snd a)))
    in fst a = Inr (Result res) \<and> fst b = Inr (Cached t) \<and>
       cr_store (snd b) = cr_store (snd a) \<and> cr_world (snd b) = cr_world s1"
proof -
  let ?a = "rc_execute P dump use_case q1 (snd (rc_call C r1 s))"
  let ?s = "snd (rc_call C r2 (snd ?a))"
  have "entry_key P (rc_key (cr_self (snd (rc_call C r1 s)))) r1 = Inr k"
    using key by simp
  note miss = str_cache_laws.execute_miss [OF laws rc_call_state(2) this, where message = q1 and
      use_case = use_case and dump = dump, simplified, OF free run(1,2,4)]
  have "entry_key P (rc_key (cr_self ?s)) r2 = Inr k"
    using entry_key_same_values [OF same] key by (simp add: miss(4) run(3))
  then have "rc_execute P dump use_case q2 ?s = (Inr (Cached t), ?s)"
    by (rule str_cache_laws.execute_hit [OF laws rc_call_state(2)])
      (simp_all add: miss run(4))
  then show ?thesis by (simp add: Let_def miss)
qed

theorem response_cache_shared_by_users_witness:
  "let a = rc_execute plain_python Some io_return ''first''
         (snd (rc_call (redis_cache ref_redis) (get_user ''/users/1'') user_route));
       b = rc_execute plain_python Some io_return ''second''
         (snd (rc_call (redis_cache ref_redis) (get_user ''/users/2'') (snd a)))
   in fst a = Inr (Result ''first'') \<and> fst b = Inr (Cached ''first'')"
  using response_cache_shared_by_users [OF ref_cache_ok, of "get_user ''/users/1''" "get_user ''/users/2''"
      plain_python user_route "''user:None''" io_return "''first''" "''first''"
      "snd (rc_call (redis_cache ref_redis) (get_user ''/users/1'') user_route)" Some "''first''" "''second''"]
  by (simp add: user_entry user_entry_key io_apply Let_def)

text \<open>
  One object serves all requests of its route and keeps the last one it saw.  When a second
  request arrives before the first one is executed, the answer to the first is stored in the entry
  of the second, and the second request is answered with it.
\<close>

theorem response_cache_mixes_requests:
  fixes s :: "('c, 'w) cached_route"
  assumes laws: "str_cache_laws C strs lsts"
    and key: "entry_key P (rc_key (cr_self s)) r2 = Inr k"
    and free: "lsts (cr_store s) k = []" "strs (cr_store s) k = None"
    and run: "use_case q1 (snd (rc_call C r2 (snd (rc_call C r1 s)))) = (Inr res, s1)" "dump res = Some t"
      "cr_self s1 = cr_self (snd (rc_call C r2 (snd (rc_call C r1 s))))" "lsts (cr_store s1) k = []"
  shows "let a = rc_execute P dump use_case q1 (snd (rc_call C r2 (snd (rc_call C r1 s))));
      b = rc_execute P dump use_case q2 (snd a)
    in fst a = Inr (Result res) \<and> strs (cr_store (snd a)) = (strs (cr_store s1))(k \<mapsto> t) \<and>
       fst b = Inr (Cached t)"
proof -
  let ?s = "snd (rc_call C r2 (snd (rc_call C r1 s)))"
  let ?a = "rc_execute P dump use_case q1 ?s"
  have "entry_key P (rc_key (cr_self ?s)) r2 = Inr k"
    using key by simp
  note miss = str_cache_laws.execute_miss [OF laws rc_call_state(2) this, where message = q1 and
      use_case = use_case and dump = dump, simplified, OF free run(1,2,4)]
  have "ready C r2 (snd ?a)" "entry_key P (rc_key (cr_self (snd ?a))) r2 = Inr k"
    using key rc_call_state(2) [of C r2 "snd (rc_call C r1 s)"]
    by (simp_all add: ready_def miss(4) run(3))
  then have "rc_execute P dump use_case q2 (snd ?a) = (Inr (Cached t), snd ?a)"
    by (rule str_cache_laws.execute_hit [OF laws]) (simp_all add: miss run(4))
  then show ?thesis by (simp add: Let_def miss)
qed

theorem response_cache_mixes_requests_witness:
  "let s = user_route\<lparr>cr_self := new_response_cache 60 None\<rparr>;
       a = rc_execute plain_python Some io_return ''first''
         (snd (rc_call (redis_cache ref_redis) (get_user ''/b'')
           (snd (rc_call (redis_cache ref_redis) (get_user ''/a'') s))))
   in server_strs (cr_store (snd a)) ''/b:GET::'' = Some ''first''"
  using response_cache_mixes_requests [OF ref_cache_ok, of plain_python
      "user_route\<lparr>cr_self := new_response_cache 60 None\<rparr>" "get_user ''/b''" "''/b:GET::''" io_return
      "''first''" "get_user ''/a''" "''first''"
      "snd (rc_call (redis_cache ref_redis) (get_user ''/b'') (snd (rc_call (redis_cache ref_redis)
        (get_user ''/a'') (user_route\<lparr>cr_self := new_response_cache 60 None\<rparr>))))"
      Some "''first''" "''second''"]
  by (simp add: default_entry_key new_response_cache_def io_apply Let_def)

text \<open>
  Invalidation removes the entry of a key template, so that the next request runs its use case
  again; without a template it does nothing, although the requests have entries under the default
  key.
\<close>

theorem response_cache_invalidation:
  fixes s :: "('c, 'w) cached_route"
  assumes laws: "str_cache_laws C strs lsts"
    and key: "format_key P r (rc_key (cr_self s)) = Inr (Some k)" "k \<noteq> []" "plain_key k"
    and run: "use_case q (snd (rc_call C r (snd (rc_invalidate P C r s)))) = (Inr res, s1)"
      "dump res = Some t" "lsts (cr_store s1) k = []"
  shows "strs (cr_store (snd (rc_invalidate P C r s))) = (strs (cr_store s))(k := None) \<and>
    fst (rc_execute P dump use_case q (snd (rc_call C r (snd (rc_invalidate P C r s))))) =
      Inr (Result res) \<and>
    rc_invalidate P C r (s\<lparr>cr_self := (cr_self s)\<lparr>rc_key := None\<rparr>\<rparr>) =
      (Inr (), s\<lparr>cr_self := (cr_self s)\<lparr>rc_key := None\<rparr>\<rparr>)"
proof -
  obtain c u where k: "k = c # u" using key(2) by (cases k) auto
  have inv: "strs (cr_store (snd (rc_invalidate P C r s))) = (strs (cr_store s))(k := None)"
    "lsts (cr_store (snd (rc_invalidate P C r s))) k = []"
    "cr_self (snd (rc_invalidate P C r s)) = cr_self s"
    using key str_cache_laws.cache_laws [OF laws]
    by (simp_all add: rc_invalidate_def get_self_def io_bind_def io_apply on_store_def io_focus_def k)
  have "entry_key P (rc_key (cr_self (snd (rc_call C r (snd (rc_invalidate P C r s)))))) r = Inr k"
    using key(1) by (simp add: entry_key_def inv k)
  then have "fst (rc_execute P dump use_case q (snd (rc_call C r (snd (rc_invalidate P C r s))))) =
      Inr (Result res)"
    by (rule str_cache_laws.execute_miss(1) [OF laws rc_call_state(2), where s' = s1]) (use inv run in simp_all)
  moreover have "rc_invalidate P C r (s\<lparr>cr_self := (cr_self s)\<lparr>rc_key := None\<rparr>\<rparr>) =
      (Inr (), s\<lparr>cr_self := (cr_self s)\<lparr>rc_key := None\<rparr>\<rparr>)"
    by (simp add: rc_invalidate_def get_self_def io_bind_def io_apply format_key_def)
  ultimately show ?thesis using inv(1) by blast
qed

lemma user_entry_plain: "plain_key ''user:None''"
  by (simp add: plain_key_def)

lemma user_invalidated:
  "server_lists (cr_store (snd (rc_call (redis_cache ref_redis) (get_user ''/users/1'')
     (snd (rc_invalidate plain_python (redis_cache ref_redis) (get_user ''/users/1'') user_route)))))
     ''user:None'' = []"
  using str_cache_laws.delete_lists [OF ref_cache_ok user_entry_plain]
  by (simp add: rc_invalidate_def get_self_def io_bind_def io_apply on_store_def io_focus_def user_entry)

theorem response_cache_invalidation_witness:
  "fst (rc_execute plain_python Some io_return ''new'' (snd (rc_call (redis_cache ref_redis)
     (get_user ''/users/1'') (snd (rc_invalidate plain_python (redis_cache ref_redis)
     (get_user ''/users/1'') user_route))))) = Inr (Result ''new'')"
  using response_cache_invalidation [OF ref_cache_ok, of plain_python "get_user ''/users/1''" user_route
      "''user:None''" io_return "''new''" "''new''"] user_entry_plain user_invalidated
  by (simp add: user_entry io_apply)

end
