(* ===== verification/Bus.thy ===== *)
theory Bus
  imports Errors
begin

text \<open>
  The two buses of \<open>application/common/bus\<close>.  The request bus maps the type of a request to a
  factory of its use case, with the dependencies the signature of the use case asks for; the event
  bus picks a broker by the type of an event.  Classes are named by texts; the NATS clients and
  msgpack are libraries: what is published is the state, and \<open>pack\<close> is a parameter.
\<close>

section \<open>Use case factories (bus/\_utils.py)\<close>

text \<open>
  A dependency is a plain object or something callable; of an annotation that stands in for a
  dependency (a class) nothing more is known than that it is callable.  What a use case gets is the
  object, or the \<open>n\<close>-th product of the call.
\<close>

datatype dependency = Plain string | Callable string | Annotation string

datatype injected = Shared string | Fresh string nat

text \<open>A use case class with the parameters of its signature and their annotations.\<close>

record use_case_class =
  uc_name :: string
  uc_params :: "(string \<times> string) list"

definition predict_dependency_or_raise ::
  "(string \<times> string) list \<Rightarrow> (string \<times> dependency) list \<Rightarrow> string list \<Rightarrow>
    exn + (string \<times> dependency) list" where
  "predict_dependency_or_raise provided required non_checkable =
     (let missing = filter (\<lambda>(k, _). k \<notin> fst ` set required \<and> k \<notin> set non_checkable) provided
      in if missing \<noteq> []
         then Inl (PyTypeError (''Did you forget to set dependency for '' @
           py_join '', '' (map (\<lambda>(k, a). ''`'' @ k @ ''`:`'' @ a @ ''`'') missing) @ ''?''))
         else Inr (map (\<lambda>(k, a).
           (k, case map_of required k of Some d \<Rightarrow> d | None \<Rightarrow> Annotation a)) provided))"

text \<open>
  The factory of a use case: every callable dependency is called, each time the factory is.  The
  state counts the calls.
\<close>

fun inject_all :: "(string \<times> dependency) list \<Rightarrow> (nat, (string \<times> injected) list) io" where
  "inject_all [] n = (Inr [], n)"
| "inject_all ((k, d) # ds) n =
     (case d of
        Plain v \<Rightarrow> (let r = inject_all ds n in (map_sum id ((#) (k, Shared v)) (fst r), snd r))
      | Callable v \<Rightarrow> (let r = inject_all ds (Suc n) in (map_sum id ((#) (k, Fresh v n)) (fst r), snd r))
      | Annotation v \<Rightarrow> (let r = inject_all ds (Suc n) in (map_sum id ((#) (k, Fresh v n)) (fst r), snd r)))"

record use_case =
  ui_name :: string
  ui_injected :: "(string \<times> injected) list"

definition use_case_factory ::
  "use_case_class \<Rightarrow> (string \<times> dependency) list \<Rightarrow> (nat, use_case) io" where
  "use_case_factory c deps =
     io_bind (inject_all deps) (\<lambda>vs. io_return \<lparr>ui_name = uc_name c, ui_injected = vs\<rparr>)"

text \<open>
  \<open>_resolve_factory\<close>: an instance of the class is the use case; anything else that can be called is
  called, and what cannot is passed on.
\<close>

definition resolve_factory :: "('u \<Rightarrow> bool) \<Rightarrow> ('u \<Rightarrow> (nat, 'u) io option) \<Rightarrow> 'u \<Rightarrow> (nat, 'u) io" where
  "resolve_factory is_instance call_of entry =
     (if is_instance entry then io_return entry
      else case call_of entry of Some call \<Rightarrow> call | None \<Rightarrow> io_return entry)"

section \<open>RequestBusImpl (bus/request\_bus.py)\<close>

record request_bus =
  rb_registry :: "string \<Rightarrow> (nat, use_case) io option"
  rb_dependencies :: "(string \<times> dependency) list"

definition bus_register :: "request_bus \<Rightarrow> string \<Rightarrow> use_case_class \<Rightarrow> exn + request_bus" where
  "bus_register b request c =
     (case predict_dependency_or_raise (uc_params c) (rb_dependencies b) [''request''] of
        Inl e \<Rightarrow> Inl e
      | Inr deps \<Rightarrow> Inr (b\<lparr>rb_registry := (rb_registry b)(request \<mapsto> use_case_factory c deps)\<rparr>))"

fun bus_register_all :: "request_bus \<Rightarrow> (string \<times> use_case_class) list \<Rightarrow> exn + request_bus" where
  "bus_register_all b [] = Inr b"
| "bus_register_all b ((request, c) # rest) =
     (case bus_register b request c of Inl e \<Rightarrow> Inl e | Inr b' \<Rightarrow> bus_register_all b' rest)"

text \<open>\<open>builder().dependencies(...).use_cases(setup).build()\<close>\<close>

definition bus_build ::
  "(string \<times> dependency) list \<Rightarrow> (string \<times> use_case_class) list \<Rightarrow> exn + request_bus" where
  "bus_build deps regs = bus_register_all \<lparr>rb_registry = Map.empty, rb_dependencies = deps\<rparr> regs"

definition get_use_case :: "request_bus \<Rightarrow> string \<Rightarrow> (nat, use_case) io" where
  "get_use_case b request =
     (case rb_registry b request of
        Some factory \<Rightarrow> factory
      | None \<Rightarrow> io_raise (PyKeyError (''Use case for `'' @ request @ ''` is not registered'')))"

text \<open>\<open>send\<close> and \<open>send_wrapped\<close>; running the use case is the parameter \<open>run\<close> (the wrapper's \<open>execute\<close>).\<close>

definition bus_send ::
  "(use_case \<Rightarrow> (nat, 'r) io) \<Rightarrow> request_bus \<Rightarrow> string \<Rightarrow> (nat, 'r) io" where
  "bus_send run b request = io_bind (get_use_case b request) run"

text \<open>\<open>setup_use_cases\<close>, with the fields of the ten use cases, and the dependencies of the provider.\<close>

definition setup_use_cases :: "(string \<times> use_case_class) list" where
  "setup_use_cases =
     (let services = (''services'', ''ServiceGateway''); database = (''database'', ''DBGateway'');
          hasher = (''hasher'', ''Hasher''); cache = (''cache'', ''StrCache'')
      in [(''RegisterRequest'', \<lparr>uc_name = ''RegisterUseCase'', uc_params = [database, cache]\<rparr>),
          (''LoginRequest'', \<lparr>uc_name = ''LoginUseCase'', uc_params = [services, database, hasher]\<rparr>),
          (''LogoutRequest'', \<lparr>uc_name = ''LogoutUseCase'', uc_params = [services]\<rparr>),
          (''RefreshTokenRequest'', \<lparr>uc_name = ''RefreshTokenUseCase'', uc_params = [services]\<rparr>),
          (''ConfirmRegisterRequest'',
             \<lparr>uc_name = ''ConfirmRegisterUseCase'', uc_params = [services, database, hasher, cache]\<rparr>),
          (''PermissionRequest'', \<lparr>uc_name = ''PermissionUseCase'', uc_params = [services, database]\<rparr>),
          (''CreateUserRequest'', \<lparr>uc_name = ''CreateUserUseCase'', uc_params = [database, hasher]\<rparr>),
          (''SelectUserRequest'', \<lparr>uc_name = ''SelectUserUseCase'', uc_params = [database]\<rparr>),
          (''SelectManyUserRequest'', \<lparr>uc_name = ''SelectManyUserUseCase'', uc_params = [database]\<rparr>),
          (''UpdateUserRequest'', \<lparr>uc_name = ''UpdateUserUseCase'', uc_params = [database, hasher]\<rparr>)])"

definition provider_dependencies :: "(string \<times> dependency) list" where
  "provider_dependencies =
     [(''hasher'', Plain ''hasher''), (''cache'', Plain ''cache''), (''services'', Plain ''services''),
      (''database'', Callable ''database_factory''), (''event_bus'', Plain ''event_bus'')]"

lemma predict_missing:
  "(k, a) \<in> set provided \<Longrightarrow> k \<notin> fst ` set required \<Longrightarrow> k \<notin> set nc \<Longrightarrow>
    \<exists>m. predict_dependency_or_raise provided required nc = Inl (PyTypeError m)"
  by (auto simp: predict_dependency_or_raise_def Let_def filter_empty_conv)

section \<open>Events (common/events)\<close>

text \<open>
  An event with its class, its subject, its private attributes and its other fields; the class is
  given by the chain of its base classes, itself first.
\<close>

record event =
  ev_class :: "string list"
  ev_subject :: string
  ev_reply :: string
  ev_headers :: "pydict option"
  ev_stream :: "string option"
  ev_timeout :: "int option"
  ev_fields :: pydict

definition broker_event_chain :: "string list" where
  "broker_event_chain = [''BrokerEvent'', ''Event'']"

definition stream_event_chain :: "string list" where
  "stream_event_chain = ''StreamEvent'' # broker_event_chain"

text \<open>
  \<open>rebuild_broker_event\<close> and \<open>rebuild_stream_event\<close>: the derived class, named like the decorated one,
  sets defaults and \<open>model_post_init\<close> puts the name space in front of the subject.
\<close>

record rebuild =
  rb_subject :: string
  rb_namespace :: "string option"
  rb_separator :: string
  rb_reply :: string
  rb_stream :: "string option"
  rb_timeout :: "int option"
  rb_headers :: "pydict option"

definition post_init_subject :: "rebuild \<Rightarrow> string \<Rightarrow> string" where
  "post_init_subject b self_subject =
     (if truthy_str (rb_namespace b)
      then (if self_subject \<noteq> [] then the (rb_namespace b) @ rb_separator b @ self_subject
            else the (rb_namespace b))
      else if self_subject = [] \<and> rb_subject b \<noteq> [] then rb_subject b
      else self_subject)"

definition rebuild_broker_event ::
  "rebuild \<Rightarrow> string \<Rightarrow> string list \<Rightarrow> string option \<Rightarrow> pydict \<Rightarrow> event" where
  "rebuild_broker_event b name bases subject fs =
     \<lparr>ev_class = name # name # bases,
      ev_subject = post_init_subject b (case subject of Some s \<Rightarrow> s | None \<Rightarrow> rb_subject b),
      ev_reply = rb_reply b, ev_headers = rb_headers b, ev_stream = None, ev_timeout = None,
      ev_fields = fs\<rparr>"

definition rebuild_stream_event ::
  "rebuild \<Rightarrow> string \<Rightarrow> string list \<Rightarrow> string option \<Rightarrow> pydict \<Rightarrow> event" where
  "rebuild_stream_event b name bases subject fs =
     \<lparr>ev_class = name # name # bases,
      ev_subject = post_init_subject b (case subject of Some s \<Rightarrow> s | None \<Rightarrow> rb_subject b),
      ev_reply = [], ev_headers = rb_headers b, ev_stream = rb_stream b, ev_timeout = rb_timeout b,
      ev_fields = fs\<rparr>"

text \<open>\<open>UserRegistered\<close> of \<open>application/v1/events/user.py\<close>, and what the consumers listen to.\<close>

definition user_registered :: "string option \<Rightarrow> uuid \<Rightarrow> string \<Rightarrow> event" where
  "user_registered subject user_uuid login =
     rebuild_stream_event
       \<lparr>rb_subject = [], rb_namespace = Some ''user.registered'', rb_separator = ''.'', rb_reply = [],
        rb_stream = Some ''user_events'', rb_timeout = None, rb_headers = None\<rparr>
       ''UserRegistered'' stream_event_chain subject
       [(''user_uuid'', PUuid user_uuid), (''login'', PStr login)]"

definition USER_REGISTERED :: string where
  "USER_REGISTERED = ''user.registered''"

definition USER_EVENTS :: string where
  "USER_EVENTS = ''user_events''"

section \<open>Brokers (infrastructure/broker/nats)\<close>

text \<open>\<open>decode_payload\<close>, the decoder of the consumers: \<open>msgpack.unpackb\<close> is the parameter.\<close>

definition decode_payload :: "(string \<Rightarrow> exn + pyval) \<Rightarrow> string \<Rightarrow> exn + pyval" where
  "decode_payload unpack payload = unpack payload"

text \<open>\<open>encode_event\<close>: the JSON form of the fields without the subject and without empty ones.\<close>

fun json_value :: "pyval \<Rightarrow> pyval" where
  "json_value (PUuid u) = PStr (uuid_str u)"
| "json_value v = v"

definition encode_event :: "(pydict \<Rightarrow> string) \<Rightarrow> event \<Rightarrow> string" where
  "encode_event pack e =
     pack (map (\<lambda>(k, v). (k, json_value v))
       (filter (\<lambda>(k, v). k \<noteq> ''subject'' \<and> v \<noteq> PNone) (ev_fields e)))"

record nats_message =
  nm_subject :: string
  nm_payload :: string
  nm_reply :: string
  nm_headers :: pydict

record jetstream_message =
  jm_subject :: string
  jm_payload :: string
  jm_stream :: "string option"
  jm_timeout :: "int option"
  jm_headers :: pydict

definition nats_build_message :: "(pydict \<Rightarrow> string) \<Rightarrow> event \<Rightarrow> nats_message" where
  "nats_build_message pack e =
     \<lparr>nm_subject = ev_subject e, nm_payload = encode_event pack e, nm_reply = [],
      nm_headers = (case ev_headers e of Some h \<Rightarrow> h | None \<Rightarrow> [])\<rparr>"

definition jetstream_build_message :: "(pydict \<Rightarrow> string) \<Rightarrow> event \<Rightarrow> jetstream_message" where
  "jetstream_build_message pack e =
     \<lparr>jm_subject = ev_subject e, jm_payload = encode_event pack e, jm_stream = ev_stream e,
      jm_timeout = ev_timeout e, jm_headers = (case ev_headers e of Some h \<Rightarrow> h | None \<Rightarrow> [])\<rparr>"

text \<open>A call of a client: subject, payload, the further arguments, and \<open>headers or None\<close>.\<close>

datatype published =
    NatsPublish string string string "pydict option"
  | JetStreamPublish string string "string option" "int option" "pydict option"

definition or_none :: "pydict \<Rightarrow> pydict option" where
  "or_none h = (if h = [] then None else Some h)"

definition nats_publish :: "nats_message \<Rightarrow> (published list, unit) io" where
  "nats_publish m log =
     (Inr (), log @ [NatsPublish (nm_subject m) (nm_payload m) (nm_reply m) (or_none (nm_headers m))])"

definition jetstream_publish :: "jetstream_message \<Rightarrow> (published list, unit) io" where
  "jetstream_publish m log =
     (Inr (), log @ [JetStreamPublish (jm_subject m) (jm_payload m) (jm_stream m) (jm_timeout m)
        (or_none (jm_headers m))])"

datatype broker = NatsBroker | NatsJetStreamBroker

text \<open>The event type a broker class names as the argument of its generic base, as \<open>_resolve_event\<close>.\<close>

fun resolve_event :: "broker \<Rightarrow> string" where
  "resolve_event NatsBroker = ''BrokerEvent''"
| "resolve_event NatsJetStreamBroker = ''StreamEvent''"

fun broker_send :: "(pydict \<Rightarrow> string) \<Rightarrow> broker \<Rightarrow> event \<Rightarrow> (published list, unit) io" where
  "broker_send pack NatsBroker e = nats_publish (nats_build_message pack e)"
| "broker_send pack NatsJetStreamBroker e = jetstream_publish (jetstream_build_message pack e)"

section \<open>EventBusImpl (bus/event\_bus.py)\<close>

definition event_bus_build :: "broker list \<Rightarrow> string \<Rightarrow> broker option" where
  "event_bus_build brokers = fold (\<lambda>b registry. registry(resolve_event b \<mapsto> b)) brokers Map.empty"

text \<open>\<open>Event.__subclasses__()\<close>: the classes whose first base is \<open>Event\<close>; the program has one.\<close>

definition event_subclasses :: "string list" where
  "event_subclasses = [''BrokerEvent'']"

fun resolve_broker_in :: "string list \<Rightarrow> (string \<Rightarrow> broker option) \<Rightarrow> event \<Rightarrow> exn + broker" where
  "resolve_broker_in [] registry e = Inl (PyValueError ''Broker for event not found'')"
| "resolve_broker_in (c # cs) registry e =
     (if c \<in> set (ev_class e)
      then (case registry c of Some b \<Rightarrow> Inr b | None \<Rightarrow> Inl (PyKeyError c))
      else resolve_broker_in cs registry e)"

definition resolve_broker :: "(string \<Rightarrow> broker option) \<Rightarrow> event \<Rightarrow> exn + broker" where
  "resolve_broker = resolve_broker_in event_subclasses"

definition event_bus_send ::
  "(pydict \<Rightarrow> string) \<Rightarrow> (string \<Rightarrow> broker option) \<Rightarrow> event \<Rightarrow> (published list, unit) io" where
  "event_bus_send pack registry e =
     io_bind (io_lift (resolve_broker registry e)) (\<lambda>b. broker_send pack b e)"

definition event_bus_send_wrapped ::
  "(broker \<Rightarrow> event \<Rightarrow> (published list, unit) io) \<Rightarrow> (string \<Rightarrow> broker option) \<Rightarrow> event \<Rightarrow>
    (published list, unit) io" where
  "event_bus_send_wrapped execute registry e =
     io_bind (io_lift (resolve_broker registry e)) (\<lambda>b. execute b e)"

section \<open>Properties\<close>

text \<open>
  C37: the wiring of the application.  With the dependencies of the provider the set-up of the bus
  succeeds, and sending one of the ten requests runs its own use case, built with its own dependencies,
  as listed here: the gateways and the hasher are the shared ones, the database is made anew for every request.
  Any other request is a \<open>KeyError\<close>.
\<close>

theorem request_bus_wiring:
  "\<exists>b. bus_build provider_dependencies setup_use_cases = Inr b \<and>
    (\<forall>request n. bus_send run b request n =
      (case map_of
         [(''RegisterRequest'', ''RegisterUseCase'', [''database'', ''cache'']),
          (''LoginRequest'', ''LoginUseCase'', [''services'', ''database'', ''hasher'']),
          (''LogoutRequest'', ''LogoutUseCase'', [''services'']),
          (''RefreshTokenRequest'', ''RefreshTokenUseCase'', [''services'']),
          (''ConfirmRegisterRequest'', ''ConfirmRegisterUseCase'',
            [''services'', ''database'', ''hasher'', ''cache'']),
          (''PermissionRequest'', ''PermissionUseCase'', [''services'', ''database'']),
          (''CreateUserRequest'', ''CreateUserUseCase'', [''database'', ''hasher'']),
          (''SelectUserRequest'', ''SelectUserUseCase'', [''database'']),
          (''SelectManyUserRequest'', ''SelectManyUserUseCase'', [''database'']),
          (''UpdateUserRequest'', ''UpdateUserUseCase'', [''database'', ''hasher''])] request of
         Some (name, deps) \<Rightarrow>
           run \<lparr>ui_name = name, ui_injected =
              map (\<lambda>k. (k, if k = ''database'' then Fresh ''database_factory'' n else Shared k)) deps\<rparr>
            (if ''database'' \<in> set deps then Suc n else n)
       | None \<Rightarrow> (Inl (PyKeyError (''Use case for `'' @ request @ ''` is not registered'')), n)))"
  by (auto simp: bus_build_def setup_use_cases_def provider_dependencies_def bus_register_def
      predict_dependency_or_raise_def Let_def bus_send_def get_use_case_def use_case_factory_def io_simps)

text \<open>
  A use case with a parameter no dependency has a name for is refused when it is registered.
\<close>

theorem missing_dependency_is_refused:
  assumes "(k, a) \<in> set (uc_params c)" and "k \<notin> fst ` set (rb_dependencies b)" and "k \<noteq> ''request''"
  shows "\<exists>m. bus_register b request c = Inl (PyTypeError m)"
  using predict_missing [OF assms(1,2), of "[''request'']"] assms(3)
  by (auto simp: bus_register_def)

theorem missing_dependency_is_refused_witness:
  "\<exists>m. bus_register \<lparr>rb_registry = Map.empty, rb_dependencies = provider_dependencies\<rparr> ''R''
     \<lparr>uc_name = ''U'', uc_params = [(''mailer'', ''Mailer'')]\<rparr> = Inl (PyTypeError m)"
  using missing_dependency_is_refused [of "''mailer''" "''Mailer''"
      "\<lparr>uc_name = ''U'', uc_params = [(''mailer'', ''Mailer'')]\<rparr>"
      "\<lparr>rb_registry = Map.empty, rb_dependencies = provider_dependencies\<rparr>"]
  by (simp add: provider_dependencies_def)

text \<open>
  Stream events do not reach JetStream.  The event bus looks for a broker among the direct
  subclasses of \<open>Event\<close> only, so with both brokers registered every event of the program, a stream
  event too, is published once by the plain NATS broker, with its subject and payload but without
  its stream, its timeout and its reply subject.
\<close>

theorem stream_events_bypass_jetstream:
  assumes "''BrokerEvent'' \<in> set (ev_class e)"
  shows "event_bus_send pack (event_bus_build [NatsBroker, NatsJetStreamBroker]) e log =
      (Inr (), log @ [NatsPublish (ev_subject e) (encode_event pack e) []
        (or_none (case ev_headers e of Some h \<Rightarrow> h | None \<Rightarrow> []))]) \<and>
    event_bus_send pack (event_bus_build [NatsJetStreamBroker, NatsBroker]) e log =
      event_bus_send pack (event_bus_build [NatsBroker, NatsJetStreamBroker]) e log"
  using assms
  by (simp add: event_bus_send_def event_bus_build_def resolve_broker_def event_subclasses_def
      nats_publish_def nats_build_message_def io_simps)

theorem stream_events_bypass_jetstream_witness:
  "snd (event_bus_send (\<lambda>_. ''p'') (event_bus_build [NatsBroker, NatsJetStreamBroker])
     (user_registered None (UUID ''u'') ''bob'') []) =
   [NatsPublish ''user.registered'' ''p'' [] None]"
  using stream_events_bypass_jetstream [of "user_registered None (UUID ''u'') ''bob''" "\<lambda>_. ''p''" "[]"]
  by (simp add: user_registered_def rebuild_stream_event_def stream_event_chain_def
      broker_event_chain_def post_init_subject_def or_none_def encode_event_def)

text \<open>
  The event of a registration is published under the subject and for the stream the consumers
  name, unless a subject is given, which comes behind it; its payload holds the identifier and the
  login, and never the subject.
\<close>

theorem user_registered_matches_consumers:
  "ev_subject (user_registered None u login) = USER_REGISTERED \<and>
   ev_stream (user_registered subject u login) = Some USER_EVENTS \<and>
   (s \<noteq> [] \<longrightarrow> ev_subject (user_registered (Some s) u login) = USER_REGISTERED @ ''.'' @ s) \<and>
   encode_event pack (user_registered subject u login) =
     pack [(''user_uuid'', PStr (uuid_str u)), (''login'', PStr login)]"
  by (simp add: user_registered_def rebuild_stream_event_def post_init_subject_def
      USER_REGISTERED_def USER_EVENTS_def encode_event_def)

theorem user_registered_matches_consumers_witness:
  "ev_subject (user_registered (Some ''eu'') (UUID ''u'') ''bob'') = ''user.registered.eu''"
  using user_registered_matches_consumers [of "UUID ''u''" "''bob''" None "''eu''"]
  by (simp add: USER_REGISTERED_def)

end
