(* ===== verification/Object_Graphs.thy ===== *)
theory Object_Graphs
  imports Models
begin

text \<open>
  \<open>Base.as_dict\<close> on model objects that share and refer to each other: \<open>User.role\<close> and \<open>Role.users\<close>
  populate each other, so that the objects of a session are a graph and need not be a tree.  The
  recursion goes down the stack of Python, which has a limit; without a result the call is the
  \<open>RecursionError\<close>.
\<close>

section \<open>Objects that refer to each other\<close>

datatype slot =
    SValue pyval
  | SRef nat
  | SSeq "(pyval + nat) list"

type_synonym graph = "nat \<Rightarrow> (string \<times> slot) list"

definition slot_refs :: "slot \<Rightarrow> nat list" where
  "slot_refs v =
     (case v of SValue _ \<Rightarrow> [] | SRef b \<Rightarrow> [b]
      | SSeq xs \<Rightarrow> [b. x \<leftarrow> xs, b \<leftarrow> (case x of Inl _ \<Rightarrow> [] | Inr b \<Rightarrow> [b])])"

abbreviation public_slots :: "(string \<times> slot) list \<Rightarrow> (string \<times> slot) list" where
  "public_slots fs \<equiv> filter (\<lambda>(k, _). \<not> private_attr k) fs"

text \<open>All results or none.\<close>

fun all_or_none :: "'a option list \<Rightarrow> 'a list option" where
  "all_or_none [] = Some []"
| "all_or_none (None # xs) = None"
| "all_or_none (Some x # xs) = map_option ((#) x) (all_or_none xs)"

lemma all_or_none_None: "all_or_none xs = None \<longleftrightarrow> None \<in> set xs"
  by (induction xs rule: all_or_none.induct) auto

lemma all_or_none_map: "all_or_none (map (map_option f) xs) = map_option (map f) (all_or_none xs)"
  by (induction xs rule: all_or_none.induct) (auto simp: option.map_comp comp_def)

text \<open>The dictionary of an object, given those of the objects it refers to.\<close>

definition slot_value :: "(nat \<Rightarrow> pydict option) \<Rightarrow> slot \<Rightarrow> pyval option" where
  "slot_value f v =
     (case v of
        SValue x \<Rightarrow> Some x
      | SRef b \<Rightarrow> map_option PDict (f b)
      | SSeq xs \<Rightarrow> map_option PList (all_or_none
          (map (\<lambda>x. case x of Inl y \<Rightarrow> Some y | Inr b \<Rightarrow> map_option PDict (f b)) xs)))"

definition slots_dict :: "(nat \<Rightarrow> pydict option) \<Rightarrow> (string \<times> slot) list \<Rightarrow> pydict option" where
  "slots_dict f fs = all_or_none (map (\<lambda>(k, v). map_option (Pair k) (slot_value f v)) (public_slots fs))"

text \<open>The call with \<open>n\<close> frames left on the stack.\<close>

primrec graph_as_dict :: "nat \<Rightarrow> graph \<Rightarrow> nat \<Rightarrow> pydict option" where
  "graph_as_dict 0 G = (\<lambda>a. None)"
| "graph_as_dict (Suc n) G = (\<lambda>a. slots_dict (graph_as_dict n G) (G a))"

section \<open>On a tree it is \<open>as_dict\<close>\<close>

definition slot_attr :: "(nat \<Rightarrow> (string \<times> attr) list option) \<Rightarrow> slot \<Rightarrow> attr option" where
  "slot_attr f v =
     (case v of
        SValue x \<Rightarrow> Some (AValue x)
      | SRef b \<Rightarrow> map_option AModel (f b)
      | SSeq xs \<Rightarrow> map_option ASeq (all_or_none
          (map (\<lambda>x. case x of Inl y \<Rightarrow> Some (Inl y) | Inr b \<Rightarrow> map_option Inr (f b)) xs)))"

definition slots_attrs ::
  "(nat \<Rightarrow> (string \<times> attr) list option) \<Rightarrow> (string \<times> slot) list \<Rightarrow> (string \<times> attr) list option" where
  "slots_attrs f fs = all_or_none (map (\<lambda>(k, v). map_option (Pair k) (slot_attr f v)) (public_slots fs))"

text \<open>The tree below an object, to the depth \<open>n\<close>.\<close>

primrec unfold_graph :: "nat \<Rightarrow> graph \<Rightarrow> nat \<Rightarrow> (string \<times> attr) list option" where
  "unfold_graph 0 G = (\<lambda>a. None)"
| "unfold_graph (Suc n) G = (\<lambda>a. slots_attrs (unfold_graph n G) (G a))"

lemma as_dict_value_seq:
  "as_dict_value (ASeq vs) = PList (map (\<lambda>v. case v of Inl x \<Rightarrow> x | Inr fs \<Rightarrow> PDict (as_dict fs)) vs)"
  by (simp add: as_dict_def cong: sum.case_cong)

lemma slot_value_attr:
  "slot_value (\<lambda>b. map_option as_dict (f b)) v = map_option as_dict_value (slot_attr f v)"
proof (cases v)
  case (SSeq xs)
  let ?g = "\<lambda>v. case v of Inl x \<Rightarrow> x | Inr fs \<Rightarrow> PDict (as_dict fs)"
  let ?h = "\<lambda>x. case x of Inl y \<Rightarrow> Some (Inl y) | Inr b \<Rightarrow> map_option Inr (f b)"
  have eq: "map (\<lambda>x. case x of Inl y \<Rightarrow> Some y | Inr b \<Rightarrow> map_option PDict (map_option as_dict (f b))) xs =
      map (map_option ?g) (map ?h xs)"
    by (simp add: option.map_comp comp_def split: sum.split)
  have "slot_value (\<lambda>b. map_option as_dict (f b)) v =
      map_option PList (map_option (map ?g) (all_or_none (map ?h xs)))"
    unfolding slot_value_def SSeq slot.case eq all_or_none_map ..
  also have "\<dots> = map_option as_dict_value (slot_attr f v)"
    by (simp only: slot_attr_def SSeq slot.case option.map_comp comp_def as_dict_value_seq)
  finally show ?thesis .
qed (simp_all add: slot_value_def slot_attr_def option.map_comp comp_def)

lemma all_or_none_keys:
  "all_or_none (map (\<lambda>(k, v). map_option (Pair k) (g v)) ps) = Some as \<Longrightarrow> map fst as = map fst ps"
proof (induction ps arbitrary: as)
  case (Cons p ps)
  obtain k v where p: "p = (k, v)" by (cases p)
  from Cons.prems obtain x xs where "g v = Some x" "as = (k, x) # xs"
    "all_or_none (map (\<lambda>(k, v). map_option (Pair k) (g v)) ps) = Some xs"
    by (cases "g v") (auto simp: p)
  with Cons.IH show ?case by (simp add: p)
qed simp

lemma as_dict_public:
  assumes "\<forall>k \<in> set (map fst as). \<not> private_attr k"
  shows "as_dict as = map (\<lambda>(k, v). (k, as_dict_value v)) as"
  using assms by (induction as) (auto simp: as_dict_Cons)

lemma slots_dict_attrs:
  "slots_dict (\<lambda>b. map_option as_dict (f b)) fs = map_option as_dict (slots_attrs f fs)"
proof -
  let ?c = "\<lambda>(k, v). (k, as_dict_value v)"
  let ?h = "\<lambda>(k, v). map_option (Pair k) (slot_attr f v)"
  have "map (\<lambda>(k, v). map_option (Pair k) (slot_value (\<lambda>b. map_option as_dict (f b)) v)) (public_slots fs) =
      map (map_option ?c) (map ?h (public_slots fs))"
    by (simp add: slot_value_attr option.map_comp comp_def split_def)
  then have "slots_dict (\<lambda>b. map_option as_dict (f b)) fs = map_option (map ?c) (slots_attrs f fs)"
    unfolding slots_dict_def slots_attrs_def by (simp only: all_or_none_map)
  also have "\<dots> = map_option as_dict (slots_attrs f fs)"
  proof (cases "slots_attrs f fs")
    case (Some as)
    then have "map fst as = map fst (public_slots fs)"
      unfolding slots_attrs_def by (rule all_or_none_keys)
    then have "\<forall>k \<in> set (map fst as). \<not> private_attr k" by auto
    from as_dict_public [OF this] show ?thesis by (simp add: Some)
  qed simp
  finally show ?thesis .
qed

lemma graph_as_dict_unfold: "graph_as_dict n G a = map_option as_dict (unfold_graph n G a)"
proof (induction n arbitrary: a)
  case (Suc n)
  have "graph_as_dict n G = (\<lambda>b. map_option as_dict (unfold_graph n G b))"
    using Suc.IH by (simp add: fun_eq_iff)
  then show ?case by (simp add: slots_dict_attrs)
qed simp

section \<open>When it returns\<close>

text \<open>The objects an object refers to in a public attribute.\<close>

definition refers :: "graph \<Rightarrow> (nat \<times> nat) set" where
  "refers G = {(a, b). \<exists>(k, v) \<in> set (public_slots (G a)). b \<in> set (slot_refs v)}"

lemma slot_value_None: "slot_value f v = None \<longleftrightarrow> (\<exists>b \<in> set (slot_refs v). f b = None)"
proof (cases v)
  case (SSeq xs)
  have "(case x of Inl y \<Rightarrow> Some y | Inr b \<Rightarrow> map_option PDict (f b)) = None \<longleftrightarrow>
      (\<exists>b. x = Inr b \<and> f b = None)" for x
    by (cases x) simp_all
  then have "slot_value f v = None \<longleftrightarrow> (\<exists>b. Inr b \<in> set xs \<and> f b = None)"
    by (auto simp: SSeq slot_value_def all_or_none_None image_iff eq_commute [of None])
  moreover have "b \<in> set (slot_refs v) \<longleftrightarrow> Inr b \<in> set xs" for b
    by (force simp: SSeq slot_refs_def split: sum.splits)
  ultimately show ?thesis by auto
qed (simp_all add: slot_value_def slot_refs_def)

lemma slots_dict_None:
  "slots_dict f fs = None \<longleftrightarrow> (\<exists>(k, v) \<in> set (public_slots fs). \<exists>b \<in> set (slot_refs v). f b = None)"
  unfolding slots_dict_def all_or_none_None
  by (force simp: slot_value_None image_iff)

lemma graph_as_dict_None:
  "graph_as_dict (Suc n) G a = None \<longleftrightarrow> (\<exists>b. (a, b) \<in> refers G \<and> graph_as_dict n G b = None)"
  by (auto simp: slots_dict_None refers_def split_def)

lemma graph_as_dict_mono: "graph_as_dict n G a \<noteq> None \<Longrightarrow> n \<le> m \<Longrightarrow> graph_as_dict m G a \<noteq> None"
proof (induction n arbitrary: a m)
  case (Suc n)
  from Suc.prems(2) obtain m' where m: "m = Suc m'" "n \<le> m'" by (cases m) auto
  with Suc.IH Suc.prems(1) show ?case
    unfolding m(1) graph_as_dict_None by blast
qed simp

lemma cycle_overflows:
  "(a, b) \<in> (refers G)\<^sup>* \<Longrightarrow> (b, b) \<in> (refers G)\<^sup>+ \<Longrightarrow> graph_as_dict n G a = None"
proof (induction n arbitrary: a)
  case (Suc n)
  have "\<exists>a'. (a, a') \<in> refers G \<and> (a', b) \<in> (refers G)\<^sup>*"
  proof (cases "a = b")
    case True
    then show ?thesis using tranclD [OF Suc.prems(2)] by simp
  next
    case False
    then have "(a, b) \<in> (refers G)\<^sup>+" using Suc.prems(1) by (simp add: rtrancl_eq_or_trancl)
    then show ?thesis by (blast dest: tranclD)
  qed
  with Suc.IH Suc.prems(2) show ?case unfolding graph_as_dict_None by blast
qed simp

lemma acyclic_returns:
  assumes "finite {b. (a, b) \<in> (refers G)\<^sup>*}"
    and "\<forall>b. (a, b) \<in> (refers G)\<^sup>* \<longrightarrow> (b, b) \<notin> (refers G)\<^sup>+"
  shows "graph_as_dict (card {b. (a, b) \<in> (refers G)\<^sup>*}) G a \<noteq> None"
  using assms
proof (induction "card {b. (a, b) \<in> (refers G)\<^sup>*}" arbitrary: a rule: less_induct)
  case less
  let ?R = "\<lambda>a. {b. (a, b) \<in> (refers G)\<^sup>*}"
  have "graph_as_dict (card (?R a) - 1) G b \<noteq> None" if b: "(a, b) \<in> refers G" for b
  proof -
    have sub: "?R b \<subseteq> ?R a" using b by (auto intro: converse_rtrancl_into_rtrancl)
    have "a \<notin> ?R b"
      using less.prems(2) b by (auto dest: rtrancl_into_trancl2)
    with sub have "?R b \<subset> ?R a" by blast
    then have c: "card (?R b) < card (?R a)" using less.prems(1) by (rule psubset_card_mono [rotated])
    have "finite (?R b)" using sub less.prems(1) by (rule finite_subset)
    moreover have "\<forall>x. (b, x) \<in> (refers G)\<^sup>* \<longrightarrow> (x, x) \<notin> (refers G)\<^sup>+"
      using sub less.prems(2) by blast
    ultimately have "graph_as_dict (card (?R b)) G b \<noteq> None" by (rule less.hyps [OF c])
    moreover have "card (?R b) \<le> card (?R a) - 1" using c by simp
    ultimately show ?thesis by (rule graph_as_dict_mono)
  qed
  moreover have "card (?R a) = Suc (card (?R a) - 1)"
  proof -
    have "?R a \<noteq> {}" by blast
    then have "card (?R a) \<noteq> 0" using less.prems(1) by (simp only: card_eq_0_iff) simp
    then show ?thesis by simp
  qed
  ultimately show ?case
    using graph_as_dict_None [of "card (?R a) - 1" G a] by metis
qed

section \<open>Properties\<close>

text \<open>
  C39: When \<open>as_dict\<close> returns.  On an object that reaches finitely many others it returns, with enough
  stack, if and only if no object it reaches through public attributes reaches itself; then as many
  frames as there are objects are enough, and the result is the one of the tree of \<open>Models\<close>.  A
  cycle is a \<open>RecursionError\<close> whatever the limit.
\<close>

theorem as_dict_terminates:
  assumes "finite {b. (a, b) \<in> (refers G)\<^sup>*}"
  shows "(\<exists>n d. graph_as_dict n G a = Some d) =
      (\<forall>b. (a, b) \<in> (refers G)\<^sup>* \<longrightarrow> (b, b) \<notin> (refers G)\<^sup>+) \<and>
    (\<forall>n d. graph_as_dict n G a = Some d \<longrightarrow>
      graph_as_dict (card {b. (a, b) \<in> (refers G)\<^sup>*}) G a \<noteq> None \<and>
      (\<exists>t. unfold_graph n G a = Some t \<and> as_dict t = d))"
proof -
  have "(b, b) \<notin> (refers G)\<^sup>+" if "graph_as_dict n G a = Some d" "(a, b) \<in> (refers G)\<^sup>*" for n d b
    using cycle_overflows [OF that(2), of n] that(1) by auto
  then show ?thesis
    using acyclic_returns [OF assms] by (auto simp: graph_as_dict_unfold)
qed

text \<open>
  A user with its role, and the same with the users of the role loaded too: relationships of one
  session fill each other in.
\<close>

definition user_and_role :: "bool \<Rightarrow> graph" where
  "user_and_role loaded a =
     (if a = 0 then [(''_sa_instance_state'', SRef 0), (''login'', SValue (PStr ''bob'')), (''role'', SRef 1)]
      else if a = 1 then (''name'', SValue (PStr ''User'')) # (if loaded then [(''users'', SSeq [Inr 0])] else [])
      else [])"

lemma refers_iff:
  "(a, b) \<in> refers G \<longleftrightarrow> b \<in> set (concat (map (\<lambda>(k, v). slot_refs v) (public_slots (G a))))"
  by (auto simp: refers_def)

lemma user_and_role_refers:
  "refers (user_and_role loaded) = (if loaded then {(0, 1), (1, 0)} else {(0, 1)})"
proof -
  have "(a, b) \<in> refers (user_and_role loaded) \<longleftrightarrow> a = 0 \<and> b = 1 \<or> loaded \<and> a = 1 \<and> b = 0" for a b
  proof -
    have refs: "concat (map (\<lambda>(k, v). slot_refs v) (public_slots (user_and_role loaded a))) =
        (if a = 0 then [1] else if a = 1 \<and> loaded then [0] else [])"
      by (cases "a = 0"; cases "a = 1"; cases loaded)
        (simp_all add: user_and_role_def slot_refs_def private_attr_def)
    show ?thesis unfolding refers_iff refs by auto
  qed
  then show ?thesis by (auto simp del: One_nat_def)
qed

theorem as_dict_terminates_witness:
  "graph_as_dict 2 (user_and_role False) 0 =
     Some [(''login'', PStr ''bob''), (''role'', PDict [(''name'', PStr ''User'')])] \<and>
   (\<forall>n. graph_as_dict n (user_and_role True) 0 = None)"
proof -
  have r: "refers (user_and_role True) = {(0, 1), (1, 0)}" by (simp add: user_and_role_refers)
  have "{b. (0 :: nat, b) \<in> {(0, 1), (1, 0)}\<^sup>*} \<subseteq> {0, 1}"
    by (auto elim: rtrancl.cases)
  then have "finite {b. (0, b) \<in> (refers (user_and_role True))\<^sup>*}"
    unfolding r by (rule finite_subset) simp
  moreover have "(0, 0) \<in> (refers (user_and_role True))\<^sup>+"
    unfolding r by (meson insertI1 insertI2 trancl.simps)
  ultimately have "\<forall>n. graph_as_dict n (user_and_role True) 0 = None"
    using as_dict_terminates [of 0 "user_and_role True"] by (metis not_None_eq rtrancl.rtrancl_refl)
  moreover have "graph_as_dict 2 (user_and_role False) 0 =
     Some [(''login'', PStr ''bob''), (''role'', PDict [(''name'', PStr ''User'')])]"
    by code_simp
  ultimately show ?thesis by blast
qed

end
