(* ===== verification/Http_Client.thy ===== *)
theory Http_Client
  imports Errors
begin

text \<open>
  The outbound HTTP client, \<open>src/infrastructure/http\<close>: the errors, the middlewares and the way they
  wrap a request, the session of the aiohttp provider as a state machine, the resolution of URLs,
  and the client.  aiohttp, aiohttp-socks and \<open>urllib.parse\<close>'s join are parameters.
\<close>

section \<open>Errors (provider/errors.py)\<close>

datatype api_class =
    APIError
  | ApiBadRequest
  | ApiNotFound
  | ApiConflict
  | ApiUnauthorized
  | ApiForbidden
  | EntityTooLarge
  | ApiServerError
  | ApiTooManyRequests

record api_error =
  ae_class :: api_class
  ae_status :: int
  ae_content :: string
  ae_message :: string
  ae_url :: "string option"

datatype http_error =
    ApiErr api_error
  | NetworkError string
  | HttpTypeError string
  | HttpValueError string
  | HttpRuntimeError string
  | HttpIndexError string
  | HttpNotImplementedError
  | ClientRaised string

definition detailed_error_str :: "string \<Rightarrow> string \<Rightarrow> string option \<Rightarrow> string" where
  "detailed_error_str message content url =
     message @ [CHR 0x0A] @ content @
     (if truthy_str url
      then [CHR 0x0A] @ ''(background on this error at: '' @ the url @ '')'' else [])"

definition api_error_str :: "api_error \<Rightarrow> string" where
  "api_error_str e =
     ''Status: '' @ int_str (ae_status e) @ '': '' @ ''Server says'' @ '' - '' @
     detailed_error_str (ae_message e) (ae_content e) (ae_url e)"

section \<open>Responses and the error middleware (middleware/error.py)\<close>

text \<open>The adapter keeps the body it read when it was built.\<close>

record response =
  rs_status :: int
  rs_url :: string
  rs_content :: string
  rs_headers :: "(string \<times> string) list"
  rs_cookies :: "(string \<times> string) list"

definition check_response :: "response \<Rightarrow> http_error + response" where
  "check_response r =
     (let code = rs_status r;
          fail = (\<lambda>c m. Inl (ApiErr \<lparr>ae_class = c, ae_status = code, ae_content = rs_content r,
            ae_message = m, ae_url = Some (rs_url r)\<rparr>))
      in if 200 \<le> code \<and> code \<le> 226 then Inr r
         else if code = 400 then fail ApiBadRequest ''Bad request''
         else if code = 429 then fail ApiTooManyRequests ''Too many requests''
         else if code = 404 then fail ApiNotFound ''Not found''
         else if code = 409 then fail ApiConflict ''Conflict''
         else if code = 401 then fail ApiUnauthorized ''Auth is required''
         else if code = 403 then fail ApiForbidden ''You have no permissions''
         else if code = 413 then fail EntityTooLarge ''Too large content''
         else if code = 500 then fail ApiServerError ''Server is disabled or you are banned''
         else fail APIError ''Unknown Error'')"

section \<open>Middlewares (middleware/manager.py, middleware/logging.py)\<close>

text \<open>
  A request as it goes down the chain, a handler of it on the state \<open>'s\<close>, and a middleware, which
  gets the next handler.
\<close>

record out_request =
  oq_method :: string
  oq_url :: string
  oq_kw :: pydict

type_synonym 's handler = "out_request \<Rightarrow> (http_error, 's, response) comp"
type_synonym 's middleware = "'s handler \<Rightarrow> 's handler"

definition error_middleware :: "'s middleware" where
  "error_middleware call_next q =
     io_bind (call_next q) (\<lambda>r. io_lift (check_response r))"

text \<open>The log is part of the state: \<open>write\<close> appends a line to it.\<close>

definition log_line :: "bool \<Rightarrow> out_request \<Rightarrow> pydict" where
  "log_line detailed q =
     (''event'', PStr ''outbound_request'') # (''method'', PStr (oq_method q)) #
     (''url'', PStr (oq_url q)) # (if detailed then [(''params'', PDict (oq_kw q))] else [])"

definition logging_middleware :: "(pydict \<Rightarrow> 's \<Rightarrow> 's) \<Rightarrow> bool \<Rightarrow> 's middleware" where
  "logging_middleware write detailed call_next q s = call_next q (write (log_line detailed q) s)"

text \<open>
  \<open>wrap_middleware\<close>: from the last registered to the first, so that the first is the outermost.
  The loop is a left fold over the reversed list.
\<close>

definition wrap_middleware :: "'s middleware list \<Rightarrow> 's handler \<Rightarrow> 's handler" where
  "wrap_middleware ms callback = fold (\<lambda>m middleware. m middleware) (rev ms) callback"

definition register_middleware :: "'a list \<Rightarrow> 'a \<Rightarrow> 'a list" where
  "register_middleware ms m = ms @ [m]"

text \<open>\<open>list.remove\<close>: the first occurrence, or \<open>ValueError\<close>.\<close>

definition unregister_middleware :: "'a list \<Rightarrow> 'a \<Rightarrow> http_error + 'a list" where
  "unregister_middleware ms m =
     (if m \<in> set ms then Inr (remove1 m ms)
      else Inl (HttpValueError ''list.remove(x): x not in list''))"

lemma wrap_middleware_foldr: "wrap_middleware ms callback = foldr (\<lambda>m next. m next) ms callback"
  by (simp add: wrap_middleware_def foldr_conv_fold)

lemma wrap_middleware_Cons: "wrap_middleware (m # ms) callback = m (wrap_middleware ms callback)"
  by (simp add: wrap_middleware_foldr)

lemma wrap_middleware_Nil: "wrap_middleware [] callback = callback"
  by (simp add: wrap_middleware_foldr)

lemma wrap_middleware_append:
  "wrap_middleware (ms @ ns) callback = wrap_middleware ms (wrap_middleware ns callback)"
  by (simp add: wrap_middleware_foldr)

section \<open>Proxies (provider/aiohttp.py)\<close>

text \<open>
  A proxy is a URL, or a URL with credentials; the setting is one proxy or a sequence of them, a
  tuple or not.  In Python a tuple of two, whatever it holds, is taken for a URL with credentials.
\<close>

datatype proxy_basic = ProxyUrl string | ProxyAuth string string string

datatype proxy_setting =
    OneProxy proxy_basic
  | ProxyTuple "proxy_basic list"
  | ProxyList "proxy_basic list"

record proxy_info =
  px_type :: string
  px_host :: string
  px_port :: int
  px_username :: "string option"
  px_password :: "string option"
  px_rdns :: bool

text \<open>
  \<open>parse_proxy_url\<close> of aiohttp-socks is the parameter \<open>parse\<close>: type, host, port, user and password.
\<close>

type_synonym parsed_proxy = "string \<times> string \<times> int \<times> string option \<times> string option"

fun proxy_of :: "parsed_proxy \<Rightarrow> proxy_info" where
  "proxy_of (proxy_type, host, port, username, password) =
     \<lparr>px_type = proxy_type, px_host = host, px_port = port, px_username = username,
      px_password = password, px_rdns = True\<rparr>"

definition retrieve_basic ::
  "(string \<Rightarrow> http_error + parsed_proxy) \<Rightarrow> proxy_basic \<Rightarrow> http_error + proxy_info" where
  "retrieve_basic parse b =
     (case b of
        ProxyUrl u \<Rightarrow> map_sum id proxy_of (parse u)
      | ProxyAuth u login password \<Rightarrow>
          (case parse u of
             Inl e \<Rightarrow> Inl e
           | Inr i \<Rightarrow> Inr ((proxy_of i)\<lparr>px_username := Some login, px_password := Some password\<rparr>)))"

datatype connector = TCPConnector | ProxyConnector proxy_info | ChainProxyConnector "proxy_info list"

fun retrieve_all ::
  "(string \<Rightarrow> http_error + parsed_proxy) \<Rightarrow> proxy_basic list \<Rightarrow> http_error + proxy_info list" where
  "retrieve_all parse [] = Inr []"
| "retrieve_all parse (b # bs) =
     (case retrieve_basic parse b of
        Inl e \<Rightarrow> Inl e
      | Inr i \<Rightarrow> (case retrieve_all parse bs of Inl e \<Rightarrow> Inl e | Inr is \<Rightarrow> Inr (i # is)))"

text \<open>
  The pair of two proxies of a tuple: unpacking it as \<open>proxy_url, proxy_auth\<close> parses the first, and
  the second, no \<open>BasicAuth\<close>, is dropped; a first element that is itself a pair is no URL.
\<close>

definition prepare_connector ::
  "(string \<Rightarrow> http_error + parsed_proxy) \<Rightarrow> proxy_setting \<Rightarrow> http_error + connector" where
  "prepare_connector parse setting =
     (case setting of
        OneProxy b \<Rightarrow> map_sum id ProxyConnector (retrieve_basic parse b)
      | ProxyTuple [b, c] \<Rightarrow>
          (case b of
             ProxyUrl u \<Rightarrow> map_sum id ProxyConnector (retrieve_basic parse (ProxyUrl u))
           | ProxyAuth _ _ _ \<Rightarrow> Inl (HttpTypeError ''parse_proxy_url''))
      | ProxyTuple bs \<Rightarrow> map_sum id ChainProxyConnector (retrieve_all parse bs)
      | ProxyList bs \<Rightarrow> map_sum id ChainProxyConnector (retrieve_all parse bs))"

section \<open>The session of the provider\<close>

text \<open>
  A session object has a number and is open or closed; it gets the connector and the options of the
  provider, its headers and cookies among them.  \<open>pv_closed\<close> holds the numbers of the sessions
  that were closed, in order; \<open>pv_next\<close> is the number of the next one.
\<close>

text \<open>The names of \<open>ParamsType\<close>, and the entries of an option that is a dictionary of texts.\<close>

definition PARAMS :: "string list" where
  "PARAMS = [''loop'', ''timeout'', ''cookies'', ''headers'', ''json_serialize'', ''auth'',
     ''raise_for_status'', ''auto_decompress'']"

definition option_entries :: "pydict \<Rightarrow> string \<Rightarrow> (string \<times> string) list" where
  "option_entries kw name =
     (case dict_get kw name of
        Some (PDict d) \<Rightarrow> concat (map (\<lambda>(k, v). case v of PStr x \<Rightarrow> [(k, x)] | _ \<Rightarrow> []) d)
      | _ \<Rightarrow> [])"

record client_session =
  cs_id :: nat
  cs_connector :: connector
  cs_options :: pydict
  cs_closed :: bool
  cs_headers :: "(string \<times> string) list"
  cs_cookies :: "(string \<times> string) list"

record provider =
  pv_url :: "string option"
  pv_session :: "client_session option"
  pv_connector :: connector
  pv_should_reset :: bool
  pv_proxy :: "proxy_setting option"
  pv_kw :: pydict
  pv_closed :: "nat list"
  pv_next :: nat

text \<open>
  \<open>__init__\<close>.  A missing aiohttp-socks is the flag \<open>has_socks\<close>: its \<open>ImportError\<close> becomes a
  \<open>RuntimeError\<close> here (and is not caught in the setter of \<open>proxy\<close>).
\<close>

definition setup_proxy_connector ::
  "(string \<Rightarrow> http_error + parsed_proxy) \<Rightarrow> proxy_setting \<Rightarrow> (http_error, provider, unit) comp" where
  "setup_proxy_connector parse setting p =
     (case prepare_connector parse setting of
        Inl e \<Rightarrow> (Inl e, p)
      | Inr c \<Rightarrow> (Inr (), p\<lparr>pv_connector := c, pv_proxy := Some setting\<rparr>))"

definition new_provider ::
  "bool \<Rightarrow> (string \<Rightarrow> http_error + parsed_proxy) \<Rightarrow> string option \<Rightarrow> proxy_setting option \<Rightarrow>
    pydict \<Rightarrow> http_error + provider" where
  "new_provider has_socks parse url proxy kw =
     (let p = \<lparr>pv_url = url, pv_session = None, pv_connector = TCPConnector, pv_should_reset = True,
            pv_proxy = proxy, pv_kw = kw, pv_closed = [], pv_next = 0\<rparr>
      in case proxy of
           None \<Rightarrow> Inr p
         | Some setting \<Rightarrow>
             if \<not> has_socks
             then Inl (HttpRuntimeError ''In order to use aiohttp client for proxy requests, install aiohttp-socks'')
             else (case setup_proxy_connector parse setting p of
                 (Inl e, _) \<Rightarrow> Inl e | (Inr _, p') \<Rightarrow> Inr p'))"

definition set_proxy ::
  "(string \<Rightarrow> http_error + parsed_proxy) \<Rightarrow> proxy_setting \<Rightarrow> (http_error, provider, unit) comp" where
  "set_proxy parse setting =
     io_bind (setup_proxy_connector parse setting) (\<lambda>_ p. (Inr (), p\<lparr>pv_should_reset := True\<rparr>))"

definition session_open :: "provider \<Rightarrow> bool" where
  "session_open p \<longleftrightarrow> (case pv_session p of Some s \<Rightarrow> \<not> cs_closed s | None \<Rightarrow> False)"

definition close_session :: "(http_error, provider, unit) comp" where
  "close_session p =
     (case pv_session p of
        Some s \<Rightarrow>
          if \<not> cs_closed s
          then (Inr (), p\<lparr>pv_session := Some (s\<lparr>cs_closed := True\<rparr>), pv_closed := pv_closed p @ [cs_id s]\<rparr>)
          else (Inr (), p)
      | None \<Rightarrow> (Inr (), p))"

definition open_session :: "(http_error, provider, client_session) comp" where
  "open_session p =
     (let s = \<lparr>cs_id = pv_next p, cs_connector = pv_connector p, cs_options = pv_kw p, cs_closed = False,
            cs_headers = option_entries (pv_kw p) ''headers'', cs_cookies = option_entries (pv_kw p) ''cookies''\<rparr>
      in (Inr s, p\<lparr>pv_session := Some s, pv_should_reset := False, pv_next := Suc (pv_next p)\<rparr>))"

definition create_session :: "(http_error, provider, client_session) comp" where
  "create_session =
     io_bind (\<lambda>p. if pv_should_reset p then close_session p else (Inr (), p)) (\<lambda>_ p.
     case pv_session p of
       Some s \<Rightarrow> if cs_closed s then open_session p else (Inr s, p)
     | None \<Rightarrow> open_session p)"

text \<open>\<open>update_cookies\<close> and \<open>update_headers\<close> need an open session.\<close>

definition on_open_session ::
  "(client_session \<Rightarrow> client_session) \<Rightarrow> (http_error, provider, unit) comp" where
  "on_open_session f p =
     (case pv_session p of
        None \<Rightarrow> (Inl (HttpTypeError ''Cannot update headers while session is not connected''), p)
      | Some s \<Rightarrow>
          if cs_closed s then (Inl (HttpTypeError ''Cannot update headers while session disconnected''), p)
          else (Inr (), p\<lparr>pv_session := Some (f s)\<rparr>))"

definition update_cookies :: "(string \<times> string) list \<Rightarrow> (http_error, provider, unit) comp" where
  "update_cookies vals =
     on_open_session (\<lambda>s. s\<lparr>cs_cookies := fold (\<lambda>(k, v). AList.update k v) vals (cs_cookies s)\<rparr>)"

definition update_headers :: "(string \<times> string) list \<Rightarrow> (http_error, provider, unit) comp" where
  "update_headers vals =
     on_open_session (\<lambda>s. s\<lparr>cs_headers := fold (\<lambda>(k, v). AList.update k v) vals (cs_headers s)\<rparr>)"

text \<open>\<open>urlparse(x).scheme\<close> and \<open>urljoin\<close> are the parameters \<open>scheme\<close> and \<open>join\<close>.\<close>

record url_lib =
  ul_scheme :: "string \<Rightarrow> string"
  ul_join :: "string \<Rightarrow> string \<Rightarrow> string"

definition resolve_url :: "url_lib \<Rightarrow> string option \<Rightarrow> string \<Rightarrow> http_error + string" where
  "resolve_url U base url_or_endpoint =
     (if ul_scheme U url_or_endpoint \<noteq> [] then Inr url_or_endpoint
      else if \<not> truthy_str base
        then Inl (HttpValueError ''If you want to use endpoints you should provide url.'')
      else Inr (ul_join U (the base) url_or_endpoint))"

text \<open>
  \<open>make_request\<close>: what a session of aiohttp makes of a request is the parameter \<open>perform\<close>: a
  response, a timeout, or an error of the library with the name of its class.
\<close>

datatype outcome = Answer response | TimedOut | ClientFailed string

definition make_request ::
  "url_lib \<Rightarrow> (client_session \<Rightarrow> out_request \<Rightarrow> outcome) \<Rightarrow> provider handler" where
  "make_request U perform q =
     io_bind create_session (\<lambda>s p.
     io_bind (io_lift (resolve_url U (pv_url p) (oq_url q))) (\<lambda>url.
     case perform s (q\<lparr>oq_url := url\<rparr>) of
       Answer r \<Rightarrow> io_return r
     | TimedOut \<Rightarrow> io_raise (NetworkError ''Request timeout error'')
     | ClientFailed name \<Rightarrow> io_raise (NetworkError (name @ '' occurred''))) p)"

text \<open>
  \<open>stream_content\<close>: an async generator.  \<open>fetch\<close> gives the chunks aiohttp reads or the error it
  raises, which here nothing translates; whether a bad status is an error is one of its arguments.
\<close>

definition DEFAULT_CHUNK_SIZE :: int where
  "DEFAULT_CHUNK_SIZE = 65536"

definition stream_content ::
  "url_lib \<Rightarrow> (client_session \<Rightarrow> string \<Rightarrow> int \<Rightarrow> bool \<Rightarrow> pydict \<Rightarrow> string + string list) \<Rightarrow>
    string \<Rightarrow> int \<Rightarrow> bool \<Rightarrow> pydict \<Rightarrow> (http_error, provider, string list) comp" where
  "stream_content U fetch url_or_endpoint chunk_size raise_for_status kw =
     io_bind create_session (\<lambda>s p.
     io_bind (io_lift (resolve_url U (pv_url p) url_or_endpoint)) (\<lambda>url.
     case fetch s url chunk_size raise_for_status kw of
       Inr chunks \<Rightarrow> io_return chunks
     | Inl e \<Rightarrow> io_raise (ClientRaised e)) p)"

section \<open>AsyncProvider and Client (provider/base.py, clients/base.py)\<close>

definition provider_call ::
  "url_lib \<Rightarrow> (client_session \<Rightarrow> out_request \<Rightarrow> outcome) \<Rightarrow> provider middleware list \<Rightarrow> provider handler" where
  "provider_call U perform middlewares = wrap_middleware middlewares (make_request U perform)"

definition provider_aexit :: "(http_error, provider, unit) comp" where
  "provider_aexit = close_session"

definition client_url :: "provider \<Rightarrow> string \<Rightarrow> string" where
  "client_url p url = (if truthy_str (pv_url p) then the (pv_url p) else url)"

definition endpoint_url :: "url_lib \<Rightarrow> provider \<Rightarrow> string \<Rightarrow> string \<Rightarrow> string" where
  "endpoint_url U p url endpoint = ul_join U (client_url p url) endpoint"

text \<open>\<open>Client.send\<close> hands the provider to the request, whose \<open>handle\<close> uses it.\<close>

definition client_send ::
  "((http_error, provider, 'r) comp) \<Rightarrow> (http_error, provider, 'r) comp" where
  "client_send handle = handle"

section \<open>The life of a provider\<close>

text \<open>
  What users of a provider do to its session: requests (each one creates the session it needs),
  closing, and setting a proxy.
\<close>

inductive provider_step :: "provider \<Rightarrow> provider \<Rightarrow> bool" where
  step_create: "provider_step p (snd (create_session p))"
| step_close: "provider_step p (snd (close_session p))"
| step_proxy: "provider_step p (snd (set_proxy parse setting p))"
| step_update: "provider_step p (snd (update_headers vals p))"
| step_cookies: "provider_step p (snd (update_cookies vals p))"

inductive provider_reach :: "provider \<Rightarrow> bool" where
  reach_new: "new_provider has_socks parse url proxy kw = Inr p \<Longrightarrow> provider_reach p"
| reach_step: "provider_reach p \<Longrightarrow> provider_step p p' \<Longrightarrow> provider_reach p'"

inductive_simps provider_step_simps: "provider_step p p'"

text \<open>
  No session leaks: all but the last were closed, exactly once, and the last one was closed if and
  only if it says so.
\<close>

definition no_leak :: "provider \<Rightarrow> bool" where
  "no_leak p \<longleftrightarrow>
     (case pv_session p of
        None \<Rightarrow> pv_next p = 0 \<and> pv_closed p = []
      | Some s \<Rightarrow> pv_next p = Suc (cs_id s) \<and>
          pv_closed p = [0..<cs_id s] @ (if cs_closed s then [cs_id s] else []))"

lemma no_leak_close: "no_leak p \<Longrightarrow> no_leak (snd (close_session p)) \<and> \<not> session_open (snd (close_session p))"
  by (auto simp: no_leak_def close_session_def session_open_def split: option.split)

lemma no_leak_open: "no_leak p \<Longrightarrow> \<not> session_open p \<Longrightarrow> no_leak (snd (open_session p))"
  by (auto simp: no_leak_def open_session_def session_open_def Let_def split: option.splits)

lemma no_leak_create: "no_leak p \<Longrightarrow> no_leak (snd (create_session p))"
  using no_leak_close [of p] no_leak_open [of p] no_leak_open [of "snd (close_session p)"]
  by (auto simp: create_session_def io_bind_def session_open_def split: option.splits if_splits
      sum.splits)

text \<open>An open session that need not be reset uses the connector of the provider.\<close>

definition connector_current :: "provider \<Rightarrow> bool" where
  "connector_current p \<longleftrightarrow>
     (\<forall>s. pv_session p = Some s \<longrightarrow> \<not> cs_closed s \<longrightarrow> \<not> pv_should_reset p \<longrightarrow>
       cs_connector s = pv_connector p)"

lemma create_session_result:
  assumes "connector_current p"
  shows "\<exists>s. fst (create_session p) = Inr s \<and> \<not> cs_closed s \<and> cs_connector s = pv_connector p \<and>
    pv_session (snd (create_session p)) = Some s \<and> \<not> pv_should_reset (snd (create_session p)) \<and>
    pv_connector (snd (create_session p)) = pv_connector p"
  using assms
  by (auto simp: create_session_def io_bind_def close_session_def open_session_def Let_def
      connector_current_def split: option.split)

lemma new_provider_inv: "new_provider has_socks parse url proxy kw = Inr p \<Longrightarrow> no_leak p \<and> connector_current p"
  by (auto simp: new_provider_def Let_def setup_proxy_connector_def no_leak_def connector_current_def
      split: option.splits if_splits sum.splits)

lemma on_open_session_inv:
  assumes "no_leak p \<and> connector_current p"
    and "\<And>s. cs_id (f s) = cs_id s \<and> cs_closed (f s) = cs_closed s \<and> cs_connector (f s) = cs_connector s"
  shows "no_leak (snd (on_open_session f p)) \<and> connector_current (snd (on_open_session f p))"
  using assms by (auto simp: on_open_session_def no_leak_def connector_current_def split: option.split)

lemma set_proxy_inv:
  "no_leak p \<Longrightarrow> connector_current p \<Longrightarrow>
    no_leak (snd (set_proxy parse setting p)) \<and> connector_current (snd (set_proxy parse setting p))"
  by (auto simp: set_proxy_def setup_proxy_connector_def io_bind_def no_leak_def connector_current_def
      split: sum.split option.split)

lemma provider_step_inv:
  assumes "provider_step p p'" and "no_leak p \<and> connector_current p"
  shows "no_leak p' \<and> connector_current p'"
  using assms(1)
proof (cases rule: provider_step.cases)
  case step_create
  have "connector_current (snd (create_session p))"
    using create_session_result [of p] assms(2) by (auto simp: connector_current_def)
  with step_create show ?thesis using no_leak_create assms(2) by simp
next
  case step_close
  have "connector_current (snd (close_session p))"
    using no_leak_close [of p] assms(2)
    by (auto simp: connector_current_def session_open_def split: option.splits)
  with step_close show ?thesis using no_leak_close assms(2) by simp
next
  case (step_proxy parse setting)
  then show ?thesis using set_proxy_inv assms(2) by simp
next
  case (step_update vals)
  then show ?thesis using on_open_session_inv [OF assms(2)] by (simp add: update_headers_def)
next
  case (step_cookies vals)
  then show ?thesis using on_open_session_inv [OF assms(2)] by (simp add: update_cookies_def)
qed

lemma provider_reach_inv: "provider_reach p \<Longrightarrow> no_leak p \<and> connector_current p"
  by (induction rule: provider_reach.induct) (auto dest: new_provider_inv provider_step_inv)

text \<open>
  What an open session is given stays on it: a session that has to be opened anew has the headers and
  cookies of the options, whatever was set on the one before.
\<close>

lemma reopened_session:
  assumes "pv_should_reset p \<or> \<not> session_open p"
  shows "\<exists>s. fst (create_session p) = Inr s \<and>
    cs_headers s = option_entries (pv_kw p) ''headers'' \<and> cs_cookies s = option_entries (pv_kw p) ''cookies''"
  using assms
  by (auto simp: create_session_def io_bind_def close_session_def open_session_def Let_def session_open_def
      split: option.splits)

section \<open>Properties\<close>

text \<open>
  A change of the proxy forgets the headers and cookies that were set on the session: the next request
  has those of the options only.
\<close>

theorem proxy_forgets_headers:
  assumes "fst (set_proxy parse setting p) = Inr ()"
  shows "\<exists>s. fst (create_session (snd (set_proxy parse setting p))) = Inr s \<and>
    cs_headers s = option_entries (pv_kw p) ''headers'' \<and> cs_cookies s = option_entries (pv_kw p) ''cookies''"
proof -
  have "pv_should_reset (snd (set_proxy parse setting p))" "pv_kw (snd (set_proxy parse setting p)) = pv_kw p"
    using assms by (auto simp: set_proxy_def setup_proxy_connector_def io_bind_def split: sum.splits)
  with reopened_session show ?thesis by metis
qed

definition used_provider :: provider where
  "used_provider =
     \<lparr>pv_url = None, pv_session = Some \<lparr>cs_id = 0, cs_connector = TCPConnector, cs_options = [],
        cs_closed = False, cs_headers = [(''Authorization'', ''Bearer t'')], cs_cookies = []\<rparr>,
      pv_connector = TCPConnector, pv_should_reset = False, pv_proxy = None, pv_kw = [], pv_closed = [],
      pv_next = 1\<rparr>"

theorem proxy_forgets_headers_witness:
  "let parse = \<lambda>_. Inr (''http'', ''h'', 1, None, None)
   in \<exists>s. fst (create_session (snd (set_proxy parse (OneProxy (ProxyUrl ''http://h:1'')) used_provider))) = Inr s \<and>
     cs_headers s = []"
proof -
  let ?parse = "\<lambda>_ :: string. Inr (''http'', ''h'', 1, None, None)"
  have "fst (set_proxy ?parse (OneProxy (ProxyUrl ''http://h:1'')) used_provider) = Inr ()"
    by (simp add: set_proxy_def setup_proxy_connector_def prepare_connector_def retrieve_basic_def io_bind_def)
  from proxy_forgets_headers [OF this] show ?thesis
    by (simp add: Let_def option_entries_def used_provider_def) blast
qed

text \<open>
  Sessions do not leak.  Whatever requests, closings, proxies and updates a provider has seen,
  every session it ever opened but the last was closed exactly once, in order; a request gets an
  open session on the connector of the proxy set last, and closing leaves none open.
\<close>

theorem provider_sessions:
  assumes "provider_reach p"
  shows "(\<forall>s. pv_session p = Some s \<longrightarrow> pv_next p = Suc (cs_id s) \<and>
      pv_closed p = [0..<cs_id s] @ (if cs_closed s then [cs_id s] else [])) \<and>
    (\<exists>s. fst (create_session p) = Inr s \<and> \<not> cs_closed s \<and> cs_connector s = pv_connector p \<and>
      pv_closed (snd (create_session p)) = [0..<cs_id s]) \<and>
    \<not> session_open (snd (close_session p))"
proof -
  note inv = provider_reach_inv [OF assms]
  obtain s where s: "fst (create_session p) = Inr s" "\<not> cs_closed s" "cs_connector s = pv_connector p"
    "pv_session (snd (create_session p)) = Some s"
    using create_session_result inv by blast
  have "no_leak (snd (create_session p))" using no_leak_create inv by blast
  then have "pv_closed (snd (create_session p)) = [0..<cs_id s]"
    using s by (simp add: no_leak_def)
  with s inv no_leak_close [of p] show ?thesis
    by (auto simp: no_leak_def)
qed

definition fresh_provider :: provider where
  "fresh_provider =
     \<lparr>pv_url = Some ''http://x'', pv_session = None, pv_connector = TCPConnector,
      pv_should_reset = True, pv_proxy = None, pv_kw = [], pv_closed = [], pv_next = 0\<rparr>"

lemma fresh_provider_reach: "provider_reach fresh_provider"
proof (rule reach_new)
  show "new_provider True (\<lambda>_. Inl (HttpValueError [])) (Some ''http://x'') None [] = Inr fresh_provider"
    by (simp add: new_provider_def fresh_provider_def)
qed

theorem provider_sessions_witness:
  "\<exists>s. fst (create_session fresh_provider) = Inr s \<and> \<not> cs_closed s"
  using provider_sessions [OF fresh_provider_reach] by blast

text \<open>
  The status decides.  The error middleware passes a response on exactly for 200 to 226; any
  other is an error that carries the status, the body and the URL, of the class of that status, and
  of the general class \<open>APIError\<close> for every status without one (redirects and 502 to 504 among them).
\<close>

theorem check_response_by_status:
  "(\<exists>x. check_response r = Inr x) = (200 \<le> rs_status r \<and> rs_status r \<le> 226) \<and>
   (\<forall>x. check_response r = Inr x \<longrightarrow> x = r) \<and>
   (\<forall>e. check_response r = Inl e \<longrightarrow> (\<exists>a. e = ApiErr a \<and> ae_status a = rs_status r \<and>
     ae_content a = rs_content r \<and> ae_url a = Some (rs_url r) \<and>
     (ae_class a = APIError \<longleftrightarrow> rs_status r \<notin> {400, 401, 403, 404, 409, 413, 429, 500}) \<and>
     (ae_class a = ApiServerError \<longleftrightarrow> rs_status r = 500)))"
  by (auto simp: check_response_def Let_def)

theorem check_response_by_status_witness:
  "\<exists>a. check_response \<lparr>rs_status = 503, rs_url = ''u'', rs_content = ''busy'', rs_headers = [], rs_cookies = []\<rparr> =
     Inl (ApiErr a) \<and> ae_class a = APIError"
  using check_response_by_status [of "\<lparr>rs_status = 503, rs_url = ''u'', rs_content = ''busy'', rs_headers = [], rs_cookies = []\<rparr>"]
  by (cases "check_response \<lparr>rs_status = 503, rs_url = ''u'', rs_content = ''busy'', rs_headers = [], rs_cookies = []\<rparr>") auto

text \<open>
  Two proxies in a tuple are no chain.  A chain of two given as a tuple connects through the
  first proxy only, without a word; as a list, or with a third, it connects through all of them.
\<close>

theorem proxy_pair_loses_second:
  assumes "parse a = Inr i" and "parse b = Inr j" and "parse c = Inr k"
  shows "prepare_connector parse (ProxyTuple [ProxyUrl a, ProxyUrl b]) = Inr (ProxyConnector (proxy_of i)) \<and>
    prepare_connector parse (ProxyList [ProxyUrl a, ProxyUrl b]) = Inr (ChainProxyConnector (map proxy_of [i, j])) \<and>
    prepare_connector parse (ProxyTuple [ProxyUrl a, ProxyUrl b, ProxyUrl c]) =
      Inr (ChainProxyConnector (map proxy_of [i, j, k]))"
  using assms by (simp add: prepare_connector_def retrieve_basic_def)

definition example_proxy :: "string \<Rightarrow> parsed_proxy" where
  "example_proxy host = (''SOCKS5'', host, 1080, None, None)"

theorem proxy_pair_loses_second_witness:
  "prepare_connector (\<lambda>u. Inr (example_proxy u)) (ProxyTuple [ProxyUrl ''a'', ProxyUrl ''b'']) =
    Inr (ProxyConnector (proxy_of (example_proxy ''a'')))"
  using proxy_pair_loses_second [of "\<lambda>u. Inr (example_proxy u)" "''a''" "example_proxy ''a''" "''b''"
      "example_proxy ''b''" "''c''" "example_proxy ''c''"] by simp

text \<open>
  The order of middlewares.  The first registered is the outermost: what it does happens before
  all others see the request and after they saw the response.  So with logging first the provider
  logs every request, one that fails too, and the outcome is that of the checked request.
\<close>

theorem middleware_order:
  "wrap_middleware (register_middleware ms m) callback = wrap_middleware ms (m callback) \<and>
   wrap_middleware (m # ms) callback = m (wrap_middleware ms callback) \<and>
   wrap_middleware [logging_middleware write detailed, error_middleware] callback q s =
     (let r = callback q (write (log_line detailed q) s)
      in (case fst r of Inl e \<Rightarrow> Inl e | Inr x \<Rightarrow> check_response x, snd r))"
  by (simp add: wrap_middleware_append register_middleware_def wrap_middleware_Cons
      wrap_middleware_Nil logging_middleware_def error_middleware_def io_bind_def io_lift_def Let_def
      split: sum.split)

text \<open>
  A request through the provider.  With the error middleware alone, as \<open>AiohttpProvider\<close> sets it
  up, a call that resolves its URL returns a response exactly when the library answers with 200 to
  226; a timeout and every error of the library is a \<open>NetworkError\<close>, and an endpoint without a base
  URL a \<open>ValueError\<close>.
\<close>

theorem provider_request_outcomes:
  assumes "provider_reach p"
  shows "\<exists>s. fst (create_session p) = Inr s \<and>
    fst (provider_call U perform [error_middleware] q p) =
      (case resolve_url U (pv_url p) (oq_url q) of
         Inl e \<Rightarrow> Inl e
       | Inr url \<Rightarrow>
           (case perform s (q\<lparr>oq_url := url\<rparr>) of
              Answer r \<Rightarrow> check_response r
            | TimedOut \<Rightarrow> Inl (NetworkError ''Request timeout error'')
            | ClientFailed name \<Rightarrow> Inl (NetworkError (name @ '' occurred''))))"
proof -
  obtain s where s: "fst (create_session p) = Inr s"
    using create_session_result provider_reach_inv [OF assms] by blast
  have "pv_url (snd (create_session p)) = pv_url p"
    by (auto simp: create_session_def io_bind_def close_session_def open_session_def Let_def
        split: option.split)
  with s show ?thesis
    by (auto simp: provider_call_def wrap_middleware_Cons wrap_middleware_Nil error_middleware_def
        make_request_def io_bind_def io_apply split: sum.split outcome.split)
qed

theorem provider_request_outcomes_witness:
  "fst (provider_call \<lparr>ul_scheme = (\<lambda>_. []), ul_join = (@)\<rparr> (\<lambda>_ _. TimedOut) [error_middleware]
     \<lparr>oq_method = ''GET'', oq_url = ''/a'', oq_kw = []\<rparr> fresh_provider) =
   Inl (NetworkError ''Request timeout error'')"
  using provider_request_outcomes [OF fresh_provider_reach, of "\<lparr>ul_scheme = (\<lambda>_. []), ul_join = (@)\<rparr>"
      "\<lambda>_ _. TimedOut" "\<lparr>oq_method = ''GET'', oq_url = ''/a'', oq_kw = []\<rparr>"]
  by (simp add: resolve_url_def fresh_provider_def)

end
