(* ===== verification/Api_Client.thy ===== *)
theory Api_Client
  imports Http_Client
begin

text \<open>
  What users of the HTTP client see: the responses (\<open>provider/response.py\<close> and the adapter of
  \<open>provider/aiohttp.py\<close>), the interface of a provider (\<open>provider/base.py\<close>), the client and its
  requests (\<open>clients\<close>).  The interface is a record with a contract, which the aiohttp provider keeps.
\<close>

section \<open>Responses\<close>

text \<open>
  The adapter holds the bytes read when the response came in and gives them out again.  The decoders
  of the standard library are parameters: \<open>decode encoding errors\<close> of bytes and \<open>loads\<close> of JSON.
\<close>

record codecs =
  cd_decode :: "string \<Rightarrow> string \<Rightarrow> string \<Rightarrow> http_error + string"
  cd_strip :: "string \<Rightarrow> string"
  cd_loads :: "string \<Rightarrow> http_error + pyval"

definition option_or :: "'a option \<Rightarrow> 'a \<Rightarrow> 'a" where
  "option_or x dflt = (case x of Some v \<Rightarrow> v | None \<Rightarrow> dflt)"

definition adapter_read :: "response \<Rightarrow> string" where
  "adapter_read r = rs_content r"

definition adapter_text ::
  "codecs \<Rightarrow> response \<Rightarrow> string option \<Rightarrow> string option \<Rightarrow> http_error + string" where
  "adapter_text D r encoding errors =
     cd_decode D (option_or encoding ''utf-8'') (option_or errors ''strict'') (rs_content r)"

definition adapter_json :: "codecs \<Rightarrow> response \<Rightarrow> string option \<Rightarrow> http_error + pyval" where
  "adapter_json D r encoding =
     (case cd_decode D (option_or encoding ''utf-8'') ''strict'' (cd_strip D (rs_content r)) of
        Inl e \<Rightarrow> Inl e
      | Inr text \<Rightarrow> cd_loads D text)"

section \<open>The interface of a provider\<close>

text \<open>
  \<open>AsyncProvider\<close>, over the state \<open>'p\<close> of a provider.  Its own methods are the call, which goes
  through the middlewares, and the exit of \<open>async with\<close>, which closes the session.
\<close>

record 'p async_provider =
  av_url :: "'p \<Rightarrow> string option"
  av_make_request :: "'p handler"
  av_close_session :: "(http_error, 'p, unit) comp"
  av_stream_content :: "string \<Rightarrow> int \<Rightarrow> bool \<Rightarrow> pydict \<Rightarrow> (http_error, 'p, string list) comp"
  av_update_cookies :: "(string \<times> string) list \<Rightarrow> (http_error, 'p, unit) comp"
  av_update_headers :: "(string \<times> string) list \<Rightarrow> (http_error, 'p, unit) comp"
  av_aenter :: "(http_error, 'p, unit) comp"

definition async_call :: "'p async_provider \<Rightarrow> 'p middleware list \<Rightarrow> 'p handler" where
  "async_call P ms = wrap_middleware ms (av_make_request P)"

definition async_aexit :: "'p async_provider \<Rightarrow> http_error option \<Rightarrow> (http_error, 'p, unit) comp" where
  "async_aexit P exc = av_close_session P"

text \<open>The aiohttp provider as such an object; its \<open>__aenter__\<close> creates the session.\<close>

definition aiohttp_provider ::
  "url_lib \<Rightarrow> (client_session \<Rightarrow> out_request \<Rightarrow> outcome) \<Rightarrow>
    (client_session \<Rightarrow> string \<Rightarrow> int \<Rightarrow> bool \<Rightarrow> pydict \<Rightarrow> string + string list) \<Rightarrow> provider async_provider" where
  "aiohttp_provider U perform fetch =
     \<lparr>av_url = pv_url, av_make_request = make_request U perform, av_close_session = close_session,
      av_stream_content = stream_content U fetch, av_update_cookies = update_cookies,
      av_update_headers = update_headers,
      av_aenter = io_bind create_session (\<lambda>_. io_return ())\<rparr>"

section \<open>The client\<close>

text \<open>
  A \<open>Request\<close> is its \<open>handle\<close>, which is given the provider.  \<open>Client\<close> has a provider of its own or
  is given one; \<open>async with client\<close> does nothing on the way in and closes the provider on the way out.
\<close>

type_synonym ('p, 'r) api_request = "'p async_provider \<Rightarrow> (http_error, 'p, 'r) comp"

definition request_call :: "('p, 'r) api_request \<Rightarrow> 'p async_provider \<Rightarrow> (http_error, 'p, 'r) comp" where
  "request_call handle P = handle P"

definition client_of ::
  "bool \<Rightarrow> (string \<Rightarrow> http_error + parsed_proxy) \<Rightarrow> string \<Rightarrow> provider option \<Rightarrow> proxy_setting option \<Rightarrow>
    pydict \<Rightarrow> http_error + provider" where
  "client_of has_socks parse url given proxy options =
     (case given of Some p \<Rightarrow> Inr p | None \<Rightarrow> new_provider has_socks parse (Some url) proxy options)"

definition api_send :: "'p async_provider \<Rightarrow> ('p, 'r) api_request \<Rightarrow> (http_error, 'p, 'r) comp" where
  "api_send P request = request_call request P"

definition with_client ::
  "'p async_provider \<Rightarrow> (http_error, 'p, 'r) comp \<Rightarrow> (http_error, 'p, 'r) comp" where
  "with_client P body = async_with (io_return ()) (async_aexit P) body"

definition with_provider ::
  "'p async_provider \<Rightarrow> (http_error, 'p, 'r) comp \<Rightarrow> (http_error, 'p, 'r) comp" where
  "with_provider P body = async_with (av_aenter P) (async_aexit P) body"

section \<open>The contract\<close>

text \<open>
  What the client relies on: closing never fails and leaves nothing open, and what a provider does
  keeps the invariant of its state.
\<close>

locale async_provider_laws =
  fixes P :: "'p async_provider" and good :: "'p \<Rightarrow> bool" and is_open :: "'p \<Rightarrow> bool"
  assumes close_ok: "fst (av_close_session P p) = Inr ()"
    and close_closes: "\<not> is_open (snd (av_close_session P p))"
    and close_good: "good p \<Longrightarrow> good (snd (av_close_session P p))"
    and request_good: "good p \<Longrightarrow> good (snd (av_make_request P q p))"
    and enter_good: "good p \<Longrightarrow> good (snd (av_aenter P p))"
begin

lemma with_client_result: "fst (with_client P body p) = fst (body p)"
  by (simp add: with_client_def async_aexit_def io_simps close_ok split: sum.split)

lemma with_client_closes: "\<not> is_open (snd (with_client P body p))"
  by (simp add: with_client_def async_aexit_def io_simps close_ok close_closes split: sum.split)

lemma with_client_good:
  "(good p \<Longrightarrow> good (snd (body p))) \<Longrightarrow> good p \<Longrightarrow> good (snd (with_client P body p))"
  by (simp add: with_client_def async_aexit_def io_simps close_ok close_good split: sum.split)

end

interpretation aiohttp: async_provider_laws "aiohttp_provider U perform fetch"
  "\<lambda>p. no_leak p \<and> connector_current p" session_open for U perform fetch
proof unfold_locales
  fix p :: provider and q
  show "fst (av_close_session (aiohttp_provider U perform fetch) p) = Inr ()"
    by (simp add: aiohttp_provider_def close_session_def split: option.split)
  show "\<not> session_open (snd (av_close_session (aiohttp_provider U perform fetch) p))"
    by (simp add: aiohttp_provider_def close_session_def session_open_def split: option.split)
  assume good: "no_leak p \<and> connector_current p"
  have c: "no_leak (snd (create_session p)) \<and> connector_current (snd (create_session p))"
    using provider_step_inv [OF step_create good] .
  show "no_leak (snd (av_close_session (aiohttp_provider U perform fetch) p)) \<and>
      connector_current (snd (av_close_session (aiohttp_provider U perform fetch) p))"
    using provider_step_inv [OF step_close good] by (simp add: aiohttp_provider_def)
  show "no_leak (snd (av_aenter (aiohttp_provider U perform fetch) p)) \<and>
      connector_current (snd (av_aenter (aiohttp_provider U perform fetch) p))"
    using c by (simp add: aiohttp_provider_def io_bind_def io_apply split: sum.split)
  have "snd (make_request U perform q p) = snd (create_session p)"
    by (simp add: make_request_def io_bind_def io_apply split: sum.split outcome.split)
  then show "no_leak (snd (av_make_request (aiohttp_provider U perform fetch) q p)) \<and>
      connector_current (snd (av_make_request (aiohttp_provider U perform fetch) q p))"
    using c by (simp add: aiohttp_provider_def)
qed

section \<open>Properties\<close>

text \<open>
  A client used with \<open>async with\<close> leaves no session open, whatever its requests return or raise,
  and passes on what they return or raise; and every session the provider opened was closed exactly
  once.
\<close>

theorem client_context_closes:
  assumes "no_leak p \<and> connector_current p"
  shows "let P = aiohttp_provider U perform fetch;
      body = async_call P ms q; r = with_client P body p
    in fst r = fst (body p) \<and> \<not> session_open (snd r) \<and>
      (ms = [error_middleware] \<longrightarrow> no_leak (snd r) \<and>
        (\<forall>s. pv_session (snd r) = Some s \<longrightarrow> pv_closed (snd r) = [0..<pv_next (snd r)]))"
proof -
  let ?P = "aiohttp_provider U perform fetch"
  let ?r = "with_client ?P (async_call ?P ms q) p"
  have closed: "\<not> session_open (snd ?r)" by (rule aiohttp.with_client_closes)
  have "no_leak (snd ?r)" if "ms = [error_middleware]"
  proof -
    have "snd (async_call ?P ms q p) = snd (av_make_request ?P q p)"
      by (simp add: that async_call_def wrap_middleware_Cons wrap_middleware_Nil error_middleware_def
          io_bind_def io_apply split: sum.split)
    with aiohttp.request_good [OF assms] aiohttp.with_client_good [OF _ assms] show ?thesis
      by metis
  qed
  moreover have "pv_closed (snd ?r) = [0..<pv_next (snd ?r)]"
    if "no_leak (snd ?r)" "pv_session (snd ?r) = Some s" for s
    using that closed by (auto simp: no_leak_def session_open_def)
  ultimately show ?thesis
    using closed by (auto simp: Let_def aiohttp.with_client_result)
qed

theorem client_context_closes_witness:
  "let P = aiohttp_provider \<lparr>ul_scheme = (\<lambda>_. ''http''), ul_join = (@)\<rparr> (\<lambda>_ _. TimedOut) (\<lambda>_ _ _ _ _. Inr []);
      body = async_call P [error_middleware] \<lparr>oq_method = ''GET'', oq_url = ''http://x'', oq_kw = []\<rparr>
   in \<not> session_open (snd (with_client P body fresh_provider))"
proof -
  have "no_leak fresh_provider \<and> connector_current fresh_provider"
    using provider_reach_inv [OF fresh_provider_reach] .
  from client_context_closes [OF this] show ?thesis
    unfolding Let_def by blast
qed

end
