(* ===== verification/Http_Objects.thy ===== *)
theory Http_Objects
  imports Api_Client
begin

text \<open>
  The objects of the HTTP client: the manager of middlewares, which is a Python sequence with indices
  and slices (\<open>provider/middleware/manager.py\<close>), the abstract middleware and provider, and the adapter
  that a request hands out for a response of aiohttp (\<open>provider/aiohttp.py\<close>).
\<close>

section \<open>The manager as a sequence\<close>

text \<open>The state of the manager is its list of middlewares; \<open>__init__\<close> takes them as arguments.\<close>

definition new_manager :: "'a list \<Rightarrow> 'a list" where
  "new_manager middlewares = middlewares"

definition manager_len :: "'a list \<Rightarrow> int" where
  "manager_len ms = int (length ms)"

text \<open>An index counts from the end when it is negative.\<close>

definition manager_item :: "'a list \<Rightarrow> int \<Rightarrow> http_error + 'a" where
  "manager_item ms i =
     (let j = (if i < 0 then i + manager_len ms else i)
      in if 0 \<le> j \<and> j < manager_len ms then Inr (ms ! nat j)
         else Inl (HttpIndexError ''list index out of range''))"

text \<open>
  A slice \<open>start:stop:step\<close>: its bounds are clipped to the sequence, and a step down runs from the end
  to before the beginning.
\<close>

definition clip_bound :: "int \<Rightarrow> int \<Rightarrow> int \<Rightarrow> int" where
  "clip_bound n step x =
     (if x < 0 then max (x + n) (if step < 0 then -1 else 0) else min x (if step < 0 then n - 1 else n))"

definition slice_start :: "int \<Rightarrow> int \<Rightarrow> int option \<Rightarrow> int" where
  "slice_start n step start =
     (case start of Some x \<Rightarrow> clip_bound n step x | None \<Rightarrow> if step < 0 then n - 1 else 0)"

definition slice_stop :: "int \<Rightarrow> int \<Rightarrow> int option \<Rightarrow> int" where
  "slice_stop n step stop =
     (case stop of Some x \<Rightarrow> clip_bound n step x | None \<Rightarrow> if step < 0 then -1 else n)"

text \<open>\<open>range(a, b, step)\<close>.\<close>

definition py_range :: "int \<Rightarrow> int \<Rightarrow> int \<Rightarrow> int list" where
  "py_range a b step =
     map (\<lambda>k. a + int k * step)
       [0..<nat (if 0 < step then (b - a + step - 1) div step else (a - b - step - 1) div (- step))]"

definition manager_slice ::
  "'a list \<Rightarrow> int option \<Rightarrow> int option \<Rightarrow> int option \<Rightarrow> http_error + 'a list" where
  "manager_slice ms start stop step =
     (let n = manager_len ms; s = option_or step 1
      in if s = 0 then Inl (HttpValueError ''slice step cannot be zero'')
         else Inr (map (\<lambda>i. ms ! nat i) (py_range (slice_start n s start) (slice_stop n s stop) s)))"

text \<open>No slice reaches outside of the sequence.\<close>

lemma py_range_up: "0 < s \<Longrightarrow> i \<in> set (py_range a b s) \<Longrightarrow> a \<le> i \<and> i < b"
proof -
  assume s: "0 < s" and "i \<in> set (py_range a b s)"
  then obtain k where k: "i = a + int k * s" "k < nat ((b - a + s - 1) div s)"
    by (auto simp: py_range_def)
  then have "int k + 1 \<le> (b - a + s - 1) div s" by linarith
  then have "(int k + 1) * s \<le> (b - a + s - 1) div s * s" using s by (simp add: mult_right_mono)
  also have "\<dots> \<le> b - a + s - 1" 
    unfolding minus_mod_eq_div_mult [symmetric] using pos_mod_sign [OF s, of "b - a + s - 1"] by linarith
  finally have "int k * s + s \<le> b - a + s - 1" by (simp add: algebra_simps)
  then show "a \<le> i \<and> i < b" using k(1) s by simp
qed

lemma py_range_down: "s < 0 \<Longrightarrow> i \<in> set (py_range a b s) \<Longrightarrow> b < i \<and> i \<le> a"
proof -
  assume s: "s < 0" and i: "i \<in> set (py_range a b s)"
  have "py_range a b s = map uminus (py_range (- a) (- b) (- s))"
    using s by (simp add: py_range_def)
  with i obtain j where "i = - j" "j \<in> set (py_range (- a) (- b) (- s))" by auto
  with py_range_up [of "- s" j "- a" "- b"] s show "b < i \<and> i \<le> a" by simp
qed

lemma slice_in_bounds:
  assumes "s \<noteq> 0" and "0 \<le> n" and "i \<in> set (py_range (slice_start n s start) (slice_stop n s stop) s)"
  shows "0 \<le> i \<and> i < n"
proof (cases "0 < s")
  case True
  have "0 \<le> slice_start n s start" "slice_stop n s stop \<le> n"
    using True assms(2) by (auto simp: slice_start_def slice_stop_def clip_bound_def split: option.split)
  with py_range_up [OF True assms(3)] show ?thesis by linarith
next
  case False
  then have s: "s < 0" using assms(1) by simp
  have "slice_start n s start \<le> n - 1" "- 1 \<le> slice_stop n s stop"
    using s assms(2) by (auto simp: slice_start_def slice_stop_def clip_bound_def split: option.split)
  with py_range_down [OF s assms(3)] show ?thesis by linarith
qed

lemma manager_slice_reverse: "manager_slice ms None None (Some (-1)) = Inr (rev ms)"
proof -
  have "map (\<lambda>i. ms ! nat i) (py_range (manager_len ms - 1) (- 1) (- 1)) = rev ms"
    by (rule nth_equalityI) (auto simp: py_range_def manager_len_def rev_nth intro!: arg_cong [of _ _ "(!) ms"])
  then show ?thesis by (simp add: manager_slice_def option_or_def slice_start_def slice_stop_def Let_def)
qed

text \<open>
  Slices of the manager.  The only slice that fails is one with step zero; any other has middlewares
  of the manager only; \<open>[:]\<close> is the whole and \<open>[::-1]\<close> the order in which a call is wrapped.
\<close>

theorem manager_slices:
  "(step \<noteq> Some 0 \<longrightarrow> (\<exists>ns. manager_slice ms start stop step = Inr ns \<and> set ns \<subseteq> set ms)) \<and>
   (\<exists>e. manager_slice ms start stop (Some 0) = Inl e) \<and>
   manager_slice ms None None None = Inr ms \<and> manager_slice ms None None (Some (-1)) = Inr (rev ms)"
proof -
  have "set (map (\<lambda>i. ms ! nat i) (py_range (slice_start (manager_len ms) s start) (slice_stop (manager_len ms) s stop) s))
      \<subseteq> set ms" if "s \<noteq> 0" for s
    using slice_in_bounds [OF that, of "manager_len ms" _ start stop] by (fastforce simp: manager_len_def)
  then have "\<exists>ns. manager_slice ms start stop step = Inr ns \<and> set ns \<subseteq> set ms" if "step \<noteq> Some 0"
    using that by (cases step) (auto simp: manager_slice_def option_or_def Let_def)
  moreover have "map (\<lambda>i. ms ! nat i) (py_range 0 (manager_len ms) 1) = ms"
    by (simp add: py_range_def manager_len_def comp_def map_nth)
  ultimately show ?thesis
    using manager_slice_reverse [of ms] by (auto simp: manager_slice_def option_or_def slice_start_def slice_stop_def Let_def)
qed

section \<open>The abstract classes\<close>

text \<open>A middleware that does not say what it does.\<close>

definition base_request_middleware :: "'s middleware" where
  "base_request_middleware call_next q = io_raise HttpNotImplementedError"

text \<open>
  \<open>AsyncProvider.__init__\<close> keeps the URL and makes a manager of the middlewares; its \<open>__aenter__\<close>
  returns the provider and does nothing.
\<close>

record 'm provider_base =
  pb_url :: "string option"
  pb_manager :: "'m list"

definition new_provider_base :: "string option \<Rightarrow> 'm list \<Rightarrow> 'm provider_base" where
  "new_provider_base url middlewares = \<lparr>pb_url = url, pb_manager = new_manager middlewares\<rparr>"

definition base_aenter :: "'m provider_base \<Rightarrow> (http_error, 's, 'm provider_base) comp" where
  "base_aenter B = io_return B"

text \<open>\<open>__call__\<close> on such an object: what the middlewares of its manager make of \<open>make_request\<close>.\<close>

definition base_call :: "'s middleware provider_base \<Rightarrow> 's handler \<Rightarrow> 's handler" where
  "base_call B request = wrap_middleware (pb_manager B) request"

definition base_register :: "'m \<Rightarrow> 'm provider_base \<Rightarrow> 'm provider_base" where
  "base_register m B = B\<lparr>pb_manager := register_middleware (pb_manager B) m\<rparr>"

text \<open>
  The wrapping is the loop over the slice \<open>[::-1]\<close>; a middleware that is registered later is asked
  later, and one without an implementation fails every call that reaches it.
\<close>

theorem manager_wraps:
  "base_call (new_provider_base url ms) h = fold (\<lambda>m next. m next) (projr (manager_slice ms None None (Some (-1)))) h \<and>
   base_call (base_register m (new_provider_base url ms)) h = base_call (new_provider_base url ms) (m h) \<and>
   base_call (new_provider_base url (base_request_middleware # ms)) h q s = (Inl HttpNotImplementedError, s)"
  using manager_slice_reverse [of ms]
  by (simp add: base_call_def new_provider_base_def new_manager_def base_register_def register_middleware_def
      wrap_middleware_append wrap_middleware_Cons wrap_middleware_Nil wrap_middleware_def
      base_request_middleware_def io_raise_def)

section \<open>The adapter of a response\<close>

text \<open>
  \<open>ClientResponse\<close> of aiohttp is a parameter: reading the body may fail with a timeout or an error of
  the library; the other attributes are read off its state \<open>'o\<close>, and leaving its context releases the
  connection.
\<close>

datatype lib_error = LibTimeout | LibError string

record 'o client_response =
  cr_read :: "(lib_error, 'o, string) comp"
  cr_aexit :: "lib_error option \<Rightarrow> (lib_error, 'o, unit) comp"
  cr_status :: "'o \<Rightarrow> int"
  cr_url :: "'o \<Rightarrow> string"
  cr_headers :: "'o \<Rightarrow> (string \<times> string) list"
  cr_cookies :: "'o \<Rightarrow> (string \<times> string) list"

text \<open>
  \<open>ClientResponseAdapter\<close> holds the bytes and the response: as long as the response is in the state
  \<open>o\<close>, the adapter looks like this.
\<close>

definition adapter_view :: "'o client_response \<Rightarrow> string \<Rightarrow> 'o \<Rightarrow> response" where
  "adapter_view C raw_content s =
     \<lparr>rs_status = cr_status C s, rs_url = cr_url C s, rs_content = raw_content,
      rs_headers = cr_headers C s, rs_cookies = cr_cookies C s\<rparr>"

definition to_response :: "'o client_response \<Rightarrow> (lib_error, 'o, 'o \<Rightarrow> response) comp" where
  "to_response C = io_bind (cr_read C) (\<lambda>content. io_return (adapter_view C content))"

definition adapter_aexit :: "'o client_response \<Rightarrow> lib_error option \<Rightarrow> (lib_error, 'o, unit) comp" where
  "adapter_aexit C exc = cr_aexit C exc"

text \<open>
  \<open>__repr__\<close> writes the URL with \<open>!r\<close>: in single quotes, or in double quotes when it has single quotes
  and no double ones; quotes inside, the backslash and what is not printable are escaped.
\<close>

definition hex_digit :: "nat \<Rightarrow> char" where
  "hex_digit n = ''0123456789abcdef'' ! n"

definition repr_char :: "char \<Rightarrow> char \<Rightarrow> string" where
  "repr_char q c =
     (let n = of_char c :: nat
      in if c = q \<or> n = 92 then [CHR 0x5C, c]
         else if n = 9 then [CHR 0x5C, CHR ''t''] else if n = 10 then [CHR 0x5C, CHR ''n'']
         else if n = 13 then [CHR 0x5C, CHR ''r'']
         else if n < 32 \<or> (127 \<le> n \<and> n \<le> 160) \<or> n = 173
           then [CHR 0x5C, CHR ''x'', hex_digit (n div 16), hex_digit (n mod 16)]
         else [c])"

definition py_repr :: "string \<Rightarrow> string" where
  "py_repr s =
     (let q = (if CHR 0x27 \<in> set s \<and> CHR 0x22 \<notin> set s then CHR 0x22 else CHR 0x27)
      in [q] @ concat (map (repr_char q) s) @ [q])"

definition adapter_repr :: "response \<Rightarrow> string" where
  "adapter_repr r =
     ''ClientResponseAdapter(url='' @ py_repr (rs_url r) @ '', status='' @ int_str (rs_status r) @ '')''"

text \<open>
  The body of \<open>make_request\<close> inside \<open>async with session.request(...)\<close>: the adapter leaves the context
  in which it was made.
\<close>

definition fetch_response ::
  "'o client_response \<Rightarrow> (lib_error, 'o, unit) comp \<Rightarrow> (lib_error, 'o, 'o \<Rightarrow> response) comp" where
  "fetch_response C enter = async_with enter (cr_aexit C) (to_response C)"

definition outcome_of :: "(lib_error + ('o \<Rightarrow> response)) \<times> 'o \<Rightarrow> outcome" where
  "outcome_of r =
     (case fst r of
        Inl LibTimeout \<Rightarrow> TimedOut
      | Inl (LibError name) \<Rightarrow> ClientFailed name
      | Inr adapter \<Rightarrow> Answer (adapter (snd r)))"

text \<open>
  What the adapter relies on, as aiohttp documents it: reading and releasing leave the status, the
  URL, the headers and the cookies of a response as they are, and releasing does not fail.
\<close>

locale client_response_laws =
  fixes C :: "'o client_response"
  assumes aexit_ok: "fst (cr_aexit C exc s) = Inr ()"
    and aexit_keeps: "cr_status C (snd (cr_aexit C exc s)) = cr_status C s"
      "cr_url C (snd (cr_aexit C exc s)) = cr_url C s"
      "cr_headers C (snd (cr_aexit C exc s)) = cr_headers C s"
      "cr_cookies C (snd (cr_aexit C exc s)) = cr_cookies C s"
    and read_keeps: "cr_status C (snd (cr_read C s)) = cr_status C s"
      "cr_url C (snd (cr_read C s)) = cr_url C s"
      "cr_headers C (snd (cr_read C s)) = cr_headers C s"
      "cr_cookies C (snd (cr_read C s)) = cr_cookies C s"
begin

lemma adapter_keeps:
  "adapter_view C raw (snd (cr_aexit C exc s)) = adapter_view C raw s"
  "adapter_view C raw (snd (cr_read C s)) = adapter_view C raw s"
  by (simp_all add: adapter_view_def aexit_keeps read_keeps)

lemma fetched:
  assumes "fst (enter s) = Inr ()"
  shows "outcome_of (fetch_response C enter s) =
    (case fst (cr_read C (snd (enter s))) of
       Inr raw \<Rightarrow> Answer (adapter_view C raw (snd (enter s)))
     | Inl LibTimeout \<Rightarrow> TimedOut
     | Inl (LibError name) \<Rightarrow> ClientFailed name)"
  using assms
  by (simp add: outcome_of_def fetch_response_def to_response_def async_with_def io_bind_def io_apply
      aexit_ok adapter_keeps split: sum.split lib_error.split)

end

text \<open>A response that arrives, with its body still unread, and is released.\<close>

record ref_response =
  rr_view :: response
  rr_arrives :: "lib_error option"
  rr_released :: bool

definition ref_client_response :: "ref_response client_response" where
  "ref_client_response =
     \<lparr>cr_read = (\<lambda>s. (case rr_arrives s of None \<Rightarrow> Inr (rs_content (rr_view s)) | Some e \<Rightarrow> Inl e, s)),
      cr_aexit = (\<lambda>_ s. (Inr (), s\<lparr>rr_released := True\<rparr>)),
      cr_status = (\<lambda>s. rs_status (rr_view s)), cr_url = (\<lambda>s. rs_url (rr_view s)),
      cr_headers = (\<lambda>s. rs_headers (rr_view s)), cr_cookies = (\<lambda>s. rs_cookies (rr_view s))\<rparr>"

interpretation refresponse: client_response_laws ref_client_response
  by unfold_locales (simp_all add: ref_client_response_def)

text \<open>
  The adapter outlives its response.  What \<open>make_request\<close> returns after it has left the context of the
  response, and so released the connection, is the response as it arrived with the bytes that were
  read; using it as a context again, or at any later time, changes nothing of it.
\<close>

theorem adapter_outlives_response:
  assumes "client_response_laws C" and "fst (enter s) = Inr ()" and "fst (cr_read C (snd (enter s))) = Inr raw"
  shows "let r = fetch_response C enter s
    in outcome_of r = Answer (adapter_view C raw (snd (enter s))) \<and>
      (\<exists>adapter. fst r = Inr adapter \<and> adapter (snd (adapter_aexit C exc (snd r))) = adapter (snd r) \<and>
        adapter_read (adapter (snd r)) = raw)"
proof -
  have "fst (fetch_response C enter s) = Inr (adapter_view C raw)"
    using assms(2,3) client_response_laws.aexit_ok [OF assms(1)]
    by (simp add: fetch_response_def to_response_def async_with_def io_bind_def io_apply)
  then show ?thesis
    using client_response_laws.fetched [where enter = enter and s = s, OF assms(1,2)] client_response_laws.adapter_keeps [OF assms(1)] assms(3)
    by (simp add: Let_def adapter_aexit_def adapter_read_def adapter_view_def)
qed

theorem adapter_outlives_response_witness:
  "let s = \<lparr>rr_view = \<lparr>rs_status = 200, rs_url = ''http://x'', rs_content = ''ok'', rs_headers = [], rs_cookies = []\<rparr>,
         rr_arrives = None, rr_released = False\<rparr>;
       r = fetch_response ref_client_response (io_return ()) s
   in outcome_of r = Answer (rr_view s) \<and> rr_released (snd r)"
proof -
  let ?s = "\<lparr>rr_view = \<lparr>rs_status = 200, rs_url = ''http://x'', rs_content = ''ok'', rs_headers = [], rs_cookies = []\<rparr>,
    rr_arrives = None, rr_released = False\<rparr>"
  have "fst (io_return () ?s) = Inr ()" "fst (cr_read ref_client_response (snd (io_return () ?s))) = Inr ''ok''"
    by (simp_all add: io_apply ref_client_response_def)
  from adapter_outlives_response [where enter = "io_return ()" and s = ?s, OF refresponse.client_response_laws_axioms this] show ?thesis
    by (simp add: Let_def io_apply adapter_view_def ref_client_response_def fetch_response_def to_response_def
        async_with_def io_bind_def)
qed

end
