(* ===== verification/Lifecycle.thy ===== *)
theory Lifecycle
  imports Startup Http_Client
begin

text \<open>
  The life of the dependencies: what the providers release when the container is closed, and how the
  three processes (the HTTP application, the tasks, the consumers) come to close it.  The container is
  dishka's, a library: closing it is the parameter \<open>close\<close>, and what its documentation says of it is
  \<open>closes_container\<close>.
\<close>

section \<open>Releasing them\<close>

text \<open>
  The resources behind the generators of the providers: the connection of the cache, the session of
  the HTTP client, the pool of the engine, the connection of NATS, which may be closed already.
\<close>

record resources =
  re_cache_open :: bool
  re_aiohttp :: provider
  re_engine_open :: bool
  re_nats_closed :: bool
  re_drains :: nat

definition release_cache :: "resources \<Rightarrow> resources" where
  "release_cache R = R\<lparr>re_cache_open := False\<rparr>"

definition release_aiohttp :: "resources \<Rightarrow> resources" where
  "release_aiohttp R = R\<lparr>re_aiohttp := snd (close_session (re_aiohttp R))\<rparr>"

definition release_engine :: "resources \<Rightarrow> resources" where
  "release_engine R = R\<lparr>re_engine_open := False\<rparr>"

definition release_nats :: "resources \<Rightarrow> resources" where
  "release_nats R =
     (if \<not> re_nats_closed R then R\<lparr>re_nats_closed := True, re_drains := Suc (re_drains R)\<rparr> else R)"

definition releases :: "(string \<times> (resources \<Rightarrow> resources)) list" where
  "releases =
     [(''StrCache'', release_cache), (''AiohttpProvider'', release_aiohttp),
      (''AsyncEngine'', release_engine), (''NatsBroker'', release_nats)]"

definition has_release :: "string \<Rightarrow> bool" where
  "has_release t \<longleftrightarrow> t \<in> set (map fst releases)"

definition release :: "string \<Rightarrow> resources \<Rightarrow> resources" where
  "release t = (case map_of releases t of Some f \<Rightarrow> f | None \<Rightarrow> (\<lambda>R. R))"

definition released :: "string \<Rightarrow> resources \<Rightarrow> bool" where
  "released t R \<longleftrightarrow>
     (t = ''StrCache'' \<longrightarrow> \<not> re_cache_open R) \<and> (t = ''AiohttpProvider'' \<longrightarrow> \<not> session_open (re_aiohttp R)) \<and>
     (t = ''AsyncEngine'' \<longrightarrow> \<not> re_engine_open R) \<and> (t = ''NatsBroker'' \<longrightarrow> re_nats_closed R)"

lemma close_session_stays:
  "\<not> session_open p \<Longrightarrow> \<not> session_open (snd (close_session p))"
  "\<not> session_open (snd (close_session p))"
  by (simp_all add: close_session_def session_open_def split: option.splits)

lemma release_released: "has_release t \<Longrightarrow> released t (release t R)"
  by (auto simp: has_release_def releases_def release_def released_def release_cache_def
      release_aiohttp_def release_engine_def release_nats_def close_session_stays)

lemma release_keeps: "released t R \<Longrightarrow> released t (release u R)"
  by (auto simp: releases_def release_def released_def release_cache_def
      release_aiohttp_def release_engine_def release_nats_def close_session_stays)

lemma fold_release_keeps: "released t R \<Longrightarrow> released t (fold release ts R)"
  by (induction ts arbitrary: R) (simp_all add: release_keeps)

lemma fold_release: "t \<in> set ts \<Longrightarrow> has_release t \<Longrightarrow> released t (fold release ts R)"
  by (induction ts arbitrary: R) (auto simp: release_released fold_release_keeps)

section \<open>The processes\<close>

text \<open>
  A running process: the types its container made so far, the latest first, the resources, and the
  log.
\<close>

record process =
  pr_made :: "string list"
  pr_resources :: resources
  pr_log :: "string list"

text \<open>
  What dishka documents of \<open>container.close()\<close>: the code behind the \<open>yield\<close> of every factory that
  made something runs, the latest first, and the container forgets what it made.
\<close>

definition closes_container :: "(process, unit) io \<Rightarrow> bool" where
  "closes_container close \<longleftrightarrow>
     (\<forall>p. close p = (Inr (), p\<lparr>pr_resources := fold release (pr_made p) (pr_resources p), pr_made := []\<rparr>))"

text \<open>The HTTP application: \<open>lifespan\<close> closes the container however serving ends.\<close>

definition lifespan :: "(process, unit) io \<Rightarrow> (process, 'a) io \<Rightarrow> (process, 'a) io" where
  "lifespan close serving = async_with (io_return ()) (\<lambda>_. close) serving"

text \<open>The tasks: the broker with its scheduler, no tasks yet, and the handlers of its events.\<close>

datatype task_event = WORKER_STARTUP | CLIENT_STARTUP | WORKER_SHUTDOWN | CLIENT_SHUTDOWN

record tasks_app =
  tk_broker :: taskiq_options
  tk_sources :: "string list"
  tk_handlers :: "(task_event \<times> (process, unit) io) list"
  tk_tasks :: "string list"

definition process_log :: "string \<Rightarrow> (process, unit) io" where
  "process_log line p = (Inr (), p\<lparr>pr_log := pr_log p @ [line]\<rparr>)"

definition on_startup :: "(process, unit) io" where
  "on_startup = process_log ''Taskiq application started''"

definition on_shutdown :: "(process, unit) io \<Rightarrow> (process, unit) io" where
  "on_shutdown close = io_bind (process_log ''Taskiq application shutting down'') (\<lambda>_. close)"

definition create_taskiq_scheduler :: "taskiq_options \<Rightarrow> string list" where
  "create_taskiq_scheduler broker = [''LabelScheduleSource'']"

definition setup_tasks :: "string list \<Rightarrow> string list" where
  "setup_tasks tasks = tasks"

definition create_tasks :: "(process, unit) io \<Rightarrow> settings \<Rightarrow> tasks_app" where
  "create_tasks close s =
     (let broker = create_taskiq_broker s
      in \<lparr>tk_broker = broker, tk_sources = create_taskiq_scheduler broker,
          tk_handlers = [(WORKER_STARTUP, on_startup), (CLIENT_STARTUP, on_startup),
            (WORKER_SHUTDOWN, on_shutdown close), (CLIENT_SHUTDOWN, on_shutdown close)],
          tk_tasks = setup_tasks []\<rparr>)"

definition fire_event :: "tasks_app \<Rightarrow> task_event \<Rightarrow> (process, unit) io" where
  "fire_event a e =
     fold (\<lambda>(x, h) m. if x = e then io_bind m (\<lambda>_. h) else m) (tk_handlers a) (io_return ())"

text \<open>The consumers: the broker of FastStream, no subscribers yet, and what runs after the shutdown.\<close>

record consumers_app =
  cn_servers :: "string list"
  cn_security :: "(string \<times> string) option"
  cn_auto_inject :: bool
  cn_subscribers :: "string list"
  cn_after_shutdown :: "(process, unit) io list"

definition setup_subscribers_routers :: "string list \<Rightarrow> string list" where
  "setup_subscribers_routers subscribers = subscribers"

definition create_consumers :: "(process, unit) io \<Rightarrow> settings \<Rightarrow> consumers_app" where
  "create_consumers close s =
     \<lparr>cn_servers = ns_servers (st_nats s), cn_security = consumer_security s, cn_auto_inject = True,
      cn_subscribers = setup_subscribers_routers [], cn_after_shutdown = [close]\<rparr>"

definition after_shutdown :: "consumers_app \<Rightarrow> (process, unit) io" where
  "after_shutdown a = fold (\<lambda>h m. io_bind m (\<lambda>_. h)) (cn_after_shutdown a) (io_return ())"

text \<open>
  How the three processes begin: the settings are read, the logs are set up, and the application is
  made (or the server is given what it is to run).
\<close>

definition http_main :: "int \<Rightarrow> settings \<Rightarrow> (logging, granian) io" where
  "http_main cpu_count s = io_bind (setup_logging s) (\<lambda>_. io_lift (run cpu_count s))"

definition tasks_main :: "(process, unit) io \<Rightarrow> settings \<Rightarrow> (logging, tasks_app) io" where
  "tasks_main close s = io_bind (setup_logging s) (\<lambda>_. io_return (create_tasks close s))"

definition consumers_main :: "(process, unit) io \<Rightarrow> settings \<Rightarrow> (logging, consumers_app) io" where
  "consumers_main close s = io_bind (setup_logging s) (\<lambda>_. io_return (create_consumers close s))"

lemma unknown_level_starts_nothing:
  assumes "map_of level_names (py_upper (as_log_level (st_app s))) = None"
  defines "e \<equiv> PyKeyError (py_upper (as_log_level (st_app s)))"
  shows "http_main cpu_count s g = (Inl e, g)" "tasks_main close s g = (Inl e, g)"
    "consumers_main close s g = (Inl e, g)"
  using assms
  by (simp_all add: http_main_def tasks_main_def consumers_main_def setup_logging_def Let_def io_simps)

section \<open>Properties\<close>

lemma fold_release_drains:
  "re_drains (fold release ts R) =
    re_drains R + (if ''NatsBroker'' \<in> set ts \<and> \<not> re_nats_closed R then 1 else 0)"
proof (induction ts arbitrary: R)
  case (Cons t ts)
  have "re_drains (release t R) = re_drains R + (if t = ''NatsBroker'' \<and> \<not> re_nats_closed R then 1 else 0)"
    "re_nats_closed (release t R) = (t = ''NatsBroker'' \<or> re_nats_closed R)"
    by (auto simp: release_def releases_def release_cache_def release_aiohttp_def release_engine_def
        release_nats_def)
  with Cons.IH [of "release t R"] show ?case by auto
qed simp

lemma lifespan_closes:
  assumes "closes_container close"
  shows "lifespan close serving p = (fst (serving p), snd (close (snd (serving p))))"
  using assms by (auto simp: lifespan_def closes_container_def io_simps split: sum.split)

lemma shutdown_closes:
  "e = WORKER_SHUTDOWN \<or> e = CLIENT_SHUTDOWN \<Longrightarrow>
    snd (fire_event (create_tasks close s) e p) =
      snd (close (p\<lparr>pr_log := pr_log p @ [''Taskiq application shutting down'']\<rparr>))"
  by (auto simp: fire_event_def create_tasks_def Let_def on_shutdown_def process_log_def io_simps)

lemma after_shutdown_closes: "snd (after_shutdown (create_consumers close s) p) = snd (close p)"
  by (simp add: after_shutdown_def create_consumers_def io_simps)

text \<open>
  C34: Nothing stays open.  When a process ends whose container made the cache, the HTTP client, the
  engine or the NATS broker, that resource is closed afterwards, and NATS is drained exactly when its
  broker was made and the connection was not closed already: for the HTTP application after serving
  returned or raised, which \<open>lifespan\<close> hands on, for the tasks at the shutdown of a worker and of a
  client, and for the consumers after their shutdown.  At the start of a worker or a client nothing is
  closed.
\<close>

theorem shutdown_releases_everything:
  fixes serving :: "(process, 'a) io"
  assumes close: "closes_container close" and served: "snd (serving q) = p"
    and made: "list_all (\<lambda>t. t \<in> set (pr_made p)) ts"
    and ts: "set ts \<subseteq> {''StrCache'', ''AiohttpProvider'', ''AsyncEngine'', ''NatsBroker''}"
  shows "fst (lifespan close serving q) = fst (serving q) \<and>
    (\<forall>x \<in> {snd (lifespan close serving q), snd (fire_event (create_tasks close s) WORKER_SHUTDOWN p),
        snd (fire_event (create_tasks close s) CLIENT_SHUTDOWN p),
        snd (after_shutdown (create_consumers close s) p)}.
      list_all (\<lambda>t. released t (pr_resources x)) ts \<and>
      re_drains (pr_resources x) = re_drains (pr_resources p) +
        (if ''NatsBroker'' \<in> set (pr_made p) \<and> \<not> re_nats_closed (pr_resources p) then 1 else 0)) \<and>
    pr_resources (snd (fire_event (create_tasks close s) WORKER_STARTUP p)) = pr_resources p \<and>
    pr_resources (snd (fire_event (create_tasks close s) CLIENT_STARTUP p)) = pr_resources p"
proof -
  have ends: "pr_resources x = fold release (pr_made p) (pr_resources p)"
    if "x \<in> {snd (lifespan close serving q), snd (fire_event (create_tasks close s) WORKER_SHUTDOWN p),
        snd (fire_event (create_tasks close s) CLIENT_SHUTDOWN p),
        snd (after_shutdown (create_consumers close s) p)}" for x
    using that close
    by (auto simp: lifespan_closes [OF close] shutdown_closes after_shutdown_closes served closes_container_def)
  have "released t (fold release (pr_made p) (pr_resources p))" if "t \<in> set ts" for t
  proof (rule fold_release)
    show "t \<in> set (pr_made p)" using made that by (simp add: list_all_iff)
    show "has_release t" using ts that by (auto simp: has_release_def releases_def)
  qed
  moreover have "pr_resources (snd (fire_event (create_tasks close s) e p)) = pr_resources p"
    if "e = WORKER_STARTUP \<or> e = CLIENT_STARTUP" for e
    using that by (auto simp: fire_event_def create_tasks_def Let_def on_startup_def process_log_def io_simps)
  ultimately show ?thesis
    using ends fold_release_drains [of "pr_made p" "pr_resources p"] lifespan_closes [OF close, of serving q]
    by (simp add: list_all_iff)
qed

text \<open>A container that closes as documented.\<close>

definition ref_close :: "(process, unit) io" where
  "ref_close p = (Inr (), p\<lparr>pr_resources := fold release (pr_made p) (pr_resources p), pr_made := []\<rparr>)"

text \<open>A process that fails while serving, with a cache, an engine and a broker it made.\<close>

definition busy_process :: process where
  "busy_process =
     \<lparr>pr_made = [''NatsBroker'', ''AsyncEngine'', ''StrCache''],
      pr_resources = \<lparr>re_cache_open = True, re_aiohttp = fresh_provider, re_engine_open = True, re_nats_closed = False,
        re_drains = 0\<rparr>, pr_log = []\<rparr>"

theorem shutdown_releases_everything_witness:
  "re_drains (pr_resources (snd (lifespan ref_close (io_raise (PyValueError ''x'') :: (process, unit) io)
      busy_process))) = 1 \<and>
   \<not> re_engine_open (pr_resources (snd (lifespan ref_close (io_raise (PyValueError ''x'') :: (process, unit) io)
      busy_process)))"
  using shutdown_releases_everything [of ref_close "io_raise (PyValueError ''x'') :: (process, unit) io"
      busy_process busy_process "[''AsyncEngine'', ''NatsBroker'']"]
  by (simp add: closes_container_def ref_close_def io_apply busy_process_def released_def)

end
