(* ===== verification/Migrations.thy ===== *)
theory Migrations
  imports Models Tools
begin

text \<open>
  The schema: the two migrations of \<open>migrations/versions\<close> as the operations they call in order, the
  tables the models of \<open>database/psql/models\<close> declare, and the numbering of revisions in
  \<open>migrations/env.py\<close>.  What the database does with an operation is not part of the program: it is
  the parameter \<open>exec\<close>, over the catalogue it keeps, with the documented effect of the statement as
  its law.
\<close>

section \<open>The catalogue\<close>

datatype sql_type = SQLString | SQLInteger | SQLBoolean | SQLUuid | SQLTimestamp | SQLEnum string "string list"

record column =
  co_name :: string
  co_type :: sql_type
  co_nullable :: bool
  co_server_default :: "string option"

record foreign_key =
  fk_name :: string
  fk_columns :: "string list"
  fk_refers :: "string \<times> string list"
  fk_ondelete :: string

record table =
  ta_columns :: "column list"
  ta_primary_key :: "string list"
  ta_foreign_keys :: "foreign_key list"

record db_index =
  ix_table :: string
  ix_columns :: "string list"
  ix_unique :: bool

record catalogue =
  ct_tables :: "string \<Rightarrow> table option"
  ct_indexes :: "string \<Rightarrow> db_index option"
  ct_rows :: "string \<Rightarrow> (string \<times> string) list list"

definition empty_catalogue :: catalogue where
  "empty_catalogue = \<lparr>ct_tables = Map.empty, ct_indexes = Map.empty, ct_rows = (\<lambda>_. [])\<rparr>"

text \<open>The operations of alembic the migrations use.  An insert gives the columns and the rows.\<close>

datatype operation =
    CreateTable string table
  | DropTable string
  | CreateIndex string db_index
  | DropIndex string string
  | InsertRows string "(string \<times> string) list list"

section \<open>The migrations\<close>

definition column :: "string \<Rightarrow> sql_type \<Rightarrow> string option \<Rightarrow> column" where
  "column name t dflt =
     \<lparr>co_name = name, co_type = t, co_nullable = False, co_server_default = dflt\<rparr>"

definition uuid_column :: column where
  "uuid_column = column ''uuid'' SQLUuid (Some ''gen_random_uuid()'')"

definition time_columns :: "column list" where
  "time_columns =
     [column ''created_at'' SQLTimestamp (Some ''now()''), column ''updated_at'' SQLTimestamp (Some ''now()'')]"

text \<open>The two mixins no model has yet: a number as the key, and the time of a deletion, which may be null.\<close>

definition id_column :: column where
  "id_column = column ''id'' SQLInteger None"

definition deleted_time_columns :: "column list" where
  "deleted_time_columns =
     time_columns @
     [\<lparr>co_name = ''deleted_at'', co_type = SQLTimestamp, co_nullable = True, co_server_default = None\<rparr>]"

definition upgrade_01 :: "operation list" where
  "upgrade_01 =
     [CreateTable ''role''
        \<lparr>ta_columns = [column ''name'' (SQLEnum ''role_type_enum'' [''Admin'', ''User'']) None, uuid_column] @
           time_columns,
         ta_primary_key = [''uuid''], ta_foreign_keys = []\<rparr>,
      CreateIndex ''ix_role_name'' \<lparr>ix_table = ''role'', ix_columns = [''name''], ix_unique = False\<rparr>,
      CreateTable ''user''
        \<lparr>ta_columns = [column ''login'' SQLString None, column ''password'' SQLString None,
           column ''active'' SQLBoolean None, column ''role_uuid'' SQLUuid None, uuid_column] @ time_columns,
         ta_primary_key = [''uuid''],
         ta_foreign_keys = [\<lparr>fk_name = ''fk_user_role'', fk_columns = [''role_uuid''],
           fk_refers = (''role'', [''uuid'']), fk_ondelete = ''RESTRICT''\<rparr>]\<rparr>,
      CreateIndex ''ix_user_active'' \<lparr>ix_table = ''user'', ix_columns = [''active''], ix_unique = False\<rparr>,
      CreateIndex ''ix_user_login'' \<lparr>ix_table = ''user'', ix_columns = [''login''], ix_unique = False\<rparr>,
      InsertRows ''role'' [[(''name'', ''Admin'')], [(''name'', ''User'')]]]"

definition downgrade_01 :: "operation list" where
  "downgrade_01 =
     [DropIndex ''ix_user_login'' ''user'', DropIndex ''ix_user_active'' ''user'', DropTable ''user'',
      DropIndex ''ix_role_name'' ''role'', DropTable ''role'']"

definition upgrade_02 :: "operation list" where
  "upgrade_02 =
     [DropIndex ''ix_user_login'' ''user'',
      CreateIndex ''ix_user_login'' \<lparr>ix_table = ''user'', ix_columns = [''login''], ix_unique = True\<rparr>]"

definition downgrade_02 :: "operation list" where
  "downgrade_02 =
     [DropIndex ''ix_user_login'' ''user'',
      CreateIndex ''ix_user_login'' \<lparr>ix_table = ''user'', ix_columns = [''login''], ix_unique = False\<rparr>]"

text \<open>The revisions of the two files; each names the one before.\<close>

record revision =
  rv_revision :: string
  rv_down_revision :: "string option"
  rv_upgrade :: "operation list"
  rv_downgrade :: "operation list"

definition revision_01 :: revision where
  "revision_01 =
     \<lparr>rv_revision = ''01_3d1a9bc30546'', rv_down_revision = None,
      rv_upgrade = upgrade_01, rv_downgrade = downgrade_01\<rparr>"

definition revision_02 :: revision where
  "revision_02 =
     \<lparr>rv_revision = ''02_82e484eb7a8e'', rv_down_revision = Some ''01_3d1a9bc30546'',
      rv_upgrade = upgrade_02, rv_downgrade = downgrade_02\<rparr>"

text \<open>A history is in order when each revision follows the one before it, the first none.\<close>

fun revision_chain :: "string option \<Rightarrow> revision list \<Rightarrow> bool" where
  "revision_chain prev [] = True"
| "revision_chain prev (r # rs) = (rv_down_revision r = prev \<and> revision_chain (Some (rv_revision r)) rs)"

lemma revisions_in_order: "revision_chain None [revision_01, revision_02]"
  by (simp add: revision_01_def revision_02_def)

section \<open>The models\<close>

text \<open>
  The table of a model: its name is that of the class, its own columns come before those of the
  mixins, \<open>index=True\<close> names the index after the table and the column.
\<close>

definition role_table :: table where
  "role_table =
     \<lparr>ta_columns = [column ''name''
          (SQLEnum (pascal_to_snake ''RoleTypeEnum'') (map role_type_value [ADMIN, USER])) None, uuid_column] @
        time_columns,
      ta_primary_key = [''uuid''], ta_foreign_keys = []\<rparr>"

definition user_table :: table where
  "user_table =
     \<lparr>ta_columns = [column ''login'' SQLString None, column ''password'' SQLString None,
        column ''active'' SQLBoolean None, column ''role_uuid'' SQLUuid None, uuid_column] @ time_columns,
      ta_primary_key = [''uuid''],
      ta_foreign_keys = [\<lparr>fk_name = ''fk_user_role'', fk_columns = [''role_uuid''],
        fk_refers = (''role'', [''uuid'']), fk_ondelete = ''RESTRICT''\<rparr>]\<rparr>"

definition column_index :: "string \<Rightarrow> string \<Rightarrow> bool \<Rightarrow> string \<times> db_index" where
  "column_index t c unique =
     (''ix_'' @ t @ ''_'' @ c, \<lparr>ix_table = t, ix_columns = [c], ix_unique = unique\<rparr>)"

definition model_tables :: "(string \<times> table) list" where
  "model_tables = [(tablename ''Role'', role_table), (tablename ''User'', user_table)]"

definition model_indexes :: "(string \<times> db_index) list" where
  "model_indexes =
     [column_index (tablename ''Role'') ''name'' False, column_index (tablename ''User'') ''login'' True,
      column_index (tablename ''User'') ''active'' False]"

section \<open>The effect of the operations\<close>

text \<open>
  When an operation is allowed and what it does to the catalogue: a table or an index is created
  under a free name, an index on a table that is there; a table that another one refers to is not
  dropped, and a table that is dropped takes its indexes and rows with it.
\<close>

fun allowed :: "operation \<Rightarrow> catalogue \<Rightarrow> bool" where
  "allowed (CreateTable t x) c = (ct_tables c t = None \<and>
     list_all (\<lambda>k. ct_tables c (fst (fk_refers k)) \<noteq> None) (ta_foreign_keys x))"
| "allowed (DropTable t) c = (ct_tables c t \<noteq> None \<and>
     (\<forall>u x. ct_tables c u = Some x \<longrightarrow> u \<noteq> t \<longrightarrow> list_all (\<lambda>k. fst (fk_refers k) \<noteq> t) (ta_foreign_keys x)))"
| "allowed (CreateIndex i x) c = (ct_indexes c i = None \<and> ct_tables c (ix_table x) \<noteq> None)"
| "allowed (DropIndex i t) c = (\<exists>x. ct_indexes c i = Some x \<and> ix_table x = t)"
| "allowed (InsertRows t rows) c = (ct_tables c t \<noteq> None)"

fun effect :: "operation \<Rightarrow> catalogue \<Rightarrow> catalogue" where
  "effect (CreateTable t x) c = c\<lparr>ct_tables := (ct_tables c)(t \<mapsto> x), ct_rows := (ct_rows c)(t := [])\<rparr>"
| "effect (DropTable t) c = c\<lparr>ct_tables := (ct_tables c)(t := None),
     ct_indexes := (\<lambda>i. case ct_indexes c i of None \<Rightarrow> None | Some x \<Rightarrow> if ix_table x = t then None else Some x),
     ct_rows := (ct_rows c)(t := [])\<rparr>"
| "effect (CreateIndex i x) c = c\<lparr>ct_indexes := (ct_indexes c)(i \<mapsto> x)\<rparr>"
| "effect (DropIndex i t) c = c\<lparr>ct_indexes := (ct_indexes c)(i := None)\<rparr>"
| "effect (InsertRows t rows) c = c\<lparr>ct_rows := (ct_rows c)(t := ct_rows c t @ rows)\<rparr>"

definition run_migration :: "(operation \<Rightarrow> ('d, unit) io) \<Rightarrow> operation list \<Rightarrow> ('d, unit) io" where
  "run_migration exec ops = io_bind (io_map exec ops) (\<lambda>_. io_return ())"

fun effects :: "operation list \<Rightarrow> catalogue \<Rightarrow> catalogue option" where
  "effects [] c = Some c"
| "effects (x # xs) c = (if allowed x c then effects xs (effect x c) else None)"

locale ddl_laws =
  fixes exec :: "operation \<Rightarrow> ('d, unit) io"
    and catalogue_of :: "'d \<Rightarrow> catalogue"
  assumes exec_ok: "allowed x (catalogue_of d) \<Longrightarrow> fst (exec x d) = Inr ()"
    and exec_effect: "allowed x (catalogue_of d) \<Longrightarrow>
      catalogue_of (snd (exec x d)) = effect x (catalogue_of d)"
begin

lemma run_migration_effects:
  "effects ops (catalogue_of d) = Some c \<Longrightarrow>
    fst (run_migration exec ops d) = Inr () \<and> catalogue_of (snd (run_migration exec ops d)) = c"
proof (induction ops arbitrary: d)
  case Nil
  then show ?case by (simp add: run_migration_def io_bind_def io_apply)
next
  case (Cons x ops)
  then have ok: "allowed x (catalogue_of d)" and rest: "effects ops (effect x (catalogue_of d)) = Some c"
    by (auto split: if_splits)
  have "fst (run_migration exec (x # ops) d) = fst (run_migration exec ops (snd (exec x d)))"
    "snd (run_migration exec (x # ops) d) = snd (run_migration exec ops (snd (exec x d)))"
    using exec_ok [OF ok] by (simp_all add: run_migration_def io_bind_def io_apply split: sum.split)
  with Cons.IH [of "snd (exec x d)"] rest exec_effect [OF ok] show ?case by simp
qed

end

text \<open>The reference: a database that is its catalogue and refuses what is not allowed.\<close>

definition ref_allowed :: "operation \<Rightarrow> catalogue \<Rightarrow> bool" where
  "ref_allowed = allowed"

definition ref_exec :: "operation \<Rightarrow> (catalogue, unit) io" where
  "ref_exec x c = (if ref_allowed x c then (Inr (), effect x c) else (Inl (SQLAlchemyError ''DDL''), c))"

interpretation refddl: ddl_laws ref_exec "\<lambda>c. c"
  by unfold_locales (simp_all add: ref_exec_def ref_allowed_def)

lemmas ref_ddl_ok = refddl.ddl_laws_axioms

section \<open>Revision numbers (migrations/env.py)\<close>

text \<open>
  \<open>add_number_to_migrations\<close>: the number of the head revision, which is its text before the first
  underscore, plus one, with at least two digits, in front of the new identifier.
\<close>

definition pad2 :: "int \<Rightarrow> string" where
  "pad2 n = (let s = int_str n in if length s < 2 then CHR ''0'' # s else s)"

definition numbered :: "int \<Rightarrow> string \<Rightarrow> string" where
  "numbered n rev_id = pad2 n @ ''_'' @ rev_id"

definition add_number_to_migrations :: "string option \<Rightarrow> string \<Rightarrow> exn + string" where
  "add_number_to_migrations head_revision rev_id =
     (case head_revision of
        None \<Rightarrow> Inr (numbered 1 rev_id)
      | Some h \<Rightarrow>
          (case parse_int (hd (py_split ''_'' h)) of
             None \<Rightarrow> Inl (PyValueError ''invalid literal for int() with base 10'')
           | Some last_rev_id \<Rightarrow> Inr (numbered (last_rev_id + 1) rev_id)))"

text \<open>The numbers of the two files are those the hook would give, and the next is three.\<close>

lemma revisions_numbered:
  "add_number_to_migrations (rv_down_revision revision_01) ''3d1a9bc30546'' = Inr (rv_revision revision_01)"
  "add_number_to_migrations (rv_down_revision revision_02) ''82e484eb7a8e'' = Inr (rv_revision revision_02)"
  "add_number_to_migrations (Some (rv_revision revision_02)) rev_id = Inr (''03_'' @ rev_id)"
  unfolding revision_01_def revision_02_def revision.simps add_number_to_migrations_def numbered_def
  by (code_simp)+

lemma parse_pad2: "0 \<le> n \<Longrightarrow> parse_int (pad2 n) = Some n"
proof -
  assume n: "0 \<le> n"
  have "parse_digits (CHR ''0'' # nat_str (nat n)) = Some (nat n)"
    using nat_str_digits [of "nat n"] nat_str_value [of "nat n"]
    by (simp add: parse_digits_def is_digit_def digit_val_def)
  with n show ?thesis
    using parse_int_str [of n] by (auto simp: pad2_def Let_def int_str_def parse_int_def)
qed

lemma pad2_no_underscore: "0 \<le> n \<Longrightarrow> CHR ''_'' \<notin> set (pad2 n)"
  by (auto simp: pad2_def Let_def int_str_def is_digit_def dest!: nat_str_digit_chars)

lemma py_split_first:
  "CHR ''_'' \<notin> set a \<Longrightarrow> hd (py_split ''_'' (a @ ''_'' @ b)) = a"
  using py_split_append [of "''_''" a b] by (simp add: sublist_single)

section \<open>Properties\<close>

text \<open>
  C29: The two migrations, run on an empty database, give the schema of the models: the same tables
  with the same columns, keys and defaults, the same indexes (the login unique), and the two roles.
  Undone in the opposite order they leave nothing behind.
\<close>

theorem migrations_give_the_models:
  assumes laws: "ddl_laws exec catalogue_of" and "catalogue_of d = empty_catalogue"
  shows "let d1 = snd (run_migration exec upgrade_01 d); d2 = snd (run_migration exec upgrade_02 d1);
      d3 = snd (run_migration exec downgrade_02 d2)
    in ct_tables (catalogue_of d2) = map_of model_tables \<and>
      ct_indexes (catalogue_of d2) = map_of model_indexes \<and>
      ct_rows (catalogue_of d2) ''role'' = map (\<lambda>x. [(''name'', role_type_value x)]) [ADMIN, USER] \<and>
      catalogue_of d3 = catalogue_of d1 \<and>
      catalogue_of (snd (run_migration exec downgrade_01 d3)) = empty_catalogue"
proof -
  note run = conjunct2 [OF ddl_laws.run_migration_effects [OF laws]]
  have tables: "tablename ''Role'' = ''role''" "tablename ''User'' = ''user''"
    "pascal_to_snake ''RoleTypeEnum'' = ''role_type_enum''"
    by code_simp+
  let ?c1 = "\<lparr>ct_tables = map_of model_tables,
      ct_indexes = [''ix_role_name'' \<mapsto> \<lparr>ix_table = ''role'', ix_columns = [''name''], ix_unique = False\<rparr>,
        ''ix_user_active'' \<mapsto> \<lparr>ix_table = ''user'', ix_columns = [''active''], ix_unique = False\<rparr>,
        ''ix_user_login'' \<mapsto> \<lparr>ix_table = ''user'', ix_columns = [''login''], ix_unique = False\<rparr>],
      ct_rows = (\<lambda>_. [])(''role'' := [[(''name'', ''Admin'')], [(''name'', ''User'')]])\<rparr>"
  let ?c2 = "?c1\<lparr>ct_indexes := map_of model_indexes\<rparr>"
  note ops = upgrade_01_def upgrade_02_def downgrade_01_def downgrade_02_def
  have up1: "effects upgrade_01 empty_catalogue = Some ?c1"
    by (simp add: ops empty_catalogue_def model_tables_def role_table_def user_table_def tables fun_eq_iff)
  have up2: "effects upgrade_02 ?c1 = Some ?c2"
    by (simp add: ops model_tables_def model_indexes_def column_index_def tables fun_eq_iff)
  have down2: "effects downgrade_02 ?c2 = Some ?c1"
    by (simp add: ops model_tables_def model_indexes_def column_index_def tables fun_eq_iff)
  have down1: "effects downgrade_01 ?c1 = Some empty_catalogue"
    by (auto simp: ops empty_catalogue_def model_tables_def role_table_def user_table_def tables fun_eq_iff)
  note run1 = run [of upgrade_01 d, unfolded assms(2), OF up1]
  note run2 = run [of upgrade_02 "snd (run_migration exec upgrade_01 d)", unfolded run1, OF up2]
  note run3 = run [of downgrade_02 "snd (run_migration exec upgrade_02 (snd (run_migration exec upgrade_01 d)))",
      unfolded run2, OF down2]
  show ?thesis
    unfolding Let_def run1 run2 run3
    using run [of downgrade_01, unfolded run3] down1 run3 by (intro conjI) simp_all
qed

theorem migrations_give_the_models_witness:
  "ct_tables (snd (run_migration ref_exec upgrade_02 (snd (run_migration ref_exec upgrade_01
     empty_catalogue)))) = map_of model_tables"
  using migrations_give_the_models [OF ref_ddl_ok, of empty_catalogue] by (simp add: Let_def)

text \<open>
  The revisions are numbered in order: the first one is 01, and after a revision with the number
  n comes the one with the number n + 1, whatever the rest of its identifier is.
\<close>

theorem revisions_count_up:
  assumes "0 \<le> n"
  shows "add_number_to_migrations (Some (numbered n old)) new = Inr (numbered (n + 1) new) \<and>
    add_number_to_migrations None new = Inr (''01_'' @ new)"
proof -
  have "pad2 1 = ''01''" by code_simp
  with assms show ?thesis
    using py_split_first [OF pad2_no_underscore [OF assms], of old]
    by (simp add: add_number_to_migrations_def numbered_def parse_pad2)
qed

theorem revisions_count_up_witness:
  "add_number_to_migrations (Some ''02_82e484eb7a8e'') ''abc'' = Inr ''03_abc''"
proof -
  have "pad2 2 = ''02''" "pad2 3 = ''03''" by code_simp+
  then show ?thesis
    using revisions_count_up [of 2 "''82e484eb7a8e''" "''abc''"] by (simp add: numbered_def)
qed

end
