(* ===== verification/Migration_Run.thy ===== *)
theory Migration_Run
  imports Migrations Settings
begin

text \<open>
  Running the migrations, \<open>migrations/env.py\<close>: the address of the database, the offline run that
  writes a script, and the online run on a connection that is given or made.  Alembic and the
  database are not part of the program: they are the parameter \<open>alembic\<close>, and what their
  documentation says of transactions is the locale \<open>alembic_laws\<close>.
\<close>

section \<open>The environment\<close>

text \<open>
  The options of \<open>context.configure\<close>: the offline run has the address, literal binds and named
  parameters, the online run a connection and the hook that numbers new revisions.
\<close>

datatype context_options =
    OfflineOptions (op_url: string) (op_literal_binds: bool) (op_paramstyle: string)
  | OnlineOptions (op_directives: "string option \<Rightarrow> string \<Rightarrow> exn + string")

text \<open>
  What the run uses of alembic and the engine: the steps of \<open>context.begin_transaction()\<close>, an
  operation of a revision, the revisions the command is to run, and the connection.
\<close>

record 'd alembic =
  al_begin :: "context_options \<Rightarrow> ('d, unit) io"
  al_commit :: "context_options \<Rightarrow> ('d, unit) io"
  al_rollback :: "context_options \<Rightarrow> ('d, unit) io"
  al_execute :: "context_options \<Rightarrow> operation \<Rightarrow> ('d, unit) io"
  al_revisions :: "operation list list"
  al_connect :: "string \<Rightarrow> ('d, unit) io"
  al_disconnect :: "('d, unit) io"
  al_dispose :: "('d, unit) io"

text \<open>The address: the main option of the configuration, or that of the settings.\<close>

definition migration_url ::
  "string option \<Rightarrow> (jvalue \<Rightarrow> string \<Rightarrow> char option \<Rightarrow> string \<Rightarrow> exn + string) \<Rightarrow> settings \<Rightarrow> exn + string" where
  "migration_url main_option render s =
     (if truthy_str main_option then Inr (the main_option) else database_url render (st_db s))"

definition context_transaction :: "'d alembic \<Rightarrow> context_options \<Rightarrow> ('d, 'a) io \<Rightarrow> ('d, 'a) io" where
  "context_transaction A opts body =
     async_with (al_begin A opts)
       (\<lambda>exc. case exc of None \<Rightarrow> al_commit A opts | Some _ \<Rightarrow> al_rollback A opts) body"

text \<open>\<open>context.run_migrations()\<close>: the functions of the revisions, one after the other.\<close>

definition run_revisions :: "'d alembic \<Rightarrow> context_options \<Rightarrow> ('d, unit) io" where
  "run_revisions A opts =
     io_bind (io_map (run_migration (al_execute A opts)) (al_revisions A)) (\<lambda>_. io_return ())"

definition run_migrations_offline :: "'d alembic \<Rightarrow> string \<Rightarrow> ('d, unit) io" where
  "run_migrations_offline A url =
     (let opts = OfflineOptions url True ''named'' in context_transaction A opts (run_revisions A opts))"

definition do_run_migrations :: "'d alembic \<Rightarrow> ('d, unit) io" where
  "do_run_migrations A =
     (let opts = OnlineOptions add_number_to_migrations in context_transaction A opts (run_revisions A opts))"

definition run_async_migrations :: "'d alembic \<Rightarrow> string \<Rightarrow> ('d, unit) io" where
  "run_async_migrations A url =
     io_bind (async_with (al_connect A url) (\<lambda>_. al_disconnect A) (do_run_migrations A)) (\<lambda>_. al_dispose A)"

text \<open>A connection in the attributes of the configuration is used as it is.\<close>

definition run_migrations_online :: "'d alembic \<Rightarrow> bool \<Rightarrow> string \<Rightarrow> ('d, unit) io" where
  "run_migrations_online A given url =
     (if given then do_run_migrations A else run_async_migrations A url)"

definition run_environment ::
  "'d alembic \<Rightarrow> bool \<Rightarrow> bool \<Rightarrow> string option \<Rightarrow>
    (jvalue \<Rightarrow> string \<Rightarrow> char option \<Rightarrow> string \<Rightarrow> exn + string) \<Rightarrow> settings \<Rightarrow> ('d, unit) io" where
  "run_environment A offline given main_option render s =
     io_bind (io_lift (migration_url main_option render s)) (\<lambda>url.
       if offline then run_migrations_offline A url else run_migrations_online A given url)"

section \<open>The transaction of a run\<close>

text \<open>
  \<open>catalogue_of\<close> is what a statement of the session sees, \<open>saved\<close> what the database keeps.  An
  operation online works on the first only (the schema changes of PostgreSQL are transactional), a
  refused one raises; a commit saves or fails; offline the database is not touched.
\<close>

locale alembic_laws =
  fixes A :: "'d alembic" and catalogue_of saved :: "'d \<Rightarrow> catalogue"
  assumes online: "ddl_laws (al_execute A (OnlineOptions f)) catalogue_of"
    and execute_refuses: "\<not> allowed x (catalogue_of d) \<Longrightarrow> \<exists>e. fst (al_execute A (OnlineOptions f) x d) = Inl e"
    and execute_saved: "saved (snd (al_execute A opts x d)) = saved d"
    and begin_ok: "fst (al_begin A opts d) = Inr ()"
    and begin_saved: "saved (snd (al_begin A opts d)) = saved d"
    and begin_sees: "catalogue_of (snd (al_begin A (OnlineOptions f) d)) = saved d"
    and commit_saves: "fst (al_commit A (OnlineOptions f) d) = Inr () \<Longrightarrow>
      saved (snd (al_commit A (OnlineOptions f) d)) = catalogue_of d"
    and commit_fails: "fst (al_commit A (OnlineOptions f) d) = Inl e \<Longrightarrow>
      saved (snd (al_commit A (OnlineOptions f) d)) = saved d"
    and commit_offline: "saved (snd (al_commit A (OfflineOptions u b p) d)) = saved d"
    and rollback_saved: "saved (snd (al_rollback A opts d)) = saved d"
    and connect_saved: "saved (snd (al_connect A url d)) = saved d"
    and disconnect_ok: "fst (al_disconnect A d) = Inr ()" "saved (snd (al_disconnect A d)) = saved d"
    and dispose_ok: "fst (al_dispose A d) = Inr ()" "saved (snd (al_dispose A d)) = saved d"
begin

lemma migration_saved: "saved (snd (run_migration (al_execute A opts) ops d)) = saved d"
  unfolding run_migration_def
proof (induction ops arbitrary: d)
  case (Cons x ops)
  from Cons.IH [of "snd (al_execute A opts x d)"] show ?case
    by (auto simp: io_bind_def io_apply execute_saved split: sum.splits)
qed (simp add: io_bind_def io_apply)

lemma revisions_saved: "saved (snd (run_revisions A opts d)) = saved d"
proof -
  have "saved (snd (io_map (run_migration (al_execute A opts)) rs d)) = saved d" for rs
    by (induction rs arbitrary: d) (simp_all add: io_bind_def io_apply migration_saved split: sum.split)
  then show ?thesis by (simp add: run_revisions_def io_bind_def io_apply split: sum.split)
qed

text \<open>A migration that runs through does exactly the effects of its operations.\<close>

lemma migration_runs:
  "fst (run_migration (al_execute A (OnlineOptions f)) ops d) = Inr () \<Longrightarrow>
    effects ops (catalogue_of d) =
      Some (catalogue_of (snd (run_migration (al_execute A (OnlineOptions f)) ops d)))"
proof (induction ops arbitrary: d)
  case (Cons x ops)
  let ?d = "snd (al_execute A (OnlineOptions f) x d)"
  have ok: "fst (al_execute A (OnlineOptions f) x d) = Inr ()"
    using Cons.prems by (cases "fst (al_execute A (OnlineOptions f) x d)") (auto simp: run_migration_def io_bind_def)
  then have allowed: "allowed x (catalogue_of d)" using execute_refuses [of x d f] by auto
  have step: "fst (run_migration (al_execute A (OnlineOptions f)) (x # ops) d) =
      fst (run_migration (al_execute A (OnlineOptions f)) ops ?d)"
    "snd (run_migration (al_execute A (OnlineOptions f)) (x # ops) d) =
      snd (run_migration (al_execute A (OnlineOptions f)) ops ?d)"
    by (simp_all add: run_migration_def io_bind_def io_apply ok split: sum.split)
  from Cons.IH [of ?d] Cons.prems show ?case
    by (simp add: step allowed ddl_laws.exec_effect [OF online allowed])
qed (simp add: run_migration_def io_bind_def io_apply)

lemma effects_append:
  "effects (xs @ ys) c = Option.bind (effects xs c) (effects ys)"
  by (induction xs arbitrary: c) simp_all

lemma revisions_run:
  "fst (run_revisions A (OnlineOptions f) d) = Inr () \<Longrightarrow>
    effects (concat (al_revisions A)) (catalogue_of d) =
      Some (catalogue_of (snd (run_revisions A (OnlineOptions f) d)))"
proof -
  let ?m = "run_migration (al_execute A (OnlineOptions f))"
  have "fst (io_map ?m rs d) = Inr us \<Longrightarrow>
      effects (concat rs) (catalogue_of d) = Some (catalogue_of (snd (io_map ?m rs d)))" for rs us
  proof (induction rs arbitrary: d us)
    case (Cons r rs)
    have ok: "fst (?m r d) = Inr ()"
      using Cons.prems by (cases "fst (?m r d)") (auto simp: io_bind_def)
    with Cons.prems obtain vs where vs: "fst (io_map ?m rs (snd (?m r d))) = Inr vs"
      by (auto simp: io_bind_def split: sum.splits)
    from Cons.IH [OF this] migration_runs [OF ok] show ?case
      by (simp add: effects_append io_bind_def io_apply ok vs)
  qed (simp add: io_apply)
  moreover assume "fst (run_revisions A (OnlineOptions f) d) = Inr ()"
  then obtain us where us: "fst (io_map ?m (al_revisions A) d) = Inr us"
    by (auto simp: run_revisions_def io_bind_def split: sum.splits)
  ultimately show ?thesis by (simp add: run_revisions_def io_bind_def io_apply us)
qed

definition done_or_nothing :: "exn + unit \<Rightarrow> 'd \<Rightarrow> 'd \<Rightarrow> bool" where
  "done_or_nothing out d d' \<longleftrightarrow>
     (case out of
        Inl e \<Rightarrow> saved d' = saved d
      | Inr _ \<Rightarrow> effects (concat (al_revisions A)) (saved d) = Some (saved d'))"

lemma do_run_all_or_nothing:
  "done_or_nothing (fst (do_run_migrations A d)) d (snd (do_run_migrations A d))"
proof -
  let ?o = "OnlineOptions add_number_to_migrations"
  let ?d = "snd (al_begin A ?o d)"
  let ?e = "snd (run_revisions A ?o ?d)"
  have run: "do_run_migrations A d =
      (case fst (run_revisions A ?o ?d) of
         Inr x \<Rightarrow> io_bind (al_commit A ?o) (\<lambda>_. io_return x) ?e
       | Inl e \<Rightarrow> io_bind (al_rollback A ?o) (\<lambda>_. io_raise e) ?e)"
    by (simp add: do_run_migrations_def Let_def context_transaction_def async_with_def io_bind_def begin_ok
        split: sum.split)
  have kept: "saved ?e = saved d" by (simp add: revisions_saved begin_saved)
  show ?thesis
  proof (cases "fst (run_revisions A ?o ?d)")
    case (Inl e)
    then show ?thesis
      by (auto simp: run done_or_nothing_def io_bind_def io_apply rollback_saved kept split: sum.split)
  next
    case (Inr x)
    from revisions_run [of add_number_to_migrations ?d] Inr
    have "effects (concat (al_revisions A)) (saved d) = Some (catalogue_of ?e)"
      by (simp add: begin_sees)
    with Inr commit_saves [of add_number_to_migrations ?e] commit_fails [of add_number_to_migrations ?e]
    show ?thesis
      by (cases "fst (al_commit A ?o ?e)") (auto simp: run done_or_nothing_def io_bind_def io_apply kept)
  qed
qed

lemma online_all_or_nothing:
  "done_or_nothing (fst (run_migrations_online A given url d)) d (snd (run_migrations_online A given url d))"
proof (cases given)
  case True
  then show ?thesis by (simp add: run_migrations_online_def do_run_all_or_nothing)
next
  case False
  let ?d = "snd (al_connect A url d)"
  have "done_or_nothing (fst (do_run_migrations A ?d)) ?d (snd (do_run_migrations A ?d))"
    by (rule do_run_all_or_nothing)
  with False show ?thesis
    by (auto simp: run_migrations_online_def run_async_migrations_def async_with_def io_bind_def io_apply
        done_or_nothing_def connect_saved disconnect_ok dispose_ok split: sum.splits)
qed

lemma offline_saved: "saved (snd (run_migrations_offline A url d)) = saved d"
  by (auto simp: run_migrations_offline_def Let_def context_transaction_def async_with_def io_bind_def
      io_apply begin_ok begin_saved revisions_saved commit_offline rollback_saved split: sum.split)

end

section \<open>A reference\<close>

text \<open>A database with a saved catalogue, that of the session, and the script of the offline runs.\<close>

record ddl_database =
  dd_saved :: catalogue
  dd_seen :: catalogue
  dd_script :: "operation list"

fun ref_execute :: "context_options \<Rightarrow> operation \<Rightarrow> (ddl_database, unit) io" where
  "ref_execute (OfflineOptions u b p) x d = (Inr (), d\<lparr>dd_script := dd_script d @ [x]\<rparr>)"
| "ref_execute (OnlineOptions f) x d = io_focus dd_seen (\<lambda>c. dd_seen_update (\<lambda>_. c)) (ref_exec x) d"

fun ref_commit :: "context_options \<Rightarrow> (ddl_database, unit) io" where
  "ref_commit (OfflineOptions u b p) d = (Inr (), d)"
| "ref_commit (OnlineOptions f) d = (Inr (), d\<lparr>dd_saved := dd_seen d\<rparr>)"

definition ref_alembic :: "operation list list \<Rightarrow> ddl_database alembic" where
  "ref_alembic revisions =
     \<lparr>al_begin = (\<lambda>_ d. (Inr (), d\<lparr>dd_seen := dd_saved d\<rparr>)), al_commit = ref_commit,
      al_rollback = (\<lambda>_ d. (Inr (), d\<lparr>dd_seen := dd_saved d\<rparr>)), al_execute = ref_execute,
      al_revisions = revisions, al_connect = (\<lambda>_. io_return ()), al_disconnect = io_return (),
      al_dispose = io_return ()\<rparr>"

interpretation refalembic: alembic_laws "ref_alembic revisions" dd_seen dd_saved
proof (rule alembic_laws.intro)
  show "ddl_laws (al_execute (ref_alembic revisions) (OnlineOptions f)) dd_seen" for f
    unfolding ddl_laws_def by (simp add: ref_alembic_def io_focus_def ref_exec_def ref_allowed_def)
  show "dd_saved (snd (al_execute (ref_alembic revisions) opts x d)) = dd_saved d" for opts x d
    by (cases opts) (simp_all add: ref_alembic_def io_focus_def)
qed (simp_all add: ref_alembic_def io_apply io_focus_def ref_exec_def ref_allowed_def)

lemmas ref_alembic_ok = refalembic.alembic_laws_axioms

section \<open>Properties\<close>

text \<open>
  C35: The migrations run all or not at all.  Whatever fails, the address, the connection, an operation
  of any revision or the commit, an online run either raises and leaves the database as it was, or it
  returns and the database has the effects of all revisions, in their order; an offline run leaves it
  as it was in any case.
\<close>

theorem migrations_all_or_nothing:
  fixes d :: 'd and given :: bool and main_option :: "string option" and s :: settings
    and render :: "jvalue \<Rightarrow> string \<Rightarrow> char option \<Rightarrow> string \<Rightarrow> exn + string"
  assumes "alembic_laws A catalogue_of saved"
  defines "run \<equiv> \<lambda>offline. run_environment A offline given main_option render s d"
  shows "saved (snd (run True)) = saved d \<and>
    ((\<exists>e. fst (run False) = Inl e) \<and> saved (snd (run False)) = saved d \<or>
     fst (run False) = Inr () \<and> effects (concat (al_revisions A)) (saved d) = Some (saved (snd (run False))))"
proof (cases "migration_url main_option render s")
  case (Inl e)
  then show ?thesis by (simp add: run_def run_environment_def io_bind_def io_apply)
next
  case (Inr url)
  note all = alembic_laws.online_all_or_nothing [OF assms(1), of given url d,
      unfolded alembic_laws.done_or_nothing_def [OF assms(1)]]
  from Inr have "run True = run_migrations_offline A url d" "run False = run_migrations_online A given url d"
    by (simp_all add: run_def run_environment_def io_bind_def io_apply)
  with all alembic_laws.offline_saved [OF assms(1), of url d] show ?thesis
    by (cases "fst (run_migrations_online A given url d)") simp_all
qed

definition fresh_database :: ddl_database where
  "fresh_database = \<lparr>dd_saved = empty_catalogue, dd_seen = empty_catalogue, dd_script = []\<rparr>"

text \<open>The revisions in the wrong order: the index of the second has no table yet, nothing is saved.\<close>

theorem migrations_all_or_nothing_witness:
  "dd_saved (snd (run_environment (ref_alembic [upgrade_02, upgrade_01]) False True (Some ''u'')
    (\<lambda>_ _ _ _. Inr []) (load_settings None None None None None None) fresh_database)) = empty_catalogue"
proof -
  have "effects (concat [upgrade_02, upgrade_01]) empty_catalogue = None"
    by (simp add: upgrade_02_def empty_catalogue_def)
  with migrations_all_or_nothing [OF ref_alembic_ok, of "[upgrade_02, upgrade_01]" True "Some ''u''"
      "\<lambda>_ _ _ _. Inr []" "load_settings None None None None None None" fresh_database]
  show ?thesis
    by (auto simp: fresh_database_def ref_alembic_def)
qed

end
