(* ===== verification/Transactions.thy ===== *)
theory Transactions
  imports Use_Cases
begin

text \<open>
  The database blocks of the use cases, statement by statement.  A block is a tree of what it sends
  to its session and how it goes on after each reply; on a session alone it is the block of
  \<open>Use_Cases\<close>.  In this form several blocks, each on a session of its own, can share one server.
\<close>

section \<open>What a block sends\<close>

datatype command =
    AskInTransaction | AskIsActive | BeginTx | CommitTx | RollbackTx | CloseTx
  | UserStmt stmt | RoleStmt stmt | ExistsUser stmt | CountUser stmt

datatype reply = UserRows "user_row list" | RoleRows "role_row list" | Flag bool | Total int | Ok | Failed exn

datatype 'a tx = Finish "exn + 'a" | Ask command "reply \<Rightarrow> 'a tx"

primrec tx_cont :: "'a tx \<Rightarrow> (exn + 'a \<Rightarrow> 'b tx) \<Rightarrow> 'b tx" where
  "tx_cont (Finish r) h = h r"
| "tx_cont (Ask c k) h = Ask c (\<lambda>rep. tx_cont (k rep) h)"

definition tx_return :: "'a \<Rightarrow> 'a tx" where "tx_return x = Finish (Inr x)"
definition tx_raise :: "exn \<Rightarrow> 'a tx" where "tx_raise e = Finish (Inl e)"

definition tx_bind :: "'a tx \<Rightarrow> ('a \<Rightarrow> 'b tx) \<Rightarrow> 'b tx" where
  "tx_bind t f = tx_cont t (\<lambda>r. case r of Inl e \<Rightarrow> tx_raise e | Inr x \<Rightarrow> f x)"

definition tx_try :: "'a tx \<Rightarrow> (exn \<Rightarrow> 'a tx) \<Rightarrow> 'a tx" where
  "tx_try t h = tx_cont t (\<lambda>r. case r of Inl e \<Rightarrow> h e | Inr x \<Rightarrow> tx_return x)"

text \<open>A failure is raised where the statement was sent; replies of another kind do not come.\<close>

definition no_such_reply :: exn where
  "no_such_reply = SQLAlchemyError ''unexpected reply''"

definition ask_users :: "command \<Rightarrow> user_row list tx" where
  "ask_users c = Ask c (\<lambda>rep. case rep of
     UserRows us \<Rightarrow> tx_return us | Failed e \<Rightarrow> tx_raise e | _ \<Rightarrow> tx_raise no_such_reply)"

definition ask_roles :: "command \<Rightarrow> role_row list tx" where
  "ask_roles c = Ask c (\<lambda>rep. case rep of
     RoleRows rs \<Rightarrow> tx_return rs | Failed e \<Rightarrow> tx_raise e | _ \<Rightarrow> tx_raise no_such_reply)"

definition ask_flag :: "command \<Rightarrow> bool tx" where
  "ask_flag c = Ask c (\<lambda>rep. case rep of
     Flag b \<Rightarrow> tx_return b | Failed e \<Rightarrow> tx_raise e | _ \<Rightarrow> tx_raise no_such_reply)"

definition ask_total :: "command \<Rightarrow> int tx" where
  "ask_total c = Ask c (\<lambda>rep. case rep of
     Total n \<Rightarrow> tx_return n | Failed e \<Rightarrow> tx_raise e | _ \<Rightarrow> tx_raise no_such_reply)"

definition ask_unit :: "command \<Rightarrow> unit tx" where
  "ask_unit c = Ask c (\<lambda>rep. case rep of
     Ok \<Rightarrow> tx_return () | Failed e \<Rightarrow> tx_raise e | _ \<Rightarrow> tx_raise no_such_reply)"

section \<open>The repositories\<close>

text \<open>What the blocks take from outside: the hasher, and the library's removal of duplicates.\<close>

record tx_env =
  te_hasher :: hasher
  te_users :: "user_row list \<Rightarrow> user_row list"
  te_roles :: "role_row list \<Rightarrow> role_row list"

definition tx_result :: "'a db_result \<Rightarrow> 'a tx" where
  "tx_result r =
     (case result_data r of
        Some x \<Rightarrow> tx_return x
      | None \<Rightarrow> tx_raise (App (exception_map (exception_type r))))"

definition tx_in_use :: "string \<Rightarrow> 'a tx \<Rightarrow> 'a tx" where
  "tx_in_use uniq t =
     tx_try t (\<lambda>e. case e of
         IntegrityError origin \<Rightarrow>
           (case find_unique [uniq] origin of
              Some u \<Rightarrow> tx_raise (App (simple_error ConflictError (u @ '' already in use'')))
            | None \<Rightarrow> tx_raise (App default_app_exception))
       | _ \<Rightarrow> tx_raise e)"

definition tx_no_identifier :: "'a tx" where
  "tx_no_identifier = tx_raise (InvalidParamsError ''at least one identifier must be provided'')"

lemmas tx_no_identifier_code [code_unfold] = tx_no_identifier_def

definition tx_role_select ::
  "tx_env \<Rightarrow> string list \<Rightarrow> uuid option \<Rightarrow> string option \<Rightarrow> role_row db_result tx" where
  "tx_role_select E loads role_uuid name =
     (if role_uuid = None \<and> \<not> truthy_str name then tx_no_identifier
      else tx_bind (ask_roles (RoleStmt (SelectRows loads (identifier_clauses ''name'' role_uuid name)))) (\<lambda>rows.
        tx_return (Result ESelect (first (te_roles E rows)))))"

definition tx_user_select ::
  "tx_env \<Rightarrow> string list \<Rightarrow> uuid option \<Rightarrow> string option \<Rightarrow> user_row db_result tx" where
  "tx_user_select E loads user_uuid login =
     (if user_uuid = None \<and> \<not> truthy_str login then tx_no_identifier
      else tx_bind (ask_users (UserStmt (SelectRows loads (identifier_clauses ''login'' user_uuid login)))) (\<lambda>rows.
        tx_return (Result ESelect (first (te_users E rows)))))"

definition tx_user_exists :: "string \<Rightarrow> bool db_result tx" where
  "tx_user_exists login =
     tx_bind (ask_flag (ExistsUser (ExistsRow [ColEq ''login'' (PStr login)]))) (\<lambda>b.
     tx_return (Result EExists (Some b)))"

definition tx_user_create :: "pydict \<Rightarrow> user_row db_result tx" where
  "tx_user_create data =
     tx_in_use ''login'' (tx_bind (ask_users (UserStmt (InsertRow data))) (\<lambda>rows.
       tx_return (Result ECreate (first rows))))"

definition tx_user_update :: "uuid \<Rightarrow> pydict \<Rightarrow> user_row db_result tx" where
  "tx_user_update user_uuid data =
     tx_in_use ''login'' (tx_bind (ask_users (UserStmt (UpdateRows [ColEq ''uuid'' (PUuid user_uuid)] data))) (\<lambda>rows.
       tx_return (Result EUpdate (first rows))))"

definition tx_user_select_many ::
  "tx_env \<Rightarrow> string list \<Rightarrow> string option \<Rightarrow> uuid option \<Rightarrow> order_by \<Rightarrow> int \<Rightarrow> int option \<Rightarrow>
    (int \<times> user_row list) db_result tx" where
  "tx_user_select_many E loads login role_uuid dir offset limit =
     tx_bind (ask_total (CountUser (CountRows (user_filter login role_uuid)))) (\<lambda>total.
     if total \<le> 0 then tx_return (Result ESelect (Some (total, [])))
     else tx_bind (ask_users (UserStmt (OffsetQuery loads offset limit (''created_at'', dir)
              (user_filter login role_uuid)))) (\<lambda>rows.
            tx_return (Result ESelect (Some (total, te_users E rows)))))"

section \<open>The transaction manager\<close>

definition tx_commit :: "unit tx" where
  "tx_commit = tx_try (ask_unit CommitTx) (\<lambda>e. tx_raise (if is_sqlalchemy_error e then CommitError else e))"

definition tx_rollback :: "unit tx" where
  "tx_rollback = tx_try (ask_unit RollbackTx) (\<lambda>e. tx_raise (if is_sqlalchemy_error e then RollbackError else e))"

text \<open>The result tells whether the manager holds a transaction.\<close>

definition tx_create :: "bool tx" where
  "tx_create =
     tx_bind (ask_flag AskInTransaction) (\<lambda>in_transaction.
     if in_transaction then tx_return False
     else tx_bind (ask_flag AskIsActive) (\<lambda>active.
       if active then tx_bind (ask_unit BeginTx) (\<lambda>_. tx_return True) else tx_return False))"

definition tx_close :: "unit tx" where
  "tx_close = tx_bind (ask_flag AskIsActive) (\<lambda>active. if active then ask_unit CloseTx else tx_return ())"

definition tx_aexit :: "bool \<Rightarrow> exn option \<Rightarrow> unit tx" where
  "tx_aexit transaction exc =
     tx_bind (if transaction then (case exc of Some _ \<Rightarrow> tx_rollback | None \<Rightarrow> tx_commit) else tx_return ())
       (\<lambda>_. tx_close)"

definition tx_with :: "'a tx \<Rightarrow> (exn option \<Rightarrow> unit tx) \<Rightarrow> 'a tx" where
  "tx_with body exit =
     tx_cont body (\<lambda>r. case r of
         Inr x \<Rightarrow> tx_bind (exit None) (\<lambda>_. tx_return x)
       | Inl e \<Rightarrow> tx_bind (exit (Some e)) (\<lambda>_. tx_raise e))"

definition tx_database :: "'a tx \<Rightarrow> 'a tx" where
  "tx_database body = tx_bind tx_create (\<lambda>transaction. tx_with body (tx_aexit transaction))"

definition tx_session :: "'a tx \<Rightarrow> 'a tx" where
  "tx_session body = tx_with body (\<lambda>_. ask_unit CloseTx)"

section \<open>The blocks of the use cases\<close>

text \<open>
  The database blocks by what they are given, and what they return.  The permission check gets the
  identifier the access token stands for.
\<close>

datatype block =
    RegisterBlock string
  | ConfirmBlock register_request
  | LoginBlock string
  | PermissionBlock "string option list" uuid
  | CreateBlock create_user_request
  | SelectBlock select_user_request
  | PageBlock select_many_user_request
  | UpdateBlock update_user_request

datatype answer = Known bool | Row user_row | View user_result | Page "user_result offset_result"

definition tx_lift :: "exn + 'a \<Rightarrow> 'a tx" where "tx_lift r = Finish r"

definition tx_map :: "('a \<Rightarrow> 'b) \<Rightarrow> 'a tx \<Rightarrow> 'b tx" where
  "tx_map f t = tx_bind t (\<lambda>x. tx_return (f x))"

text \<open>The check of a permission and the views need no session.\<close>

definition check_result :: "string option list \<Rightarrow> user_row \<Rightarrow> exn + user_result" where
  "check_result permissions user = fst (check_permission permissions user ())"

definition views_of :: "user_row list \<Rightarrow> exn + user_result list" where
  "views_of users = fst (io_map (\<lambda>user. io_lift (user_result_from user)) users ())"

definition tx_confirm_user :: "tx_env \<Rightarrow> register_request \<Rightarrow> user_row tx" where
  "tx_confirm_user E cached_user =
     tx_bind (tx_bind (tx_role_select E [] None (Some ''User'')) tx_result) (\<lambda>role.
     tx_bind (tx_lift (h_hash_password (te_hasher E) (rg_password cached_user))) (\<lambda>password.
     tx_bind (tx_user_create (user_values (rg_login cached_user) password (r_uuid role))) tx_result))"

definition tx_create_user :: "tx_env \<Rightarrow> create_user_request \<Rightarrow> user_result tx" where
  "tx_create_user E request =
     tx_bind (tx_lift (h_hash_password (te_hasher E) (cu_password request))) (\<lambda>password.
     tx_bind (tx_bind (tx_user_create (user_values (cu_login request) password (cu_role_uuid request))) tx_result)
       (\<lambda>user. tx_lift (user_result_from user)))"

definition tx_update_user :: "tx_env \<Rightarrow> update_user_request \<Rightarrow> user_result tx" where
  "tx_update_user E request =
     tx_bind (tx_lift (hash_field (te_hasher E) (dump_update request))) (\<lambda>vals.
     tx_bind (tx_bind (tx_user_update (up_user_uuid request) vals) tx_result)
       (\<lambda>user. tx_lift (user_result_from user)))"

definition tx_select_many :: "tx_env \<Rightarrow> select_many_user_request \<Rightarrow> user_result offset_result tx" where
  "tx_select_many E request =
     (let p = sm_pagination request
      in tx_bind (tx_bind (tx_user_select_many E (sm_loads request) (sm_login request) (sm_role_uuid request)
             (pg_order_by p) (pg_offset p) (pg_limit p)) tx_result)
           (\<lambda>(total, users).
            tx_bind (tx_lift (views_of users)) (\<lambda>results.
            tx_return \<lparr>or_data = results, or_offset = pg_offset p, or_limit = pg_limit p,
              or_total = total\<rparr>)))"

fun block_tx :: "tx_env \<Rightarrow> block \<Rightarrow> answer tx" where
  "block_tx E (RegisterBlock login) = tx_map Known (tx_session (tx_bind (tx_user_exists login) tx_result))"
| "block_tx E (ConfirmBlock r) = tx_map Row (tx_database (tx_confirm_user E r))"
| "block_tx E (LoginBlock login) =
     tx_map Row (tx_session (tx_bind (tx_user_select E [] None (Some login)) tx_result))"
| "block_tx E (PermissionBlock ps u) =
     tx_map View (tx_session (tx_bind (tx_bind (tx_user_select E [''role''] (Some u) None) tx_result)
       (\<lambda>user. tx_lift (check_result ps user))))"
| "block_tx E (CreateBlock q) = tx_map View (tx_database (tx_create_user E q))"
| "block_tx E (SelectBlock q) =
     tx_map View (tx_session (tx_bind (tx_bind (tx_user_select E (su_loads q) (su_user_uuid q) (su_login q)) tx_result)
       (\<lambda>user. tx_lift (user_result_from user))))"
| "block_tx E (PageBlock q) = tx_map Page (tx_session (tx_select_many E q))"
| "block_tx E (UpdateBlock q) = tx_map View (tx_database (tx_update_user E q))"

text \<open>The same blocks as the use cases have them.\<close>

definition io_into :: "('a \<Rightarrow> 'b) \<Rightarrow> ('s, 'a) io \<Rightarrow> ('s, 'b) io" where
  "io_into f m = io_bind m (\<lambda>x. io_return (f x))"

fun block_io :: "('c, 'd) app \<Rightarrow> block \<Rightarrow> ('d, answer) io" where
  "block_io A (RegisterBlock login) = io_into Known (in_session (ap_session A)
     (io_bind (user_exists (ss_user (ap_session A)) login) result_of))"
| "block_io A (ConfirmBlock r) = io_into Row (in_database (ap_session A) (confirm_user A r))"
| "block_io A (LoginBlock login) = io_into Row (in_session (ap_session A)
     (io_bind (user_select (ss_user (ap_session A)) [] None (Some login)) result_of))"
| "block_io A (PermissionBlock ps u) = io_into View (in_session (ap_session A)
     (io_bind (io_bind (user_select (ss_user (ap_session A)) [''role''] (Some u) None) result_of)
       (check_permission ps)))"
| "block_io A (CreateBlock q) = io_into View (in_database (ap_session A)
     (io_bind (io_lift (h_hash_password (ap_hasher A) (cu_password q))) (\<lambda>password.
      io_bind (io_bind (user_create (ss_user (ap_session A))
          (user_values (cu_login q) password (cu_role_uuid q))) result_of)
        (\<lambda>user. io_lift (user_result_from user)))))"
| "block_io A (SelectBlock q) = io_into View (in_session (ap_session A)
     (io_bind (io_bind (user_select (ss_user (ap_session A)) (su_loads q) (su_user_uuid q) (su_login q)) result_of)
       (\<lambda>user. io_lift (user_result_from user))))"
| "block_io A (PageBlock q) = io_into Page (in_session (ap_session A)
     (io_bind (io_bind (user_select_many (ss_user (ap_session A)) (sm_loads q) (sm_login q) (sm_role_uuid q)
          (pg_order_by (sm_pagination q)) (pg_offset (sm_pagination q)) (pg_limit (sm_pagination q))) result_of)
       (\<lambda>(total, users).
        io_bind (io_map (\<lambda>user. io_lift (user_result_from user)) users) (\<lambda>results.
        io_return \<lparr>or_data = results, or_offset = pg_offset (sm_pagination q),
          or_limit = pg_limit (sm_pagination q), or_total = total\<rparr>))))"
| "block_io A (UpdateBlock q) = io_into View (in_database (ap_session A)
     (io_bind (io_lift (hash_field (ap_hasher A) (dump_update q))) (\<lambda>vals.
      io_bind (io_bind (user_update (ss_user (ap_session A)) (up_user_uuid q) vals) result_of)
        (\<lambda>user. io_lift (user_result_from user)))))"

section \<open>A block alone\<close>

text \<open>What a session of SQLAlchemy replies when no other is at work.\<close>

fun reply_of :: "('a \<Rightarrow> reply) \<Rightarrow> (exn + 'a) \<times> 'd \<Rightarrow> reply \<times> 'd" where
  "reply_of f (Inl e, d) = (Failed e, d)"
| "reply_of f (Inr x, d) = (f x, d)"

fun session_reply :: "'d db_session \<Rightarrow> command \<Rightarrow> 'd \<Rightarrow> reply \<times> 'd" where
  "session_reply S AskInTransaction d = (Flag (ss_in_transaction S d), d)"
| "session_reply S AskIsActive d = (Flag (ss_is_active S d), d)"
| "session_reply S BeginTx d = reply_of (\<lambda>_. Ok) (ss_begin S d)"
| "session_reply S CommitTx d = reply_of (\<lambda>_. Ok) (ss_commit S d)"
| "session_reply S RollbackTx d = reply_of (\<lambda>_. Ok) (ss_rollback S d)"
| "session_reply S CloseTx d = reply_of (\<lambda>_. Ok) (ss_close S d)"
| "session_reply S (UserStmt st) d = reply_of UserRows (ms_execute (ss_user S) st d)"
| "session_reply S (RoleStmt st) d = reply_of RoleRows (ms_execute (ss_role S) st d)"
| "session_reply S (ExistsUser st) d = reply_of Flag (ms_scalar_bool (ss_user S) st d)"
| "session_reply S (CountUser st) d = reply_of Total (ms_scalar_int (ss_user S) st d)"

primrec run_tx :: "'d db_session \<Rightarrow> 'a tx \<Rightarrow> ('d, 'a) io" where
  "run_tx S (Finish r) = (\<lambda>d. (r, d))"
| "run_tx S (Ask c k) = (\<lambda>d. let (rep, d') = session_reply S c d in run_tx S (k rep) d')"

named_theorems tx_run

lemma run_cont: "run_tx S (tx_cont t h) = (\<lambda>d. let (r, d') = run_tx S t d in run_tx S (h r) d')"
  by (induction t) (auto simp: fun_eq_iff Let_def split: prod.splits)

lemma run_tx_return [tx_run]: "run_tx S (tx_return x) = io_return x"
  and run_tx_raise [tx_run]: "run_tx S (tx_raise e) = io_raise e"
  and run_tx_lift [tx_run]: "run_tx S (tx_lift r) = io_lift r"
  by (simp_all add: fun_eq_iff tx_return_def tx_raise_def tx_lift_def io_apply io_lift_def)

lemma run_tx_bind [tx_run]: "run_tx S (tx_bind t f) = io_bind (run_tx S t) (\<lambda>x. run_tx S (f x))"
  by (auto simp: tx_bind_def run_cont fun_eq_iff io_bind_def tx_raise_def split: sum.split prod.splits)

lemma run_tx_try [tx_run]: "run_tx S (tx_try t h) = io_try (run_tx S t) (\<lambda>e. run_tx S (h e))"
  by (auto simp: tx_try_def run_cont fun_eq_iff io_try_def tx_return_def split: sum.split prod.splits)

lemma reply_of_eq:
  "reply_of f r = ((case fst r of Inl e \<Rightarrow> Failed e | Inr x \<Rightarrow> f x), snd r)"
  by (cases "(f, r)" rule: reply_of.cases) simp_all

lemma run_asks [tx_run]:
  "run_tx S (ask_users (UserStmt st)) = ms_execute (ss_user S) st"
  "run_tx S (ask_roles (RoleStmt st)) = ms_execute (ss_role S) st"
  "run_tx S (ask_flag (ExistsUser st)) = ms_scalar_bool (ss_user S) st"
  "run_tx S (ask_total (CountUser st)) = ms_scalar_int (ss_user S) st"
  "run_tx S (ask_unit BeginTx) = ss_begin S"
  "run_tx S (ask_unit CommitTx) = ss_commit S"
  "run_tx S (ask_unit RollbackTx) = ss_rollback S"
  "run_tx S (ask_unit CloseTx) = ss_close S"
  "run_tx S (ask_flag AskInTransaction) = (\<lambda>d. (Inr (ss_in_transaction S d), d))"
  "run_tx S (ask_flag AskIsActive) = (\<lambda>d. (Inr (ss_is_active S d), d))"
  by (rule ext, simp add: ask_users_def ask_roles_def ask_flag_def ask_total_def ask_unit_def reply_of_eq,
    auto simp: tx_return_def tx_raise_def intro: prod_eqI split: sum.split)+

definition env_of :: "('c, 'd) app \<Rightarrow> tx_env" where
  "env_of A = \<lparr>te_hasher = ap_hasher A, te_users = ms_unique (ss_user (ap_session A)),
     te_roles = ms_unique (ss_role (ap_session A))\<rparr>"

lemma env_of_simps [simp]:
  "te_hasher (env_of A) = ap_hasher A" "te_users (env_of A) = ms_unique (ss_user (ap_session A))"
  "te_roles (env_of A) = ms_unique (ss_role (ap_session A))"
  by (simp_all add: env_of_def)

lemma run_tx_if [tx_run]: "run_tx S (if b then t else u) = (if b then run_tx S t else run_tx S u)"
  by simp

lemma run_tx_result [tx_run]: "run_tx S (tx_result r) = result_of r"
  by (simp add: tx_result_def result_of_def tx_run split: option.split)

lemma run_tx_in_use [tx_run]: "run_tx S (tx_in_use u t) = already_in_use u (run_tx S t)"
  unfolding tx_in_use_def on_integrity_def tx_run
  by (rule arg_cong [of _ _ "io_try (run_tx S t)"]) (auto simp: fun_eq_iff tx_run split: exn.split)

lemma io_bind_return_left: "io_bind (io_return x) f = f x"
  by (rule ext) (simp add: io_simps)

text \<open>The repositories and the transaction manager are those of \<open>Database\<close>.\<close>

lemma run_repositories [tx_run]:
  "run_tx (ap_session A) (tx_role_select (env_of A) loads i n) = role_select (ss_role (ap_session A)) loads i n"
  "run_tx (ap_session A) (tx_user_select (env_of A) loads i l) = user_select (ss_user (ap_session A)) loads i l"
  "run_tx S (tx_user_exists name) = user_exists (ss_user S) name"
  "run_tx S (tx_user_create data) = user_create (ss_user S) data"
  "run_tx S (tx_user_update u data) = user_update (ss_user S) u data"
  "run_tx (ap_session A) (tx_user_select_many (env_of A) loads l ru dir offset limit) =
    user_select_many (ss_user (ap_session A)) loads l ru dir offset limit"
  unfolding tx_role_select_def role_select_def tx_user_select_def user_select_def tx_user_exists_def
    user_exists_def tx_user_create_def user_create_def tx_user_update_def user_update_def
    tx_user_select_many_def user_select_many_def select_page_def crud_exists_def crud_insert_def
    crud_update_def crud_count_def tx_no_identifier_def no_identifier_def tx_run env_of_simps io_bind_assoc
    io_bind_return_left
  by (rule refl)+

lemma run_with: "run_tx S (tx_with t ex) = async_with (io_return ()) (\<lambda>e. run_tx S (ex e)) (run_tx S t)"
  by (auto simp: tx_with_def run_cont async_with_def io_bind_return_left fun_eq_iff tx_run split: sum.split prod.splits)

lemma run_session: "run_tx S (tx_session t) (ss_new S d) = in_session S (run_tx S t) d"
  by (auto simp: tx_session_def run_with tx_run in_session_def with_session_def create_gateway_def Let_def
      io_simps split: sum.split)

text \<open>The manager's end of a transaction, on a gateway that holds one or does not.\<close>

lemma run_aexit:
  "manager_aexit S exc \<lparr>gw_session = d, gw_transaction = b\<rparr> =
    (let (r, d') = run_tx S (tx_aexit b exc) d in (r, \<lparr>gw_session = d', gw_transaction = b\<rparr>))"
  by (cases b; cases exc)
    (auto simp: manager_aexit_def tx_aexit_def manager_commit_def manager_rollback_def tx_commit_def
      tx_rollback_def close_transaction_def tx_close_def tx_run io_simps split: sum.split prod.split)

lemma run_create:
  "create_transaction S \<lparr>gw_session = d, gw_transaction = False\<rparr> =
    (let (r, d') = run_tx S tx_create d
     in (case r of Inl e \<Rightarrow> Inl e | Inr b \<Rightarrow> Inr (), \<lparr>gw_session = d', gw_transaction = (r = Inr True)\<rparr>))"
  by (auto simp: create_transaction_def tx_create_def tx_run io_simps split: sum.split)

lemma run_database: "run_tx S (tx_database t) (ss_new S d) = in_database S (run_tx S t) d"
proof -
  obtain r d' where c: "run_tx S tx_create (ss_new S d) = (r, d')" by fastforce
  show ?thesis
    by (cases r) (auto simp: tx_database_def tx_run run_with in_database_def with_database_def create_gateway_def
        run_create run_aexit c io_simps Let_def split: sum.split prod.split)
qed

text \<open>A block that is alone is the block of the use case.\<close>

lemma lift_check: "io_lift (check_result ps u) = check_permission ps u"
  by (rule ext) (auto simp: check_result_def check_permission_def io_simps split: relation.split option.split)

lemma views_map: "io_map (\<lambda>u. io_lift (user_result_from u)) us = io_return (map user_view us)"
  by (induction us) (simp_all add: fun_eq_iff io_simps user_result_from_view)

lemma lift_views: "io_lift (views_of us) = io_map (\<lambda>u. io_lift (user_result_from u)) us"
  by (simp add: views_map views_of_def fun_eq_iff io_simps)

lemma run_into:
  "run_tx S (tx_map f (tx_session t)) (ss_new S d) = io_into f (in_session S (run_tx S t)) d"
  "run_tx S (tx_map f (tx_database t)) (ss_new S d) = io_into f (in_database S (run_tx S t)) d"
  by (simp_all only: tx_map_def tx_run io_into_def io_bind_def run_session run_database)

lemma run_block: "run_tx (ap_session A) (block_tx (env_of A) b) (ss_new (ap_session A) d) = block_io A b d"
proof (cases b)
  case (PageBlock q)
  then show ?thesis
    by (simp only: block_tx.simps block_io.simps run_into tx_select_many_def Let_def tx_run case_prod_beta' lift_views)
qed (simp_all only: block_tx.simps block_io.simps run_into tx_run tx_confirm_user_def confirm_user_def
    tx_create_user_def tx_update_user_def env_of_simps lift_check)

end
