(* ===== verification/Transaction_Races.thy ===== *)
theory Transaction_Races
  imports Transactions
begin

text \<open>
  Blocks on the same database at the same time.  Each has a session of its own; their statements are
  interleaved, a transaction sees what is committed and what it wrote itself, and a statement waits
  while another open transaction holds the row or the login it needs (the default isolation level of
  PostgreSQL, which the program does not change).  The blocks are shown to work as if each were one
  action (\<open>serial_step\<close>), the one of the atomic blocks; only a page of users is two, its total and
  its rows.
\<close>

section \<open>What an open transaction wrote\<close>

datatype change = Joined user_row | Replaced user_row user_row

fun apply_change :: "change \<Rightarrow> db \<Rightarrow> db" where
  "apply_change (Joined u) D = D\<lparr>db_users := db_users D @ [u]\<rparr>"
| "apply_change (Replaced u v) D =
     D\<lparr>db_users := map (\<lambda>w. if u_uuid w = u_uuid u then v else w) (db_users D)\<rparr>"

fun applicable :: "(uuid \<Rightarrow> bool) \<Rightarrow> change \<Rightarrow> db \<Rightarrow> bool" where
  "applicable known (Joined u) D \<longleftrightarrow>
     known (u_uuid u) \<and> u_uuid u \<notin> u_uuid ` set (db_users D) \<and> u_login u \<notin> u_login ` set (db_users D) \<and>
     u_role_uuid u \<in> r_uuid ` set (db_roles D) \<and> u_role u = NotLoaded"
| "applicable known (Replaced u v) D \<longleftrightarrow>
     u \<in> set (db_users D) \<and> u_uuid v = u_uuid u \<and> u_login v = u_login u \<and>
     u_role_uuid v \<in> r_uuid ` set (db_roles D) \<and> u_role v = NotLoaded"

text \<open>Two transactions do not hold the same login, identifier or row.\<close>

fun compatible :: "change \<Rightarrow> change \<Rightarrow> bool" where
  "compatible (Joined u) (Joined v) \<longleftrightarrow> u_uuid u \<noteq> u_uuid v \<and> u_login u \<noteq> u_login v"
| "compatible (Replaced u _) (Replaced v _) \<longleftrightarrow> u_uuid u \<noteq> u_uuid v"
| "compatible _ _ \<longleftrightarrow> True"

lemma compatible_sym: "compatible c d \<longleftrightarrow> compatible d c"
  by (cases c; cases d) auto

lemma apply_roles [simp]: "db_roles (apply_change c D) = db_roles D"
  by (cases c) simp_all

lemma applicable_after:
  assumes "applicable known c D" and "applicable known d D" and "compatible c d"
  shows "applicable known c (apply_change d D)"
proof (cases d)
  case (Joined w)
  then show ?thesis using assms by (cases c) auto
next
  case (Replaced w x)
  then show ?thesis using assms by (cases c) (force split: if_splits)+
qed

lemma valid_after:
  assumes "valid_db D" and "applicable known c D"
  shows "valid_db (apply_change c D)"
proof (cases c)
  case (Replaced u v)
  have "w = u" if "w \<in> set (db_users D)" "u_uuid w = u_uuid u" for w
    using assms that by (auto simp: valid_db_def Replaced dest: distinct_map_eq)
  then have "map u_uuid (db_users (apply_change c D)) = map u_uuid (db_users D)"
    "map u_login (db_users (apply_change c D)) = map u_login (db_users D)"
    using assms(2) by (auto simp: Replaced)
  moreover have "\<forall>w \<in> set (db_users (apply_change c D)). u_role_uuid w \<in> r_uuid ` set (db_roles D) \<and> u_role w = NotLoaded"
    using assms by (auto simp: valid_db_def Replaced)
  ultimately show ?thesis
    using assms(1) unfolding valid_db_def by (simp only: apply_roles simp_thms)
qed (use assms in \<open>auto simp: valid_db_def\<close>)

text \<open>The values an update of a user may set; others are refused by the constraints.\<close>

definition allowed_values :: "role_row list \<Rightarrow> pydict \<Rightarrow> bool" where
  "allowed_values roles vals \<longleftrightarrow>
     list_all (\<lambda>(k, v). case v of
         PStr _ \<Rightarrow> k = ''password''
       | PBool _ \<Rightarrow> k = ''active''
       | PUuid r \<Rightarrow> k = ''role_uuid'' \<and> list_ex (\<lambda>role. r_uuid role = r) roles
       | _ \<Rightarrow> False) vals"

lemma allowed_values_keep:
  assumes "allowed_values roles vals"
  shows "u_uuid (set_columns vals u) = u_uuid u \<and> u_login (set_columns vals u) = u_login u \<and>
    u_role (set_columns vals u) = u_role u \<and>
    (u_role_uuid u \<in> r_uuid ` set roles \<longrightarrow> u_role_uuid (set_columns vals u) \<in> r_uuid ` set roles)"
  using assms
proof (induction vals arbitrary: u)
  case (Cons kv vals)
  obtain k v where kv: "kv = (k, v)" by (cases kv)
  have "u_uuid (set_column kv u) = u_uuid u \<and> u_login (set_column kv u) = u_login u \<and>
    u_role (set_column kv u) = u_role u \<and>
    (u_role_uuid u \<in> r_uuid ` set roles \<longrightarrow> u_role_uuid (set_column kv u) \<in> r_uuid ` set roles)"
    using Cons.prems by (auto simp: kv allowed_values_def list_ex_iff split: pyval.splits)
  with Cons.IH [of "set_column kv u"] Cons.prems show ?case
    by (simp add: set_columns_def allowed_values_def)
qed (simp add: set_columns_def)

section \<open>Blocks as single actions\<close>

text \<open>The user that identifiers choose; at most one matches.\<close>

definition chosen ::
  "(string \<Rightarrow> string \<Rightarrow> bool) \<Rightarrow> uuid option \<Rightarrow> string option \<Rightarrow> db \<Rightarrow> user_row option" where
  "chosen ilike i l D =
     find (\<lambda>u. matches ilike (user_column u) (identifier_clauses ''login'' i l)) (db_users D)"

text \<open>What a block may return, and what it leaves; and why it may refuse, which changes nothing.\<close>

fun block_done ::
  "hasher \<Rightarrow> (string \<Rightarrow> string \<Rightarrow> bool) \<Rightarrow> (uuid \<Rightarrow> bool) \<Rightarrow> block \<Rightarrow> db \<Rightarrow> answer \<Rightarrow> db \<Rightarrow> bool" where
  "block_done H ilike known (RegisterBlock login) D x D' \<longleftrightarrow>
     x = Known (login \<in> u_login ` set (db_users D)) \<and> D' = D"
| "block_done H ilike known (ConfirmBlock r) D x D' \<longleftrightarrow>
     (\<exists>role h u now. role \<in> set (db_roles D) \<and> r_name role = USER \<and> h_hash_password H (rg_password r) = Inr h \<and>
       x = Row (new_user (rg_login r) h (r_uuid role) u now) \<and>
       applicable known (Joined (new_user (rg_login r) h (r_uuid role) u now)) D \<and>
       D' = apply_change (Joined (new_user (rg_login r) h (r_uuid role) u now)) D)"
| "block_done H ilike known (LoginBlock login) D x D' \<longleftrightarrow>
     (\<exists>u. chosen ilike None (Some login) D = Some u \<and> x = Row u) \<and> D' = D"
| "block_done H ilike known (PermissionBlock ps i) D x D' \<longleftrightarrow>
     (\<exists>u view. chosen ilike (Some i) None D = Some u \<and>
       check_result ps (with_loads [''role''] (db_roles D) u) = Inr view \<and> x = View view) \<and> D' = D"
| "block_done H ilike known (CreateBlock q) D x D' \<longleftrightarrow>
     (\<exists>h u now. h_hash_password H (cu_password q) = Inr h \<and>
       x = View (user_view (new_user (cu_login q) h (cu_role_uuid q) u now)) \<and>
       applicable known (Joined (new_user (cu_login q) h (cu_role_uuid q) u now)) D \<and>
       D' = apply_change (Joined (new_user (cu_login q) h (cu_role_uuid q) u now)) D)"
| "block_done H ilike known (SelectBlock q) D x D' \<longleftrightarrow>
     (\<exists>u. chosen ilike (su_user_uuid q) (su_login q) D = Some u \<and>
       x = View (user_view (with_loads (su_loads q) (db_roles D) u))) \<and> D' = D"
| "block_done H ilike known (PageBlock q) D x D' \<longleftrightarrow> False"
| "block_done H ilike known (UpdateBlock q) D x D' \<longleftrightarrow>
     (\<exists>vals u now. hash_field H (dump_update q) = Inr vals \<and> allowed_values (db_roles D) vals \<and>
       u \<in> set (db_users D) \<and> u_uuid u = up_user_uuid q \<and>
       x = View (user_view ((set_columns vals u)\<lparr>u_updated_at := now\<rparr>)) \<and>
       D' = apply_change (Replaced u ((set_columns vals u)\<lparr>u_updated_at := now\<rparr>)) D)"

fun block_refused ::
  "hasher \<Rightarrow> (string \<Rightarrow> string \<Rightarrow> bool) \<Rightarrow> block \<Rightarrow> db \<Rightarrow> exn \<Rightarrow> bool" where
  "block_refused H ilike (RegisterBlock login) D e \<longleftrightarrow> False"
| "block_refused H ilike (ConfirmBlock r) D e \<longleftrightarrow>
     h_hash_password H (rg_password r) = Inl e \<or>
     e = App (exception_map ESelect) \<and> (\<forall>role \<in> set (db_roles D). r_name role \<noteq> USER) \<or>
     e = App (simple_error ConflictError ''login already in use'') \<and> rg_login r \<in> u_login ` set (db_users D)"
| "block_refused H ilike (LoginBlock login) D e \<longleftrightarrow>
     login \<noteq> [] \<and> e = App (exception_map ESelect) \<and> chosen ilike None (Some login) D = None \<or>
     login = [] \<and> e = InvalidParamsError ''at least one identifier must be provided''"
| "block_refused H ilike (PermissionBlock ps i) D e \<longleftrightarrow>
     e = App (exception_map ESelect) \<and> chosen ilike (Some i) None D = None \<or>
     (\<exists>u. chosen ilike (Some i) None D = Some u \<and> check_result ps (with_loads [''role''] (db_roles D) u) = Inl e)"
| "block_refused H ilike (CreateBlock q) D e \<longleftrightarrow>
     h_hash_password H (cu_password q) = Inl e \<or>
     e = App (simple_error ConflictError ''login already in use'') \<and> cu_login q \<in> u_login ` set (db_users D) \<or>
     e = App default_app_exception \<and> cu_role_uuid q \<notin> r_uuid ` set (db_roles D)"
| "block_refused H ilike (SelectBlock q) D e \<longleftrightarrow>
     e = App (exception_map ESelect) \<and> chosen ilike (su_user_uuid q) (su_login q) D = None \<or>
     su_user_uuid q = None \<and> \<not> truthy_str (su_login q) \<and>
       e = InvalidParamsError ''at least one identifier must be provided''"
| "block_refused H ilike (PageBlock q) D e \<longleftrightarrow> False"
| "block_refused H ilike (UpdateBlock q) D e \<longleftrightarrow>
     hash_field H (dump_update q) = Inl e \<or>
     e = App (exception_map EUpdate) \<and> up_user_uuid q \<notin> u_uuid ` set (db_users D) \<or>
     (e = App default_app_exception \<or> e = App (simple_error ConflictError ''login already in use'')) \<and>
       (\<exists>vals. hash_field H (dump_update q) = Inr vals \<and> \<not> allowed_values (db_roles D) vals)"

text \<open>The database may also fail, which changes nothing either.\<close>

definition trouble :: "exn \<Rightarrow> bool" where
  "trouble e \<longleftrightarrow> e = CommitError \<or> (\<exists>m. e = SQLAlchemyError m)"

fun atomic_block ::
  "hasher \<Rightarrow> (string \<Rightarrow> string \<Rightarrow> bool) \<Rightarrow> (uuid \<Rightarrow> bool) \<Rightarrow> block \<Rightarrow> db \<Rightarrow> exn + answer \<Rightarrow> db \<Rightarrow> bool" where
  "atomic_block H ilike known b D (Inr x) D' \<longleftrightarrow> block_done H ilike known b D x D'"
| "atomic_block H ilike known b D (Inl e) D' \<longleftrightarrow> (trouble e \<or> block_refused H ilike b D e) \<and> D' = D"

definition one_statement :: "block \<Rightarrow> bool" where
  "one_statement b \<longleftrightarrow> (\<forall>q. b \<noteq> PageBlock q)"

text \<open>The two readings of a page: which users it counts, and which rows it shows.\<close>

definition page_users ::
  "(string \<Rightarrow> string \<Rightarrow> bool) \<Rightarrow> select_many_user_request \<Rightarrow> db \<Rightarrow> user_row list" where
  "page_users ilike q D =
     filter (\<lambda>u. matches ilike (user_column u) (user_filter (sm_login q) (sm_role_uuid q))) (db_users D)"

definition shows_rows ::
  "(string \<Rightarrow> string \<Rightarrow> bool) \<Rightarrow> select_many_user_request \<Rightarrow> db \<Rightarrow> user_row list \<Rightarrow> bool" where
  "shows_rows ilike q D us \<longleftrightarrow>
     (\<exists>ordered. us = map (with_loads (sm_loads q) (db_roles D))
          (page (pg_offset (sm_pagination q)) (pg_limit (sm_pagination q)) ordered) \<and>
        mset ordered = mset (page_users ilike q D) \<and>
        sorted_dir (pg_order_by (sm_pagination q)) (map u_created_at ordered))"

definition page_answer :: "select_many_user_request \<Rightarrow> int \<Rightarrow> user_row list \<Rightarrow> answer" where
  "page_answer q n us =
     Page \<lparr>or_data = map user_view us, or_offset = pg_offset (sm_pagination q),
       or_limit = pg_limit (sm_pagination q), or_total = n\<rparr>"

text \<open>What is to be done: a block, a page that is counted, or nothing any more.\<close>

datatype work = Todo block | Counted select_many_user_request int | Over "exn + answer"

inductive work_step ::
  "hasher \<Rightarrow> (string \<Rightarrow> string \<Rightarrow> bool) \<Rightarrow> (uuid \<Rightarrow> bool) \<Rightarrow> work \<Rightarrow> db \<Rightarrow> work \<Rightarrow> db \<Rightarrow> bool"
  for H :: hasher and ilike :: "string \<Rightarrow> string \<Rightarrow> bool" and known :: "uuid \<Rightarrow> bool" where
  whole: "atomic_block H ilike known b D r D' \<Longrightarrow> work_step H ilike known (Todo b) D (Over r) D'"
| no_users: "page_users ilike q D = [] \<Longrightarrow>
    work_step H ilike known (Todo (PageBlock q)) D (Over (Inr (page_answer q 0 []))) D"
| counts: "page_users ilike q D \<noteq> [] \<Longrightarrow>
    work_step H ilike known (Todo (PageBlock q)) D (Counted q (int (length (page_users ilike q D)))) D"
| reads: "shows_rows ilike q D us \<Longrightarrow>
    work_step H ilike known (Counted q n) D (Over (Inr (page_answer q n us))) D"
| breaks: "trouble e \<Longrightarrow> work_step H ilike known (Counted q n) D (Over (Inl e)) D"

section \<open>The server\<close>

text \<open>
  What the documentation of PostgreSQL and SQLAlchemy says of several sessions.  \<open>srv i c e\<close> is the
  reply to the session number \<open>i\<close> and what it leaves, or \<open>None\<close> while the statement waits.  \<open>changes\<close> is
  what an open transaction wrote and did not commit.
\<close>

definition seen :: "('e \<Rightarrow> db) \<Rightarrow> ('e \<Rightarrow> nat \<Rightarrow> change list) \<Rightarrow> 'e \<Rightarrow> nat \<Rightarrow> db" where
  "seen comm chs e i = fold apply_change (chs e i) (comm e)"

definition fails :: "reply \<Rightarrow> bool" where
  "fails rep \<longleftrightarrow> (\<exists>m. rep = Failed (SQLAlchemyError m))"

definition writes :: "command \<Rightarrow> bool" where
  "writes c \<longleftrightarrow> (\<exists>vals. c = UserStmt (InsertRow vals)) \<or> (\<exists>cs vals. c = UserStmt (UpdateRows cs vals))"

locale server_laws =
  fixes srv :: "nat \<Rightarrow> command \<Rightarrow> 'e \<Rightarrow> (reply \<times> 'e) option"
    and committed :: "'e \<Rightarrow> db"
    and changes :: "'e \<Rightarrow> nat \<Rightarrow> change list"
    and opened :: "'e \<Rightarrow> nat \<Rightarrow> bool"
    and active :: "'e \<Rightarrow> nat \<Rightarrow> bool"
    and ilike :: "string \<Rightarrow> string \<Rightarrow> bool"
    and known :: "uuid \<Rightarrow> bool"
    and E :: tx_env
  assumes user_unique: "distinct us \<Longrightarrow> te_users E us = us"
    and role_unique: "distinct rs \<Longrightarrow> te_roles E rs = rs"
    and others: "srv i c e = Some (rep, e') \<Longrightarrow> j \<noteq> i \<Longrightarrow>
      changes e' j = changes e j \<and> opened e' j = opened e j \<and> active e' j = active e j"
    and uncommitted: "srv i c e = Some (rep, e') \<Longrightarrow> c \<noteq> CommitTx \<Longrightarrow> committed e' = committed e"
    and waits: "srv i c e = None \<Longrightarrow> writes c \<and> (\<exists>j. j \<noteq> i \<and> changes e j \<noteq> [])"
    and in_transaction: "srv i AskInTransaction e = Some (rep, e') \<Longrightarrow>
      rep = Flag (opened e i) \<and> changes e' i = changes e i \<and> active e' i = active e i"
    and is_active: "srv i AskIsActive e = Some (rep, e') \<Longrightarrow>
      rep = Flag (active e i) \<and> changes e' i = changes e i"
    and begin_transaction: "srv i BeginTx e = Some (rep, e') \<Longrightarrow>
      (rep = Ok \<or> fails rep) \<and> changes e' i = changes e i"
    and commit: "srv i CommitTx e = Some (rep, e') \<Longrightarrow> changes e' i = [] \<and>
      (rep = Ok \<and> committed e' = seen committed changes e i \<or> fails rep \<and> committed e' = committed e)"
    and rollback: "srv i RollbackTx e = Some (rep, e') \<Longrightarrow> rep = Ok \<and> changes e' i = []"
    and close: "srv i CloseTx e = Some (rep, e') \<Longrightarrow> rep = Ok \<and> changes e' i = []"
    and select_users: "srv i (UserStmt (SelectRows loads cs)) e = Some (rep, e') \<Longrightarrow>
      changes e' i = changes e i \<and> (fails rep \<or> (\<exists>us. rep = UserRows us \<and>
        mset us = mset (map (with_loads loads (db_roles (seen committed changes e i)))
          (filter (\<lambda>u. matches ilike (user_column u) cs) (db_users (seen committed changes e i))))))"
    and select_roles: "srv i (RoleStmt (SelectRows [] cs)) e = Some (rep, e') \<Longrightarrow>
      changes e' i = changes e i \<and> (fails rep \<or> (\<exists>rs. rep = RoleRows rs \<and>
        mset rs = mset (filter (\<lambda>r. matches ilike (role_column r) cs) (db_roles (seen committed changes e i)))))"
    and exists_user: "srv i (ExistsUser (ExistsRow cs)) e = Some (rep, e') \<Longrightarrow>
      changes e' i = changes e i \<and> (fails rep \<or>
        rep = Flag (\<exists>u \<in> set (db_users (seen committed changes e i)). matches ilike (user_column u) cs))"
    and count_users: "srv i (CountUser (CountRows cs)) e = Some (rep, e') \<Longrightarrow>
      changes e' i = changes e i \<and> (fails rep \<or> rep = Total (int (length
        (filter (\<lambda>u. matches ilike (user_column u) cs) (db_users (seen committed changes e i))))))"
    and page_users: "srv i (UserStmt (OffsetQuery loads offset limit (''created_at'', dir) cs)) e = Some (rep, e') \<Longrightarrow>
      changes e' i = changes e i \<and> (fails rep \<or> (\<exists>ordered.
        rep = UserRows (map (with_loads loads (db_roles (seen committed changes e i))) (page offset limit ordered)) \<and>
        mset ordered = mset (filter (\<lambda>u. matches ilike (user_column u) cs) (db_users (seen committed changes e i))) \<and>
        sorted_dir dir (map u_created_at ordered)))"
    and insert_user: "srv i (UserStmt (InsertRow (user_values l p r))) e = Some (rep, e') \<Longrightarrow>
      changes e' i = changes e i \<and> fails rep \<or>
      changes e' i = changes e i \<and> (\<exists>origin. rep = Failed (IntegrityError origin) \<and>
        (if sublist ''login'' origin then l \<in> u_login ` set (db_users (seen committed changes e i))
         else r \<notin> r_uuid ` set (db_roles (seen committed changes e i)))) \<or>
      (\<exists>u now. rep = UserRows [new_user l p r u now] \<and>
        changes e' i = changes e i @ [Joined (new_user l p r u now)] \<and>
        applicable known (Joined (new_user l p r u now)) (seen committed changes e i) \<and>
        (\<forall>j c. j \<noteq> i \<longrightarrow> c \<in> set (changes e j) \<longrightarrow> compatible (Joined (new_user l p r u now)) c))"
    and update_user: "srv i (UserStmt (UpdateRows [ColEq ''uuid'' (PUuid target)] vals)) e = Some (rep, e') \<Longrightarrow>
      changes e' i = changes e i \<and> fails rep \<or>
      changes e' i = changes e i \<and> (\<exists>origin. rep = Failed (IntegrityError origin)) \<and>
        \<not> allowed_values (db_roles (seen committed changes e i)) vals \<or>
      changes e' i = changes e i \<and> rep = UserRows [] \<and>
        target \<notin> u_uuid ` set (db_users (seen committed changes e i)) \<or>
      (\<exists>u now. u \<in> set (db_users (seen committed changes e i)) \<and> u_uuid u = target \<and>
        allowed_values (db_roles (seen committed changes e i)) vals \<and>
        rep = UserRows [(set_columns vals u)\<lparr>u_updated_at := now\<rparr>] \<and>
        changes e' i = changes e i @ [Replaced u ((set_columns vals u)\<lparr>u_updated_at := now\<rparr>)] \<and>
        (\<forall>j c. j \<noteq> i \<longrightarrow> c \<in> set (changes e j) \<longrightarrow>
          compatible (Replaced u ((set_columns vals u)\<lparr>u_updated_at := now\<rparr>)) c))"

text \<open>Blocks at work: one sends its next command, unless it has to wait.\<close>

inductive tx_step ::
  "(nat \<Rightarrow> command \<Rightarrow> 'e \<Rightarrow> (reply \<times> 'e) option) \<Rightarrow> 'a tx list \<times> 'e \<Rightarrow> 'a tx list \<times> 'e \<Rightarrow> bool"
  for srv :: "nat \<Rightarrow> command \<Rightarrow> 'e \<Rightarrow> (reply \<times> 'e) option" where
  sent: "i < length ts \<Longrightarrow> ts ! i = Ask c k \<Longrightarrow> srv i c e = Some (rep, e') \<Longrightarrow>
    tx_step srv (ts, e) (ts[i := k rep], e')"

inductive_cases tx_stepE: "tx_step srv (ts, e) c"

abbreviation tx_run ::
  "(nat \<Rightarrow> command \<Rightarrow> 'e \<Rightarrow> (reply \<times> 'e) option) \<Rightarrow> 'a tx list \<times> 'e \<Rightarrow> 'a tx list \<times> 'e \<Rightarrow> bool" where
  "tx_run srv \<equiv> (tx_step srv)\<^sup>*\<^sup>*"

text \<open>The same blocks one after the other, each in one action or two.\<close>

inductive serial_step ::
  "hasher \<Rightarrow> (string \<Rightarrow> string \<Rightarrow> bool) \<Rightarrow> (uuid \<Rightarrow> bool) \<Rightarrow> work list \<times> db \<Rightarrow> work list \<times> db \<Rightarrow> bool"
  for H :: hasher and ilike :: "string \<Rightarrow> string \<Rightarrow> bool" and known :: "uuid \<Rightarrow> bool" where
  acted: "i < length qs \<Longrightarrow> work_step H ilike known (qs ! i) D q D' \<Longrightarrow>
    serial_step H ilike known (qs, D) (qs[i := q], D')"

abbreviation serial_run ::
  "hasher \<Rightarrow> (string \<Rightarrow> string \<Rightarrow> bool) \<Rightarrow> (uuid \<Rightarrow> bool) \<Rightarrow> work list \<times> db \<Rightarrow> work list \<times> db \<Rightarrow> bool" where
  "serial_run H ilike known \<equiv> (serial_step H ilike known)\<^sup>*\<^sup>*"

section \<open>Where a block stands\<close>

text \<open>A block whose result is settled only ends its transaction.\<close>

inductive settled :: "exn + 'a \<Rightarrow> 'a tx \<Rightarrow> bool" for r :: "exn + 'a" where
  finished: "settled r (Finish r)"
| active_asked: "settled r (k (Flag True)) \<Longrightarrow> settled r (k (Flag False)) \<Longrightarrow> settled r (Ask AskIsActive k)"
| closing: "settled r (k Ok) \<Longrightarrow> settled r (Ask CloseTx k)"
| undoing: "settled r (k Ok) \<Longrightarrow> settled r (Ask RollbackTx k)"

inductive_cases settled_AskE: "settled r (Ask c k)"
inductive_simps settled_Finish [simp]: "settled r (Finish q)"

definition raises :: "(reply \<Rightarrow> 'a tx) \<Rightarrow> bool" where
  "raises k \<longleftrightarrow> (\<forall>m. settled (Inl (SQLAlchemyError m)) (k (Failed (SQLAlchemyError m))))"

text \<open>A block that wrote \<open>c\<close> and is about to commit.\<close>

definition writing ::
  "hasher \<Rightarrow> (string \<Rightarrow> string \<Rightarrow> bool) \<Rightarrow> (uuid \<Rightarrow> bool) \<Rightarrow> role_row list \<Rightarrow> block \<Rightarrow> change \<Rightarrow>
    answer tx \<Rightarrow> bool" where
  "writing H ilike known R b c t \<longleftrightarrow>
     (\<exists>k x. t = Ask CommitTx k \<and> settled (Inr x) (k Ok) \<and>
       (\<forall>m. settled (Inl CommitError) (k (Failed (SQLAlchemyError m)))) \<and>
       (\<forall>D. db_roles D = R \<longrightarrow> applicable known c D \<longrightarrow> block_done H ilike known b D x (apply_change c D)))"

text \<open>A block that is settled to refuse whatever the users are.\<close>

definition refusing ::
  "hasher \<Rightarrow> (string \<Rightarrow> string \<Rightarrow> bool) \<Rightarrow> (uuid \<Rightarrow> bool) \<Rightarrow> role_row list \<Rightarrow> block \<Rightarrow> answer tx \<Rightarrow> bool" where
  "refusing H ilike known R b t \<longleftrightarrow>
     (\<exists>e c k. t = Ask c k \<and> settled (Inl e) t \<and> (\<forall>D. db_roles D = R \<longrightarrow> atomic_block H ilike known b D (Inl e) D))"

text \<open>A block that has not written, by its next command and what any reply to it leads to.\<close>

inductive ready ::
  "hasher \<Rightarrow> (string \<Rightarrow> string \<Rightarrow> bool) \<Rightarrow> (uuid \<Rightarrow> bool) \<Rightarrow> role_row list \<Rightarrow> block \<Rightarrow> answer tx \<Rightarrow> bool"
  for H ilike known R b where
  begins: "ready H ilike known R b (k Ok) \<or> refusing H ilike known R b (k Ok) \<Longrightarrow> raises k \<Longrightarrow>
    ready H ilike known R b (Ask BeginTx k)"
| reads_roles: "(\<And>rs. mset rs = mset (filter (\<lambda>r. matches ilike (role_column r) cs) R) \<Longrightarrow>
      ready H ilike known R b (k (RoleRows rs)) \<or> refusing H ilike known R b (k (RoleRows rs))) \<Longrightarrow>
    raises k \<Longrightarrow> ready H ilike known R b (Ask (RoleStmt (SelectRows [] cs)) k)"
| reads_users: "(\<And>D us. valid_db D \<Longrightarrow> db_roles D = R \<Longrightarrow> mset us = mset (map (with_loads loads R)
        (filter (\<lambda>u. matches ilike (user_column u) cs) (db_users D))) \<Longrightarrow>
      \<exists>r. settled r (k (UserRows us)) \<and> atomic_block H ilike known b D r D) \<Longrightarrow>
    raises k \<Longrightarrow> ready H ilike known R b (Ask (UserStmt (SelectRows loads cs)) k)"
| asks_exists: "(\<And>D. \<exists>r. settled r (k (Flag (\<exists>u \<in> set (db_users D). matches ilike (user_column u) cs))) \<and>
      atomic_block H ilike known b D r D) \<Longrightarrow>
    raises k \<Longrightarrow> ready H ilike known R b (Ask (ExistsUser (ExistsRow cs)) k)"
| inserts: "(\<And>u now. writing H ilike known R b (Joined (new_user l p r u now)) (k (UserRows [new_user l p r u now]))) \<Longrightarrow>
    (\<And>D origin. db_roles D = R \<Longrightarrow>
      (if sublist ''login'' origin then l \<in> u_login ` set (db_users D) else r \<notin> r_uuid ` set R) \<Longrightarrow>
      \<exists>e. settled (Inl e) (k (Failed (IntegrityError origin))) \<and> atomic_block H ilike known b D (Inl e) D) \<Longrightarrow>
    raises k \<Longrightarrow> ready H ilike known R b (Ask (UserStmt (InsertRow (user_values l p r))) k)"
| updates: "(\<And>u now. u_uuid u = target \<Longrightarrow> allowed_values R vals \<Longrightarrow>
      writing H ilike known R b (Replaced u ((set_columns vals u)\<lparr>u_updated_at := now\<rparr>))
        (k (UserRows [(set_columns vals u)\<lparr>u_updated_at := now\<rparr>]))) \<Longrightarrow>
    (\<And>D. db_roles D = R \<Longrightarrow> target \<notin> u_uuid ` set (db_users D) \<Longrightarrow>
      \<exists>e. settled (Inl e) (k (UserRows [])) \<and> atomic_block H ilike known b D (Inl e) D) \<Longrightarrow>
    (\<And>D origin. db_roles D = R \<Longrightarrow> \<not> allowed_values R vals \<Longrightarrow>
      \<exists>e. settled (Inl e) (k (Failed (IntegrityError origin))) \<and> atomic_block H ilike known b D (Inl e) D) \<Longrightarrow>
    raises k \<Longrightarrow> ready H ilike known R b (Ask (UserStmt (UpdateRows [ColEq ''uuid'' (PUuid target)] vals)) k)"

text \<open>A block before its transaction begins: it has yet to ask whether there is one, and whether its session is active.\<close>

definition entering ::
  "hasher \<Rightarrow> (string \<Rightarrow> string \<Rightarrow> bool) \<Rightarrow> (uuid \<Rightarrow> bool) \<Rightarrow> role_row list \<Rightarrow> block \<Rightarrow> answer tx \<Rightarrow> bool" where
  "entering H ilike known R b t \<longleftrightarrow> (\<exists>k. t = Ask AskIsActive k \<and> ready H ilike known R b (k (Flag True)))"

definition starting ::
  "hasher \<Rightarrow> (string \<Rightarrow> string \<Rightarrow> bool) \<Rightarrow> (uuid \<Rightarrow> bool) \<Rightarrow> role_row list \<Rightarrow> block \<Rightarrow> answer tx \<Rightarrow> bool" where
  "starting H ilike known R b t \<longleftrightarrow>
     (\<exists>k. t = Ask AskInTransaction k \<and> entering H ilike known R b (k (Flag False)))"

text \<open>A page that has yet to be read, with its total, and one that has yet to be counted.\<close>

definition paging :: "select_many_user_request \<Rightarrow> int \<Rightarrow> answer tx \<Rightarrow> bool" where
  "paging q n t \<longleftrightarrow>
     (\<exists>k. t = Ask (UserStmt (OffsetQuery (sm_loads q) (pg_offset (sm_pagination q)) (pg_limit (sm_pagination q))
         (''created_at'', pg_order_by (sm_pagination q)) (user_filter (sm_login q) (sm_role_uuid q)))) k \<and>
       raises k \<and> (\<forall>us. distinct us \<longrightarrow> settled (Inr (page_answer q n us)) (k (UserRows us))))"

definition counting :: "select_many_user_request \<Rightarrow> answer tx \<Rightarrow> bool" where
  "counting q t \<longleftrightarrow>
     (\<exists>k. t = Ask (CountUser (CountRows (user_filter (sm_login q) (sm_role_uuid q)))) k \<and> raises k \<and>
       settled (Inr (page_answer q 0 [])) (k (Total 0)) \<and> (\<forall>n > 0. paging q n (k (Total n))))"

section \<open>The blocks of the use cases\<close>

inductive_simps settled_Ask [simp]:
  "settled r (Ask AskIsActive k)" "settled r (Ask CloseTx k)" "settled r (Ask RollbackTx k)"

text \<open>Symbolic evaluation of a tree, command by command.\<close>

named_theorems tx_eval

lemma tx_eval_Ask [tx_eval]:
  "tx_bind (Ask c k) f = Ask c (\<lambda>rep. tx_bind (k rep) f)"
  "tx_try (Ask c k) h = Ask c (\<lambda>rep. tx_try (k rep) h)"
  "tx_with (Ask c k) ex = Ask c (\<lambda>rep. tx_with (k rep) ex)"
  "tx_map g (Ask c k) = Ask c (\<lambda>rep. tx_map g (k rep))"
  by (simp_all add: tx_bind_def tx_try_def tx_with_def tx_map_def)

lemma tx_eval_Finish [tx_eval]:
  "tx_bind (Finish (Inr x)) f = f x" "tx_bind (Finish (Inl e)) f = Finish (Inl e)"
  "tx_try (Finish (Inr x)) h = Finish (Inr x)" "tx_try (Finish (Inl e)) h = h e"
  by (simp_all add: tx_bind_def tx_try_def tx_raise_def tx_return_def)

lemmas tx_plain [tx_eval] = tx_return_def tx_raise_def tx_lift_def tx_result_def
lemmas tx_asks = ask_users_def ask_roles_def ask_flag_def ask_total_def ask_unit_def

lemma views_of_rows: "views_of us = Inr (map user_view us)"
  by (simp add: views_of_def views_map io_return_def)

text \<open>The end of a body, by its result.\<close>

lemma tx_end_Finish:
  "tx_with (Finish (Inr x)) ex = tx_bind (ex None) (\<lambda>_. Finish (Inr x))"
  "tx_with (Finish (Inl e)) ex = tx_bind (ex (Some e)) (\<lambda>_. Finish (Inl e))"
  "tx_map g (Finish (Inr x)) = Finish (Inr (g x))" "tx_map g (Finish (Inl e)) = Finish (Inl e)"
  by (simp_all add: tx_with_def tx_map_def tx_bind_def tx_raise_def tx_return_def)

lemmas tx_ends = tx_asks tx_end_Finish tx_aexit_def tx_close_def tx_commit_def tx_rollback_def

text \<open>How a body goes on in its transaction: with a result it commits, with an exception it rolls back.\<close>

abbreviation in_tx :: "('a \<Rightarrow> answer) \<Rightarrow> 'a tx \<Rightarrow> answer tx" where
  "in_tx f body \<equiv> tx_map f (tx_with body (tx_aexit True))"

abbreviation in_plain :: "('a \<Rightarrow> answer) \<Rightarrow> 'a tx \<Rightarrow> answer tx" where
  "in_plain f body \<equiv> tx_map f (tx_with body (\<lambda>_. ask_unit CloseTx))"

lemma settled_end [simp]:
  "settled r (in_tx f (Finish (Inl e))) \<longleftrightarrow> r = Inl e"
  "settled r (in_plain f (Finish q)) \<longleftrightarrow> r = map_sum id f q"
  by (cases q; auto simp: tx_eval tx_ends)+

lemma writing_return:
  assumes "\<And>D. db_roles D = R \<Longrightarrow> applicable known c D \<Longrightarrow> block_done H ilike known b D (f x) (apply_change c D)"
  shows "writing H ilike known R b c (in_tx f (Finish (Inr x)))"
  using assms by (auto simp: writing_def tx_eval tx_ends is_sqlalchemy_error_def)

lemma starting_database:
  assumes "ready H ilike known R b (in_tx f body) \<or> refusing H ilike known R b (in_tx f body)"
  shows "starting H ilike known R b (tx_map f (tx_database body))"
  using assms
  by (simp add: starting_def entering_def tx_database_def tx_create_def tx_eval tx_asks)
    (rule begins; simp add: raises_def tx_eval tx_end_Finish)

lemma refusing_end:
  "(\<And>D. db_roles D = R \<Longrightarrow> atomic_block H ilike known b D (Inl e) D) \<Longrightarrow>
    refusing H ilike known R b (in_tx f (Finish (Inl e)))"
  "(\<And>D. db_roles D = R \<Longrightarrow> atomic_block H ilike known b D (Inl e) D) \<Longrightarrow>
    refusing H ilike known R b (in_plain f (Finish (Inl e)))"
  unfolding refusing_def by (rule exI [of _ e], simp add: tx_eval tx_ends)+

text \<open>The replies to the two statements that write.\<close>

lemma create_replies:
  "tx_user_create vals = Ask (UserStmt (InsertRow vals)) (\<lambda>rep. tx_in_use ''login'' (tx_bind
     (case rep of UserRows us \<Rightarrow> tx_return us | Failed e \<Rightarrow> tx_raise e | _ \<Rightarrow> tx_raise no_such_reply)
     (\<lambda>rows. tx_return (Result ECreate (first rows)))))"
  by (simp add: tx_user_create_def tx_in_use_def ask_users_def tx_eval_Ask)

lemma update_replies:
  "tx_user_update target vals = Ask (UserStmt (UpdateRows [ColEq ''uuid'' (PUuid target)] vals)) (\<lambda>rep.
     tx_in_use ''login'' (tx_bind
     (case rep of UserRows us \<Rightarrow> tx_return us | Failed e \<Rightarrow> tx_raise e | _ \<Rightarrow> tx_raise no_such_reply)
     (\<lambda>rows. tx_return (Result EUpdate (first rows)))))"
  by (simp add: tx_user_update_def tx_in_use_def ask_users_def tx_eval_Ask)

lemma in_use_Finish [tx_eval]:
  "tx_in_use u (Finish (Inr x)) = Finish (Inr x)"
  "tx_in_use u (Finish (Inl (SQLAlchemyError m))) = Finish (Inl (SQLAlchemyError m))"
  "tx_in_use u (Finish (Inl (IntegrityError origin))) = Finish (Inl (App (if sublist u origin
     then simple_error ConflictError (u @ '' already in use'') else default_app_exception)))"
  by (simp_all add: tx_in_use_def tx_eval)

lemma tx_cont_cont: "tx_cont (tx_cont t h) g = tx_cont t (\<lambda>r. tx_cont (h r) g)"
  by (induction t) simp_all

lemma tx_bind_assoc: "tx_bind (tx_bind t f) g = tx_bind t (\<lambda>x. tx_bind (f x) g)"
  unfolding tx_bind_def tx_cont_cont
  by (rule arg_cong [of _ _ "tx_cont t"]) (simp add: fun_eq_iff tx_raise_def split: sum.split)

lemma ready_insert:
  assumes h: "\<And>x. h (Result ECreate (Some x)) = Finish (Inr (g x))"
    and "\<And>D x u now. db_roles D = R \<Longrightarrow> x = new_user l p role u now \<Longrightarrow> applicable known (Joined x) D \<Longrightarrow>
      block_done H ilike known b D (f (g x)) (apply_change (Joined x) D)"
    and "\<And>D. db_roles D = R \<Longrightarrow> l \<in> u_login ` set (db_users D) \<Longrightarrow>
      block_refused H ilike b D (App (simple_error ConflictError ''login already in use''))"
    and "\<And>D. db_roles D = R \<Longrightarrow> role \<notin> r_uuid ` set R \<Longrightarrow> block_refused H ilike b D (App default_app_exception)"
  shows "ready H ilike known R b (in_tx f (tx_bind (tx_user_create (user_values l p role)) h))"
  unfolding create_replies tx_eval_Ask
proof (rule inserts, goal_cases)
  case (1 u now)
  have "writing H ilike known R b (Joined (new_user l p role u now)) (in_tx f (Finish (Inr (g (new_user l p role u now)))))"
    by (rule writing_return, rule assms(2)) (assumption | rule refl)+
  then show ?case by (simp add: tx_eval h)
next
  case (2 D origin)
  then show ?case using assms(3,4) by (cases "sublist ''login'' origin") (simp_all add: tx_eval)
next
  case 3
  show ?case by (simp add: raises_def tx_eval)
qed

lemma ready_update:
  assumes h: "\<And>x. h (Result EUpdate (Some x)) = Finish (Inr (g x))"
    and n: "h (Result EUpdate None) = Finish (Inl (App (exception_map EUpdate)))"
    and "\<And>D u now. db_roles D = R \<Longrightarrow> u_uuid u = target \<Longrightarrow> allowed_values R vals \<Longrightarrow>
      applicable known (Replaced u ((set_columns vals u)\<lparr>u_updated_at := now\<rparr>)) D \<Longrightarrow>
      block_done H ilike known b D (f (g ((set_columns vals u)\<lparr>u_updated_at := now\<rparr>)))
        (apply_change (Replaced u ((set_columns vals u)\<lparr>u_updated_at := now\<rparr>)) D)"
    and "\<And>D. db_roles D = R \<Longrightarrow> target \<notin> u_uuid ` set (db_users D) \<Longrightarrow> block_refused H ilike b D (App (exception_map EUpdate))"
    and "\<And>D e. db_roles D = R \<Longrightarrow> \<not> allowed_values R vals \<Longrightarrow> e = App default_app_exception \<or>
      e = App (simple_error ConflictError ''login already in use'') \<Longrightarrow> block_refused H ilike b D e"
  shows "ready H ilike known R b (in_tx f (tx_bind (tx_user_update target vals) h))"
  unfolding update_replies tx_eval_Ask
proof (rule updates, goal_cases)
  case (1 u now)
  have "writing H ilike known R b (Replaced u ((set_columns vals u)\<lparr>u_updated_at := now\<rparr>))
      (in_tx f (Finish (Inr (g ((set_columns vals u)\<lparr>u_updated_at := now\<rparr>)))))"
    by (rule writing_return, rule assms(3)) (assumption | rule 1)+
  then show ?case by (simp add: tx_eval h)
next
  case (2 D)
  then show ?case using assms(4) by (simp add: tx_eval n)
next
  case (3 D origin)
  then show ?case using assms(5) by (cases "sublist ''login'' origin") (simp_all add: tx_eval)
next
  case 4
  show ?case by (simp add: raises_def tx_eval)
qed

context server_laws
begin

abbreviation ready_block :: "role_row list \<Rightarrow> block \<Rightarrow> answer tx \<Rightarrow> bool" where
  "ready_block \<equiv> ready (te_hasher E) ilike known"

abbreviation refusing_block :: "role_row list \<Rightarrow> block \<Rightarrow> answer tx \<Rightarrow> bool" where
  "refusing_block \<equiv> refusing (te_hasher E) ilike known"

lemma found_roles:
  assumes "distinct R" and "mset rs = mset (filter (\<lambda>r. matches ilike (role_column r)
    (identifier_clauses ''name'' None (Some ''User''))) R)"
  shows "te_roles E rs = rs" and "set rs = {r \<in> set R. r_name r = USER}"
proof -
  have "matches ilike (role_column r) (identifier_clauses ''name'' None (Some ''User'')) \<longleftrightarrow> r_name r = USER" for r
    by (cases "r_name r") (simp_all add: matches_def identifier_clauses_def role_column_def)
  with assms(2) have rs: "mset rs = mset (filter (\<lambda>r. r_name r = USER) R)" by simp
  then show "set rs = {r \<in> set R. r_name r = USER}" by (simp add: mset_eq_setD [OF rs])
  show "te_roles E rs = rs"
    using role_unique mset_eq_imp_distinct_iff [OF rs] assms(1) by simp
qed

lemma found_users:
  assumes "valid_db D" and "i \<noteq> None \<or> truthy_str l" and "mset us = mset (map (with_loads loads (db_roles D))
    (filter (\<lambda>u. matches ilike (user_column u) (identifier_clauses ''login'' i l)) (db_users D)))"
  shows "first (te_users E us) = map_option (with_loads loads (db_roles D)) (chosen ilike i l D)"
proof -
  let ?P = "\<lambda>u. matches ilike (user_column u) (identifier_clauses ''login'' i l)"
  have d: "distinct (map u_uuid (db_users D))" "distinct (map u_login (db_users D))"
    using assms(1) by (simp_all add: valid_db_def)
  have "map u_uuid (map (with_loads loads (db_roles D)) (filter ?P (db_users D))) = map u_uuid (filter ?P (db_users D))"
    by (simp add: with_loads_def)
  then have "distinct (map (with_loads loads (db_roles D)) (filter ?P (db_users D)))"
    using distinct_map_filter [OF d(1)] by (metis distinct_map)
  then have "te_users E us = us" using user_unique mset_eq_imp_distinct_iff [OF assms(3)] by blast
  moreover have "x = y" if "x \<in> set (db_users D)" "y \<in> set (db_users D)" "?P x" "?P y" for x y
    using that assms(2) d by (auto simp: matches_def identifier_clauses_def user_column_def split: if_splits option.splits
        dest: distinct_map_eq)
  ultimately show ?thesis
    using first_of_mset [OF assms(3)] d(1) by (simp add: chosen_def distinct_map)
qed

lemma ready_select:
  assumes "i \<noteq> None \<or> truthy_str l"
    and "\<And>D u. db_roles D = R \<Longrightarrow> chosen ilike i l D = Some u \<Longrightarrow>
      \<exists>q. h (Result ESelect (Some (with_loads loads R u))) = Finish q \<and>
        atomic_block (te_hasher E) ilike known b D (map_sum id f q) D"
    and "\<And>D. db_roles D = R \<Longrightarrow> chosen ilike i l D = None \<Longrightarrow>
      \<exists>e. h (Result ESelect None) = Finish (Inl e) \<and> block_refused (te_hasher E) ilike b D e"
    and "\<And>e. h (Result ESelect None) \<noteq> Ask c k"
  shows "ready_block R b (in_plain f (tx_bind (tx_user_select E loads i l) h))"
proof -
  have c: "\<not> (i = None \<and> \<not> truthy_str l)" using assms(1) by blast
  show ?thesis
    unfolding tx_user_select_def if_not_P [OF c] ask_users_def tx_eval_Ask
  proof (rule reads_users, goal_cases)
    case (1 D us)
    then have us: "first (te_users E us) = map_option (with_loads loads R) (chosen ilike i l D)"
      using found_users [of D i l us loads] assms(1) by simp
    show ?case
    proof (cases "chosen ilike i l D")
      case None
      then show ?thesis using assms(3) [of D] 1(2) by (auto simp: tx_eval us)
    next
      case (Some u)
      then show ?thesis using assms(2) [of D u] 1(2) by (auto simp: tx_eval us)
    qed
  next
    case 2
    show ?case by (simp add: raises_def tx_eval)
  qed
qed

lemma ready_confirm:
  assumes "distinct R"
  shows "ready_block R (ConfirmBlock r) (in_tx Row (tx_confirm_user E r))"
  unfolding tx_confirm_user_def tx_role_select_def
proof (simp add: ask_roles_def tx_eval_Ask tx_bind_assoc, rule reads_roles, goal_cases)
  case (1 rs)
  note rs = found_roles [OF assms 1]
  show ?case
  proof (cases rs)
    case Nil
    then show ?thesis
      using rs by (intro disjI2) (auto simp: tx_eval intro!: refusing_end)
  next
    case (Cons role rest)
    then have role: "role \<in> set R" "r_name role = USER" using rs(2) by auto
    show ?thesis
    proof (cases "h_hash_password (te_hasher E) (rg_password r)")
      case (Inl e)
      then show ?thesis
        using rs Cons by (intro disjI2) (auto simp: tx_eval intro!: refusing_end)
    next
      case (Inr h)
      have "ready_block R (ConfirmBlock r)
          (in_tx Row (tx_bind (tx_user_create (user_values (rg_login r) h (r_uuid role))) tx_result))"
        by (rule ready_insert [where g = "\<lambda>x. x"]) (use role Inr in \<open>auto simp: tx_eval new_user_def\<close>)
      then show ?thesis using rs Cons Inr by (simp add: tx_eval)
    qed
  qed
next
  case 2
  show ?case by (simp add: raises_def tx_eval)
qed

lemma ready_create: "starting (te_hasher E) ilike known R (CreateBlock q) (block_tx E (CreateBlock q))"
  unfolding block_tx.simps tx_create_user_def
proof (rule starting_database)
  let ?b = "CreateBlock q"
  show "ready_block R ?b (in_tx View (tx_bind (tx_lift (h_hash_password (te_hasher E) (cu_password q))) (\<lambda>password.
      tx_bind (tx_bind (tx_user_create (user_values (cu_login q) password (cu_role_uuid q))) tx_result)
        (\<lambda>user. tx_lift (user_result_from user))))) \<or>
    refusing_block R ?b (in_tx View (tx_bind (tx_lift (h_hash_password (te_hasher E) (cu_password q))) (\<lambda>password.
      tx_bind (tx_bind (tx_user_create (user_values (cu_login q) password (cu_role_uuid q))) tx_result)
        (\<lambda>user. tx_lift (user_result_from user)))))"
  proof (cases "h_hash_password (te_hasher E) (cu_password q)")
    case (Inl e)
    then show ?thesis by (intro disjI2) (auto simp: tx_eval intro!: refusing_end)
  next
    case (Inr h)
    have "ready_block R ?b (in_tx View (tx_bind (tx_user_create (user_values (cu_login q) h (cu_role_uuid q)))
        (\<lambda>x. tx_bind (tx_result x) (\<lambda>user. tx_lift (user_result_from user)))))"
      by (rule ready_insert [where g = user_view]) (use Inr in \<open>auto simp: tx_eval user_result_from_view new_user_def\<close>)
    then show ?thesis by (simp add: Inr tx_bind_assoc tx_lift_def tx_eval_Finish)
  qed
qed

lemma ready_update_block: "starting (te_hasher E) ilike known R (UpdateBlock q) (block_tx E (UpdateBlock q))"
  unfolding block_tx.simps tx_update_user_def
proof (rule starting_database)
  let ?b = "UpdateBlock q"
  show "ready_block R ?b (in_tx View (tx_bind (tx_lift (hash_field (te_hasher E) (dump_update q))) (\<lambda>vals.
      tx_bind (tx_bind (tx_user_update (up_user_uuid q) vals) tx_result)
        (\<lambda>user. tx_lift (user_result_from user))))) \<or>
    refusing_block R ?b (in_tx View (tx_bind (tx_lift (hash_field (te_hasher E) (dump_update q))) (\<lambda>vals.
      tx_bind (tx_bind (tx_user_update (up_user_uuid q) vals) tx_result)
        (\<lambda>user. tx_lift (user_result_from user)))))"
  proof (cases "hash_field (te_hasher E) (dump_update q)")
    case (Inl e)
    then show ?thesis by (intro disjI2) (auto simp: tx_eval intro!: refusing_end)
  next
    case (Inr vals)
    have "ready_block R ?b (in_tx View (tx_bind (tx_user_update (up_user_uuid q) vals)
        (\<lambda>x. tx_bind (tx_result x) (\<lambda>user. tx_lift (user_result_from user)))))"
      by (rule ready_update [where g = user_view])
        (use Inr in \<open>auto simp: tx_eval user_result_from_view simp del: apply_change.simps\<close>)
    then show ?thesis by (simp add: Inr tx_bind_assoc tx_lift_def tx_eval_Finish)
  qed
qed

lemma ready_exists: "ready_block R (RegisterBlock login) (block_tx E (RegisterBlock login))"
  unfolding block_tx.simps tx_session_def tx_user_exists_def ask_flag_def tx_eval_Ask
proof (rule asks_exists, goal_cases)
  case (1 D)
  have "matches ilike (user_column u) [ColEq ''login'' (PStr login)] \<longleftrightarrow> u_login u = login" for u
    by (simp add: matches_def user_column_def)
  then show ?case by (auto simp: tx_eval)
next
  case 2
  show ?case by (simp add: raises_def tx_eval)
qed

text \<open>How each block starts.\<close>

lemma block_starts:
  assumes "distinct R" and "one_statement b"
  shows "starting (te_hasher E) ilike known R b (block_tx E b) \<or> ready_block R b (block_tx E b) \<or>
    refusing_block R b (block_tx E b)"
proof (cases b)
  case (ConfirmBlock r)
  then show ?thesis using starting_database [OF disjI1 [OF ready_confirm [OF assms(1)]]] by simp
next
  case (LoginBlock login)
  show ?thesis
  proof (cases "login = []")
    case True
    then show ?thesis
      by (intro disjI2) (auto simp: LoginBlock tx_session_def tx_user_select_def tx_no_identifier_def tx_eval
        intro!: refusing_end)
  next
    case False
    have "ready_block R b (in_plain Row (tx_bind (tx_user_select E [] None (Some login)) tx_result))"
      by (rule ready_select) (use False in \<open>auto simp: LoginBlock tx_eval with_loads_def\<close>)
    then show ?thesis by (simp add: LoginBlock tx_session_def)
  qed
next
  case (PermissionBlock ps i)
  have atomic: "atomic_block (te_hasher E) ilike known (PermissionBlock ps i) D
      (map_sum id View (check_result ps (with_loads [''role''] (db_roles D) u))) D"
    if "chosen ilike (Some i) None D = Some u" for D u
    using that by (cases "check_result ps (with_loads [''role''] (db_roles D) u)") auto
  have "ready_block R b (in_plain View (tx_bind (tx_user_select E [''role''] (Some i) None)
      (\<lambda>x. tx_bind (tx_result x) (\<lambda>user. tx_lift (check_result ps user)))))"
    by (rule ready_select) (auto simp: PermissionBlock tx_eval atomic)
  then show ?thesis by (simp add: PermissionBlock tx_session_def tx_bind_assoc)
next
  case (SelectBlock q)
  show ?thesis
  proof (cases "su_user_uuid q = None \<and> \<not> truthy_str (su_login q)")
    case True
    then show ?thesis
      by (intro disjI2) (auto simp: SelectBlock tx_session_def tx_user_select_def tx_no_identifier_def tx_eval
        intro!: refusing_end)
  next
    case False
    have "ready_block R b (in_plain View (tx_bind (tx_user_select E (su_loads q) (su_user_uuid q) (su_login q))
        (\<lambda>x. tx_bind (tx_result x) (\<lambda>user. tx_lift (user_result_from user)))))"
      by (rule ready_select) (use False in \<open>auto simp: SelectBlock tx_eval user_result_from_view\<close>)
    then show ?thesis by (simp add: SelectBlock tx_session_def tx_bind_assoc)
  qed
qed (use assms(2) ready_create ready_update_block ready_exists in \<open>auto simp: one_statement_def\<close>)

lemma page_starts: "counting q (block_tx E (PageBlock q))"
proof -
  have "settled (Inr (page_answer q n us)) (in_plain Page (tx_bind (tx_lift (views_of us)) (\<lambda>results.
      tx_return \<lparr>or_data = results, or_offset = pg_offset (sm_pagination q),
        or_limit = pg_limit (sm_pagination q), or_total = n\<rparr>)))" for us n
    by (simp add: views_of_rows tx_eval page_answer_def)
  then show ?thesis
    using user_unique
    by (auto simp: counting_def paging_def raises_def tx_session_def tx_select_many_def tx_user_select_many_def
        Let_def ask_total_def ask_users_def tx_eval)
qed

end

end
