(* ===== verification/Transaction_Order.thy ===== *)
theory Transaction_Order
  imports Transaction_Races
begin

text \<open>
  Interleaved blocks are blocks in some order: every command of a block either leaves its result open
  and the committed database alone, or settles it by one action on the committed database.  And they
  never wait for each other for ever.
\<close>

section \<open>One command\<close>

context server_laws
begin

text \<open>Where the block number \<open>i\<close> stands: with what it has to do, or with its result.\<close>

fun stands :: "role_row list \<Rightarrow> 'e \<Rightarrow> nat \<Rightarrow> work \<Rightarrow> answer tx \<Rightarrow> bool" where
  "stands R e i (Over r) t \<longleftrightarrow> settled r t \<and> changes e i = []"
| "stands R e i (Counted q n) t \<longleftrightarrow> paging q n t \<and> changes e i = []"
| "stands R e i (Todo b) t \<longleftrightarrow>
     changes e i = [] \<and> (ready_block R b t \<or> refusing_block R b t \<or> (\<exists>q. b = PageBlock q \<and> counting q t) \<or>
       entering (te_hasher E) ilike known R b t \<and> active e i \<or>
       starting (te_hasher E) ilike known R b t \<and> active e i \<and> \<not> opened e i) \<or>
     (\<exists>c. changes e i = [c] \<and> writing (te_hasher E) ilike known R b c t \<and> applicable known c (committed e))"

text \<open>What one command of a block does to it: it goes on, or its result is settled by one action.\<close>

definition goes_on :: "role_row list \<Rightarrow> 'e \<Rightarrow> 'e \<Rightarrow> nat \<Rightarrow> work \<Rightarrow> work \<Rightarrow> answer tx \<Rightarrow> bool" where
  "goes_on R e e' i q q' t \<longleftrightarrow>
     stands R e' i q' t \<and>
     (q' = q \<and> committed e' = committed e \<or>
       work_step (te_hasher E) ilike known q (committed e) q' (committed e')) \<and>
     (committed e' = committed e \<or> (\<exists>c. changes e i = [c] \<and> applicable known c (committed e) \<and>
       committed e' = apply_change c (committed e))) \<and>
     (\<forall>c j d. c \<in> set (changes e' i) \<longrightarrow> j \<noteq> i \<longrightarrow> d \<in> set (changes e j) \<longrightarrow> c \<in> set (changes e i) \<or> compatible c d)"

lemma settled_step:
  assumes "settled r (Ask c k)" and "changes e i = []" and "srv i c e = Some (rep, e')"
  shows "settled r (k rep) \<and> changes e' i = [] \<and> committed e' = committed e"
proof -
  consider "c = AskIsActive" "settled r (k (Flag True))" "settled r (k (Flag False))" | "c = CloseTx" "settled r (k Ok)"
    | "c = RollbackTx" "settled r (k Ok)"
    using assms(1) by (auto elim: settled_AskE)
  then show ?thesis
  proof cases
    case 1
    then show ?thesis
      using is_active [of i e rep e'] uncommitted [OF assms(3)] assms(2,3) by (cases "active e i") auto
  next
    case 2
    then show ?thesis using close [of i e rep e'] uncommitted [OF assms(3)] assms(3) by auto
  next
    case 3
    then show ?thesis using rollback [of i e rep e'] uncommitted [OF assms(3)] assms(3) by auto
  qed
qed

lemma goes_on_settled:
  assumes "settled r t" and "changes e' i = []" and "committed e' = committed e"
    and "q = Over r \<or> work_step (te_hasher E) ilike known q (committed e) (Over r) (committed e)"
  shows "\<exists>q'. goes_on R e e' i q q' t"
  using assms by (intro exI [of _ "Over r"]) (auto simp: goes_on_def)

lemma goes_on_atomic:
  assumes "settled r t" and "changes e' i = []" and "committed e' = committed e"
    and "atomic_block (te_hasher E) ilike known b (committed e) r (committed e)"
  shows "\<exists>q'. goes_on R e e' i (Todo b) q' t"
  using goes_on_settled [OF assms(1-3) disjI2 [OF work_step.whole [OF assms(4)]]] .

lemma goes_on_ahead:
  assumes "changes e' i = []" and "committed e' = committed e" and "ready_block R b t \<or> refusing_block R b t"
  shows "\<exists>q'. goes_on R e e' i (Todo b) q' t"
  using assms by (intro exI [of _ "Todo b"]) (auto simp: goes_on_def)

lemma raises_goes_on:
  assumes "raises k" and "fails rep" and "changes e' i = []" and "committed e' = committed e"
  shows "\<exists>q'. goes_on R e e' i (Todo b) q' (k rep)"
  using assms by (auto simp: raises_def fails_def trouble_def intro!: goes_on_atomic)

lemma goes_on_writing:
  assumes "changes e' i = [c]" and "committed e' = committed e" and "writing (te_hasher E) ilike known R b c t"
    and "applicable known c (committed e)" and "\<forall>j d. j \<noteq> i \<longrightarrow> d \<in> set (changes e j) \<longrightarrow> compatible c d"
  shows "\<exists>q'. goes_on R e e' i (Todo b) q' t"
  using assms by (intro exI [of _ "Todo b"]) (auto simp: goes_on_def)

lemma ready_step:
  assumes "ready_block R b (Ask c k)" and "changes e i = []" and "valid_db (committed e)"
    and "db_roles (committed e) = R" and "srv i c e = Some (rep, e')"
  shows "\<exists>q'. goes_on R e e' i (Todo b) q' (k rep)"
proof -
  have s: "seen committed changes e i = committed e" by (simp add: seen_def assms(2))
  show ?thesis
    using assms(1)
  proof cases
    case begins
    then show ?thesis
      using begin_transaction [of i e rep e'] uncommitted [OF assms(5)] assms(2,5)
      by (auto intro: goes_on_ahead raises_goes_on)
  next
    case (reads_roles cs)
    then show ?thesis
      using select_roles [of i cs e rep e'] uncommitted [OF assms(5)] assms(2,4,5)
      by (auto simp: s intro: goes_on_ahead raises_goes_on)
  next
    case (reads_users loads cs)
    then show ?thesis
      using select_users [of i loads cs e rep e'] uncommitted [OF assms(5)] assms
      by (auto simp: s intro: raises_goes_on) (metis goes_on_atomic)
  next
    case (asks_exists cs)
    then show ?thesis
      using exists_user [of i cs e rep e'] uncommitted [OF assms(5)] assms(2,5)
      by (auto simp: s intro: raises_goes_on) (metis goes_on_atomic)+
  next
    case (inserts l p r)
    have same: "committed e' = committed e" using uncommitted [OF assms(5)] inserts(1) by simp
    from insert_user [of i l p r e rep e'] assms(5) inserts(1) consider
      "changes e' i = []" "fails rep"
      | origin where "changes e' i = []" "rep = Failed (IntegrityError origin)" "if sublist ''login'' origin
          then l \<in> u_login ` set (db_users (committed e)) else r \<notin> r_uuid ` set R"
      | u now where "rep = UserRows [new_user l p r u now]" "changes e' i = [Joined (new_user l p r u now)]"
          "applicable known (Joined (new_user l p r u now)) (committed e)"
          "\<forall>j d. j \<noteq> i \<longrightarrow> d \<in> set (changes e j) \<longrightarrow> compatible (Joined (new_user l p r u now)) d"
      unfolding s assms(2,4) by auto
    then show ?thesis
    proof cases
      case 1
      then show ?thesis using inserts(4) same by (auto intro: raises_goes_on)
    next
      case 2
      then obtain x where x: "settled (Inl x) (k rep)"
        "atomic_block (te_hasher E) ilike known b (committed e) (Inl x) (committed e)"
        using inserts(3) [OF assms(4) 2(3)] by auto
      show ?thesis by (rule goes_on_atomic [OF x(1) 2(1) same]) (use x(2) in blast)
    next
      case 3
      then show ?thesis
        using same inserts(2) [of u now] by (auto intro!: goes_on_writing)
    qed
  next
    case (updates target vals)
    have same: "committed e' = committed e" using uncommitted [OF assms(5)] updates(1) by simp
    from update_user [of i target vals e rep e'] assms(5) updates(1) consider
      "changes e' i = []" "fails rep"
      | origin where "changes e' i = []" "rep = Failed (IntegrityError origin)" "\<not> allowed_values R vals"
      | "changes e' i = []" "rep = UserRows []" "target \<notin> u_uuid ` set (db_users (committed e))"
      | u now where "u \<in> set (db_users (committed e))" "u_uuid u = target" "allowed_values R vals"
          "rep = UserRows [(set_columns vals u)\<lparr>u_updated_at := now\<rparr>]"
          "changes e' i = [Replaced u ((set_columns vals u)\<lparr>u_updated_at := now\<rparr>)]"
          "\<forall>j d. j \<noteq> i \<longrightarrow> d \<in> set (changes e j) \<longrightarrow>
            compatible (Replaced u ((set_columns vals u)\<lparr>u_updated_at := now\<rparr>)) d"
      unfolding s assms(2,4) by auto
    then show ?thesis
    proof cases
      case 1
      then show ?thesis using updates(5) same by (auto intro: raises_goes_on)
    next
      case 2
      then obtain x where x: "settled (Inl x) (k rep)"
        "atomic_block (te_hasher E) ilike known b (committed e) (Inl x) (committed e)"
        using updates(4) [OF assms(4) 2(3)] by auto
      show ?thesis by (rule goes_on_atomic [OF x(1) 2(1) same]) (use x(2) in blast)
    next
      case 3
      then obtain x where x: "settled (Inl x) (k rep)"
        "atomic_block (te_hasher E) ilike known b (committed e) (Inl x) (committed e)"
        using updates(3) [OF assms(4) 3(3)] by auto
      show ?thesis by (rule goes_on_atomic [OF x(1) 3(1) same]) (use x(2) in blast)
    next
      case (4 u now)
      have "u_role_uuid u \<in> r_uuid ` set R" "u_role u = NotLoaded"
        using assms(3,4) 4(1) by (auto simp: valid_db_def)
      then have "applicable known (Replaced u ((set_columns vals u)\<lparr>u_updated_at := now\<rparr>)) (committed e)"
        using allowed_values_keep [OF 4(3), of u] 4(1) assms(4) by simp
      with 4 show ?thesis
        using same updates(2) [OF 4(2,3), of now] by (auto intro!: goes_on_writing)
    qed
  qed
qed

text \<open>A page is counted, and then read.\<close>

lemma counting_step:
  assumes "counting q (Ask c k)" and "changes e i = []" and "srv i c e = Some (rep, e')"
  shows "\<exists>q'. goes_on R e e' i (Todo (PageBlock q)) q' (k rep)"
proof -
  let ?n = "int (length (page_users ilike q (committed e)))"
  have c: "c = CountUser (CountRows (user_filter (sm_login q) (sm_role_uuid q)))" "raises k"
    and k: "settled (Inr (page_answer q 0 [])) (k (Total 0))" "\<And>n. 0 < n \<Longrightarrow> paging q n (k (Total n))"
    using assms(1) by (auto simp: counting_def)
  have same: "committed e' = committed e" using uncommitted [OF assms(3)] c(1) by simp
  from count_users [of i "user_filter (sm_login q) (sm_role_uuid q)" e rep e'] assms(2,3) c(1)
  consider "changes e' i = []" "fails rep" | "changes e' i = []" "rep = Total ?n"
    by (auto simp: seen_def page_users_def)
  then show ?thesis
  proof cases
    case 1
    then show ?thesis using c(2) same by (auto intro: raises_goes_on)
  next
    case 2
    show ?thesis
    proof (cases "page_users ilike q (committed e) = []")
      case True
      then show ?thesis
        using 2 k(1) same by (intro goes_on_settled [where r = "Inr (page_answer q 0 [])"]) (auto intro: work_step.no_users)
    next
      case False
      then show ?thesis
        using 2 k(2) [of ?n] same by (intro exI [of _ "Counted q ?n"]) (auto simp: goes_on_def intro: work_step.counts)
    qed
  qed
qed

lemma shown_distinct:
  assumes "valid_db D" and "shows_rows ilike q D us"
  shows "distinct us"
proof -
  obtain ordered where o: "us = map (with_loads (sm_loads q) (db_roles D))
      (page (pg_offset (sm_pagination q)) (pg_limit (sm_pagination q)) ordered)"
    "mset ordered = mset (page_users ilike q D)"
    using assms(2) by (auto simp: shows_rows_def)
  have "mset (map u_uuid ordered) = mset (map u_uuid (page_users ilike q D))" using o(2) by simp
  moreover have "distinct (map u_uuid (page_users ilike q D))"
    using assms(1) by (simp add: valid_db_def page_users_def distinct_map_filter)
  ultimately have "distinct (map u_uuid ordered)" using mset_eq_imp_distinct_iff by blast
  then have "distinct (map u_uuid (page (pg_offset (sm_pagination q)) (pg_limit (sm_pagination q)) ordered))"
    by (auto simp: page_def take_map [symmetric] drop_map [symmetric] split: option.split)
  moreover have "map u_uuid us = map u_uuid (page (pg_offset (sm_pagination q)) (pg_limit (sm_pagination q)) ordered)"
    by (simp add: o(1) with_loads_def)
  ultimately show ?thesis by (metis distinct_map)
qed

lemma paging_step:
  assumes "paging q n (Ask c k)" and "changes e i = []" and "valid_db (committed e)" and "srv i c e = Some (rep, e')"
  shows "\<exists>q'. goes_on R e e' i (Counted q n) q' (k rep)"
proof -
  have c: "c = UserStmt (OffsetQuery (sm_loads q) (pg_offset (sm_pagination q)) (pg_limit (sm_pagination q))
      (''created_at'', pg_order_by (sm_pagination q)) (user_filter (sm_login q) (sm_role_uuid q)))" "raises k"
    and k: "\<And>us. distinct us \<Longrightarrow> settled (Inr (page_answer q n us)) (k (UserRows us))"
    using assms(1) by (auto simp: paging_def)
  have same: "committed e' = committed e" using uncommitted [OF assms(4)] c(1) by simp
  from page_users [of i _ _ _ _ _ e rep e', OF assms(4) [unfolded c(1)]] assms(2)
  consider m where "changes e' i = []" "rep = Failed (SQLAlchemyError m)"
    | us where "changes e' i = []" "rep = UserRows us" "shows_rows ilike q (committed e) us"
    by (auto simp: seen_def page_users_def shows_rows_def fails_def)
  then show ?thesis
  proof cases
    case 1
    then show ?thesis
      using c(2) same by (intro goes_on_settled [where r = "Inl (SQLAlchemyError m)"])
        (auto simp: raises_def trouble_def intro: work_step.breaks)
  next
    case 2
    then show ?thesis
      using k [OF shown_distinct [OF assms(3)]] same by (auto intro!: goes_on_settled intro: work_step.reads)
  qed
qed

lemma todo_step:
  assumes "stands R e i (Todo b) (Ask c k)" and "valid_db (committed e)" and "db_roles (committed e) = R"
    and "srv i c e = Some (rep, e')"
  shows "\<exists>q'. goes_on R e e' i (Todo b) q' (k rep)"
proof -
  consider "changes e i = []" "ready_block R b (Ask c k)" | "changes e i = []" "refusing_block R b (Ask c k)"
    | q where "changes e i = []" "b = PageBlock q" "counting q (Ask c k)"
    | "changes e i = []" "entering (te_hasher E) ilike known R b (Ask c k)" "active e i"
    | "changes e i = []" "starting (te_hasher E) ilike known R b (Ask c k)" "active e i" "\<not> opened e i"
    | d where "changes e i = [d]" "writing (te_hasher E) ilike known R b d (Ask c k)" "applicable known d (committed e)"
    using assms(1) by auto
  then show ?thesis
  proof cases
    case 1
    then show ?thesis using ready_step assms(2-4) by blast
  next
    case 2
    then obtain x where x: "settled (Inl x) (Ask c k)"
      "atomic_block (te_hasher E) ilike known b (committed e) (Inl x) (committed e)"
      using assms(3) unfolding refusing_def by blast
    from settled_step [OF x(1) 2(1) assms(4)] x(2) show ?thesis by (intro goes_on_atomic) auto
  next
    case 3
    then show ?thesis using counting_step [OF _ 3(1) assms(4)] by blast
  next
    case 4
    then show ?thesis
      using is_active [of i e rep e'] uncommitted [OF assms(4)] assms(4)
      by (auto simp: entering_def intro!: goes_on_ahead)
  next
    case 5
    then have "rep = Flag False" "changes e' i = []" "active e' i" "committed e' = committed e"
      "entering (te_hasher E) ilike known R b (k (Flag False))"
      using in_transaction [of i e rep e'] uncommitted [OF assms(4)] assms(4) by (auto simp: starting_def)
    then show ?thesis by (intro exI [of _ "Todo b"]) (auto simp: goes_on_def)
  next
    case (6 d)
    then obtain x where c: "c = CommitTx" and x: "settled (Inr x) (k Ok)"
      "\<forall>m. settled (Inl CommitError) (k (Failed (SQLAlchemyError m)))"
      "block_done (te_hasher E) ilike known b (committed e) x (apply_change d (committed e))"
      using assms(3) by (auto simp: writing_def)
    then consider "rep = Ok" "committed e' = apply_change d (committed e)" "changes e' i = []"
      | m where "rep = Failed (SQLAlchemyError m)" "committed e' = committed e" "changes e' i = []"
      using commit [of i e rep e'] assms(4) 6(1) by (auto simp: seen_def fails_def)
    then show ?thesis
    proof cases
      case 1
      with x(1,3) 6 show ?thesis
        by (intro exI [of _ "Over (Inr x)"]) (auto simp: goes_on_def intro!: work_step.whole)
    next
      case 2
      then show ?thesis using x(2) by (intro goes_on_atomic) (auto simp: trouble_def)
    qed
  qed
qed

lemma stands_step:
  assumes "stands R e i q (Ask c k)" and "valid_db (committed e)" and "db_roles (committed e) = R"
    and "srv i c e = Some (rep, e')"
  shows "\<exists>q'. goes_on R e e' i q q' (k rep)"
proof (cases q)
  case (Over r)
  then have "settled r (Ask c k)" "changes e i = []" using assms(1) by simp_all
  from settled_step [OF this assms(4)] Over show ?thesis by (intro goes_on_settled) auto
next
  case (Counted p n)
  then show ?thesis using paging_step [OF _ _ assms(2,4)] assms(1) by simp
next
  case (Todo b)
  then show ?thesis using todo_step assms by blast
qed

section \<open>All blocks\<close>

definition in_order :: "role_row list \<Rightarrow> work list \<Rightarrow> answer tx list \<times> 'e \<Rightarrow> bool" where
  "in_order R qs c \<longleftrightarrow>
     (let (ts, e) = c in
       length qs = length ts \<and> valid_db (committed e) \<and> db_roles (committed e) = R \<and>
       (\<forall>i < length ts. stands R e i (qs ! i) (ts ! i)) \<and> (\<forall>i \<ge> length ts. changes e i = []) \<and>
       (\<forall>i j c d. i \<noteq> j \<longrightarrow> c \<in> set (changes e i) \<longrightarrow> d \<in> set (changes e j) \<longrightarrow> compatible c d))"

text \<open>A block that does not act stands where it stood.\<close>

lemma stands_other:
  assumes "stands R e j q t" and "srv i c e = Some (rep, e')" and "j \<noteq> i"
    and "committed e' = committed e \<or> (\<exists>d. applicable known d (committed e) \<and>
      committed e' = apply_change d (committed e) \<and> (\<forall>x \<in> set (changes e j). compatible x d))"
  shows "stands R e' j q t"
proof -
  have "applicable known x (committed e')" if "changes e j = [x]" "applicable known x (committed e)" for x
    using assms(4) that applicable_after by auto
  then show ?thesis
    using assms(1) others [OF assms(2,3)] by (cases q) auto
qed

lemma in_order_step:
  assumes "in_order R qs (ts, e)" and "tx_step srv (ts, e) (ts', e')"
  shows "\<exists>qs'. in_order R qs' (ts', e') \<and> serial_run (te_hasher E) ilike known (qs, committed e) (qs', committed e')"
  using assms(2)
proof cases
  case (sent i c k rep)
  note o = assms(1) [unfolded in_order_def Let_def case_prod_conv]
  have len: "length qs = length ts" and valid: "valid_db (committed e)" "db_roles (committed e) = R"
    and st: "\<And>j. j < length ts \<Longrightarrow> stands R e j (qs ! j) (ts ! j)"
    and none: "\<And>j. length ts \<le> j \<Longrightarrow> changes e j = []"
    and comp: "\<And>j l x y. j \<noteq> l \<Longrightarrow> x \<in> set (changes e j) \<Longrightarrow> y \<in> set (changes e l) \<Longrightarrow> compatible x y"
    using o by blast+
  note ch = others [OF sent(4)]
  from stands_step [OF _ valid sent(4)] st [OF sent(2)] sent(3) obtain q where q: "goes_on R e e' i (qs ! i) q (k rep)" by auto
  note g = q [unfolded goes_on_def]
  have effect: "committed e' = committed e \<or> (\<exists>d. changes e i = [d] \<and> applicable known d (committed e) \<and>
      committed e' = apply_change d (committed e))"
    using g by blast
  have "stands R e' j (qs ! j) (ts ! j)" if j: "j < length ts" "j \<noteq> i" for j
  proof (rule stands_other [OF st [OF j(1)] sent(4) j(2)])
    show "committed e' = committed e \<or> (\<exists>d. applicable known d (committed e) \<and>
        committed e' = apply_change d (committed e) \<and> (\<forall>x \<in> set (changes e j). compatible x d))"
      using effect comp [OF j(2)] by (metis list.set_intros(1))
  qed
  moreover have "valid_db (committed e')" "db_roles (committed e') = R"
    using effect valid valid_after by auto
  moreover have mine: "compatible x y" if "l \<noteq> i" "x \<in> set (changes e' i)" "y \<in> set (changes e' l)" for l x y
    using that ch [of l] g comp [of i l] by metis
  moreover have "compatible x y" if "j \<noteq> l" "x \<in> set (changes e' j)" "y \<in> set (changes e' l)" for j l x y
    using that mine [of l x y] mine [of j y x] comp [of j l x y] ch compatible_sym [of x y] by metis
  moreover have "changes e' j = []" if "length ts \<le> j" for j
    using none that ch [of j] sent(2) by (cases "j = i") auto
  ultimately have "in_order R (qs[i := q]) (ts', e')"
    using len g sent(1,2) by (auto simp: in_order_def nth_list_update)
  moreover have "serial_run (te_hasher E) ilike known (qs, committed e) (qs[i := q], committed e')"
  proof (cases "q = qs ! i \<and> committed e' = committed e")
    case True
    then show ?thesis by simp
  next
    case False
    then have "work_step (te_hasher E) ilike known (qs ! i) (committed e) q (committed e')"
      using g by blast
    then show ?thesis using serial_step.acted sent(2) len by (metis r_into_rtranclp)
  qed
  ultimately show ?thesis by blast
qed

lemma in_order_run:
  assumes "tx_run srv c c'" and "in_order R qs c"
  shows "\<exists>qs'. in_order R qs' c' \<and> serial_run (te_hasher E) ilike known (qs, committed (snd c)) (qs', committed (snd c'))"
  using assms(1)
proof induction
  case base
  then show ?case using assms(2) by blast
next
  case (step c' c'')
  then obtain qs' where "in_order R qs' c'"
    "serial_run (te_hasher E) ilike known (qs, committed (snd c)) (qs', committed (snd c'))" by blast
  with in_order_step [of R qs' "fst c'" "snd c'" "fst c''" "snd c''"] step.hyps(2) show ?case
    by (metis prod.collapse rtranclp_trans)
qed

lemma in_order_start:
  assumes "valid_db (committed e)" and "\<forall>i. changes e i = [] \<and> active e i \<and> \<not> opened e i"
  shows "in_order (db_roles (committed e)) (map Todo bs) (map (block_tx E) bs, e)"
proof -
  have "distinct (db_roles (committed e))" using assms(1) by (auto simp: valid_db_def distinct_map)
  then have "stands (db_roles (committed e)) e i (Todo b) (block_tx E b)" for i b
    using block_starts [of "db_roles (committed e)" b] page_starts assms(2)
    by (cases "one_statement b") (auto simp: one_statement_def simp del: block_tx.simps)
  then show ?thesis using assms by (simp add: in_order_def del: stands.simps)
qed

text \<open>Some block can always go on, unless all are done.\<close>

lemma in_order_goes_on:
  assumes "in_order R qs (ts, e)" and "t \<in> set ts" and "\<forall>r. t \<noteq> Finish r"
  shows "\<exists>c. tx_step srv (ts, e) c"
proof -
  obtain i c k where i: "i < length ts" "ts ! i = Ask c k"
    using assms(2,3) by (metis in_set_conv_nth tx.exhaust)
  show ?thesis
  proof (cases "srv i c e")
    case (Some x)
    then show ?thesis using tx_step.sent [OF i] by (metis surj_pair)
  next
    case None
    then obtain j where j: "changes e j \<noteq> []" using waits by blast
    then have "j < length ts" "stands R e j (qs ! j) (ts ! j)"
      using assms(1) unfolding in_order_def by (auto simp: not_less [symmetric])
    with j obtain l where l: "ts ! j = Ask CommitTx l"
      by (cases "qs ! j") (auto simp: writing_def)
    obtain rep e' where "srv j CommitTx e = Some (rep, e')"
      using waits [of j CommitTx e] by (cases "srv j CommitTx e") (auto simp: writes_def)
    from tx_step.sent [where srv = srv and e = e, OF \<open>j < length ts\<close> l this] show ?thesis by (rule exI)
  qed
qed

lemma stands_finished: "stands R e i q (Finish r) \<Longrightarrow> q = Over r"
  by (cases q) (auto simp: refusing_def entering_def starting_def writing_def paging_def counting_def elim: ready.cases)

lemma in_order_finished: "in_order R qs (ts, e) \<Longrightarrow> i < length ts \<Longrightarrow> ts ! i = Finish r \<Longrightarrow> qs ! i = Over r"
  using stands_finished by (fastforce simp: in_order_def)

end

end
