(* ===== verification/Transaction_Properties.thy ===== *)
theory Transaction_Properties
  imports Transaction_Order Reachability
begin

text \<open>
  What the actions of the serial machine have to do with the program: a block of the use cases that is
  alone is such an action (a page: two); and what they do to the rows of the users.
\<close>

section \<open>The blocks of the use cases are single actions\<close>

text \<open>The bounds the contract of a page has.\<close>

fun in_bounds :: "block \<Rightarrow> bool" where
  "in_bounds (PageBlock q) \<longleftrightarrow>
     0 \<le> pg_offset (sm_pagination q) \<and> (\<forall>l. pg_limit (sm_pagination q) = Some l \<longrightarrow> 0 \<le> l)"
| "in_bounds b \<longleftrightarrow> True"

context app_laws
begin

lemma chosen_login: "login \<noteq> [] \<Longrightarrow> chosen ilike None (Some login) D = find (\<lambda>u. u_login u = login) (db_users D)"
  by (simp add: chosen_def identifier_clauses_def matches_def user_column_def)

lemma chosen_uuid: "chosen ilike (Some i) None D = find (\<lambda>u. u_uuid u = i) (db_users D)"
  by (simp add: chosen_def identifier_clauses_def matches_def user_column_def)

lemma select_chosen:
  assumes "i \<noteq> None \<or> truthy_str l"
  shows "fst (user_select (ss_user (ap_session A)) loads i l d) = Inr (Result ESelect
      (map_option (with_loads loads (db_roles (tables d))) (chosen ilike i l (tables d))))"
  unfolding chosen_def
proof (rule db.user_select_finds(1) [OF refl assms])
  fix u v assume "u \<in> set (db_users (tables d))" "v \<in> set (db_users (tables d))"
    "matches ilike (user_column u) (identifier_clauses ''login'' i l)"
    "matches ilike (user_column v) (identifier_clauses ''login'' i l)"
  then show "u = v"
    using assms db.valid [of d] by (auto simp: valid_db_def matches_def identifier_clauses_def user_column_def
        split: if_splits option.splits dest: distinct_map_eq)
qed

lemma atomic_confirm:
  "atomic_block (ap_hasher A) ilike (known_uuid (ap_auth A)) (ConfirmBlock r) (committed d)
    (fst (block_io A (ConfirmBlock r) d)) (committed (snd (block_io A (ConfirmBlock r) d)))"
  using confirm_user_spec [of d r]
  by (elim disjE exE conjE) (auto simp: io_into_def io_bind_def io_return_def new_user_def)

lemma atomic_reads:
  assumes "b = RegisterBlock login \<or> b = LoginBlock login \<or> b = PermissionBlock ps i \<or> b = SelectBlock q"
  shows "atomic_block (ap_hasher A) ilike (known_uuid (ap_auth A)) b (committed d)
    (fst (block_io A b d)) (committed (snd (block_io A b d)))"
proof -
  have frame: "session_frame (ap_session A) committed
      (io_bind (user_exists (ss_user (ap_session A)) login) result_of)"
    "session_frame (ap_session A) committed
      (io_bind (user_select (ss_user (ap_session A)) [] None (Some login)) result_of)"
    "session_frame (ap_session A) committed (io_bind (io_bind (user_select (ss_user (ap_session A)) [''role''] (Some i) None)
      result_of) (check_permission ps))"
    "session_frame (ap_session A) committed (io_bind (io_bind (user_select (ss_user (ap_session A)) (su_loads q)
      (su_user_uuid q) (su_login q)) result_of) (\<lambda>user. io_lift (user_result_from user)))"
    by (intro frames frame_check)+
  note spec = frame [THEN db.in_session_spec(1)] frame [THEN db.in_session_spec(2)]
  have check: "fst (check_permission ps u s) = check_result ps u" for u and s :: 'd
    by (simp add: lift_check [symmetric] io_lift_def)
  consider "b = RegisterBlock login" | "b = LoginBlock login" "login = []" | "b = LoginBlock login" "login \<noteq> []"
    | "b = PermissionBlock ps i" | "b = SelectBlock q" "su_user_uuid q = None \<and> \<not> truthy_str (su_login q)"
    | "b = SelectBlock q" "su_user_uuid q \<noteq> None \<or> truthy_str (su_login q)"
    using assms by blast
  then show ?thesis
  proof cases
    case 1
    then show ?thesis
      using db.user_exists_login [of login "ss_new (ap_session A) d"]
      by (simp add: io_into_def io_bind_def spec io_return_def result_of_simps db.new_views)
  next
    case 2
    then have "user_select (ss_user (ap_session A)) [] None (Some login) x =
        (Inl (InvalidParamsError ''at least one identifier must be provided''), x)" for x
      by (simp add: user_select_def no_identifier_def io_simps)
    then show ?thesis unfolding 2(1) by (simp add: io_into_def io_bind_def spec) (simp add: 2(2))
  next
    case 3
    then show ?thesis
      using select_chosen [of None "Some login" "[]" "ss_new (ap_session A) d"]
      by (cases "chosen ilike None (Some login) (committed d)")
        (auto simp: io_into_def io_bind_def spec io_return_def result_of_simps db.new_views with_loads_def)
  next
    case 4
    then show ?thesis
      using select_chosen [of "Some i" None "[''role'']" "ss_new (ap_session A) d"]
      by (cases "chosen ilike (Some i) None (committed d)")
        (auto simp: io_into_def io_bind_def spec io_return_def result_of_simps db.new_views check
          split: sum.split)
  next
    case 5
    then have "user_select (ss_user (ap_session A)) (su_loads q) (su_user_uuid q) (su_login q) x =
        (Inl (InvalidParamsError ''at least one identifier must be provided''), x)" for x
      by (simp add: user_select_def no_identifier_def io_simps)
    then show ?thesis unfolding 5(1) by (simp add: io_into_def io_bind_def spec) (use 5(2) in simp)
  next
    case 6
    show ?thesis
      using 6(1) select_chosen [OF 6(2), of "su_loads q" "ss_new (ap_session A) d"]
      by (cases "chosen ilike (su_user_uuid q) (su_login q) (committed d)")
        (auto simp: io_into_def io_bind_def spec [unfolded user_result_from_view] io_return_def result_of_simps
          db.new_views user_result_from_view io_lift_def)
  qed
qed

text \<open>A block that writes, by what its body does after the beginning of the transaction.\<close>

lemma atomic_written:
  assumes "session_frame (ap_session A) committed m"
    and "atomic_block (ap_hasher A) ilike (known_uuid (ap_auth A)) b (committed d)
      (map_sum id f (fst (m (db.begun d)))) (case fst (m (db.begun d)) of
        Inr _ \<Rightarrow> tables (snd (m (db.begun d))) | Inl _ \<Rightarrow> committed d)"
  shows "atomic_block (ap_hasher A) ilike (known_uuid (ap_auth A)) b (committed d)
    (fst (io_into f (in_database (ap_session A) m) d)) (committed (snd (io_into f (in_database (ap_session A) m) d)))"
  using assms(2) db.in_database_spec [OF assms(1), of d]
  by (cases "fst (m (db.begun d))") (simp_all add: io_into_def io_bind_def io_return_def)

lemma atomic_create:
  "atomic_block (ap_hasher A) ilike (known_uuid (ap_auth A)) (CreateBlock q) (committed d)
    (fst (block_io A (CreateBlock q) d)) (committed (snd (block_io A (CreateBlock q) d)))"
  unfolding block_io.simps
proof (rule atomic_written)
  let ?D = "committed d" and ?d = "db.begun d"
  let ?m = "io_bind (io_lift (h_hash_password (ap_hasher A) (cu_password q))) (\<lambda>password.
      io_bind (io_bind (user_create (ss_user (ap_session A))
          (user_values (cu_login q) password (cu_role_uuid q))) result_of)
        (\<lambda>user. io_lift (user_result_from user)))"
  show "session_frame (ap_session A) committed ?m" by (intro frames)
  obtain h where h: "h_hash_password (ap_hasher A) (cu_password q) = Inr h" using hasher.hash by blast
  have t: "tables ?d = ?D" by (rule db.begun_views(1))
  note create = db.user_create_duplicate [of "cu_login q" ?d h "cu_role_uuid q"]
    db.user_create_foreign [of "cu_login q" ?d "cu_role_uuid q" h]
    db.user_create_ok [of "cu_login q" ?d "cu_role_uuid q" h]
  consider "cu_login q \<in> u_login ` set (db_users ?D)"
    | "cu_login q \<notin> u_login ` set (db_users ?D)" "cu_role_uuid q \<notin> r_uuid ` set (db_roles ?D)"
    | "cu_login q \<notin> u_login ` set (db_users ?D)" "cu_role_uuid q \<in> r_uuid ` set (db_roles ?D)"
    by blast
  then show "atomic_block (ap_hasher A) ilike (known_uuid (ap_auth A)) (CreateBlock q) ?D
      (map_sum id View (fst (?m ?d))) (case fst (?m ?d) of Inr _ \<Rightarrow> tables (snd (?m ?d)) | Inl _ \<Rightarrow> ?D)"
  proof cases
    case 3
    with create(3) obtain u now where u: "known_uuid (ap_auth A) u" "u \<notin> u_uuid ` set (db_users ?D)"
      "fst (user_create (ss_user (ap_session A)) (user_values (cu_login q) h (cu_role_uuid q)) ?d) =
        Inr (Result ECreate (Some (new_user (cu_login q) h (cu_role_uuid q) u now)))"
      "tables (snd (user_create (ss_user (ap_session A)) (user_values (cu_login q) h (cu_role_uuid q)) ?d)) =
        ?D\<lparr>db_users := db_users ?D @ [new_user (cu_login q) h (cu_role_uuid q) u now]\<rparr>"
      unfolding t by blast
    then have "fst (?m ?d) = Inr (user_view (new_user (cu_login q) h (cu_role_uuid q) u now))"
      "tables (snd (?m ?d)) = ?D\<lparr>db_users := db_users ?D @ [new_user (cu_login q) h (cu_role_uuid q) u now]\<rparr>"
      by (simp_all add: io_bind_def io_lift_def h result_of_simps user_result_from_view)
    then show ?thesis using 3 u(1,2) h by (auto simp: new_user_def)
  qed (use create(1,2) h in \<open>simp_all add: t io_bind_def io_lift_def\<close>)
qed

text \<open>The values of an update: a \<open>NULL\<close>, a role that is not there, or values that may be set.\<close>

lemma hashed_values:
  assumes "hash_field (ap_hasher A) (dump_update q) = Inr vals"
  shows "PNone \<in> snd ` set vals \<or> (\<exists>r. (''role_uuid'', PUuid r) \<in> set vals \<and> r \<notin> r_uuid ` set roles) \<or>
    allowed_values roles vals \<and> set vals \<subseteq> ({''password''} \<times> range PStr) \<union> ({''active''} \<times> range PBool) \<union>
      ({''role_uuid''} \<times> PUuid ` r_uuid ` set roles)"
proof -
  obtain ws where ws: "hash_field (ap_hasher A) (dump_update q) = Inr ws" "ws = (case up_password q of
        Some (Some plain) \<Rightarrow> [(''password'', PStr (projr (h_hash_password (ap_hasher A) plain)))]
      | Some None \<Rightarrow> [(''password'', PNone)] | None \<Rightarrow> []) @
      set_field ''role_uuid'' PUuid (up_role_uuid q) @ set_field ''active'' PBool (up_active q)"
    using hash_field_ok by blast
  have "vals = ws" using assms ws(1) by simp
  then show ?thesis
    unfolding ws(2) by (auto simp: set_field_def allowed_values_def list_ex_iff split: option.splits)
qed

lemma not_allowed:
  "PNone \<in> snd ` set vals \<or> (\<exists>r. (''role_uuid'', PUuid r) \<in> set vals \<and> r \<notin> r_uuid ` set roles) \<Longrightarrow>
    \<not> allowed_values roles vals"
  by (force simp: allowed_values_def list_all_iff list_ex_iff)

text \<open>An update that is made replaces one row.\<close>

lemma update_replaces:
  assumes "tables d = D" and "u \<in> set (db_users D)"
    and "set vals \<subseteq> ({''password''} \<times> range PStr) \<union> ({''active''} \<times> range PBool) \<union>
      ({''role_uuid''} \<times> PUuid ` r_uuid ` set (db_roles D))"
  shows "\<exists>now. fst (user_update (ss_user (ap_session A)) (u_uuid u) vals d) =
      Inr (Result EUpdate (Some ((set_columns vals u)\<lparr>u_updated_at := now\<rparr>))) \<and>
    tables (snd (user_update (ss_user (ap_session A)) (u_uuid u) vals d)) =
      apply_change (Replaced u ((set_columns vals u)\<lparr>u_updated_at := now\<rparr>)) D"
proof -
  have "map (\<lambda>v. if u_uuid v = u_uuid u then (set_columns vals v)\<lparr>u_updated_at := now\<rparr> else v) (db_users D) =
      map (\<lambda>v. if u_uuid v = u_uuid u then (set_columns vals u)\<lparr>u_updated_at := now\<rparr> else v) (db_users D)" for now
    using assms(1,2) db.valid [of d] by (auto simp: valid_db_def dest: distinct_map_eq)
  then show ?thesis using db.user_update_ok [of u d "u_uuid u" vals] assms by auto
qed

lemma atomic_update:
  "atomic_block (ap_hasher A) ilike (known_uuid (ap_auth A)) (UpdateBlock q) (committed d)
    (fst (block_io A (UpdateBlock q) d)) (committed (snd (block_io A (UpdateBlock q) d)))"
  unfolding block_io.simps
proof (rule atomic_written [OF frame_update])
  let ?D = "committed d" and ?d = "db.begun d" and ?t = "up_user_uuid q"
  let ?m = "io_bind (io_lift (hash_field (ap_hasher A) (dump_update q))) (\<lambda>vals.
      io_bind (io_bind (user_update (ss_user (ap_session A)) ?t vals) result_of)
        (\<lambda>user. io_lift (user_result_from user)))"
  obtain vals where vals: "hash_field (ap_hasher A) (dump_update q) = Inr vals" using hash_field_ok by blast
  have t: "tables ?d = ?D" by (rule db.begun_views(1))
  show "atomic_block (ap_hasher A) ilike (known_uuid (ap_auth A)) (UpdateBlock q) ?D
      (map_sum id View (fst (?m ?d))) (case fst (?m ?d) of Inr _ \<Rightarrow> tables (snd (?m ?d)) | Inl _ \<Rightarrow> ?D)"
  proof (cases "?t \<in> u_uuid ` set (db_users ?D)")
    case False
    then show ?thesis
      using db.user_update_missing [of ?t ?d vals] by (simp add: vals t io_bind_def io_lift_def result_of_simps)
  next
    case True
    then obtain u where u: "u \<in> set (db_users ?D)" "?t = u_uuid u" by (rule imageE)
    consider "PNone \<in> snd ` set vals"
      | r where "PNone \<notin> snd ` set vals" "(''role_uuid'', PUuid r) \<in> set vals" "r \<notin> r_uuid ` set (db_roles ?D)"
      | "allowed_values (db_roles ?D) vals" "set vals \<subseteq> ({''password''} \<times> range PStr) \<union> ({''active''} \<times> range PBool) \<union>
          ({''role_uuid''} \<times> PUuid ` r_uuid ` set (db_roles ?D))"
      using hashed_values [OF vals] by blast
    then show ?thesis
    proof cases
      case 1
      then show ?thesis
        using db.user_update_null [of ?t ?d vals] True not_allowed [of vals "db_roles ?D"]
        by (auto simp: vals t io_bind_def io_lift_def)
    next
      case (2 r)
      then show ?thesis
        using db.user_update_foreign [of ?t ?d vals r] True not_allowed [of vals "db_roles ?D"]
        by (auto simp: vals t io_bind_def io_lift_def)
    next
      case 3
      from update_replaces [OF t u(1) 3(2)] obtain now where
        "fst (user_update (ss_user (ap_session A)) (u_uuid u) vals ?d) =
          Inr (Result EUpdate (Some ((set_columns vals u)\<lparr>u_updated_at := now\<rparr>)))"
        "tables (snd (user_update (ss_user (ap_session A)) (u_uuid u) vals ?d)) =
          apply_change (Replaced u ((set_columns vals u)\<lparr>u_updated_at := now\<rparr>)) ?D"
        by blast
      then have "fst (?m ?d) = Inr (user_view ((set_columns vals u)\<lparr>u_updated_at := now\<rparr>))"
        "tables (snd (?m ?d)) = apply_change (Replaced u ((set_columns vals u)\<lparr>u_updated_at := now\<rparr>)) ?D"
        using u(2) by (simp_all add: vals io_bind_def io_lift_def result_of_simps user_result_from_view)
      then show ?thesis
        using u 3(1) vals by (simp del: apply_change.simps) (metis u(2))
    qed
  qed
qed

lemma atomic_blocks:
  assumes "one_statement b"
  shows "atomic_block (ap_hasher A) ilike (known_uuid (ap_auth A)) b (committed d)
    (fst (block_io A b d)) (committed (snd (block_io A b d)))"
  using assms atomic_confirm atomic_create atomic_update atomic_reads
  by (cases b) (auto simp: one_statement_def simp del: block_io.simps atomic_block.simps)

text \<open>A page that is alone is read at one time.\<close>

lemma into_apply: "io_into f m d = (map_sum id f (fst (m d)), snd (m d))"
  by (cases "fst (m d)") (auto simp: io_into_def io_bind_def io_return_def intro: prod_eqI)

lemma page_is_use_case:
  "block_io A (PageBlock q) (cx_db s) =
    (map_sum id Page (fst (select_many_user A q s)), cx_db (snd (select_many_user A q s)))"
  unfolding block_io.simps into_apply select_many_user_def Let_def io_focus_def by simp

lemma page_alone:
  assumes "in_bounds (PageBlock q)"
  obtains us where "fst (block_io A (PageBlock q) d) =
      Inr (page_answer q (int (length (page_users ilike q (committed d)))) us)"
    and "shows_rows ilike q (committed d) us"
proof -
  define s where "s = \<lparr>cx_cache = undefined :: 'c, cx_db = d\<rparr>"
  obtain ordered where o: "fst (select_many_user A q s) = Inr
      \<lparr>or_data = map (user_view \<circ> with_loads (sm_loads q) (db_roles (committed d)))
         (page (pg_offset (sm_pagination q)) (pg_limit (sm_pagination q)) ordered),
       or_offset = pg_offset (sm_pagination q), or_limit = pg_limit (sm_pagination q),
       or_total = int (length ordered)\<rparr>"
    "mset ordered = mset (page_users ilike q (committed d))"
    "sorted_dir (pg_order_by (sm_pagination q)) (map u_created_at ordered)"
    using select_many_user_run [of q s] assms by (auto simp: s_def page_users_def)
  have "length ordered = length (page_users ilike q (committed d))" using o(2) by (rule mset_eq_length)
  moreover have "fst (block_io A (PageBlock q) d) = map_sum id Page (fst (select_many_user A q s))"
    using page_is_use_case [of q s] by (simp add: s_def)
  ultimately show ?thesis
    using o by (intro that [where us = "map (with_loads (sm_loads q) (db_roles (committed d)))
      (page (pg_offset (sm_pagination q)) (pg_limit (sm_pagination q)) ordered)"])
      (auto simp: page_answer_def shows_rows_def)
qed

text \<open>Every block that is alone is a serial run of its own.\<close>

lemma alone_step:
  "work_step H ilike known q D q' D' \<Longrightarrow> serial_step H ilike known ([q], D) ([q'], D')"
  using serial_step.acted [of 0 "[q]" H ilike known D q' D'] by simp

lemma blocks_alone:
  assumes "in_bounds b"
  shows "serial_run (ap_hasher A) ilike (known_uuid (ap_auth A)) ([Todo b], committed d)
    ([Over (fst (block_io A b d))], committed (snd (block_io A b d)))"
proof (cases "one_statement b")
  case True
  from alone_step [OF work_step.whole [OF atomic_blocks [OF this]]] show ?thesis by blast
next
  case False
  then obtain q where b: "b = PageBlock q" by (auto simp: one_statement_def)
  have same: "committed (snd (block_io A b d)) = committed d"
    using page_is_use_case [of q "\<lparr>cx_cache = undefined, cx_db = d\<rparr>"] select_frames(4) [of q "\<lparr>cx_cache = undefined, cx_db = d\<rparr>"]
    by (simp add: b)
  obtain us where us: "fst (block_io A b d) = Inr (page_answer q (int (length (page_users ilike q (committed d)))) us)"
    "shows_rows ilike q (committed d) us"
    using page_alone [of q d] assms b by blast
  show ?thesis
  proof (cases "page_users ilike q (committed d) = []")
    case True
    then have "us = []" using us(2) by (auto simp: shows_rows_def page_def split: option.split)
    then show ?thesis
      using alone_step [OF work_step.no_users [OF True]] by (simp add: same us(1) True) (simp add: b r_into_rtranclp)
  next
    case False
    from alone_step [OF work_step.counts [OF this]] alone_step [OF work_step.reads [OF us(2)]] show ?thesis
      unfolding same us(1) unfolding b
      by (rule converse_rtranclp_into_rtranclp [OF _ r_into_rtranclp])
  qed
qed

end

section \<open>What becomes of a row\<close>

text \<open>One update of the blocks, with all it sets; and the rows the blocks add.\<close>

definition row_update :: "hasher \<Rightarrow> block set \<Rightarrow> user_row \<Rightarrow> user_row \<Rightarrow> bool" where
  "row_update H bs u v \<longleftrightarrow>
     (\<exists>q now. UpdateBlock q \<in> bs \<and> up_user_uuid q = u_uuid u \<and>
       (case up_password q of
          Some (Some plain) \<Rightarrow> h_hash_password H plain = Inr (u_password v)
        | _ \<Rightarrow> u_password v = u_password u) \<and>
       v = u\<lparr>u_password := u_password v,
         u_role_uuid := (case up_role_uuid q of Some (Some r) \<Rightarrow> r | _ \<Rightarrow> u_role_uuid u),
         u_active := (case up_active q of Some (Some b) \<Rightarrow> b | _ \<Rightarrow> u_active u),
         u_updated_at := now\<rparr>)"

definition row_added :: "hasher \<Rightarrow> block set \<Rightarrow> role_row list \<Rightarrow> user_row \<Rightarrow> bool" where
  "row_added H bs roles u \<longleftrightarrow>
     (\<exists>r role h i now. ConfirmBlock r \<in> bs \<and> role \<in> set roles \<and> r_name role = USER \<and>
       h_hash_password H (rg_password r) = Inr h \<and> u = new_user (rg_login r) h (r_uuid role) i now) \<or>
     (\<exists>q h i now. CreateBlock q \<in> bs \<and> h_hash_password H (cu_password q) = Inr h \<and>
       u = new_user (cu_login q) h (cu_role_uuid q) i now)"

text \<open>Every row is one that was there or was added, after some updates; and none is lost.\<close>

definition rows_follow :: "hasher \<Rightarrow> block set \<Rightarrow> db \<Rightarrow> db \<Rightarrow> bool" where
  "rows_follow H bs D0 D \<longleftrightarrow>
     db_roles D = db_roles D0 \<and>
     (\<forall>u \<in> set (db_users D0). \<exists>v \<in> set (db_users D). (row_update H bs)\<^sup>*\<^sup>* u v) \<and>
     (\<forall>v \<in> set (db_users D). \<exists>u. (u \<in> set (db_users D0) \<or> row_added H bs (db_roles D0) u) \<and>
       (row_update H bs)\<^sup>*\<^sup>* u v)"

lemma rows_follow_refl: "rows_follow H bs D D"
  by (auto simp: rows_follow_def)

lemma allowed_update:
  assumes "hash_field H (dump_update q) = Inr vals" and "allowed_values R vals"
    and "UpdateBlock q \<in> bs" and "up_user_uuid q = u_uuid u"
  shows "row_update H bs u ((set_columns vals u)\<lparr>u_updated_at := now\<rparr>)"
  using assms unfolding row_update_def
  by (intro exI [of _ q] exI [of _ now])
    (auto simp: hash_field_def dump_update_def set_field_def allowed_values_def
      set_columns_def split: option.splits sum.splits)

lemma rows_follow_joined:
  assumes "rows_follow H bs D0 D" and "row_added H bs (db_roles D) u"
  shows "rows_follow H bs D0 (apply_change (Joined u) D)"
  using assms by (auto simp: rows_follow_def)

lemma rows_follow_replaced:
  assumes "rows_follow H bs D0 D" and "valid_db D" and "u \<in> set (db_users D)" and "row_update H bs u v"
  shows "rows_follow H bs D0 (apply_change (Replaced u v) D)"
proof -
  have key: "w = u" if "w \<in> set (db_users D)" "u_uuid w = u_uuid u" for w
    using assms(2,3) that by (auto simp: valid_db_def dest: distinct_map_eq)
  have "\<exists>v' \<in> set (db_users (apply_change (Replaced u v) D)). (row_update H bs)\<^sup>*\<^sup>* a v'"
    if "w \<in> set (db_users D)" "(row_update H bs)\<^sup>*\<^sup>* a w" for a w
  proof (cases "u_uuid w = u_uuid u")
    case True
    then have "(row_update H bs)\<^sup>*\<^sup>* a v" using key that assms(4) by (auto intro: rtranclp.rtrancl_into_rtrancl)
    then show ?thesis using assms(3) by force
  next
    case False
    then show ?thesis using that by force
  qed
  moreover have "\<exists>a. (a \<in> set (db_users D0) \<or> row_added H bs (db_roles D0) a) \<and> (row_update H bs)\<^sup>*\<^sup>* a w"
    if "w \<in> set (db_users (apply_change (Replaced u v) D))" for w
  proof (cases "w \<in> set (db_users D)")
    case False
    then have "w = v" using that by (auto split: if_splits)
    then show ?thesis
      using assms(1,3,4) unfolding rows_follow_def by (meson rtranclp.rtrancl_into_rtrancl)
  qed (use assms(1) in \<open>auto simp: rows_follow_def\<close>)
  ultimately show ?thesis
    using assms(1) unfolding rows_follow_def by (metis apply_roles)
qed

lemma rows_follow_atomic:
  assumes "rows_follow H bs D0 D" and "valid_db D" and "b \<in> bs" and "atomic_block H ilike known b D r D'"
  shows "rows_follow H bs D0 D'"
proof (cases "\<exists>x. r = Inr x")
  case True
  then obtain x where did: "block_done H ilike known b D x D'" using assms(4) by auto
  show ?thesis
  proof (cases b)
    case (ConfirmBlock q)
    then have "\<exists>u. row_added H bs (db_roles D) u \<and> D' = apply_change (Joined u) D"
      using did assms(3) unfolding row_added_def by (simp del: apply_change.simps) blast
    then show ?thesis using rows_follow_joined [OF assms(1)] by blast
  next
    case (CreateBlock q)
    then have "\<exists>u. row_added H bs (db_roles D) u \<and> D' = apply_change (Joined u) D"
      using did assms(3) unfolding row_added_def by (simp del: apply_change.simps) blast
    then show ?thesis using rows_follow_joined [OF assms(1)] by blast
  next
    case (UpdateBlock q)
    then obtain vals u now where u: "hash_field H (dump_update q) = Inr vals" "allowed_values (db_roles D) vals"
      "u \<in> set (db_users D)" "u_uuid u = up_user_uuid q"
      "D' = apply_change (Replaced u ((set_columns vals u)\<lparr>u_updated_at := now\<rparr>)) D"
      using did by (auto simp del: apply_change.simps)
    show ?thesis
      unfolding u(5) using assms(3) UpdateBlock u(4)
      by (intro rows_follow_replaced [OF assms(1,2) u(3)] allowed_update [OF u(1,2)]) simp_all
  qed (use did assms(1) in auto)
qed (use assms(1,4) in \<open>cases r; auto\<close>)

end
