(* ===== verification/Transaction_Server.thy ===== *)
theory Transaction_Server
  imports Transaction_Properties
begin

text \<open>
  A reference server with open transactions, and the properties of blocks that run at the same time:
  they are serialisable, they do not deadlock, and a page and its total may be of different times.
\<close>

section \<open>Serial runs\<close>

lemma atomic_keeps_valid:
  assumes "valid_db D" and "atomic_block H ilike known b D r D'"
  shows "valid_db D'"
proof (cases r)
  case (Inr x)
  show ?thesis
  proof (cases b)
    case (ConfirmBlock q)
    then show ?thesis using assms Inr by (auto simp del: apply_change.simps applicable.simps intro: valid_after)
  next
    case (CreateBlock q)
    then show ?thesis using assms Inr by (auto simp del: apply_change.simps applicable.simps intro: valid_after)
  next
    case (UpdateBlock q)
    then obtain vals u now where u: "allowed_values (db_roles D) vals" "u \<in> set (db_users D)"
      "D' = apply_change (Replaced u ((set_columns vals u)\<lparr>u_updated_at := now\<rparr>)) D"
      using assms(2) Inr by (auto simp del: apply_change.simps)
    then have "u_role_uuid u \<in> r_uuid ` set (db_roles D)" "u_role u = NotLoaded"
      using assms(1) by (auto simp: valid_db_def)
    then have "applicable known (Replaced u ((set_columns vals u)\<lparr>u_updated_at := now\<rparr>)) D"
      using allowed_values_keep [OF u(1), of u] u(2) by simp
    then show ?thesis unfolding u(3) by (rule valid_after [OF assms(1)])
  qed (use assms Inr in auto)
qed (use assms in auto)

text \<open>The blocks that are still to be done.\<close>

fun to_do :: "work \<Rightarrow> block set" where
  "to_do (Todo b) = {b}"
| "to_do w = {}"

lemma work_step_rows:
  assumes "work_step H ilike known q D q' D'" and "valid_db D" and "rows_follow H bs D0 D" and "to_do q \<subseteq> bs"
  shows "valid_db D' \<and> rows_follow H bs D0 D' \<and> to_do q' \<subseteq> bs"
  using assms(1)
proof cases
  case (whole b r)
  then have "b \<in> bs" using assms(4) by simp
  with whole atomic_keeps_valid [OF assms(2) whole(3)] rows_follow_atomic [OF assms(3,2) _ whole(3)]
  show ?thesis by simp
qed (use assms(2-4) in auto)

lemma serial_run_rows:
  assumes "serial_run H ilike known c c'" and "valid_db (snd c)" and "list_all (\<lambda>q. to_do q \<subseteq> bs) (fst c)"
  shows "valid_db (snd c') \<and> rows_follow H bs (snd c) (snd c') \<and> list_all (\<lambda>q. to_do q \<subseteq> bs) (fst c')"
  using assms(1)
proof induction
  case base
  then show ?case using assms(2,3) by (simp add: rows_follow_refl)
next
  case (step c' c'')
  from step.hyps(2) show ?case
  proof cases
    case (acted i qs D q D')
    then have "to_do (qs ! i) \<subseteq> bs" "valid_db D" "rows_follow H bs (snd c) D"
      using step.IH by (simp_all add: list_all_length)
    from work_step_rows [OF acted(4) this(2,3,1)] show ?thesis
      using step.IH acted(1,2,3) by (auto simp: list_all_iff dest: set_update_subset_insert [THEN subsetD])
  qed
qed

section \<open>A bound for the commands\<close>

primrec commands_le :: "'a tx \<Rightarrow> nat \<Rightarrow> bool" where
  "commands_le (Finish r) = (\<lambda>n. True)"
| "commands_le (Ask c k) = (\<lambda>n. case n of 0 \<Rightarrow> False | Suc m \<Rightarrow> \<forall>rep. commands_le (k rep) m)"

lemma commands_le_mono: "commands_le t n \<Longrightarrow> n \<le> m \<Longrightarrow> commands_le t m"
proof (induction t arbitrary: n m)
  case (Ask c k)
  from Ask.prems obtain n' m' where n: "n = Suc n'" "m = Suc m'" "n' \<le> m'"
    by (cases n; cases m) simp_all
  from Ask.prems(1) n(1) have "commands_le (k rep) n'" for rep by simp
  then have "commands_le (k rep) m'" for rep using Ask.IH n(3) by blast
  with n(2) show ?case by simp
qed simp

lemma commands_le_cont:
  "commands_le t n \<Longrightarrow> (\<And>r. commands_le (h r) m) \<Longrightarrow> commands_le (tx_cont t h) (n + m)"
proof (induction t arbitrary: n)
  case (Finish r)
  show ?case using commands_le_mono [OF Finish.prems(2) le_add2] by simp
next
  case (Ask c k)
  from Ask.prems(1) obtain n' where n: "n = Suc n'" "\<And>rep. commands_le (k rep) n'" by (cases n) auto
  then have "commands_le (tx_cont (k rep) h) (n' + m)" for rep using Ask.IH Ask.prems(2) by blast
  with n(1) show ?case by simp
qed

named_theorems commands

lemma commands_le_simple [commands]:
  "commands_le (tx_return x) 0" "commands_le (tx_raise e) 0" "commands_le (tx_lift r) 0"
  "commands_le (tx_result q) 0" "commands_le tx_no_identifier 0"
  "commands_le (ask_users c) 1" "commands_le (ask_roles c) 1" "commands_le (ask_flag c) 1"
  "commands_le (ask_total c) 1" "commands_le (ask_unit c) 1"
  by (auto simp: tx_eval tx_asks tx_no_identifier_def split: reply.split option.split)

lemma commands_le_bind:
  assumes "commands_le t n" and "\<And>x. commands_le (f x) m"
  shows "commands_le (tx_bind t f) (n + m)"
proof -
  have "commands_le (case r of Inl e \<Rightarrow> tx_raise e | Inr x \<Rightarrow> f x) m" for r
    by (cases r) (simp_all add: tx_raise_def assms(2))
  then show ?thesis unfolding tx_bind_def by (rule commands_le_cont [OF assms(1)])
qed

lemma commands_le_try:
  assumes "commands_le t n" and "\<And>e. commands_le (h e) 0"
  shows "commands_le (tx_try t h) n"
proof -
  have "commands_le (case r of Inl e \<Rightarrow> h e | Inr x \<Rightarrow> tx_return x) 0" for r
    by (cases r) (simp_all add: tx_return_def assms(2))
  from commands_le_cont [OF assms(1) this] show ?thesis by (simp add: tx_try_def)
qed

lemma commands_le_with:
  assumes "commands_le t n" and "\<And>e. commands_le (ex e) m"
  shows "commands_le (tx_with t ex) (n + m)"
proof -
  have last: "commands_le (tx_bind (ex e) (\<lambda>_. Finish r)) m" for e and r :: "exn + 'b"
    using commands_le_bind [OF assms(2), of "\<lambda>_. Finish r" 0] by simp
  have "commands_le (case r of Inr x \<Rightarrow> tx_bind (ex None) (\<lambda>_. tx_return x)
      | Inl e \<Rightarrow> tx_bind (ex (Some e)) (\<lambda>_. tx_raise e)) m" for r :: "exn + 'b"
    by (cases r) (simp_all add: tx_return_def tx_raise_def last)
  then show ?thesis unfolding tx_with_def by (rule commands_le_cont [OF assms(1)])
qed

lemma commands_le_map: "commands_le t n \<Longrightarrow> commands_le (tx_map f t) n"
  unfolding tx_map_def using commands_le_bind [of t n "\<lambda>x. tx_return (f x)" 0] by (simp add: tx_return_def)

lemma commands_le_bind': "commands_le t n \<Longrightarrow> (\<And>x. commands_le (f x) m) \<Longrightarrow> k = n + m \<Longrightarrow> commands_le (tx_bind t f) k"
  using commands_le_bind by blast

lemma in_use_commands: "commands_le t n \<Longrightarrow> commands_le (tx_in_use u t) n"
  unfolding tx_in_use_def by (erule commands_le_try) (auto simp: tx_raise_def split: exn.split option.split)

lemma repository_commands [commands]:
  "commands_le (tx_role_select E loads i n) 1" "commands_le (tx_user_select E loads i l) 1"
  "commands_le (tx_user_exists name) 1" "commands_le (tx_user_create data) 1" "commands_le (tx_user_update u data) 1"
  by (auto simp: tx_role_select_def tx_user_select_def tx_user_exists_def tx_user_create_def tx_user_update_def
      tx_no_identifier_def tx_asks tx_eval intro!: in_use_commands split: reply.split)

lemma manager_commands [commands]:
  "commands_le tx_create 3" "commands_le (tx_aexit b e) 3"
  by (auto simp: tx_create_def tx_aexit_def tx_close_def tx_commit_def tx_rollback_def tx_asks tx_eval
      numeral_3_eq_3 split: reply.split option.split)

lemma database_commands: "commands_le t n \<Longrightarrow> commands_le (tx_database t) (n + 6)"
  unfolding tx_database_def
  by (rule commands_le_bind' [where n = 3 and m = "n + 3"], rule commands, rule commands_le_with) (auto intro: commands)

lemma session_commands: "commands_le t n \<Longrightarrow> commands_le (tx_session t) (n + 1)"
  unfolding tx_session_def by (erule commands_le_with) (rule commands)

lemma body_commands [commands]:
  "commands_le (tx_confirm_user E r) 2" "commands_le (tx_create_user E q) 2" "commands_le (tx_update_user E w) 2"
proof -
  have res: "commands_le (tx_bind (tx_role_select E [] None (Some ''User'')) tx_result) 1"
    "commands_le (tx_bind (tx_user_create v) tx_result) 1" "commands_le (tx_bind (tx_user_update u v) tx_result) 1" for u v
    by (rule commands_le_bind' [where n = 1 and m = 0], rule commands, rule commands, simp)+
  show "commands_le (tx_confirm_user E r) 2"
    unfolding tx_confirm_user_def
    by (rule commands_le_bind' [OF res(1)], rule commands_le_bind' [where n = 0 and m = 1], rule commands, rule res) simp_all
  have "commands_le (tx_create_user E q) 1" "commands_le (tx_update_user E w) 1"
    unfolding tx_create_user_def tx_update_user_def
    by (rule commands_le_bind' [where n = 0 and m = 1], rule commands,
      rule commands_le_bind' [where n = 1 and m = 0], rule res, rule commands, simp, simp)+
  then show "commands_le (tx_create_user E q) 2" "commands_le (tx_update_user E w) 2"
    using commands_le_mono by fastforce+
qed

lemma page_commands: "commands_le (tx_select_many E q) 2"
  unfolding tx_select_many_def tx_user_select_many_def tx_bind_assoc Let_def
  by (rule commands_le_bind' [where n = 1 and m = 1])
    (auto simp: tx_asks tx_eval views_of_rows split: reply.split option.split prod.split)

lemma block_commands: "commands_le (block_tx E b) 8"
proof -
  have plain: "commands_le (tx_map f (tx_session t)) 8" if "commands_le t 2" for f :: "'z \<Rightarrow> answer" and t
    using commands_le_mono [OF commands_le_map [OF session_commands [OF that]], of 8] by simp
  have tx: "commands_le (tx_map f (tx_database t)) 8" if "commands_le t 2" for f :: "'z \<Rightarrow> answer" and t
    using commands_le_map [OF database_commands [OF that]] by simp
  have one: "commands_le (tx_bind t f) 1" if "commands_le t 1" "\<And>x. commands_le (f x) 0" for t :: "'y tx" and f :: "'y \<Rightarrow> 'z tx"
    using commands_le_bind [OF that] by simp
  have two: "commands_le (tx_bind t f) 2" if "commands_le t 1" "\<And>x. commands_le (f x) 0" for t :: "'y tx" and f :: "'y \<Rightarrow> 'z tx"
    using commands_le_mono [OF one [OF that], of 2] by simp
  show ?thesis
    by (cases b) (auto intro!: plain tx two one commands page_commands)
qed

lemma tx_step_bound:
  assumes "tx_step srv (ts, e) c" and "list_all2 commands_le ts ns"
  shows "\<exists>ms. list_all2 commands_le (fst c) ms \<and> sum_list ns = Suc (sum_list ms)"
  using assms(1)
proof cases
  case (sent i c k rep e')
  have i: "i < length ns" and "commands_le (Ask c k) (ns ! i)"
    using sent assms(2) by (auto simp: list_all2_conv_all_nth)
  then have n: "ns ! i \<noteq> 0" "commands_le (k rep) (ns ! i - 1)"
    by (cases "ns ! i"; simp)+
  have "list_all2 commands_le (ts[i := k rep]) (ns[i := ns ! i - 1])"
    using assms(2) n(2) by (rule list_all2_update_cong)
  moreover have "sum_list ns = Suc (sum_list (ns[i := ns ! i - 1]))"
    using i n(1) member_le_sum_list [of "ns ! i" ns] by (simp add: sum_list_update)
  ultimately show ?thesis using sent(1) by auto
qed

lemma tx_run_bound:
  "(tx_step srv ^^ n) (ts, e) c \<Longrightarrow> list_all2 commands_le ts ns \<Longrightarrow> n \<le> sum_list ns"
proof (induction n arbitrary: ts e ns)
  case (Suc n)
  then obtain d where step: "tx_step srv (ts, e) d" and run: "(tx_step srv ^^ n) d c"
    by (blast elim: relpowp_Suc_E2)
  obtain ms where "list_all2 commands_le (fst d) ms" "sum_list ns = Suc (sum_list ms)"
    using tx_step_bound [OF step Suc.prems(2)] by blast
  with Suc.IH [of "fst d" "snd d"] run show ?case by simp
qed simp

section \<open>The reference server\<close>

text \<open>
  A store with the changes of the open transactions, in the order in which they were made.  A new row
  gets an identifier that no row has; a statement that another transaction is in the way of waits.
\<close>

record pg =
  pg_stored :: db
  pg_pending :: "(nat \<times> change) list"
  pg_opened :: "nat list"

definition pg_changes :: "pg \<Rightarrow> nat \<Rightarrow> change list" where
  "pg_changes e i = map snd (filter (\<lambda>p. fst p = i) (pg_pending e))"

definition pg_rows :: "pg \<Rightarrow> user_row list" where
  "pg_rows e = db_users (pg_stored e) @
     concat (map (\<lambda>(i, c). case c of Joined u \<Rightarrow> [u] | Replaced u v \<Rightarrow> [u, v]) (pg_pending e))"

definition pg_held :: "nat \<Rightarrow> change \<Rightarrow> pg \<Rightarrow> bool" where
  "pg_held i c e \<longleftrightarrow> list_ex (\<lambda>(j, d). j \<noteq> i \<and> \<not> compatible c d) (pg_pending e)"

definition pg_write :: "nat \<Rightarrow> change \<Rightarrow> pg \<Rightarrow> pg" where
  "pg_write i c e = e\<lparr>pg_pending := pg_pending e @ [(i, c)]\<rparr>"

definition pg_end :: "nat \<Rightarrow> pg \<Rightarrow> pg" where
  "pg_end i e = e\<lparr>pg_pending := filter (\<lambda>p. fst p \<noteq> i) (pg_pending e), pg_opened := removeAll i (pg_opened e)\<rparr>"

abbreviation pg_seen :: "pg \<Rightarrow> nat \<Rightarrow> db" where
  "pg_seen \<equiv> seen pg_stored pg_changes"

definition pg_insert :: "nat \<Rightarrow> string \<Rightarrow> string \<Rightarrow> uuid \<Rightarrow> pg \<Rightarrow> (reply \<times> pg) option" where
  "pg_insert i login password role e =
     (let D = pg_seen e i; u = new_user login password role (fresh_uuid (db_users D @ pg_rows e)) 0
      in if pg_held i (Joined u) e then None
         else if login \<in> u_login ` set (db_users D)
           then Some (Failed (IntegrityError ''Key (login) already exists''), e)
         else if role \<notin> r_uuid ` set (db_roles D) then Some (Failed (IntegrityError ''fk_user_role''), e)
         else Some (UserRows [u], pg_write i (Joined u) e))"

definition pg_update :: "nat \<Rightarrow> uuid \<Rightarrow> pydict \<Rightarrow> pg \<Rightarrow> (reply \<times> pg) option" where
  "pg_update i target vals e =
     (let D = pg_seen e i
      in case find (\<lambda>u. u_uuid u = target) (db_users D) of
           None \<Rightarrow> Some (UserRows [], e)
         | Some u \<Rightarrow>
             (let v = (set_columns vals u)\<lparr>u_updated_at := 0\<rparr>
              in if \<not> allowed_values (db_roles D) vals then Some (Failed (IntegrityError ''null value''), e)
                 else if pg_held i (Replaced u v) e then None
                 else Some (UserRows [v], pg_write i (Replaced u v) e)))"

definition pg_unsupported :: "pg \<Rightarrow> (reply \<times> pg) option" where
  "pg_unsupported e = Some (Failed (SQLAlchemyError ''unsupported statement''), e)"

fun pg_user_stmt :: "nat \<Rightarrow> stmt \<Rightarrow> pg \<Rightarrow> (reply \<times> pg) option" where
  "pg_user_stmt i (SelectRows loads cs) e =
     Some (UserRows (map (with_loads loads (db_roles (pg_seen e i)))
       (filter (\<lambda>u. matches ref_ilike (user_column u) cs) (db_users (pg_seen e i)))), e)"
| "pg_user_stmt i (OffsetQuery loads offset limit (col, dir) cs) e =
     Some (UserRows (map (with_loads loads (db_roles (pg_seen e i))) (page offset limit (sort_rows dir
       (filter (\<lambda>u. matches ref_ilike (user_column u) cs) (db_users (pg_seen e i)))))), e)"
| "pg_user_stmt i (InsertRow vals) e =
     (case map snd vals of
        [PStr login, PStr password, PUuid role] \<Rightarrow> pg_insert i login password role e
      | _ \<Rightarrow> pg_unsupported e)"
| "pg_user_stmt i (UpdateRows [ColEq col (PUuid target)] vals) e = pg_update i target vals e"
| "pg_user_stmt i st e = pg_unsupported e"

fun pg_answer :: "nat \<Rightarrow> command \<Rightarrow> pg \<Rightarrow> (reply \<times> pg) option" where
  "pg_answer i AskInTransaction e = Some (Flag (i \<in> set (pg_opened e)), e)"
| "pg_answer i AskIsActive e = Some (Flag True, e)"
| "pg_answer i BeginTx e = Some (Ok, e\<lparr>pg_opened := i # pg_opened e\<rparr>)"
| "pg_answer i CommitTx e = Some (Ok, pg_end i (e\<lparr>pg_stored := pg_seen e i\<rparr>))"
| "pg_answer i RollbackTx e = Some (Ok, pg_end i e)"
| "pg_answer i CloseTx e = Some (Ok, pg_end i e)"
| "pg_answer i (UserStmt st) e = pg_user_stmt i st e"
| "pg_answer i (RoleStmt (SelectRows loads cs)) e =
     Some (RoleRows (filter (\<lambda>r. matches ref_ilike (role_column r) cs) (db_roles (pg_seen e i))), e)"
| "pg_answer i (RoleStmt st) e = pg_unsupported e"
| "pg_answer i (ExistsUser (ExistsRow cs)) e =
     Some (Flag (list_ex (\<lambda>u. matches ref_ilike (user_column u) cs) (db_users (pg_seen e i))), e)"
| "pg_answer i (ExistsUser st) e = pg_unsupported e"
| "pg_answer i (CountUser (CountRows cs)) e =
     Some (Total (int (length (filter (\<lambda>u. matches ref_ilike (user_column u) cs) (db_users (pg_seen e i))))), e)"
| "pg_answer i (CountUser st) e = pg_unsupported e"

definition ref_tx_env :: tx_env where
  "ref_tx_env = \<lparr>te_hasher = argon2_of ref_argon2, te_users = remdups, te_roles = remdups\<rparr>"

lemma pg_views [simp]:
  "pg_stored (pg_end i e) = pg_stored e" "pg_stored (pg_write i c e) = pg_stored e"
  "pg_opened (pg_write i c e) = pg_opened e" "pg_changes (pg_end i e) i = []"
  "j \<noteq> i \<Longrightarrow> pg_changes (pg_end i e) j = pg_changes e j"
  "pg_changes (pg_write i c e) j = pg_changes e j @ (if i = j then [c] else [])"
  "pg_changes (e\<lparr>pg_stored := D\<rparr>) = pg_changes e" "pg_changes (e\<lparr>pg_opened := os\<rparr>) = pg_changes e"
  by (auto simp: pg_end_def pg_write_def pg_changes_def fun_eq_iff intro!: arg_cong [of _ _ "map snd"] filter_cong)

lemma pg_opened_end: "j \<noteq> i \<Longrightarrow> j \<in> set (pg_opened (pg_end i e)) \<longleftrightarrow> j \<in> set (pg_opened e)"
  by (simp add: pg_end_def)

lemma pg_statement:
  "pg_user_stmt i st e = Some (rep, e') \<Longrightarrow> e' = e \<or> (\<exists>d. e' = pg_write i d e)"
  "pg_user_stmt i st e = None \<Longrightarrow> writes (UserStmt st) \<and> (\<exists>d. pg_held i d e)"
  by (cases "(i, st, e)" rule: pg_user_stmt.cases;
    fastforce simp: pg_insert_def pg_update_def pg_unsupported_def writes_def Let_def
      split: if_splits list.splits pyval.splits option.splits)+

lemma pg_effect:
  assumes "pg_answer i c e = Some (rep, e')"
  shows "e' = e \<or> (\<exists>d. e' = pg_write i d e) \<or> e' = pg_end i e \<or> c = BeginTx \<and> e' = e\<lparr>pg_opened := i # pg_opened e\<rparr> \<or>
    c = CommitTx \<and> e' = pg_end i (e\<lparr>pg_stored := pg_seen e i\<rparr>)"
proof -
  have "e' = e \<or> (\<exists>d. e' = pg_write i d e)" if "pg_user_stmt i st e = Some (rep, e')" for st
    using that by (rule pg_statement(1))
  then show ?thesis using assms by (cases "(i, c, e)" rule: pg_answer.cases) (auto simp: pg_unsupported_def)
qed

lemma pg_held_changes: "pg_held i c e \<Longrightarrow> \<exists>j d. j \<noteq> i \<and> d \<in> set (pg_changes e j) \<and> \<not> compatible c d"
  by (fastforce simp: pg_held_def pg_changes_def list_ex_iff image_iff)

lemma pg_free: "\<not> pg_held i c e \<Longrightarrow> j \<noteq> i \<Longrightarrow> d \<in> set (pg_changes e j) \<Longrightarrow> compatible c d"
  by (fastforce simp: pg_held_def pg_changes_def list_ex_iff)

lemma if_chain:
  "(if P then Some a else if Q then Some b else Some c) = Some r \<Longrightarrow>
    P \<and> r = a \<or> Q \<and> r = b \<or> \<not> P \<and> \<not> Q \<and> r = c"
  by (auto split: if_splits)

lemma pg_insert_cases:
  assumes "pg_insert i l p r e = Some (rep, e')"
  shows "e' = e \<and> (\<exists>origin. rep = Failed (IntegrityError origin) \<and>
        (if sublist ''login'' origin then l \<in> u_login ` set (db_users (pg_seen e i))
         else r \<notin> r_uuid ` set (db_roles (pg_seen e i)))) \<or>
    (\<exists>u now. rep = UserRows [new_user l p r u now] \<and> e' = pg_write i (Joined (new_user l p r u now)) e \<and>
      applicable (known_uuid ref_auth) (Joined (new_user l p r u now)) (pg_seen e i) \<and>
      (\<forall>j c. j \<noteq> i \<longrightarrow> c \<in> set (pg_changes e j) \<longrightarrow> compatible (Joined (new_user l p r u now)) c))"
proof -
  let ?u = "fresh_uuid (db_users (pg_seen e i) @ pg_rows e)"
  have fresh: "?u \<notin> u_uuid ` set (db_users (pg_seen e i))" "known_uuid ref_auth ?u"
    using fresh_uuid_fresh [of "db_users (pg_seen e i) @ pg_rows e"] fresh_uuid_known by auto
  have "\<not> pg_held i (Joined (new_user l p r ?u 0)) e"
    using assms by (auto simp only: pg_insert_def Let_def if_True split: if_splits)
  note free = this pg_free [OF this]
  have "(if l \<in> u_login ` set (db_users (pg_seen e i))
      then Some (Failed (IntegrityError ''Key (login) already exists''), e)
      else if r \<notin> r_uuid ` set (db_roles (pg_seen e i)) then Some (Failed (IntegrityError ''fk_user_role''), e)
      else Some (UserRows [new_user l p r ?u 0], pg_write i (Joined (new_user l p r ?u 0)) e)) = Some (rep, e')"
    using assms free(1) by (simp only: pg_insert_def Let_def if_False)
  from if_chain [OF this] show ?thesis
  proof (elim disjE conjE)
    assume "(rep, e') = (UserRows [new_user l p r ?u 0], pg_write i (Joined (new_user l p r ?u 0)) e)"
      and "l \<notin> u_login ` set (db_users (pg_seen e i))" "\<not> r \<notin> r_uuid ` set (db_roles (pg_seen e i))"
    moreover from this(2,3) have "applicable (known_uuid ref_auth) (Joined (new_user l p r ?u 0)) (pg_seen e i)"
      using fresh by (simp add: new_user_def)
    ultimately show ?thesis using free(2) by blast
  qed (auto simp: sublist_login_origin)
qed

lemma pg_update_cases:
  assumes "pg_update i target vals e = Some (rep, e')"
  shows "e' = e \<and> (\<exists>origin. rep = Failed (IntegrityError origin)) \<and> \<not> allowed_values (db_roles (pg_seen e i)) vals \<or>
    e' = e \<and> rep = UserRows [] \<and> target \<notin> u_uuid ` set (db_users (pg_seen e i)) \<or>
    (\<exists>u now. u \<in> set (db_users (pg_seen e i)) \<and> u_uuid u = target \<and>
      allowed_values (db_roles (pg_seen e i)) vals \<and> rep = UserRows [(set_columns vals u)\<lparr>u_updated_at := now\<rparr>] \<and>
      e' = pg_write i (Replaced u ((set_columns vals u)\<lparr>u_updated_at := now\<rparr>)) e \<and>
      (\<forall>j c. j \<noteq> i \<longrightarrow> c \<in> set (pg_changes e j) \<longrightarrow>
        compatible (Replaced u ((set_columns vals u)\<lparr>u_updated_at := now\<rparr>)) c))"
proof (cases "find (\<lambda>u. u_uuid u = target) (db_users (pg_seen e i))")
  case None
  then have "target \<notin> u_uuid ` set (db_users (pg_seen e i))" by (auto simp: find_None_iff)
  with assms show ?thesis by (simp add: pg_update_def None)
next
  case (Some u)
  then have u: "u \<in> set (db_users (pg_seen e i))" "u_uuid u = target" by (auto simp: find_Some_iff)
  let ?v = "(set_columns vals u)\<lparr>u_updated_at := 0\<rparr>"
  consider "\<not> allowed_values (db_roles (pg_seen e i)) vals" "rep = Failed (IntegrityError ''null value'')" "e' = e"
    | "allowed_values (db_roles (pg_seen e i)) vals" "\<not> pg_held i (Replaced u ?v) e" "rep = UserRows [?v]"
      "e' = pg_write i (Replaced u ?v) e"
    using assms Some by (auto simp: pg_update_def Let_def split: if_splits)
  then show ?thesis
  proof cases
    case 2
    then show ?thesis using u pg_free [OF 2(2)] by blast
  qed auto
qed

interpretation pgs: server_laws pg_answer pg_stored pg_changes "\<lambda>e i. i \<in> set (pg_opened e)" "\<lambda>_ _. True"
  ref_ilike "known_uuid ref_auth" ref_tx_env
proof unfold_locales
  fix i j c e rep e'
  assume a: "pg_answer i c e = Some (rep, e')"
  show "c \<noteq> CommitTx \<Longrightarrow> pg_stored e' = pg_stored e" using pg_effect [OF a] by auto
  show "pg_changes e' j = pg_changes e j \<and> (j \<in> set (pg_opened e')) = (j \<in> set (pg_opened e)) \<and> True = True" if "j \<noteq> i"
    using pg_effect [OF a] that by (elim disjE exE conjE) (simp_all add: pg_opened_end)
next
  fix i c e
  assume "pg_answer i c e = None"
  then have "writes c" "\<exists>d. pg_held i d e"
    using pg_statement(2) by (cases "(i, c, e)" rule: pg_answer.cases; auto simp: pg_unsupported_def)+
  then show "writes c \<and> (\<exists>j. j \<noteq> i \<and> pg_changes e j \<noteq> [])"
    using pg_held_changes by fastforce
next
  fix i l p r e rep e'
  assume "pg_answer i (UserStmt (InsertRow (user_values l p r))) e = Some (rep, e')"
  then have "pg_insert i l p r e = Some (rep, e')" by (simp add: user_values_def)
  from pg_insert_cases [OF this] show "pg_changes e' i = pg_changes e i \<and> fails rep \<or>
      pg_changes e' i = pg_changes e i \<and> (\<exists>origin. rep = Failed (IntegrityError origin) \<and>
        (if sublist ''login'' origin then l \<in> u_login ` set (db_users (pg_seen e i))
         else r \<notin> r_uuid ` set (db_roles (pg_seen e i)))) \<or>
      (\<exists>u now. rep = UserRows [new_user l p r u now] \<and>
        pg_changes e' i = pg_changes e i @ [Joined (new_user l p r u now)] \<and>
        applicable (known_uuid ref_auth) (Joined (new_user l p r u now)) (pg_seen e i) \<and>
        (\<forall>j c. j \<noteq> i \<longrightarrow> c \<in> set (pg_changes e j) \<longrightarrow> compatible (Joined (new_user l p r u now)) c))"
  proof (elim disjE exE conjE)
    fix u now
    assume "rep = UserRows [new_user l p r u now]" "e' = pg_write i (Joined (new_user l p r u now)) e"
      "applicable (known_uuid ref_auth) (Joined (new_user l p r u now)) (pg_seen e i)"
      "\<forall>j c. j \<noteq> i \<longrightarrow> c \<in> set (pg_changes e j) \<longrightarrow> compatible (Joined (new_user l p r u now)) c"
    then show ?thesis by (intro disjI2 exI [of _ u] exI [of _ now]) (simp del: applicable.simps)
  qed simp
next
  fix i target vals e rep e'
  assume "pg_answer i (UserStmt (UpdateRows [ColEq ''uuid'' (PUuid target)] vals)) e = Some (rep, e')"
  then have "pg_update i target vals e = Some (rep, e')" by simp
  from pg_update_cases [OF this] show "pg_changes e' i = pg_changes e i \<and> fails rep \<or>
      pg_changes e' i = pg_changes e i \<and> (\<exists>origin. rep = Failed (IntegrityError origin)) \<and>
        \<not> allowed_values (db_roles (pg_seen e i)) vals \<or>
      pg_changes e' i = pg_changes e i \<and> rep = UserRows [] \<and> target \<notin> u_uuid ` set (db_users (pg_seen e i)) \<or>
      (\<exists>u now. u \<in> set (db_users (pg_seen e i)) \<and> u_uuid u = target \<and>
        allowed_values (db_roles (pg_seen e i)) vals \<and> rep = UserRows [(set_columns vals u)\<lparr>u_updated_at := now\<rparr>] \<and>
        pg_changes e' i = pg_changes e i @ [Replaced u ((set_columns vals u)\<lparr>u_updated_at := now\<rparr>)] \<and>
        (\<forall>j c. j \<noteq> i \<longrightarrow> c \<in> set (pg_changes e j) \<longrightarrow>
          compatible (Replaced u ((set_columns vals u)\<lparr>u_updated_at := now\<rparr>)) c))"
  proof (elim disjE exE conjE)
    fix u now
    assume "u \<in> set (db_users (pg_seen e i))" "u_uuid u = target" "allowed_values (db_roles (pg_seen e i)) vals"
      "rep = UserRows [(set_columns vals u)\<lparr>u_updated_at := now\<rparr>]"
      "e' = pg_write i (Replaced u ((set_columns vals u)\<lparr>u_updated_at := now\<rparr>)) e"
      "\<forall>j c. j \<noteq> i \<longrightarrow> c \<in> set (pg_changes e j) \<longrightarrow>
        compatible (Replaced u ((set_columns vals u)\<lparr>u_updated_at := now\<rparr>)) c"
    then show ?thesis by (intro disjI2 exI [of _ u] exI [of _ now]) simp
  qed simp_all
next
  fix i loads offset limit dir cs e rep e'
  assume "pg_answer i (UserStmt (OffsetQuery loads offset limit (''created_at'', dir) cs)) e = Some (rep, e')"
  then show "pg_changes e' i = pg_changes e i \<and> (fails rep \<or> (\<exists>ordered.
      rep = UserRows (map (with_loads loads (db_roles (pg_seen e i))) (page offset limit ordered)) \<and>
      mset ordered = mset (filter (\<lambda>u. matches ref_ilike (user_column u) cs) (db_users (pg_seen e i))) \<and>
      sorted_dir dir (map u_created_at ordered)))"
    using sort_rows_props [of dir "filter (\<lambda>u. matches ref_ilike (user_column u) cs) (db_users (pg_seen e i))"] by auto
qed (auto simp: ref_tx_env_def list_ex_iff)

lemmas pg_laws = pgs.server_laws_axioms

end
