(* ===== verification/Transaction_Claims.thy ===== *)
theory Transaction_Claims
  imports Transaction_Server Site_Races_Properties
begin

text \<open>
  The properties of database blocks that run at the same time: they are serialisable, they neither
  wait for ever nor run for ever, the rows of the users do not get mixed up, and what is weaker: a page of users and its
  total are two actions, so that they may be of different times.
\<close>

section \<open>Examples\<close>

text \<open>The sessions whose turn it is, one after the other; who has to wait loses its turn.\<close>

fun turn ::
  "(nat \<Rightarrow> command \<Rightarrow> 'e \<Rightarrow> (reply \<times> 'e) option) \<Rightarrow> nat \<Rightarrow> 'a tx list \<times> 'e \<Rightarrow> 'a tx list \<times> 'e" where
  "turn srv i (ts, e) =
     (if i < length ts
      then (case ts ! i of
          Finish r \<Rightarrow> (ts, e)
        | Ask c k \<Rightarrow> (case srv i c e of None \<Rightarrow> (ts, e) | Some (rep, e') \<Rightarrow> (ts[i := k rep], e')))
      else (ts, e))"

primrec turns ::
  "(nat \<Rightarrow> command \<Rightarrow> 'e \<Rightarrow> (reply \<times> 'e) option) \<Rightarrow> nat list \<Rightarrow> 'a tx list \<times> 'e \<Rightarrow> 'a tx list \<times> 'e" where
  "turns srv [] c = c"
| "turns srv (i # is) c = turns srv is (turn srv i c)"

lemma turn_runs: "tx_run srv c (turn srv i c)"
  by (cases c) (auto split: tx.split option.split intro!: r_into_rtranclp tx_step.sent)

lemma turns_run: "tx_run srv c (turns srv is c)"
proof (induction "is" arbitrary: c)
  case (Cons i "is")
  show ?case using rtranclp_trans [OF turn_runs Cons.IH] by simp
qed simp

definition example_pg :: pg where
  "example_pg = \<lparr>pg_stored = example_db, pg_pending = [], pg_opened = []\<rparr>"

lemma example_pg_simps [simp]:
  "pg_stored example_pg = example_db" "pg_changes example_pg i = []" "pg_opened example_pg = []"
  by (simp_all add: example_pg_def pg_changes_def)

lemma example_db_valid: "valid_db example_db"
  by (simp add: valid_db_def)

text \<open>A registration is confirmed while another client asks whether its login is free, and twice at once.\<close>

definition example_blocks :: "block list" where
  "example_blocks = [ConfirmBlock eve, ConfirmBlock eve, RegisterBlock ''eve'']"

definition example_turns :: "nat list" where
  "example_turns = [0, 1, 0, 1, 2, 0, 1, 0, 1, 0, 1, 0, 1, 0, 2, 1, 0, 1, 1, 0, 1, 1]"

definition example_end :: "answer tx list \<times> pg" where
  "example_end = turns pg_answer example_turns (map (block_tx ref_tx_env) example_blocks, example_pg)"

definition is_finished :: "'a tx \<Rightarrow> bool" where
  "is_finished t = (case t of Finish r \<Rightarrow> True | Ask c k \<Rightarrow> False)"

definition given :: "'a tx \<Rightarrow> (exn + 'a) option" where
  "given t = (case t of Finish r \<Rightarrow> Some r | Ask c k \<Rightarrow> None)"

lemma ref_tx_env_is: "env_of ref_app = ref_tx_env"
  by (simp add: env_of_def ref_tx_env_def ref_app_def ref_session_def)

lemma pg_laws_app: "server_laws pg_answer pg_stored pg_changes (\<lambda>e i. i \<in> set (pg_opened e)) (\<lambda>_ _. True)
    ref_ilike (known_uuid (ap_auth ref_app)) (env_of ref_app)"
  using pg_laws unfolding ref_tx_env_is by (simp add: ref_app_def)

lemma example_turns_run: "tx_run pg_answer (map (block_tx ref_tx_env) example_blocks, example_pg) (fst example_end, snd example_end)"
  unfolding example_end_def prod.collapse by (rule turns_run)

lemma example_end_is:
  "map given (fst example_end) =
    [Some (Inr (Row (new_user ''eve'' ''fake-hash:secret-123'' (UUID ''r2'') (fresh_uuid [bob]) 0))),
     Some (Inl (App (simple_error ConflictError ''login already in use''))), Some (Inr (Known False))]"
  by code_simp

lemma tx_run_length: "tx_run srv c d \<Longrightarrow> length (fst d) = length (fst c)"
  by (induction rule: rtranclp_induct) (auto elim: tx_step.cases)

section \<open>Properties\<close>

text \<open>
  C12: Database blocks of any number of requests that run at the same time, statement by statement
  under the default isolation of PostgreSQL, leave the database that the same blocks leave one after
  the other in some order, with the same answers, and the constraints of the schema hold.  In that
  order each block is one action, but a page of users is two, its total and its rows; a block of the
  use cases that is alone is such a run.
\<close>

theorem transactions_are_serialisable:
  assumes "app_laws A strs lsts life tables stored ilike"
    and "server_laws srv committed changes opened active ilike (known_uuid (ap_auth A)) (env_of A)"
    and "valid_db (committed e0)" and "\<forall>i. changes e0 i = [] \<and> active e0 i \<and> \<not> opened e0 i"
    and "tx_run srv (map (block_tx (env_of A)) bs, e0) (ts, e)"
  shows "(\<exists>qs. serial_run (ap_hasher A) ilike (known_uuid (ap_auth A)) (map Todo bs, committed e0) (qs, committed e) \<and>
      length qs = length bs \<and> (\<forall>i < length bs. \<forall>r. given (ts ! i) = Some r \<longrightarrow> qs ! i = Over r)) \<and>
    valid_db (committed e) \<and>
    (\<forall>b d. in_bounds b \<longrightarrow> serial_run (ap_hasher A) ilike (known_uuid (ap_auth A)) ([Todo b], stored d)
      ([Over (fst (block_io A b d))], stored (snd (block_io A b d))))"
proof -
  note srv = assms(2)
  from server_laws.in_order_run [OF srv assms(5) server_laws.in_order_start [OF srv assms(3,4)]]
  obtain qs where o: "server_laws.in_order committed changes opened active ilike (known_uuid (ap_auth A)) (env_of A)
      (db_roles (committed e0)) qs (ts, e)"
    and run: "serial_run (ap_hasher A) ilike (known_uuid (ap_auth A)) (map Todo bs, committed e0) (qs, committed e)"
    by auto
  have len: "length ts = length bs" using tx_run_length [OF assms(5)] by simp
  have "length qs = length ts" "valid_db (committed e)"
    using o unfolding server_laws.in_order_def [OF srv] by simp_all
  moreover have "qs ! i = Over r" if "i < length bs" "given (ts ! i) = Some r" for i r
    using server_laws.in_order_finished [OF srv o] that len by (simp add: given_def split: tx.splits)
  ultimately show ?thesis
    using run len by (intro conjI exI [of _ qs] allI impI app_laws.blocks_alone [OF assms(1)]) simp_all
qed

theorem transactions_are_serialisable_witness:
  "(\<exists>qs. serial_run (argon2_of ref_argon2) ref_ilike (known_uuid ref_auth) (map Todo example_blocks, example_db)
      (qs, pg_stored (snd example_end)) \<and> length qs = 3 \<and>
      qs ! 1 = Over (Inl (App (simple_error ConflictError ''login already in use'')))) \<and>
    valid_db (pg_stored (snd example_end))"
proof -
  have g: "given (fst example_end ! 1) = Some (Inl (App (simple_error ConflictError ''login already in use'')))"
    using arg_cong [OF example_end_is, of "\<lambda>xs. xs ! 1"] arg_cong [OF example_end_is, of length] by simp
  have n: "length example_blocks = 3" by (simp add: example_blocks_def)
  have v: "valid_db (pg_stored example_pg)" by (simp add: example_db_valid)
  have fresh: "\<forall>i. pg_changes example_pg i = [] \<and> True \<and> i \<notin> set (pg_opened example_pg)" by simp
  note all = transactions_are_serialisable [OF ref_app_ok pg_laws_app v fresh
      example_turns_run [folded ref_tx_env_is], unfolded n]
  then obtain qs where "serial_run (ap_hasher ref_app) ref_ilike (known_uuid (ap_auth ref_app))
      (map Todo example_blocks, pg_stored example_pg) (qs, pg_stored (snd example_end))" "length qs = 3"
    and qs: "\<forall>i < 3. \<forall>r. given (fst example_end ! i) = Some r \<longrightarrow> qs ! i = Over r"
    by (elim conjE exE)
  moreover have "qs ! 1 = Over (Inl (App (simple_error ConflictError ''login already in use'')))"
    using qs g by simp
  ultimately show ?thesis using all by (auto simp: ref_app_def)
qed

text \<open>
  C14: Blocks that run at the same time never wait for each other for ever: as long as one is not
  done, one can send its next statement, and after at most eight statements of each all are done.
\<close>

theorem transactions_never_deadlock:
  assumes "server_laws srv committed changes opened active ilike known E"
    and "valid_db (committed e0)" and "\<forall>i. changes e0 i = [] \<and> active e0 i \<and> \<not> opened e0 i"
    and "(tx_step srv ^^ n) (map (block_tx E) bs, e0) (ts, e)"
  shows "n \<le> 8 * length bs \<and> (list_all is_finished ts \<or> (\<exists>c. tx_step srv (ts, e) c))"
proof
  have "list_all2 commands_le (map (block_tx E) bs) (replicate (length bs) 8)"
    by (simp add: list_all2_conv_all_nth block_commands del: block_tx.simps)
  from tx_run_bound [OF assms(4) this] show "n \<le> 8 * length bs" by (simp add: sum_list_replicate)
next
  obtain qs where "server_laws.in_order committed changes opened active ilike known E
      (db_roles (committed e0)) qs (ts, e)"
    using server_laws.in_order_run [OF assms(1) relpowp_imp_rtranclp [OF assms(4)]
        server_laws.in_order_start [OF assms(1,2,3)]] by auto
  note goes = server_laws.in_order_goes_on [OF assms(1) this]
  show "list_all is_finished ts \<or> (\<exists>c. tx_step srv (ts, e) c)"
  proof (cases "list_all is_finished ts")
    case False
    then obtain t where "t \<in> set ts" "\<forall>r. t \<noteq> Finish r" by (auto simp: list_all_iff is_finished_def split: tx.splits)
    from goes [OF this] show ?thesis by blast
  qed simp
qed

theorem transactions_never_deadlock_witness:
  "list_all is_finished (map (block_tx ref_tx_env) example_blocks) \<or>
    (\<exists>c. tx_step pg_answer (map (block_tx ref_tx_env) example_blocks, example_pg) c)"
  using transactions_never_deadlock [OF pg_laws, of example_pg 0 example_blocks]
  by (simp add: example_db_valid)

text \<open>
  C13: Database blocks that run at the same time, statement by statement, do not get mixed up in the rows
  of the users: no row is lost, and every row is one that was there or one that a confirmation or a creation
  of the run adds, after whole updates of the run that name it, each with all the fields it sets (the
  password as its hash) and no other; its identifier and login stay, and the roles are the same.
\<close>

theorem transactions_keep_rows_apart:
  assumes "server_laws srv committed changes opened active ilike known E"
    and "valid_db (committed e0)" and "\<forall>i. changes e0 i = [] \<and> active e0 i \<and> \<not> opened e0 i"
    and "tx_run srv (map (block_tx E) bs, e0) (ts, e)"
  shows "db_roles (committed e) = db_roles (committed e0) \<and>
    (\<forall>u \<in> set (db_users (committed e0)). \<exists>v \<in> set (db_users (committed e)).
      (row_update (te_hasher E) (set bs))\<^sup>*\<^sup>* u v) \<and>
    (\<forall>v \<in> set (db_users (committed e)). \<exists>u. (u \<in> set (db_users (committed e0)) \<or>
        row_added (te_hasher E) (set bs) (db_roles (committed e0)) u) \<and>
      (row_update (te_hasher E) (set bs))\<^sup>*\<^sup>* u v)"
proof -
  from server_laws.in_order_run [OF assms(1,4) server_laws.in_order_start [OF assms(1,2,3)]]
  obtain qs where run: "serial_run (te_hasher E) ilike known (map Todo bs, committed e0) (qs, committed e)"
    by auto
  have "list_all (\<lambda>q. to_do q \<subseteq> set bs) (map Todo bs)" by (simp add: list_all_iff)
  with serial_run_rows [OF run, of "set bs"] assms(2) show ?thesis by (simp add: rows_follow_def)
qed

theorem transactions_keep_rows_apart_witness:
  "\<exists>v \<in> set (db_users (pg_stored (snd example_end))). (row_update (te_hasher ref_tx_env) (set example_blocks))\<^sup>*\<^sup>* bob v"
  using transactions_keep_rows_apart [OF pg_laws _ _ example_turns_run] by (simp add: example_db_valid)

section \<open>Pages\<close>

text \<open>The total of a page is counted by a statement of its own: the page can have more users than it says there are.\<close>

definition first_page :: select_many_user_request where
  "first_page = \<lparr>sm_loads = [], sm_login = None, sm_role_uuid = None,
     sm_pagination = \<lparr>pg_order_by = Asc, pg_offset = 0, pg_limit = Some 10\<rparr>\<rparr>"

lemma page_caseE:
  assumes "case g of Some (Inr (Page x)) \<Rightarrow> P x | _ \<Rightarrow> False"
  obtains x where "g = Some (Inr (Page x))" and "P x"
  using assms by (auto split: option.splits sum.splits answer.splits)

lemma page_and_total_differ:
  "\<exists>is x. given (fst (turns pg_answer is (map (block_tx ref_tx_env) [PageBlock first_page, ConfirmBlock eve], example_pg)) ! 0) =
      Some (Inr (Page x)) \<and> or_total x = 1 \<and> map ur_login (or_data x) = [''bob'', ''eve'']"
proof -
  have "(case given (fst (turns pg_answer [0, 1, 1, 1, 1, 1, 1, 1, 1, 1, 0, 0, 0]
      (map (block_tx ref_tx_env) [PageBlock first_page, ConfirmBlock eve], example_pg)) ! 0) of
      Some (Inr (Page x)) \<Rightarrow> or_total x = 1 \<and> map ur_login (or_data x) = [''bob'', ''eve''] | _ \<Rightarrow> False)"
    by code_simp
  then show ?thesis by (intro exI [of _ "[0, 1, 1, 1, 1, 1, 1, 1, 1, 1, 0, 0, 0]"])
      (elim page_caseE, simp del: turns.simps)
qed

end
