(* ===== verification/Spec2Isabelle.thy ===== *)
theory Spec2Isabelle
  imports Site_Races_Properties Command_Races Fakes Cache_Clock Response_Cache_Properties Bus Object_Graphs
    Http_Objects Lifecycle Migration_Run Transaction_Claims
begin

text \<open>
  This development models a service template: an HTTP API (FastAPI) for accounts with registration by
  a confirmation code, login with access and refresh tokens, roles and administration, on top of a
  relational database (SQLAlchemy), a cache (Redis), a message broker (NATS) and a client for other
  services (aiohttp).  All paths below are under \<open>src/\<close> of the repository.

  \<^bold>\<open>How the program is modelled.\<close>  A method that reads or writes state is a function from the state to
  a result and the new state, \<open>('s, 'a) io\<close>: the result is the value or the exception it raises, and
  the state of the raise is kept (Prelude).  Exceptions are values (Errors).  Objects of the program
  are records, dictionaries are association lists in the order of insertion, and a record of functions
  stands for an object that is called through a protocol.  A method that reads the clock has the
  reading as an argument, a function \<open>ts\<close> when it reads more than once.

  \<^bold>\<open>What is a parameter.\<close>  The libraries are not part of the program: PyJWT, argon2, the Redis client, a
  session of SQLAlchemy, orjson, aiohttp, the JSON of Pydantic, the database behind a migration.  Each
  is a record of functions or a function argument, and what the program relies on is a locale with the
  documented laws; dishka's closing of a container and Starlette's CORS middleware are parameters, too.
  Every locale is interpreted on the program's own definitions over a small reference implementation of
  the library (a store, a relational database, a token format), so that all laws can hold together; the witnesses of the properties compute on these references.

  \<^bold>\<open>The theories.\<close>
  \<^item> \<open>Prelude\<close>: computations, dictionaries, strings (split, join, numbers) and their lemmas.
  \<^item> \<open>Errors\<close>: \<open>application/common/exceptions.py\<close>; the class of an error decides its status code.
  \<^item> \<open>Tools\<close>, \<open>Formatter\<close>: \<open>common/tools\<close>; the parser of format strings, the keys of a template.
  \<^item> \<open>Cache\<close>, \<open>Cache_Instances\<close>: the protocol \<open>StrCache\<close> with its contract \<open>str_cache_laws\<close>,
    \<open>RedisCache\<close> over the laws of the Redis commands (\<open>redis_laws\<close>), and the fake of the tests.
  \<^item> \<open>Fakes\<close>: the three doubles of the unit tests, and how far they stand for the program.
  \<^item> \<open>Cache_Clock\<close>: time in Redis (\<open>redis_clock\<close>): the life of a code and of a session.
  \<^item> \<open>Security\<close>, \<open>Security_Instances\<close>: the JWT and Argon2 adapters with \<open>jwt_laws\<close> and \<open>hasher_laws\<close>.
  \<^item> \<open>Auth_Service\<close>, \<open>Auth_Properties\<close>: \<open>application/v1/services/auth.py\<close>, the sessions of a user as a
    list in the cache; the locale \<open>auth_service\<close> joins the laws of the cache and of the tokens.
  \<^item> \<open>Concurrency\<close>: processes of atomic actions, schedules, the step relation \<open>par_step\<close> of a system of
    processes, and the lemmas on invariants, rounds and the first of several processes to succeed.
  \<^item> \<open>Session_Spec\<close>: an abstract register of sessions (a device, a token, and what a fingerprint with a
    separator leaves behind them), and that the service is one, whatever the fingerprints.
  \<^item> \<open>Session_Races\<close>, \<open>Request_Races\<close>: the methods of the authentication service, the confirmation and
    the rate limit as processes; that they are the methods (\<open>session_processes_refine\<close> and its like), and what
    holds and what does not when they are interleaved.
  \<^item> \<open>Command_Races\<close>: the same methods cut at the commands of Redis, and a simulation of processes
    (\<open>proc_sim\<close>) by which every interleaving of commands is one of calls.
  \<^item> \<open>Models\<close>, \<open>Database\<close>, \<open>Database_Laws\<close>, \<open>Database_Instances\<close>, \<open>Database_Properties\<close>:
    \<open>database/psql\<close>, the rows, the CRUD statements, the repositories, the transaction manager and the
    gateway.  The locale \<open>session_laws\<close> has three views of a session: what it sees, what is committed,
    and whether it is in a transaction.
  \<^item> \<open>Object_Graphs\<close>: \<open>Base.as_dict\<close> on objects that refer to each other, circularly too.
  \<^item> \<open>Use_Cases\<close>, \<open>Use_Case_Properties\<close>: the ten use cases of \<open>application/v1/usecases\<close> over a cache
    and a database; the locale \<open>app_laws\<close> joins all laws below.
  \<^item> \<open>Bus\<close>: the request bus and its wiring, the events, the event bus and the NATS brokers.
  \<^item> \<open>Http\<close>, \<open>Presentation\<close>, \<open>Presentation_Properties\<close>: \<open>presentation/http\<close>, the middlewares, the
    exception handlers, the guard \<open>Authorization\<close>, the contracts and the endpoints.
  \<^item> \<open>Dispatch\<close>, \<open>Dispatch_Properties\<close>: from a request to its endpoint, the route, the reading of body,
    query and path into the contracts, the guards, the call, and \<open>application\<close>, the whole behind the
    middlewares; the response models of the endpoints.
  \<^item> \<open>Account_Flow\<close>: four requests through the whole application, from a registration to its view.
  \<^item> \<open>Reachability\<close>, \<open>Reachability_Properties\<close>: an abstract machine of accounts (\<open>account_step\<close>), that
    every request is at most one of its steps, and the states a site can reach (\<open>reaches\<close>).
  \<^item> \<open>Site_Races\<close>, \<open>Site_Races_Properties\<close>: the whole site, from the route to the use case, as processes
    (\<open>dispatch_process\<close>, which alone is \<open>dispatch\<close>), and what every interleaving of requests and of
    expiring entries keeps: \<open>site_quiet\<close>, with any predicate the machine of accounts keeps.
  \<^item> \<open>Transactions\<close>: the database blocks of the use cases as trees of what they send to a session;
    alone on a session such a tree is the block of \<open>Use_Cases\<close> (\<open>run_block\<close>).  \<open>Transaction_Races\<close>: many
    blocks on one server (\<open>tx_step\<close>, the laws \<open>server_laws\<close>), and the machine in which each block is one
    action (\<open>serial_step\<close>).  \<open>Transaction_Order\<close>: a simulation of the first by the second
    (a page of users is two: its total and its rows).
    \<open>Transaction_Properties\<close>: the actions are what the blocks do alone, and what they do to the rows.
    \<open>Transaction_Server\<close>: the bound on statements, and the reference server with open
    transactions.  \<open>Transaction_Claims\<close>: the properties.
  \<^item> \<open>Rate_Limit\<close>, \<open>Rate_Limit_Properties\<close>: \<open>guards/rate_limit.py\<close>; the life of an entry is the step
    relation \<open>rl_run\<close> over the pure decision \<open>decide\<close>, which the guard on the cache refines; the life of
    a key in the cache under the calls of the guard is \<open>limit_run\<close>.
  \<^item> \<open>Response_Cache\<close>, \<open>Response_Cache_Properties\<close>: \<open>wrapper/cache.py\<close>, with the object all requests
    of a route share as part of the state.
  \<^item> \<open>Http_Client\<close>: \<open>infrastructure/http\<close>; the sessions of a provider are the step relation
    \<open>provider_step\<close>, with its reachable states.
  \<^item> \<open>Api_Client\<close>: the decoding of responses, the interface of a provider with its contract
    \<open>async_provider_laws\<close>, which the aiohttp provider keeps, and the client with its requests.
  \<^item> \<open>Http_Objects\<close>: the manager of middlewares as a sequence with indices and slices, the abstract
    classes, and the adapter of a response with \<open>client_response_laws\<close>.
  \<^item> \<open>Settings\<close>, \<open>Startup\<close>: \<open>settings/core.py\<close>, the entry points, the containers and the graph of the
    providers, the routes with their guards, the set-up of the logs.
  \<^item> \<open>Lifecycle\<close>: what the providers release when the container is closed, the start and the end of the
    three processes (\<open>entrypoints\<close>, \<open>tasks\<close>, \<open>consumers\<close>).
  \<^item> \<open>Migrations\<close>, \<open>Migration_Run\<close>: the two migrations, the schema of the models, the numbering of
    revisions; the offline and the online run of \<open>migrations/env.py\<close> with \<open>alembic_laws\<close>.

  \<^bold>\<open>How the parts meet.\<close>  \<open>application\<close> is the program as a client sees it: a request passes the
  middlewares (\<open>serve\<close>), \<open>dispatch\<close> finds its route, reads its input and asks the guards
  (\<open>authorization\<close>, which is the use case \<open>permission\<close>), and the endpoint builds a request of the
  application and sends it; the use case works on \<open>ctx\<close>, the state of the cache and of the database
  together, through the authentication service and a gateway, whose \<open>async with\<close> is \<open>with_database\<close>.
  The endpoints call the use cases directly: that the bus finds the right one, with the dependencies
  of the provider, is \<open>request_bus_wiring\<close>.  What FastAPI does between the parts is written at the
  definitions of \<open>Dispatch\<close>: whole segments match, the first route with path and method wins, a body
  that is no JSON is refused before the guards, and the errors of the input count after them.

  \<^bold>\<open>Concurrent requests.\<close>  The program awaits between its calls, so requests interleave there.  A
  \<open>proc\<close> is a method cut at these points: its actions are single calls of the cache, the making or
  reading of tokens, and a whole database block.  That a block may be taken as one action is shown
  below it: statement by statement, with what PostgreSQL promises under READ COMMITTED (a transaction
  sees what is committed and what it wrote, a statement waits for an open transaction that holds the
  login or the row), interleaved blocks are the same blocks one after the other
  (\<open>transactions_are_serialisable\<close>), and none waits for ever (\<open>transactions_never_deadlock\<close>).  The page
  of users is two actions there: it reads twice without a snapshot (\<open>page_and_total_differ\<close>).
  A call of the cache is taken as one action there; where \<open>RedisCache\<close> sends several commands for one
  call, \<open>Command_Races\<close> shows that finer interleavings give no other answers and leave no other data
  (the iteration of \<open>SCAN\<close> is one command).  In \<open>Site_Races\<close> whole requests are interleaved, so that
  others run between the check of a permission and what it permits.  The response cache shares an object between requests instead, and has its own
  step relation.

  \<^bold>\<open>What the lemmas show.\<close>  Of each component its contract: the sessions of a user stay bounded, a
  refresh token works once, a transaction is atomic, a use case does what it says on every branch and
  leaves the rest alone.  Of the whole: a registration that is confirmed can log in and is let in, seen from outside;
  permission is granted exactly to whom it should; at every guarded route a stranger is refused and the
  administration is closed to others; wrong input changes nothing; input and answers have the declared
  types; every request is answered (a CORS preflight by Starlette itself); no interleaving breaks the sessions or keeps a user from coming
  back; a confirmation code makes one account and lives ten minutes; in every state that requests can lead to,
  passwords are hashes, accounts persist, sessions are bounded and administrators come from
  administrators only (no request makes the first one: \<open>create_user\<close> is wired to the bus and to no
  route); but for the bound on the sessions, all this holds when requests are interleaved, too; the sessions are an abstract register, in which a dead token stays dead; the cache of the tests
  cannot be told from Redis while nothing expires (but by the existence of a list that was emptied), their
  tokens can be told from real ones; what a process made is released when it ends.  Some properties state what the program does where it does not do what it
  means to: a blocked user keeps refreshing (\<open>blocked_user\<close>), a fingerprint with the separator ends
  all sessions, the default settings issue no token, a null in an update is a server error, the
  response cache mixes up concurrent requests, stream events never reach JetStream, two refreshes at the
  same time both use one token, a burst passes the rate limit, a circular object has no dictionary,
  sessions never expire in the cache, a change of the proxy forgets the headers, a page of users can hold more
  users than its total.

  \<^bold>\<open>Bounds and fuel.\<close>  All recursions are structural or have a measure (the parser of format strings,
  by the length of the text).  \<open>resolvable\<close> has a depth: the number of the factories is enough, for a
  chain of needs that is longer repeats one.  The depth of \<open>graph_as_dict\<close> is the stack: as many frames as
  objects are enough when any number is, and otherwise the program itself does not return
  (\<open>as_dict_terminates\<close>).  An interleaving of database blocks has at most eight statements for each.
  Integers of Python are unbounded, as are those of HOL; times are microseconds for tokens and whole seconds for the rate limit, as in the code.

  \<^bold>\<open>What is left out.\<close>  The libraries themselves; the serving of servers, consumers and tasks; what
  FastAPI and Pydantic do beyond the declared fields and limits (the conversion of single values and
  the texts of their errors are parameters, as is the answer when no route matches); the OpenAPI
  document; streaming bodies; the binary encoding of messages; in \<open>reaches\<close>, requests are served one
  after the other; the serialisability of the blocks is shown beside \<open>Site_Races\<close> and is not composed
  with the commands of the cache into one machine of statements.  Protocols without code, re-exports and loggers have nothing to model.
\<close>

end
